(* ===== verification/Prelude.thy ===== *)
theory Prelude
  imports Complex_Main
begin

section \<open>Prelude: numbers, options, effects and the simulation of external services\<close>

text \<open>
  What the components share.

  \<^item> JavaScript numbers (\<open>jsnum\<close>): the validators of the packages tell finite numbers from
    infinities and NaN, so these are constructors; a finite number is a real. Rounding of
    floating-point arithmetic is not modelled: a sum or a quotient is the real one.
  \<^item> \<open>eff\<close>: an asynchronous TypeScript method is a function of the state that returns a result or
    an exception together with the new state (\<open>ret\<close>, \<open>raise\<close>, \<open>bindS\<close>, \<open>catchS\<close>, \<open>finallyS\<close>,
    and \<open>allS\<close> for \<open>Promise.all\<close>).
  \<^item> \<open>sim\<close>: the relation between an operation of an arbitrary external service (Redis, BullMQ,
    PostgreSQL through Prisma) and the operation its documentation describes on a concrete
    view of the service's state. It is closed under the combinators, so a handler written over
    an unknown service simulates the same handler over the documented one.
\<close>

named_theorems sim_rules \<open>introduction rules that prove a handler simulates its documented run\<close>
named_theorems keep_rules \<open>introduction rules that prove an effect keeps an invariant\<close>
named_theorems eff_simps \<open>equations that run the effect combinators\<close>

subsection \<open>JavaScript numbers\<close>

datatype jsnum = Fin real | PosInf | NegInf | NaN

fun isFinite :: "jsnum \<Rightarrow> bool" where
  "isFinite (Fin _) = True"
| "isFinite _ = False"

fun isInteger :: "jsnum \<Rightarrow> bool" where
  "isInteger (Fin r) = (r = of_int \<lfloor>r\<rfloor>)"
| "isInteger _ = False"

text \<open>The comparisons of JavaScript: any comparison with NaN is false.\<close>

fun js_less :: "jsnum \<Rightarrow> jsnum \<Rightarrow> bool" where
  "js_less (Fin a) (Fin b) = (a < b)"
| "js_less (Fin _) PosInf = True"
| "js_less NegInf (Fin _) = True"
| "js_less NegInf PosInf = True"
| "js_less _ _ = False"

fun js_le :: "jsnum \<Rightarrow> jsnum \<Rightarrow> bool" where
  "js_le (Fin a) (Fin b) = (a \<le> b)"
| "js_le NegInf y = (y \<noteq> NaN)"
| "js_le x PosInf = (x \<noteq> NaN)"
| "js_le _ _ = False"

text \<open>The value of a number the code has already checked to be finite.\<close>

fun js_real :: "jsnum \<Rightarrow> real" where
  "js_real (Fin r) = r"
| "js_real _ = 0"

text \<open>\<open>Math.round\<close>: the nearest integer, halves towards plus infinity.\<close>

definition math_round :: "real \<Rightarrow> int" where
  "math_round x = \<lfloor>x + 1 / 2\<rfloor>"

lemma isFinite_iff: "isFinite x \<longleftrightarrow> (\<exists>r. x = Fin r)"
  by (cases x) auto

lemma isInteger_of_int [simp]: "isInteger (Fin (of_int i))"
  by simp

lemma isInteger_isFinite: "isInteger x \<Longrightarrow> isFinite x"
  by (cases x) auto

lemma isInteger_iff: "isInteger x \<longleftrightarrow> (\<exists>i. x = Fin (of_int i))"
proof (cases x)
  case (Fin r)
  then show ?thesis by (metis floor_of_int isInteger.simps(1) jsnum.inject)
qed auto

lemma math_round_of_int [simp]: "math_round (of_int i) = i"
  unfolding math_round_def by linarith

lemma math_round_mono: "x \<le> y \<Longrightarrow> math_round x \<le> math_round y"
  unfolding math_round_def by (simp add: floor_mono)

lemma math_round_bounds: "of_int a \<le> x \<Longrightarrow> x \<le> of_int b \<Longrightarrow> a \<le> math_round x \<and> math_round x \<le> b"
  using math_round_mono [of "of_int a" x] math_round_mono [of x "of_int b"] by simp

lemma math_round_minus: "math_round (- x) = - math_round x \<or> math_round (- x) = - math_round x + 1"
  unfolding math_round_def by linarith

subsection \<open>Optional values\<close>

text \<open>
  \<open>string | null | undefined\<close> in a condition: absent and empty strings are both false.
\<close>

fun truthy :: "string option \<Rightarrow> bool" where
  "truthy None = False"
| "truthy (Some s) = (s \<noteq> [])"

lemma truthy_iff: "truthy x \<longleftrightarrow> (\<exists>s. x = Some s \<and> s \<noteq> [])"
  by (cases x) auto

text \<open>
  \<open>trim\<close> and \<open>toLowerCase\<close> on ASCII strings; setting bit 5 of an upper-case letter adds 32.
\<close>

definition toLowerCase_char :: "char \<Rightarrow> char" where
  "toLowerCase_char c =
     (if of_char c \<in> {65..90::nat}
      then (case c of Char b0 b1 b2 b3 b4 _ b6 b7 \<Rightarrow> Char b0 b1 b2 b3 b4 True b6 b7)
      else c)"

definition toLowerCase :: "string \<Rightarrow> string" where
  "toLowerCase s = map toLowerCase_char s"

definition is_space :: "char \<Rightarrow> bool" where
  "is_space c \<longleftrightarrow> of_char c \<in> {9, 10, 11, 12, 13, 32 :: nat}"

definition trim :: "string \<Rightarrow> string" where
  "trim s = rev (dropWhile is_space (rev (dropWhile is_space s)))"

subsection \<open>Decimal numbers\<close>

text \<open>\<open>String(n)\<close> and \<open>Number.parseInt(s, 10)\<close>; \<open>None\<close> is NaN.\<close>

definition digit_char :: "nat \<Rightarrow> char" where
  "digit_char d = char_of (48 + d)"

definition char_digit :: "char \<Rightarrow> nat option" where
  "char_digit c = (let n = of_char c :: nat in if 48 \<le> n \<and> n \<le> 57 then Some (n - 48) else None)"

fun show_nat :: "nat \<Rightarrow> string" where
  "show_nat n = (if n < 10 then [digit_char n] else show_nat (n div 10) @ [digit_char (n mod 10)])"

declare show_nat.simps [simp del]

definition show_int :: "int \<Rightarrow> string" where
  "show_int i = (if i < 0 then ''-'' @ show_nat (nat (- i)) else show_nat (nat i))"

fun parse_digits :: "nat option \<Rightarrow> string \<Rightarrow> nat option" where
  "parse_digits acc [] = acc"
| "parse_digits acc (c # cs) =
     (case char_digit c of
        None \<Rightarrow> acc
      | Some d \<Rightarrow> parse_digits (Some ((case acc of None \<Rightarrow> 0 | Some a \<Rightarrow> a) * 10 + d)) cs)"

definition parse_int :: "string \<Rightarrow> int option" where
  "parse_int s =
     (case dropWhile is_space s of
        [] \<Rightarrow> None
      | c # cs \<Rightarrow>
          if c = CHR ''-'' then map_option (\<lambda>n. - int n) (parse_digits None cs)
          else if c = CHR ''+'' then map_option int (parse_digits None cs)
          else map_option int (parse_digits None (c # cs)))"

lemma char_digit_digit_char [simp]: "d < 10 \<Longrightarrow> char_digit (digit_char d) = Some d"
  by (simp add: char_digit_def digit_char_def Let_def)

lemma parse_digits_append:
  "\<forall>c \<in> set s. char_digit c \<noteq> None \<Longrightarrow> parse_digits acc (s @ t) = parse_digits (parse_digits acc s) t"
  by (induction acc s rule: parse_digits.induct) auto

lemma show_nat_digits: "c \<in> set (show_nat n) \<Longrightarrow> \<exists>d<10. c = digit_char d"
proof (induction n rule: show_nat.induct)
  case (1 n)
  show ?case
  proof (cases "n < 10")
    case True
    with 1(2) show ?thesis by (auto simp: show_nat.simps [of n])
  next
    case False
    then have "c \<in> set (show_nat (n div 10)) \<or> c = digit_char (n mod 10)"
      using 1(2) by (auto simp: show_nat.simps [of n])
    with 1(1) False show ?thesis by force
  qed
qed

lemma show_nat_not_Nil [simp]: "show_nat n \<noteq> []"
  by (subst show_nat.simps) simp

lemma parse_digits_show_nat: "parse_digits None (show_nat n) = Some n"
proof (induction n rule: show_nat.induct)
  case (1 n)
  show ?case
  proof (cases "n < 10")
    case True
    then show ?thesis by (simp add: show_nat.simps [of n])
  next
    case False
    have digits: "\<forall>c \<in> set (show_nat (n div 10)). char_digit c \<noteq> None"
      by (auto dest: show_nat_digits)
    from False have "show_nat n = show_nat (n div 10) @ [digit_char (n mod 10)]"
      by (simp add: show_nat.simps [of n])
    with parse_digits_append [OF digits] 1 False show ?thesis by simp
  qed
qed

lemma digit_char_neq: "d < 10 \<Longrightarrow> \<not> is_space (digit_char d) \<and> digit_char d \<noteq> CHR ''-'' \<and> digit_char d \<noteq> CHR ''+''"
proof -
  assume d: "d < 10"
  then have "(of_char (digit_char d) :: nat) = 48 + d" by (simp add: digit_char_def)
  with d show ?thesis by (auto simp: is_space_def)
qed

lemma parse_int_show_int [simp]: "parse_int (show_int i) = Some i"
proof (cases "i < 0")
  case True
  then show ?thesis by (simp add: show_int_def parse_int_def is_space_def parse_digits_show_nat)
next
  case False
  obtain c cs where c: "show_nat (nat i) = c # cs" by (cases "show_nat (nat i)") auto
  then obtain d where "d < 10" "c = digit_char d" using show_nat_digits [of c "nat i"] by auto
  then have "\<not> is_space c" "c \<noteq> CHR ''-''" "c \<noteq> CHR ''+''" by (auto dest: digit_char_neq)
  with False c show ?thesis
    using parse_digits_show_nat [of "nat i"] by (simp add: show_int_def parse_int_def)
qed

lemma show_int_not_Nil [simp]: "show_int i \<noteq> []"
  by (simp add: show_int_def)

text \<open>Searching a list whose keys are distinct.\<close>

lemma find_distinct_key:
  "distinct (map f xs) \<Longrightarrow> find (\<lambda>x. f x = k) xs = Some y \<longleftrightarrow> y \<in> set xs \<and> f y = k"
  by (induction xs) auto

subsection \<open>Effects\<close>

type_synonym ('s, 'e, 'a) eff = "'s \<Rightarrow> ('e + 'a) \<times> 's"

definition ret :: "'a \<Rightarrow> ('s, 'e, 'a) eff" where
  "ret a = (\<lambda>s. (Inr a, s))"

definition raise :: "'e \<Rightarrow> ('s, 'e, 'a) eff" where
  "raise e = (\<lambda>s. (Inl e, s))"

definition bindS :: "('s, 'e, 'a) eff \<Rightarrow> ('a \<Rightarrow> ('s, 'e, 'b) eff) \<Rightarrow> ('s, 'e, 'b) eff" where
  "bindS m f = (\<lambda>s. case m s of (Inl e, s') \<Rightarrow> (Inl e, s') | (Inr a, s') \<Rightarrow> f a s')"

text \<open>\<open>m; k\<close>: the result of \<open>m\<close> is not used.\<close>

definition thenS :: "('s, 'e, 'a) eff \<Rightarrow> ('s, 'e, 'b) eff \<Rightarrow> ('s, 'e, 'b) eff" where
  "thenS m k = bindS m (\<lambda>_. k)"

text \<open>\<open>try { m } catch (e) { h e }\<close>\<close>

definition catchS :: "('s, 'e, 'a) eff \<Rightarrow> ('e \<Rightarrow> ('s, 'e, 'a) eff) \<Rightarrow> ('s, 'e, 'a) eff" where
  "catchS m h = (\<lambda>s. case m s of (Inl e, s') \<Rightarrow> h e s' | (Inr a, s') \<Rightarrow> (Inr a, s'))"

text \<open>
  \<open>try { m } finally { f }\<close>: \<open>f\<close> always runs; its own exception replaces the outcome of \<open>m\<close>.
\<close>

definition finallyS :: "('s, 'e, 'a) eff \<Rightarrow> ('s, 'e, 'b) eff \<Rightarrow> ('s, 'e, 'a) eff" where
  "finallyS m f = (\<lambda>s. case m s of (r, s') \<Rightarrow>
     (case f s' of (Inl e, s'') \<Rightarrow> (Inl e, s'') | (Inr _, s'') \<Rightarrow> (r, s'')))"

text \<open>
  \<open>Promise.all\<close>: every operation is started before the first rejection is seen, so all of them
  run, in the order of the list; the result is the first rejection, if any.
\<close>

fun allS :: "('s, 'e, 'a) eff list \<Rightarrow> ('s, 'e, 'a list) eff" where
  "allS [] = ret []"
| "allS (m # ms) = (\<lambda>s. case m s of (r, s') \<Rightarrow> (case allS ms s' of (rs, s'') \<Rightarrow>
     (case r of
        Inl e \<Rightarrow> (Inl e, s'')
      | Inr a \<Rightarrow> (case rs of Inl e \<Rightarrow> (Inl e, s'') | Inr as \<Rightarrow> (Inr (a # as), s'')))))"

text \<open>\<open>for (const x of xs) await body x\<close>: stops at the first exception.\<close>

fun forS :: "'x list \<Rightarrow> ('x \<Rightarrow> ('s, 'e, unit) eff) \<Rightarrow> ('s, 'e, unit) eff" where
  "forS [] body = ret ()"
| "forS (x # xs) body = bindS (body x) (\<lambda>_. forS xs body)"

text \<open>A pure computation that may throw.\<close>

definition liftS :: "'e + 'a \<Rightarrow> ('s, 'e, 'a) eff" where
  "liftS r = (case r of Inl e \<Rightarrow> raise e | Inr a \<Rightarrow> ret a)"

lemma ret_apply [eff_simps]: "ret a s = (Inr a, s)"
  by (simp add: ret_def)

lemma raise_apply [eff_simps]: "raise e s = (Inl e, s)"
  by (simp add: raise_def)

lemma bindS_apply [eff_simps]:
  "bindS m f s = (case m s of (Inl e, s') \<Rightarrow> (Inl e, s') | (Inr a, s') \<Rightarrow> f a s')"
  by (simp add: bindS_def)

lemma thenS_apply [eff_simps]:
  "thenS m k s = (case m s of (Inl e, s') \<Rightarrow> (Inl e, s') | (Inr a, s') \<Rightarrow> k s')"
  by (simp add: thenS_def bindS_def)

lemma catchS_apply [eff_simps]:
  "catchS m h s = (case m s of (Inl e, s') \<Rightarrow> h e s' | (Inr a, s') \<Rightarrow> (Inr a, s'))"
  by (simp add: catchS_def)

lemma finallyS_apply [eff_simps]:
  "finallyS m f s = (case m s of (r, s') \<Rightarrow>
     (case f s' of (Inl e, s'') \<Rightarrow> (Inl e, s'') | (Inr _, s'') \<Rightarrow> (r, s'')))"
  by (simp add: finallyS_def)

lemma liftS_apply [eff_simps]: "liftS r s = (case r of Inl e \<Rightarrow> (Inl e, s) | Inr a \<Rightarrow> (Inr a, s))"
  by (simp add: liftS_def ret_def raise_def split: sum.splits)

lemmas allS_apply [eff_simps] = allS.simps

subsection \<open>Simulation of an external service by its documented behaviour\<close>

text \<open>
  \<open>sim view m m'\<close>: on every state of the real service, \<open>m\<close> returns what \<open>m'\<close> returns on the
  view of that state, and leaves a state whose view is the one \<open>m'\<close> leaves.
\<close>

definition sim :: "('s \<Rightarrow> 'w) \<Rightarrow> ('s, 'e, 'a) eff \<Rightarrow> ('w, 'e, 'a) eff \<Rightarrow> bool" where
  "sim view m m' \<longleftrightarrow> (\<forall>s. m' (view s) = (fst (m s), view (snd (m s))))"

lemma simD: "sim view m m' \<Longrightarrow> m' (view s) = (fst (m s), view (snd (m s)))"
  by (simp add: sim_def)

lemma sim_result: "sim view m m' \<Longrightarrow> fst (m s) = fst (m' (view s))"
  by (simp add: sim_def)

lemma sim_state: "sim view m m' \<Longrightarrow> view (snd (m s)) = snd (m' (view s))"
  by (simp add: sim_def)

lemma sim_run: "sim view m m' \<Longrightarrow> m' (view s) = (r, w') \<Longrightarrow> fst (m s) = r \<and> view (snd (m s)) = w'"
  by (simp add: sim_def)

lemma sim_refl: "sim (\<lambda>w. w) m m"
  by (simp add: sim_def)

lemma sim_ret [sim_rules]: "sim view (ret a) (ret a)"
  by (simp add: sim_def ret_def)

lemma sim_raise [sim_rules]: "sim view (raise e) (raise e)"
  by (simp add: sim_def raise_def)

lemma sim_liftS [sim_rules]: "sim view (liftS r) (liftS r)"
  by (simp add: sim_def liftS_apply split: sum.splits)

lemma sim_bindS [sim_rules]:
  assumes "sim view m m'" and "\<And>a. sim view (f a) (f' a)"
  shows "sim view (bindS m f) (bindS m' f')"
  using assms by (auto simp: sim_def bindS_def split: prod.splits sum.splits)

lemma sim_thenS [sim_rules]:
  assumes "sim view m m'" and "sim view k k'"
  shows "sim view (thenS m k) (thenS m' k')"
  unfolding thenS_def using assms by (intro sim_bindS)

lemma sim_catchS [sim_rules]:
  assumes "sim view m m'" and "\<And>e. sim view (h e) (h' e)"
  shows "sim view (catchS m h) (catchS m' h')"
  using assms by (auto simp: sim_def catchS_def split: prod.splits sum.splits)

lemma sim_finallyS [sim_rules]:
  assumes "sim view m m'" and "sim view f f'"
  shows "sim view (finallyS m f) (finallyS m' f')"
  using assms by (fastforce simp: sim_def finallyS_def split: prod.splits sum.splits)

lemma sim_allS_Nil [sim_rules]: "sim view (allS []) (allS [])"
  by (simp add: sim_ret)

lemma sim_allS_Cons [sim_rules]:
  assumes "sim view m m'" and "sim view (allS ms) (allS ms')"
  shows "sim view (allS (m # ms)) (allS (m' # ms'))"
  using assms by (auto simp: sim_def split: prod.splits sum.splits)

lemma sim_allS_map [sim_rules]:
  assumes "\<And>x. sim view (f x) (f' x)"
  shows "sim view (allS (map f xs)) (allS (map f' xs))"
  by (induction xs) (simp_all add: sim_ret sim_allS_Cons assms del: allS.simps(2))

lemma sim_forS [sim_rules]:
  assumes "\<And>x. sim view (f x) (f' x)"
  shows "sim view (forS xs f) (forS xs f')"
  by (induction xs) (simp_all add: sim_ret sim_bindS assms)

lemma sim_if [sim_rules]:
  assumes "b \<Longrightarrow> sim view m m'" and "\<not> b \<Longrightarrow> sim view k k'"
  shows "sim view (if b then m else k) (if b then m' else k')"
  using assms by simp

lemma sim_case_option [sim_rules]:
  assumes "x = None \<Longrightarrow> sim view m m'" and "\<And>a. x = Some a \<Longrightarrow> sim view (f a) (f' a)"
  shows "sim view (case x of None \<Rightarrow> m | Some a \<Rightarrow> f a) (case x of None \<Rightarrow> m' | Some a \<Rightarrow> f' a)"
  using assms by (cases x) simp_all

lemma sim_case_prod [sim_rules]:
  assumes "\<And>a b. x = (a, b) \<Longrightarrow> sim view (f a b) (f' a b)"
  shows "sim view (case x of (a, b) \<Rightarrow> f a b) (case x of (a, b) \<Rightarrow> f' a b)"
  using assms by (cases x) simp

lemma sim_case_sum [sim_rules]:
  assumes "\<And>a. x = Inl a \<Longrightarrow> sim view (f a) (f' a)" and "\<And>b. x = Inr b \<Longrightarrow> sim view (g b) (g' b)"
  shows "sim view (case x of Inl a \<Rightarrow> f a | Inr b \<Rightarrow> g b) (case x of Inl a \<Rightarrow> f' a | Inr b \<Rightarrow> g' b)"
  using assms by (cases x) simp_all

subsection \<open>Invariants of effects\<close>

text \<open>
  \<open>keeps P m Q\<close>: whether it returns or throws, \<open>m\<close> keeps \<open>P\<close>, and a value it returns satisfies
  \<open>Q\<close>.
\<close>

definition keeps :: "('s \<Rightarrow> bool) \<Rightarrow> ('s, 'e, 'a) eff \<Rightarrow> ('a \<Rightarrow> bool) \<Rightarrow> bool" where
  "keeps P m Q \<longleftrightarrow> (\<forall>s. P s \<longrightarrow> P (snd (m s)) \<and> (\<forall>a. fst (m s) = Inr a \<longrightarrow> Q a))"

abbreviation preserves :: "('s \<Rightarrow> bool) \<Rightarrow> ('s, 'e, 'a) eff \<Rightarrow> bool" where
  "preserves P m \<equiv> keeps P m (\<lambda>_. True)"

lemma keepsD: "keeps P m Q \<Longrightarrow> P s \<Longrightarrow> P (snd (m s))"
  by (simp add: keeps_def)

lemma keeps_result: "keeps P m Q \<Longrightarrow> P s \<Longrightarrow> fst (m s) = Inr a \<Longrightarrow> Q a"
  by (simp add: keeps_def)

lemma keeps_weaken: "keeps P m Q \<Longrightarrow> preserves P m"
  by (simp add: keeps_def)

lemma keeps_ret [keep_rules]: "Q a \<Longrightarrow> keeps P (ret a) Q"
  by (simp add: keeps_def ret_def)

lemma keeps_raise [keep_rules]: "keeps P (raise e) Q"
  by (simp add: keeps_def raise_def)

lemma keeps_liftS [keep_rules]: "(\<And>a. r = Inr a \<Longrightarrow> Q a) \<Longrightarrow> keeps P (liftS r) Q"
  by (simp add: keeps_def liftS_apply split: sum.splits)

lemma keeps_bindS [keep_rules]:
  assumes "keeps P m R" and "\<And>a. R a \<Longrightarrow> keeps P (f a) Q"
  shows "keeps P (bindS m f) Q"
  using assms by (fastforce simp: keeps_def bindS_def split: prod.splits sum.splits)

lemma keeps_thenS [keep_rules]:
  assumes "preserves P m" and "keeps P k Q"
  shows "keeps P (thenS m k) Q"
  unfolding thenS_def using assms by (intro keeps_bindS)

lemma keeps_catchS [keep_rules]:
  assumes "keeps P m Q" and "\<And>e. keeps P (h e) Q"
  shows "keeps P (catchS m h) Q"
  using assms by (fastforce simp: keeps_def catchS_def split: prod.splits sum.splits)

lemma keeps_finallyS [keep_rules]:
  assumes "keeps P m Q" and "preserves P f"
  shows "keeps P (finallyS m f) Q"
  using assms by (fastforce simp: keeps_def finallyS_def split: prod.splits sum.splits)

lemma keeps_allS_Nil [keep_rules]: "preserves P (allS [])"
  by (simp add: keeps_ret)

lemma keeps_allS_Cons [keep_rules]:
  assumes "preserves P m" and "preserves P (allS ms)"
  shows "preserves P (allS (m # ms))"
  using assms by (fastforce simp: keeps_def split: prod.splits sum.splits)

lemma keeps_allS_map [keep_rules]: "(\<And>x. preserves P (f x)) \<Longrightarrow> preserves P (allS (map f xs))"
  by (induction xs) (simp_all add: keeps_ret keeps_allS_Cons del: allS.simps(2))

lemma keeps_forS [keep_rules]: "(\<And>x. preserves P (f x)) \<Longrightarrow> preserves P (forS xs f)"
  by (induction xs) (auto intro!: keeps_ret keeps_bindS [where R = "\<lambda>_. True"])

lemma keeps_if [keep_rules]:
  "(b \<Longrightarrow> keeps P m Q) \<Longrightarrow> (\<not> b \<Longrightarrow> keeps P k Q) \<Longrightarrow> keeps P (if b then m else k) Q"
  by simp

lemma keeps_case_option [keep_rules]:
  "(x = None \<Longrightarrow> keeps P m Q) \<Longrightarrow> (\<And>a. x = Some a \<Longrightarrow> keeps P (f a) Q) \<Longrightarrow>
   keeps P (case x of None \<Rightarrow> m | Some a \<Rightarrow> f a) Q"
  by (cases x) simp_all

lemma keeps_case_prod [keep_rules]:
  "(\<And>a b. x = (a, b) \<Longrightarrow> keeps P (f a b) Q) \<Longrightarrow> keeps P (case x of (a, b) \<Rightarrow> f a b) Q"
  by (cases x) simp

lemma keeps_case_sum [keep_rules]:
  "(\<And>a. x = Inl a \<Longrightarrow> keeps P (f a) Q) \<Longrightarrow> (\<And>b. x = Inr b \<Longrightarrow> keeps P (g b) Q) \<Longrightarrow>
   keeps P (case x of Inl a \<Rightarrow> f a | Inr b \<Rightarrow> g b) Q"
  by (cases x) simp_all

end
