(* ===== verification/Redis_Store.thy ===== *)
theory Redis_Store
  imports Prelude "HOL-Library.Product_Lexorder" "HOL-Library.List_Lexorder" "HOL-Library.Char_ord"
begin

section \<open>The key space of Redis, and locks\<close>

text \<open>
  Every service talks to Redis through a client library. This theory states what the documentation
  of Redis says of the commands the services use, on a record of the key space: values with their
  expiry, sorted sets and hashes. It also holds the contract of a lock, as a locale over an
  acquire and a release operation, and the pattern \<open>acquire; try body finally release\<close> that three
  services write around their critical sections.
\<close>

type_synonym time = int

datatype redis_error = RedisUnavailable | RedisWrongType | RedisNotAnInteger

subsection \<open>The key space of Redis\<close>

text \<open>A stored text is a string, or the JSON of a value of type \<open>'j\<close>.\<close>

datatype 'j stored = Txt string | Json 'j

fun truthy_stored :: "'j stored option \<Rightarrow> bool" where
  "truthy_stored None = False"
| "truthy_stored (Some (Txt s)) = (s \<noteq> [])"
| "truthy_stored (Some (Json _)) = True"

datatype 'j rvalue =
  RStr "'j stored"
| RZset "(string \<times> int) list"
| RHash "(string \<times> string) list"

record 'j redis =
  rd_now :: time
  rd_keys :: "string \<Rightarrow> ('j rvalue \<times> time option) option"

definition expired :: "time \<Rightarrow> time option \<Rightarrow> bool" where
  "expired now e = (case e of None \<Rightarrow> False | Some t \<Rightarrow> t \<le> now)"

definition look :: "'j redis \<Rightarrow> string \<Rightarrow> 'j rvalue option" where
  "look d k = (case rd_keys d k of None \<Rightarrow> None | Some (v, e) \<Rightarrow> if expired (rd_now d) e then None else Some v)"

definition put :: "string \<Rightarrow> 'j rvalue \<Rightarrow> time option \<Rightarrow> 'j redis \<Rightarrow> 'j redis" where
  "put k v e d = d\<lparr>rd_keys := (rd_keys d)(k \<mapsto> (v, e))\<rparr>"

definition unset :: "string \<Rightarrow> 'j redis \<Rightarrow> 'j redis" where
  "unset k d = d\<lparr>rd_keys := (rd_keys d)(k := None)\<rparr>"

text \<open>Writing a value into a key that keeps its expiry.\<close>

definition ttl_of :: "'j redis \<Rightarrow> string \<Rightarrow> time option" where
  "ttl_of d k = (case rd_keys d k of None \<Rightarrow> None | Some (v, e) \<Rightarrow> if expired (rd_now d) e then None else e)"

definition upd :: "string \<Rightarrow> 'j rvalue \<Rightarrow> 'j redis \<Rightarrow> 'j redis" where
  "upd k v d = put k v (ttl_of d k) d"

definition expiry :: "'j redis \<Rightarrow> nat \<Rightarrow> time option" where
  "expiry d ttlSeconds = Some (rd_now d + 1000 * int ttlSeconds)"

lemma rd_now_simps [simp]:
  "rd_now (put k v e d) = rd_now d" "rd_now (unset k d) = rd_now d" "rd_now (upd k v d) = rd_now d"
  by (simp_all add: put_def unset_def upd_def)

lemma look_put [simp]:
  "look (put k v e d) k' = (if k' = k then (if expired (rd_now d) e then None else Some v) else look d k')"
  by (simp add: look_def put_def split: option.split prod.split)

lemma look_unset [simp]: "look (unset k d) k' = (if k' = k then None else look d k')"
  by (simp add: look_def unset_def split: option.split prod.split)

lemma look_upd [simp]: "look (upd k v d) k' = (if k' = k then Some v else look d k')"
  by (simp add: upd_def ttl_of_def expired_def split: option.split prod.split)

lemma expired_expiry [simp]: "0 < n \<Longrightarrow> \<not> expired (rd_now d) (expiry d n)"
  by (simp add: expired_def expiry_def)

lemma unset_put [simp]: "unset k (put k v e d) = unset k d"
  by (simp add: unset_def put_def)

lemma unset_put_other: "k \<noteq> k' \<Longrightarrow> unset k (put k' v e d) = put k' v e (unset k d)"
  by (simp add: unset_def put_def fun_upd_twist)

lemma expiry_simps [simp]: "expiry (put k v e d) n = expiry d n" "expiry (unset k d) n = expiry d n"
  by (simp_all add: expiry_def)

subsection \<open>Commands\<close>

definition zset_of :: "'j rvalue option \<Rightarrow> redis_error + (string \<times> int) list" where
  "zset_of v = (case v of None \<Rightarrow> Inr [] | Some (RZset z) \<Rightarrow> Inr z | _ \<Rightarrow> Inl RedisWrongType)"

definition hash_of :: "'j rvalue option \<Rightarrow> redis_error + (string \<times> string) list" where
  "hash_of v = (case v of None \<Rightarrow> Inr [] | Some (RHash h) \<Rightarrow> Inr h | _ \<Rightarrow> Inl RedisWrongType)"

definition zput :: "string \<Rightarrow> int \<Rightarrow> (string \<times> int) list \<Rightarrow> (string \<times> int) list" where
  "zput m sc z = (m, sc) # filter (\<lambda>p. fst p \<noteq> m) z"

definition zdrop :: "string \<Rightarrow> (string \<times> int) list \<Rightarrow> (string \<times> int) list" where
  "zdrop m z = filter (\<lambda>p. fst p \<noteq> m) z"

text \<open>A sorted set is read by score, then by member; an empty one does not exist.\<close>

definition by_score :: "(string \<times> int) list \<Rightarrow> (string \<times> int) list" where
  "by_score z = map (\<lambda>(sc, m). (m, sc)) (sort (map (\<lambda>(m, sc). (sc, m)) z))"

definition zstore :: "string \<Rightarrow> (string \<times> int) list \<Rightarrow> 'j redis \<Rightarrow> 'j redis" where
  "zstore k z d = (if z = [] then unset k d else upd k (RZset z) d)"

definition do_get :: "string \<Rightarrow> 'j redis \<Rightarrow> (redis_error + 'j stored option) \<times> 'j redis" where
  "do_get k d = (case look d k of
      None \<Rightarrow> Inr None | Some (RStr t) \<Rightarrow> Inr (Some t) | _ \<Rightarrow> Inl RedisWrongType, d)"

definition do_set :: "string \<Rightarrow> 'j stored \<Rightarrow> nat \<Rightarrow> 'j redis \<Rightarrow> (redis_error + unit) \<times> 'j redis" where
  "do_set k v ttl d = (Inr (), put k (RStr v) (expiry d ttl) d)"

definition do_set_nx :: "string \<Rightarrow> 'j stored \<Rightarrow> nat \<Rightarrow> 'j redis \<Rightarrow> (redis_error + bool) \<times> 'j redis" where
  "do_set_nx k v ttl d =
     (if look d k = None then (Inr True, put k (RStr v) (expiry d ttl) d) else (Inr False, d))"

definition do_del :: "string \<Rightarrow> 'j redis \<Rightarrow> (redis_error + nat) \<times> 'j redis" where
  "do_del k d = (Inr (if look d k = None then 0 else 1), unset k d)"

definition do_hset :: "string \<Rightarrow> (string \<times> string) list \<Rightarrow> 'j redis \<Rightarrow> (redis_error + unit) \<times> 'j redis" where
  "do_hset k vs d = (case hash_of (look d k) of Inl e \<Rightarrow> (Inl e, d)
     | Inr h \<Rightarrow> (Inr (), upd k (RHash (vs @ filter (\<lambda>p. fst p \<notin> fst ` set vs) h)) d))"

definition do_hgetall :: "string \<Rightarrow> 'j redis \<Rightarrow> (redis_error + (string \<times> string) list) \<times> 'j redis" where
  "do_hgetall k d = (hash_of (look d k), d)"

definition do_zadd :: "string \<Rightarrow> int \<Rightarrow> string \<Rightarrow> 'j redis \<Rightarrow> (redis_error + unit) \<times> 'j redis" where
  "do_zadd k sc m d = (case zset_of (look d k) of Inl e \<Rightarrow> (Inl e, d)
     | Inr z \<Rightarrow> (Inr (), zstore k (zput m sc z) d))"

definition do_zrem :: "string \<Rightarrow> string \<Rightarrow> 'j redis \<Rightarrow> (redis_error + nat) \<times> 'j redis" where
  "do_zrem k m d = (case zset_of (look d k) of Inl e \<Rightarrow> (Inl e, d)
     | Inr z \<Rightarrow> (Inr (if map_of z m = None then 0 else 1), zstore k (zdrop m z) d))"

definition do_zcard :: "string \<Rightarrow> 'j redis \<Rightarrow> (redis_error + nat) \<times> 'j redis" where
  "do_zcard k d = (case zset_of (look d k) of Inl e \<Rightarrow> Inl e | Inr z \<Rightarrow> Inr (length z), d)"

definition do_zscore :: "string \<Rightarrow> string \<Rightarrow> 'j redis \<Rightarrow> (redis_error + int option) \<times> 'j redis" where
  "do_zscore k m d = (case zset_of (look d k) of Inl e \<Rightarrow> Inl e | Inr z \<Rightarrow> Inr (map_of z m), d)"

definition do_zrange :: "string \<Rightarrow> 'j redis \<Rightarrow> (redis_error + (string \<times> int) list) \<times> 'j redis" where
  "do_zrange k d = (case zset_of (look d k) of Inl e \<Rightarrow> Inl e | Inr z \<Rightarrow> Inr (by_score z), d)"

definition do_incr :: "string \<Rightarrow> 'j redis \<Rightarrow> (redis_error + int) \<times> 'j redis" where
  "do_incr k d =
     (case look d k of
        None \<Rightarrow> (Inr 1, upd k (RStr (Txt (show_int 1))) d)
      | Some (RStr (Txt t)) \<Rightarrow>
          (case parse_int t of None \<Rightarrow> (Inl RedisNotAnInteger, d)
             | Some n \<Rightarrow> (Inr (n + 1), upd k (RStr (Txt (show_int (n + 1)))) d))
      | _ \<Rightarrow> (Inl RedisWrongType, d))"

definition do_expire :: "string \<Rightarrow> nat \<Rightarrow> 'j redis \<Rightarrow> (redis_error + unit) \<times> 'j redis" where
  "do_expire k ttl d =
     (Inr (), case look d k of None \<Rightarrow> d | Some v \<Rightarrow> put k v (expiry d ttl) d)"

lemmas do_defs = do_get_def do_set_def do_set_nx_def do_del_def do_hset_def do_hgetall_def do_zadd_def
  do_zrem_def do_zcard_def do_zscore_def do_zrange_def do_incr_def do_expire_def

subsection \<open>Compare and delete\<close>

text \<open>
  The Lua script every service releases its locks with: delete the key only if it still holds the
  token of the caller.
\<close>

definition compare_and_delete :: "string \<Rightarrow> string \<Rightarrow> 'j redis \<Rightarrow> (redis_error + nat) \<times> 'j redis" where
  "compare_and_delete key token d =
     (case do_get key d of
        (Inl e, d') \<Rightarrow> (Inl e, d')
      | (Inr t, d') \<Rightarrow> if t = Some (Txt token) then do_del key d' else (Inr 0, d'))"

subsection \<open>Locks\<close>

text \<open>\<open>if (!acquire) busy; try { body } finally { release }\<close>\<close>

definition with_lock ::
  "('s, 'e, bool) eff \<Rightarrow> ('s, 'e, 'b) eff \<Rightarrow> ('s, 'e, 'a) eff \<Rightarrow> ('s, 'e, 'a) eff \<Rightarrow> ('s, 'e, 'a) eff" where
  "with_lock acquire release busy body =
     bindS acquire (\<lambda>got. if \<not> got then busy else finallyS body release)"

lemma sim_with_lock [sim_rules]:
  assumes "sim view a a'" and "sim view r r'" and "sim view b b'" and "sim view m m'"
  shows "sim view (with_lock a r b m) (with_lock a' r' b' m')"
  unfolding with_lock_def using assms by (intro sim_rules) auto

lemma keeps_with_lock [keep_rules]:
  assumes "preserves P a" and "preserves P r" and "keeps P b Q" and "keeps P m Q"
  shows "keeps P (with_lock a r b m) Q"
  unfolding with_lock_def using assms by (auto intro!: keep_rules keeps_bindS [where R = "\<lambda>_. True"])

lemma sim_case_stored [sim_rules]:
  assumes "\<And>t. x = Txt t \<Longrightarrow> sim view (f t) (f' t)" and "\<And>j. x = Json j \<Longrightarrow> sim view (g j) (g' j)"
  shows "sim view (case x of Txt t \<Rightarrow> f t | Json j \<Rightarrow> g j) (case x of Txt t \<Rightarrow> f' t | Json j \<Rightarrow> g' j)"
  using assms by (cases x) simp_all

lemma keeps_case_stored [keep_rules]:
  "(\<And>t. x = Txt t \<Longrightarrow> keeps P (f t) Q) \<Longrightarrow> (\<And>j. x = Json j \<Longrightarrow> keeps P (g j) Q) \<Longrightarrow>
   keeps P (case x of Txt t \<Rightarrow> f t | Json j \<Rightarrow> g j) Q"
  by (cases x) simp_all

text \<open>
  The contract of a lock: who owns it, on the states where the service is \<open>up\<close>.
\<close>

locale lock =
  fixes acquire :: "string \<Rightarrow> ('w, 'e, bool) eff"
    and release :: "string \<Rightarrow> ('w, 'e, 'b) eff"
    and owner :: "'w \<Rightarrow> string option"
    and up :: "'w \<Rightarrow> bool"
  assumes acquire_free: "up w \<Longrightarrow> owner w = None \<Longrightarrow>
      \<exists>w'. acquire t w = (Inr True, w') \<and> owner w' = Some t \<and> up w'"
    and acquire_held: "up w \<Longrightarrow> owner w \<noteq> None \<Longrightarrow> acquire t w = (Inr False, w)"
    and release_own: "up w \<Longrightarrow> owner w = Some t \<Longrightarrow>
      \<exists>b w'. release t w = (Inr b, w') \<and> owner w' = None \<and> up w'"
    and release_other: "up w \<Longrightarrow> owner w \<noteq> Some t \<Longrightarrow> \<exists>b. release t w = (Inr b, w)"
begin

lemma with_lock_busy:
  assumes "up w" and "owner w \<noteq> None"
  shows "with_lock (acquire t) (release t) busy body w = busy w"
  using assms by (simp add: with_lock_def eff_simps acquire_held)

text \<open>
  The body runs as the owner; whatever it returns or throws is the outcome, and the lock is free
  afterwards.
\<close>

lemma with_lock_runs:
  assumes "up w" and "owner w = None"
    and body: "\<And>w'. owner w' = Some t \<Longrightarrow> up w' \<Longrightarrow>
      owner (snd (body w')) = Some t \<and> up (snd (body w'))"
  obtains w' where "acquire t w = (Inr True, w')" "owner w' = Some t" "up w'"
    "fst (with_lock (acquire t) (release t) busy body w) = fst (body w')"
    "owner (snd (with_lock (acquire t) (release t) busy body w)) = None"
    "up (snd (with_lock (acquire t) (release t) busy body w))"
    "snd (with_lock (acquire t) (release t) busy body w) = snd (release t (snd (body w')))"
proof -
  obtain w' where w': "acquire t w = (Inr True, w')" "owner w' = Some t" "up w'"
    using acquire_free assms by blast
  obtain b w'' where "release t (snd (body w')) = (Inr b, w'')" "owner w'' = None" "up w''"
    using release_own body w' by blast
  with w' that show ?thesis by (cases "body w'") (simp add: with_lock_def eff_simps)
qed

text \<open>A holder whose lock has passed to another token does not release it.\<close>

lemma release_stale:
  assumes "up w" and "owner w = Some u" and "u \<noteq> t"
  shows "owner (snd (release t w)) = Some u"
  using release_other [of w t] assms by auto

end

text \<open>On the key space: the owner of the lock at a key.\<close>

definition lock_owner :: "string \<Rightarrow> 'j redis \<Rightarrow> string option" where
  "lock_owner k d = (case look d k of Some (RStr (Txt t)) \<Rightarrow> Some t | _ \<Rightarrow> None)"

definition lock_key_ok :: "string \<Rightarrow> 'j redis \<Rightarrow> bool" where
  "lock_key_ok k d \<longleftrightarrow> (look d k = None \<or> (\<exists>t. look d k = Some (RStr (Txt t))))"

lemma lock_owner_simps [simp]:
  "lock_owner k (unset k' d) = (if k = k' then None else lock_owner k d)"
  "\<not> expired (rd_now d) e \<Longrightarrow> lock_owner k (put k' (RStr (Txt t)) e d) = (if k = k' then Some t else lock_owner k d)"
  by (simp_all add: lock_owner_def)

lemma lock_key_ok_simps [simp]:
  "lock_key_ok k d \<Longrightarrow> lock_key_ok k (unset k' d)"
  "lock_key_ok k d \<Longrightarrow> lock_key_ok k (put k' (RStr (Txt t)) e d)"
  by (auto simp: lock_key_ok_def)

lemma lock_key_cases:
  assumes "lock_key_ok k d"
  obtains "look d k = None" "lock_owner k d = None"
    | t where "look d k = Some (RStr (Txt t))" "lock_owner k d = Some t"
  using assms by (auto simp: lock_key_ok_def lock_owner_def)

lemma compare_and_delete_cases:
  "lock_key_ok k d \<Longrightarrow> compare_and_delete k t d =
     (if lock_owner k d = Some t then (Inr 1, unset k d) else (Inr 0, d))"
  by (erule lock_key_cases) (simp_all add: compare_and_delete_def do_defs)

end
