(* ===== verification/Elo.thy ===== *)
theory Elo
  imports Prelude
begin

section \<open>packages/elo: ratings\<close>

text \<open>
  Models \<open>kFactor.ts\<close>, \<open>computeElo.ts\<close>, \<open>softResetRating.ts\<close>, \<open>elo-error.ts\<close> and \<open>types.ts\<close>.
  The expected score \<open>1 / (1 + 10 ** (d / 400))\<close> is the real number, so the deltas are those of
  the code up to floating-point error in the power. The outcome is a string, because the
  code validates it at run time.
\<close>

datatype EloErrorCode = INVALID_RATING | INVALID_GAMES_PLAYED | INVALID_WINNER

record EloResult =
  newRatingA :: real
  newRatingB :: real
  deltaA :: int
  deltaB :: int

subsection \<open>kFactor.ts\<close>

definition assertNonNegativeFiniteNumber :: "jsnum \<Rightarrow> EloErrorCode \<Rightarrow> EloErrorCode + unit" where
  "assertNonNegativeFiniteNumber value code =
     (if \<not> isFinite value \<or> js_less value (Fin 0) then Inl code else Inr ())"

definition assertInteger :: "jsnum \<Rightarrow> EloErrorCode \<Rightarrow> EloErrorCode + unit" where
  "assertInteger value code = (if \<not> isInteger value then Inl code else Inr ())"

definition getKFactor :: "jsnum \<Rightarrow> jsnum \<Rightarrow> EloErrorCode + int" where
  "getKFactor rating gamesPlayed =
     (case assertNonNegativeFiniteNumber rating INVALID_RATING of
        Inl e \<Rightarrow> Inl e
      | Inr _ \<Rightarrow>
     (case assertNonNegativeFiniteNumber gamesPlayed INVALID_GAMES_PLAYED of
        Inl e \<Rightarrow> Inl e
      | Inr _ \<Rightarrow>
     (case assertInteger gamesPlayed INVALID_GAMES_PLAYED of
        Inl e \<Rightarrow> Inl e
      | Inr _ \<Rightarrow>
        (if js_less (Fin 2400) rating then Inr 16
         else if js_less gamesPlayed (Fin 30) then Inr 40
         else Inr 32))))"

subsection \<open>computeElo.ts\<close>

definition getExpectedScore :: "real \<Rightarrow> real \<Rightarrow> real" where
  "getExpectedScore rating opponentRating = 1 / (1 + 10 powr ((opponentRating - rating) / 400))"

definition validateOutcome :: "string \<Rightarrow> EloErrorCode + unit" where
  "validateOutcome winner =
     (if winner \<notin> set [''A'', ''B'', ''DRAW''] then Inl INVALID_WINNER else Inr ())"

definition getScorePair :: "string \<Rightarrow> real \<times> real" where
  "getScorePair winner =
     (if winner = ''A'' then (1, 0) else if winner = ''B'' then (0, 1) else (1 / 2, 1 / 2))"

definition computeElo :: "jsnum \<Rightarrow> jsnum \<Rightarrow> string \<Rightarrow> jsnum \<Rightarrow> jsnum \<Rightarrow> EloErrorCode + EloResult" where
  "computeElo ratingA ratingB winner gamesPlayedA gamesPlayedB =
     (case validateOutcome winner of
        Inl e \<Rightarrow> Inl e
      | Inr _ \<Rightarrow>
     (case getKFactor ratingA gamesPlayedA of
        Inl e \<Rightarrow> Inl e
      | Inr kFactorA \<Rightarrow>
     (case getKFactor ratingB gamesPlayedB of
        Inl e \<Rightarrow> Inl e
      | Inr kFactorB \<Rightarrow>
        (let expectedA = getExpectedScore (js_real ratingA) (js_real ratingB);
             expectedB = 1 - expectedA;
             (scoreA, scoreB) = getScorePair winner;
             dA = math_round (of_int kFactorA * (scoreA - expectedA));
             dB = math_round (of_int kFactorB * (scoreB - expectedB))
         in Inr \<lparr>newRatingA = js_real ratingA + of_int dA,
                 newRatingB = js_real ratingB + of_int dB,
                 deltaA = dA, deltaB = dB\<rparr>))))"

subsection \<open>softResetRating.ts\<close>

definition SEASON_SOFT_RESET_BASE_RATING :: real where
  "SEASON_SOFT_RESET_BASE_RATING = 1000"

definition RETAIN_WEIGHT :: real where "RETAIN_WEIGHT = 3 / 4"

definition BASE_WEIGHT :: real where "BASE_WEIGHT = 1 / 4"

definition softResetRating :: "real \<Rightarrow> int" where
  "softResetRating rating =
     math_round (rating * RETAIN_WEIGHT + SEASON_SOFT_RESET_BASE_RATING * BASE_WEIGHT)"

subsection \<open>K factor\<close>

text \<open>The arguments the validators accept.\<close>

definition valid_rating :: "jsnum \<Rightarrow> bool" where
  "valid_rating x \<longleftrightarrow> isFinite x \<and> \<not> js_less x (Fin 0)"

definition valid_games :: "jsnum \<Rightarrow> bool" where
  "valid_games x \<longleftrightarrow> valid_rating x \<and> isInteger x"

definition kFactor :: "real \<Rightarrow> real \<Rightarrow> int" where
  "kFactor r g = (if 2400 < r then 16 else if g < 30 then 40 else 32)"

lemma valid_rating_Fin [simp]: "valid_rating (Fin r) \<longleftrightarrow> 0 \<le> r"
  by (auto simp: valid_rating_def)

lemma valid_games_Fin [simp]: "valid_games (Fin g) \<longleftrightarrow> 0 \<le> g \<and> g = of_int \<lfloor>g\<rfloor>"
  by (simp add: valid_games_def)

lemma getKFactor_eq:
  "getKFactor r g =
     (if \<not> valid_rating r then Inl INVALID_RATING
      else if \<not> valid_games g then Inl INVALID_GAMES_PLAYED
      else Inr (kFactor (js_real r) (js_real g)))"
  by (cases r; cases g)
    (auto simp: getKFactor_def assertNonNegativeFiniteNumber_def assertInteger_def
      valid_rating_def valid_games_def kFactor_def)

lemma kFactor_bounds: "16 \<le> kFactor r g" "kFactor r g \<le> 40"
  by (simp_all add: kFactor_def)

lemma kFactor_real_bounds: "(16::real) \<le> of_int (kFactor r g)" "of_int (kFactor r g) \<le> (40::real)"
  by (simp_all add: kFactor_def)

subsection \<open>Expected score\<close>

lemma expected_pos: "0 < getExpectedScore a b"
  by (simp add: getExpectedScore_def add_pos_pos)

lemma expected_less_one: "getExpectedScore a b < 1"
  by (simp add: getExpectedScore_def add_pos_pos)

lemma expected_complement: "1 - getExpectedScore a b = getExpectedScore b a"
proof -
  have inv: "10 powr ((a - b) / 400) = 1 / 10 powr ((b - a) / 400)" for a b :: real
    by (simp add: powr_minus_divide [symmetric] minus_divide_left)
  have "1 - 1 / (1 + x) = 1 / (1 + 1 / x)" if "0 < x" for x :: real
    using that by (simp add: field_simps)
  then show ?thesis
    unfolding getExpectedScore_def inv [of a b] by simp
qed

lemma expected_equal [simp]: "getExpectedScore r r = 1 / 2"
  by (simp add: getExpectedScore_def)

lemma expected_mono: "a \<le> a' \<Longrightarrow> getExpectedScore a b \<le> getExpectedScore a' b"
  unfolding getExpectedScore_def
  by (intro divide_left_mono add_left_mono powr_mono) (auto simp: add_pos_pos divide_right_mono)

text \<open>A difference of 400 points: the odds are ten to one.\<close>

lemma expected_400: "getExpectedScore (r + 400) r = 10 / 11"
  by (simp add: getExpectedScore_def powr_minus_divide)

subsection \<open>The result on every branch\<close>

lemma validateOutcome_eq:
  "validateOutcome w = (if w = ''A'' \<or> w = ''B'' \<or> w = ''DRAW'' then Inr () else Inl INVALID_WINNER)"
  by (auto simp: validateOutcome_def)

definition valid_args :: "jsnum \<Rightarrow> jsnum \<Rightarrow> string \<Rightarrow> jsnum \<Rightarrow> jsnum \<Rightarrow> bool" where
  "valid_args ra rb w ga gb \<longleftrightarrow>
     w \<in> {''A'', ''B'', ''DRAW''} \<and> valid_rating ra \<and> valid_rating rb \<and> valid_games ga \<and> valid_games gb"

text \<open>One player's delta, from his own side of the table.\<close>

definition elo_delta :: "real \<Rightarrow> real \<Rightarrow> real \<Rightarrow> real \<Rightarrow> int" where
  "elo_delta mine theirs games score =
     math_round (of_int (kFactor mine games) * (score - getExpectedScore mine theirs))"

lemma computeElo_valid:
  assumes "valid_args ra rb w ga gb"
  shows "computeElo ra rb w ga gb = Inr
     \<lparr>newRatingA = js_real ra + of_int (elo_delta (js_real ra) (js_real rb) (js_real ga) (fst (getScorePair w))),
      newRatingB = js_real rb + of_int (elo_delta (js_real rb) (js_real ra) (js_real gb) (snd (getScorePair w))),
      deltaA = elo_delta (js_real ra) (js_real rb) (js_real ga) (fst (getScorePair w)),
      deltaB = elo_delta (js_real rb) (js_real ra) (js_real gb) (snd (getScorePair w))\<rparr>"
  using assms
  by (auto simp: computeElo_def valid_args_def validateOutcome_eq getKFactor_eq Let_def
      elo_delta_def expected_complement split: prod.splits)

lemma computeElo_Inr: "computeElo ra rb w ga gb = Inr r \<Longrightarrow> valid_args ra rb w ga gb"
  by (auto simp: computeElo_def valid_args_def validateOutcome_eq getKFactor_eq Let_def
      split: prod.splits if_splits)

lemma elo_delta_win: "0 \<le> elo_delta a b g 1 \<and> elo_delta a b g 1 \<le> kFactor a g"
  unfolding elo_delta_def
  using expected_pos [of a b] expected_less_one [of a b] kFactor_real_bounds [of a g]
  by (intro math_round_bounds) (auto simp: mult_left_le)

lemma elo_delta_loss: "- kFactor a g \<le> elo_delta a b g 0 \<and> elo_delta a b g 0 \<le> 0"
  unfolding elo_delta_def
  using expected_pos [of a b] expected_less_one [of a b] kFactor_real_bounds [of a g]
  by (intro math_round_bounds) (auto simp: mult_left_le mult_nonneg_nonpos)

lemma elo_delta_draw: "\<bar>elo_delta a b g (1 / 2)\<bar> \<le> kFactor a g div 2"
proof -
  have k: "of_int (kFactor a g div 2) = of_int (kFactor a g) / (2::real)"
    by (simp add: kFactor_def)
  have "- (kFactor a g div 2) \<le> elo_delta a b g (1 / 2) \<and> elo_delta a b g (1 / 2) \<le> kFactor a g div 2"
    unfolding elo_delta_def
  proof (rule math_round_bounds)
    have e: "0 < getExpectedScore a b" "getExpectedScore a b < 1" and kp: "0 \<le> (of_int (kFactor a g)::real)"
      using expected_pos expected_less_one kFactor_real_bounds(1) [of a g] by auto
    show "of_int (- (kFactor a g div 2)) \<le> of_int (kFactor a g) * (1 / 2 - getExpectedScore a b)"
      using mult_left_mono [of "- (1 / 2)" "1 / 2 - getExpectedScore a b", OF _ kp] e k by simp
    show "of_int (kFactor a g) * (1 / 2 - getExpectedScore a b) \<le> of_int (kFactor a g div 2)"
      using mult_left_mono [of "1 / 2 - getExpectedScore a b" "1 / 2", OF _ kp] e k by simp
  qed
  then show ?thesis by linarith
qed


subsection \<open>Properties of a match\<close>

text \<open>
  \<open>computeElo\<close> is total on its domain and refuses everything else: it returns a result exactly
  when the winner is one of the three outcomes, both ratings are finite and not negative and
  both game counts are non-negative integers; otherwise it throws, and the winner is checked
  before player A's arguments and these before player B's.
\<close>

theorem computeElo_outcome:
  "(case computeElo ra rb w ga gb of
      Inr r \<Rightarrow> valid_args ra rb w ga gb
    | Inl INVALID_WINNER \<Rightarrow> w \<notin> {''A'', ''B'', ''DRAW''}
    | Inl INVALID_RATING \<Rightarrow> w \<in> {''A'', ''B'', ''DRAW''} \<and>
        \<not> (valid_rating ra \<and> valid_rating rb) \<and> \<not> (valid_rating ra \<and> \<not> valid_games ga)
    | Inl INVALID_GAMES_PLAYED \<Rightarrow> w \<in> {''A'', ''B'', ''DRAW''} \<and> valid_rating ra \<and>
        (if valid_games ga then valid_rating rb \<and> \<not> valid_games gb else True))"
  by (auto simp: computeElo_def valid_args_def validateOutcome_eq getKFactor_eq Let_def
      split: prod.splits if_splits)

text \<open>
  C14. In a decisive match the winner never loses rating, the loser never gains any, and neither
  moves by more than his K factor; a draw moves a player by at most half of it. The new ratings
  are the old ones plus the deltas.
\<close>

theorem computeElo_bounds:
  assumes "valid_args ra rb w ga gb"
  shows "\<exists>r. computeElo ra rb w ga gb = Inr r \<and>
    newRatingA r = js_real ra + of_int (deltaA r) \<and> newRatingB r = js_real rb + of_int (deltaB r) \<and>
    (case getKFactor ra ga of Inl _ \<Rightarrow> False | Inr k \<Rightarrow>
       (if w = ''A'' then 0 \<le> deltaA r \<and> deltaA r \<le> k
        else if w = ''B'' then - k \<le> deltaA r \<and> deltaA r \<le> 0
        else \<bar>deltaA r\<bar> \<le> k div 2)) \<and>
    (case getKFactor rb gb of Inl _ \<Rightarrow> False | Inr k \<Rightarrow>
       (if w = ''A'' then - k \<le> deltaB r \<and> deltaB r \<le> 0
        else if w = ''B'' then 0 \<le> deltaB r \<and> deltaB r \<le> k
        else \<bar>deltaB r\<bar> \<le> k div 2))"
  using assms
  by (auto simp: computeElo_valid getKFactor_eq valid_args_def getScorePair_def
      elo_delta_win elo_delta_loss elo_delta_draw)

theorem computeElo_bounds_witness:
  "\<exists>r. computeElo (Fin 1000) (Fin 1000) ''A'' (Fin 0) (Fin 0) = Inr r \<and> 0 \<le> deltaA r \<and> deltaB r \<le> 0"
proof -
  have "valid_args (Fin 1000) (Fin 1000) ''A'' (Fin 0) (Fin 0)"
    by (simp add: valid_args_def)
  from computeElo_bounds [OF this] show ?thesis
    by (auto simp: getKFactor_eq split: sum.splits)
qed

text \<open>
  Between two players with the same K factor the exchange is zero-sum up to one point, and the
  point, created by rounding a half upwards, is never destroyed.
\<close>

theorem computeElo_zero_sum:
  assumes "computeElo ra rb w ga gb = Inr r" and "getKFactor ra ga = getKFactor rb gb"
  shows "deltaA r + deltaB r \<in> {0, 1}"
proof -
  have v: "valid_args ra rb w ga gb"
    using computeElo_outcome [where ra = ra and rb = rb and w = w and ga = ga and gb = gb] assms(1) by simp
  define x where "x = of_int (kFactor (js_real ra) (js_real ga)) *
    (fst (getScorePair w) - getExpectedScore (js_real ra) (js_real rb))"
  have k: "kFactor (js_real rb) (js_real gb) = kFactor (js_real ra) (js_real ga)"
    using v assms(2) by (simp add: getKFactor_eq valid_args_def)
  have score: "snd (getScorePair w) = 1 - fst (getScorePair w)"
    by (simp add: getScorePair_def)
  have "elo_delta (js_real rb) (js_real ra) (js_real gb) (snd (getScorePair w)) = math_round (- x)"
    unfolding elo_delta_def k x_def expected_complement [symmetric, of "js_real ra"] score
    by (simp add: algebra_simps)
  moreover have "elo_delta (js_real ra) (js_real rb) (js_real ga) (fst (getScorePair w)) = math_round x"
    by (simp add: elo_delta_def x_def)
  ultimately show ?thesis
    using assms(1) computeElo_valid [OF v] math_round_minus [of x] by auto
qed

theorem computeElo_zero_sum_witness:
  "\<exists>r. computeElo (Fin 1200) (Fin 1200) ''B'' (Fin 4) (Fin 7) = Inr r \<and> deltaA r + deltaB r \<in> {0, 1}"
proof -
  have v: "valid_args (Fin 1200) (Fin 1200) ''B'' (Fin 4) (Fin 7)"
    by (simp add: valid_args_def)
  obtain r where r: "computeElo (Fin 1200) (Fin 1200) ''B'' (Fin 4) (Fin 7) = Inr r"
    using computeElo_valid [OF v] by blast
  have "getKFactor (Fin 1200) (Fin 4) = getKFactor (Fin 1200) (Fin 7)"
    by (simp add: getKFactor_eq kFactor_def)
  from computeElo_zero_sum [OF r this] r show ?thesis by blast
qed

text \<open>The outcome seen from the other side of the table.\<close>

definition flip_outcome :: "string \<Rightarrow> string" where
  "flip_outcome w = (if w = ''A'' then ''B'' else if w = ''B'' then ''A'' else w)"

text \<open>
  No advantage in being player A: exchanging the two players (and the winner with them)
  exchanges the two halves of the result.
\<close>

theorem computeElo_symmetric:
  assumes "valid_args ra rb w ga gb"
  shows "computeElo rb ra (flip_outcome w) gb ga =
    map_sum id (\<lambda>r. \<lparr>newRatingA = newRatingB r, newRatingB = newRatingA r,
                     deltaA = deltaB r, deltaB = deltaA r\<rparr>) (computeElo ra rb w ga gb)"
proof -
  have "valid_args rb ra (flip_outcome w) gb ga"
    using assms by (auto simp: valid_args_def flip_outcome_def)
  moreover have "getScorePair (flip_outcome w) = (snd (getScorePair w), fst (getScorePair w))"
    using assms by (auto simp: getScorePair_def flip_outcome_def valid_args_def)
  ultimately show ?thesis
    using assms by (simp add: computeElo_valid)
qed

theorem computeElo_symmetric_witness:
  "\<exists>r. computeElo (Fin 1400) (Fin 1000) ''B'' (Fin 31) (Fin 2) = Inr r \<and>
       computeElo (Fin 1000) (Fin 1400) ''A'' (Fin 2) (Fin 31) = Inr
         \<lparr>newRatingA = newRatingB r, newRatingB = newRatingA r, deltaA = deltaB r, deltaB = deltaA r\<rparr>"
proof -
  have v: "valid_args (Fin 1400) (Fin 1000) ''B'' (Fin 31) (Fin 2)"
    by (simp add: valid_args_def)
  show ?thesis
    using computeElo_symmetric [OF v] computeElo_valid [OF v] by (auto simp: flip_outcome_def)
qed

text \<open>
  Ratings can leave the domain of \<open>computeElo\<close>: a new player rated below 20 who loses to an equal
  gets a negative rating, and every later computation with that rating throws
  \<open>INVALID_RATING\<close>. From 40 points on a single match cannot do this.
\<close>

theorem computeElo_domain_escape:
  "(\<forall>r g. r \<in> {0..<20} \<longrightarrow> (\<exists>res. computeElo (Fin r) (Fin r) ''B'' (Fin 0) (Fin 0) = Inr res \<and>
        newRatingA res < 0 \<and>
        computeElo (Fin (newRatingA res)) (Fin r) ''A'' (Fin 1) g = Inl INVALID_RATING))
   \<and> (\<forall>ra rb w ga gb res. 40 \<le> js_real ra \<longrightarrow> computeElo ra rb w ga gb = Inr res \<longrightarrow> 0 \<le> newRatingA res)"
proof (intro conjI allI impI)
  fix r :: real and g
  assume r: "r \<in> {0..<20}"
  then have v: "valid_args (Fin r) (Fin r) ''B'' (Fin 0) (Fin 0)"
    by (simp add: valid_args_def)
  have d: "elo_delta r r 0 0 = - 20"
    using r math_round_of_int [of "- 20"] by (simp add: elo_delta_def kFactor_def)
  have "computeElo (Fin (r - 20)) (Fin r) ''A'' (Fin 1) g = Inl INVALID_RATING"
    using r by (simp add: computeElo_def validateOutcome_eq getKFactor_eq)
  with r d computeElo_valid [OF v]
  show "\<exists>res. computeElo (Fin r) (Fin r) ''B'' (Fin 0) (Fin 0) = Inr res \<and> newRatingA res < 0 \<and>
      computeElo (Fin (newRatingA res)) (Fin r) ''A'' (Fin 1) g = Inl INVALID_RATING"
    by (simp add: getScorePair_def)
next
  fix ra rb w ga gb res
  assume a: "40 \<le> js_real ra" "computeElo ra rb w ga gb = Inr res"
  then have v: "valid_args ra rb w ga gb"
    using computeElo_outcome [where ra = ra and rb = rb and w = w and ga = ga and gb = gb] by simp
  have "- 40 \<le> elo_delta (js_real ra) (js_real rb) (js_real ga) (fst (getScorePair w))"
    using elo_delta_win [of "js_real ra" "js_real rb" "js_real ga"]
      elo_delta_loss [of "js_real ra" "js_real ga" "js_real rb"]
      elo_delta_draw [of "js_real ra" "js_real rb" "js_real ga"] kFactor_bounds [of "js_real ra" "js_real ga"]
    by (simp add: getScorePair_def) linarith
  then have "(-40::real) \<le> of_int (elo_delta (js_real ra) (js_real rb) (js_real ga) (fst (getScorePair w)))"
    by linarith
  with a computeElo_valid [OF v] show "0 \<le> newRatingA res" by auto
qed

theorem computeElo_domain_escape_witness:
  "\<exists>res. computeElo (Fin 10) (Fin 10) ''B'' (Fin 0) (Fin 0) = Inr res \<and> newRatingA res < 0"
proof -
  have "(10::real) \<in> {0..<20}" by simp
  with computeElo_domain_escape show ?thesis by blast
qed

subsection \<open>Properties of the season soft reset\<close>

lemma softResetRating_int: "softResetRating (of_int r) = (3 * r + 1002) div 4"
proof -
  have "softResetRating (of_int r) = \<lfloor>of_int (3 * r + 1002) / (of_int 4 :: real)\<rfloor>"
    unfolding softResetRating_def math_round_def SEASON_SOFT_RESET_BASE_RATING_def
      RETAIN_WEIGHT_def BASE_WEIGHT_def
    by (simp add: field_simps)
  then show ?thesis by (simp only: floor_divide_of_int_eq)
qed

text \<open>
  The soft reset pulls every integer rating towards 1000: it keeps the order of two players,
  keeps ratings non-negative, removes a quarter of the distance to 1000 up to rounding, and is at
  rest exactly on the ratings 999 to 1002.
\<close>

theorem softResetRating_contracts:
  "(r \<le> r' \<longrightarrow> softResetRating (of_int r) \<le> softResetRating (of_int r')) \<and>
   (0 \<le> r \<longrightarrow> 250 \<le> softResetRating (of_int r)) \<and>
   4 * \<bar>softResetRating (of_int r) - 1000\<bar> \<le> 3 * \<bar>r - 1000\<bar> + 2 \<and>
   (softResetRating (of_int r) = r \<longleftrightarrow> r \<in> {999..1002})"
proof (intro conjI)
  show "4 * \<bar>softResetRating (of_int r) - 1000\<bar> \<le> 3 * \<bar>r - 1000\<bar> + 2"
    unfolding softResetRating_int by presburger
qed (auto simp: softResetRating_int)

theorem softResetRating_contracts_witness:
  "softResetRating (of_int 1400) \<le> softResetRating (of_int 1500) \<and> 250 \<le> softResetRating (of_int 0)"
  using softResetRating_contracts [of 1400 1500] softResetRating_contracts [of 0 0] by simp

end
