(* ===== verification/Leagues.thy ===== *)
theory Leagues
  imports Prelude
begin

section \<open>packages/leagues: leagues by rating\<close>

text \<open>
  Models \<open>getLeagueForRating.ts\<close>, \<open>getLeagueProgress.ts\<close>, \<open>reference-leagues.ts\<close>,
  \<open>league-error.ts\<close> and \<open>types.ts\<close>. A league carries its name and tier; the generic functions
  use the bounds only. Strings are ASCII: \<open>trim\<close> and \<open>toLowerCase\<close> are the ASCII part of
  JavaScript's.
\<close>

datatype LeagueErrorCode = INVALID_RATING | EMPTY_LEAGUES | INVALID_LEAGUE_CONFIG | NO_MATCHING_LEAGUE

record league =
  lg_name :: string
  tier :: int
  minRating :: jsnum
  maxRating :: "jsnum option"

record league_summary =
  ls_name :: string
  ls_tier :: int

subsection \<open>getLeagueForRating.ts\<close>

definition assertRating :: "jsnum \<Rightarrow> LeagueErrorCode + unit" where
  "assertRating rating = (if \<not> isFinite rating then Inl INVALID_RATING else Inr ())"

definition assertNonEmptyLeagues :: "league list \<Rightarrow> LeagueErrorCode + unit" where
  "assertNonEmptyLeagues leagues = (if length leagues = 0 then Inl EMPTY_LEAGUES else Inr ())"

definition assertLeagueConfig :: "league \<Rightarrow> LeagueErrorCode + unit" where
  "assertLeagueConfig l =
     (if \<not> isFinite (minRating l) then Inl INVALID_LEAGUE_CONFIG
      else (case maxRating l of
        None \<Rightarrow> Inr ()
      | Some m \<Rightarrow>
          (if \<not> isFinite m \<or> js_less m (minRating l) then Inl INVALID_LEAGUE_CONFIG else Inr ())))"

definition in_league :: "jsnum \<Rightarrow> league \<Rightarrow> bool" where
  "in_league rating l \<longleftrightarrow> js_le (minRating l) rating \<and>
     (case maxRating l of None \<Rightarrow> True | Some m \<Rightarrow> js_le rating m)"

text \<open>The loop over the leagues: a league is validated when it is reached, not before.\<close>

fun find_league :: "jsnum \<Rightarrow> league list \<Rightarrow> LeagueErrorCode + league" where
  "find_league rating [] = Inl NO_MATCHING_LEAGUE"
| "find_league rating (l # ls) =
     (case assertLeagueConfig l of
        Inl e \<Rightarrow> Inl e
      | Inr _ \<Rightarrow> if in_league rating l then Inr l else find_league rating ls)"

definition getLeagueForRating :: "jsnum \<Rightarrow> league list \<Rightarrow> LeagueErrorCode + league" where
  "getLeagueForRating rating leagues =
     (case assertRating rating of Inl e \<Rightarrow> Inl e | Inr _ \<Rightarrow>
     (case assertNonEmptyLeagues leagues of Inl e \<Rightarrow> Inl e | Inr _ \<Rightarrow>
        find_league rating leagues))"

subsection \<open>getLeagueProgress.ts\<close>

definition clamp :: "real \<Rightarrow> real" where
  "clamp value = (if value < 0 then 0 else if value > 1 then 1 else value)"

definition getLeagueProgress :: "jsnum \<Rightarrow> league \<Rightarrow> LeagueErrorCode + real" where
  "getLeagueProgress rating l =
     (case assertRating rating of Inl e \<Rightarrow> Inl e | Inr _ \<Rightarrow>
     (case assertLeagueConfig l of Inl e \<Rightarrow> Inl e | Inr _ \<Rightarrow>
     (case maxRating l of
        None \<Rightarrow> Inr 1
      | Some m \<Rightarrow>
          (if m = minRating l then Inr 1
           else Inr (clamp ((js_real rating - js_real (minRating l)) /
                            (js_real m - js_real (minRating l))))))))"

subsection \<open>reference-leagues.ts\<close>

definition REFERENCE_LEAGUES :: "league list" where
  "REFERENCE_LEAGUES =
    [\<lparr>lg_name = ''Bronze'', tier = 1, minRating = Fin 0, maxRating = Some (Fin 1099)\<rparr>,
     \<lparr>lg_name = ''Silver'', tier = 2, minRating = Fin 1100, maxRating = Some (Fin 1199)\<rparr>,
     \<lparr>lg_name = ''Gold'', tier = 3, minRating = Fin 1200, maxRating = Some (Fin 1349)\<rparr>,
     \<lparr>lg_name = ''Platinum'', tier = 4, minRating = Fin 1350, maxRating = None\<rparr>]"

definition getReferenceLeagueByName :: "string \<Rightarrow> league option" where
  "getReferenceLeagueByName name =
     (let normalizedName = toLowerCase (trim name)
      in find (\<lambda>l. toLowerCase (lg_name l) = normalizedName) REFERENCE_LEAGUES)"

definition toLeagueSummary :: "league \<Rightarrow> league_summary" where
  "toLeagueSummary l = \<lparr>ls_name = lg_name l, ls_tier = tier l\<rparr>"

definition getLeagueSummaryForRating :: "jsnum \<Rightarrow> LeagueErrorCode + league_summary" where
  "getLeagueSummaryForRating rating =
     (case getLeagueForRating rating REFERENCE_LEAGUES of
        Inl e \<Rightarrow> Inl e
      | Inr l \<Rightarrow> Inr (toLeagueSummary l))"

subsection \<open>Lookup\<close>

definition valid_league :: "league \<Rightarrow> bool" where
  "valid_league l \<longleftrightarrow> assertLeagueConfig l = Inr ()"

lemma assertLeagueConfig_eq:
  "assertLeagueConfig l = (if valid_league l then Inr () else Inl INVALID_LEAGUE_CONFIG)"
  by (auto simp: valid_league_def assertLeagueConfig_def split: option.splits if_splits)

lemma find_league_Inr:
  "find_league r ls = Inr l \<longleftrightarrow>
     (\<exists>us vs. ls = us @ l # vs \<and> in_league r l \<and> valid_league l \<and>
        (\<forall>u \<in> set us. valid_league u \<and> \<not> in_league r u))"
proof (induction ls)
  case Nil
  then show ?case by simp
next
  case (Cons k ls)
  show ?case
  proof (cases "valid_league k \<and> \<not> in_league r k")
    case True
    then have "find_league r (k # ls) = find_league r ls"
      by (simp add: assertLeagueConfig_eq)
    moreover have "(\<exists>us vs. k # ls = us @ l # vs \<and> in_league r l \<and> valid_league l \<and>
        (\<forall>u \<in> set us. valid_league u \<and> \<not> in_league r u)) \<longleftrightarrow>
      (\<exists>us vs. ls = us @ l # vs \<and> in_league r l \<and> valid_league l \<and>
        (\<forall>u \<in> set us. valid_league u \<and> \<not> in_league r u))"
      using True by (auto simp: Cons_eq_append_conv) (metis append_Cons set_ConsD)
    ultimately show ?thesis using Cons.IH by simp
  next
    case False
    then show ?thesis
      by (auto simp: assertLeagueConfig_eq Cons_eq_append_conv)
  qed
qed

lemma find_league_error:
  "find_league r ls = Inl e \<Longrightarrow> e = INVALID_LEAGUE_CONFIG \<or> e = NO_MATCHING_LEAGUE"
  by (induction ls) (auto simp: assertLeagueConfig_eq split: if_splits)

lemma find_league_total:
  assumes "\<And>l. l \<in> set ls \<Longrightarrow> valid_league l" and "\<exists>l \<in> set ls. in_league r l"
  shows "\<exists>l. find_league r ls = Inr l"
  using assms by (induction ls) (auto simp: assertLeagueConfig_eq)

subsection \<open>Properties\<close>

text \<open>
  \<open>getLeagueForRating\<close> returns the first league, in list order, whose closed range holds
  the rating, provided the rating is finite and no league up to it is misconfigured; in every
  other case it throws.
\<close>

theorem getLeagueForRating_first_match:
  "getLeagueForRating r ls = Inr l \<longleftrightarrow>
     isFinite r \<and> (\<exists>us vs. ls = us @ l # vs \<and> in_league r l \<and> valid_league l \<and>
        (\<forall>u. u \<in> set us \<longrightarrow> valid_league u \<and> \<not> in_league r u))"
proof (cases "isFinite r \<and> ls \<noteq> []")
  case True
  then show ?thesis
    by (simp add: getLeagueForRating_def assertRating_def assertNonEmptyLeagues_def find_league_Inr
        Ball_def)
next
  case False
  then show ?thesis
    by (auto simp: getLeagueForRating_def assertRating_def assertNonEmptyLeagues_def)
qed

theorem getLeagueForRating_first_match_witness:
  "getLeagueForRating (Fin 1100) REFERENCE_LEAGUES = Inr (REFERENCE_LEAGUES ! 1)"
proof -
  have "isFinite (Fin 1100) \<and> (\<exists>us vs. REFERENCE_LEAGUES = us @ REFERENCE_LEAGUES ! 1 # vs \<and>
      in_league (Fin 1100) (REFERENCE_LEAGUES ! 1) \<and> valid_league (REFERENCE_LEAGUES ! 1) \<and>
      (\<forall>u. u \<in> set us \<longrightarrow> valid_league u \<and> \<not> in_league (Fin 1100) u))"
    by (simp add: REFERENCE_LEAGUES_def, rule exI [of _ "[REFERENCE_LEAGUES ! 0]"])
      (simp add: REFERENCE_LEAGUES_def in_league_def valid_league_def assertLeagueConfig_def)
  with getLeagueForRating_first_match show ?thesis by blast
qed

text \<open>
  The reference table covers every non-negative integer rating with exactly one league, as
  the thresholds 1100, 1200 and 1350 say; a negative rating, and a rating strictly between two
  integer bounds (1099.5), has none.
\<close>

theorem reference_leagues_partition:
  "(0 \<le> n \<longrightarrow> map_sum id lg_name (getLeagueForRating (Fin (of_int n)) REFERENCE_LEAGUES) =
      Inr (if n < 1100 then ''Bronze'' else if n < 1200 then ''Silver''
           else if n < 1350 then ''Gold'' else ''Platinum'')) \<and>
   (n < 0 \<longrightarrow> getLeagueForRating (Fin (of_int n)) REFERENCE_LEAGUES = Inl NO_MATCHING_LEAGUE) \<and>
   getLeagueForRating (Fin (1099 + 1 / 2)) REFERENCE_LEAGUES = Inl NO_MATCHING_LEAGUE"
  by (auto simp: getLeagueForRating_def REFERENCE_LEAGUES_def assertRating_def
      assertNonEmptyLeagues_def assertLeagueConfig_def in_league_def)

theorem reference_leagues_partition_witness:
  "map_sum id lg_name (getLeagueForRating (Fin (of_int 1349)) REFERENCE_LEAGUES) = Inr ''Gold''"
  using reference_leagues_partition [of 1349] by simp

text \<open>
  Progress inside a league: it is a share between 0 and 1, it grows with the rating, it is
  0 at the lower bound and 1 at the upper one, and an open-ended or one-point league counts as
  complete.
\<close>

theorem getLeagueProgress_range:
  assumes "getLeagueProgress (Fin a) l = Inr p" and "getLeagueProgress (Fin b) l = Inr q" and "a \<le> b"
  shows "0 \<le> p \<and> p \<le> q \<and> q \<le> 1 \<and>
    (maxRating l = None \<longrightarrow> p = 1) \<and>
    (maxRating l = Some (Fin b) \<longrightarrow> q = 1) \<and>
    (minRating l = Fin a \<and> maxRating l \<noteq> None \<and> maxRating l \<noteq> Some (Fin a) \<longrightarrow> p = 0)"
proof (cases "maxRating l")
  case None
  with assms show ?thesis
    by (auto simp: getLeagueProgress_def assertRating_def split: sum.splits)
next
  case (Some m)
  from assms(1) have "valid_league l"
    by (auto simp: getLeagueProgress_def assertRating_def assertLeagueConfig_eq split: if_splits)
  with Some obtain lo hi where lo: "minRating l = Fin lo" and hi: "m = Fin hi" and "lo \<le> hi"
    by (auto simp: valid_league_def assertLeagueConfig_def isFinite_iff split: if_splits)
  show ?thesis
  proof (cases "lo = hi")
    case True
    with assms Some lo hi show ?thesis
      by (auto simp: getLeagueProgress_def assertRating_def split: sum.splits)
  next
    case False
    then have "(a - lo) / (hi - lo) \<le> (b - lo) / (hi - lo)"
      using assms(3) \<open>lo \<le> hi\<close> by (intro divide_right_mono) auto
    with False assms Some lo hi show ?thesis
      by (auto simp: getLeagueProgress_def assertRating_def clamp_def split: sum.splits)
  qed
qed

theorem getLeagueProgress_range_witness:
  "getLeagueProgress (Fin 1100) (REFERENCE_LEAGUES ! 1) = Inr 0 \<and> (0::real) \<le> 0"
proof -
  have a: "getLeagueProgress (Fin 1100) (REFERENCE_LEAGUES ! 1) = Inr 0"
    and b: "getLeagueProgress (Fin 1199) (REFERENCE_LEAGUES ! 1) = Inr 1"
    by (simp_all add: getLeagueProgress_def REFERENCE_LEAGUES_def assertRating_def
        assertLeagueConfig_def clamp_def)
  from getLeagueProgress_range [OF a b] a show ?thesis by simp
qed

subsection \<open>Lookup by name\<close>

lemma reference_names:
  "toLowerCase ''Bronze'' = ''bronze''" "toLowerCase ''Silver'' = ''silver''"
  "toLowerCase ''Gold'' = ''gold''" "toLowerCase ''Platinum'' = ''platinum''"
  by (simp_all add: toLowerCase_def toLowerCase_char_def)

text \<open>The lookup ignores case and surrounding blanks, and no two names collide.\<close>

lemma getReferenceLeagueByName_iff:
  "getReferenceLeagueByName name = Some l \<longleftrightarrow>
     l \<in> set REFERENCE_LEAGUES \<and> toLowerCase (trim name) = toLowerCase (lg_name l)"
proof -
  have "distinct (map (\<lambda>l. toLowerCase (lg_name l)) REFERENCE_LEAGUES)"
    by (simp add: REFERENCE_LEAGUES_def reference_names)
  from find_distinct_key [OF this] show ?thesis
    by (auto simp: getReferenceLeagueByName_def Let_def)
qed

lemma getReferenceLeagueByName_minRating:
  "getReferenceLeagueByName name = Some l \<Longrightarrow> \<exists>m. minRating l = Fin m"
  unfolding getReferenceLeagueByName_iff
  by (elim conjE) (simp add: REFERENCE_LEAGUES_def, elim disjE, simp_all)

end
