(* ===== verification/Bracket.thy ===== *)
theory Bracket
  imports Prelude "HOL-Library.Multiset" "HOL-Library.Word"
begin

section \<open>packages/bracket: seeding and the first round\<close>

text \<open>
  Models \<open>compute-bracket-size.ts\<close>, \<open>seed-players.ts\<close>, \<open>generate-first-round.ts\<close>,
  \<open>bracket-error.ts\<close> and \<open>types.ts\<close>. The doubling loop of \<open>computeBracketSize\<close> is a
  \<^theory_text>\<open>partial_function\<close>: that it returns is part of its theorem. The power-of-two test is the
  code's 32-bit \<open>n & (n - 1)\<close>. \<open>Array.prototype.sort\<close> is stable, as \<open>sort_key\<close> is.
\<close>

unbundle bit_operations_syntax

datatype BracketErrorCode =
  INSUFFICIENT_PLAYERS | INVALID_BRACKET_SIZE | INVALID_PLAYER_RATING | PLAYERS_EXCEED_BRACKET_SIZE

record player =
  pl_id :: string
  pl_rating :: jsnum

record seeded_player = player +
  seed :: nat

record bracket_match =
  player1 :: seeded_player
  player2 :: "seeded_player option"

subsection \<open>compute-bracket-size.ts\<close>

definition MAX_BRACKET_SIZE :: nat where "MAX_BRACKET_SIZE = 1024"

partial_function (option) double_until :: "nat \<Rightarrow> nat \<Rightarrow> (BracketErrorCode + nat) option" where
  "double_until registrationCount sz =
     (if sz < registrationCount
      then (if sz * 2 > MAX_BRACKET_SIZE then Some (Inl INVALID_BRACKET_SIZE)
            else double_until registrationCount (sz * 2))
      else Some (Inr sz))"

definition computeBracketSize :: "jsnum \<Rightarrow> (BracketErrorCode + nat) option" where
  "computeBracketSize registrationCount =
     (if \<not> isInteger registrationCount then Some (Inl INVALID_BRACKET_SIZE)
      else if js_less registrationCount (Fin 2) then Some (Inl INSUFFICIENT_PLAYERS)
      else double_until (nat \<lfloor>js_real registrationCount\<rfloor>) 1)"

subsection \<open>seed-players.ts\<close>

definition with_seed :: "player \<Rightarrow> nat \<Rightarrow> seeded_player" where
  "with_seed p i = \<lparr>pl_id = pl_id p, pl_rating = pl_rating p, seed = i + 1\<rparr>"

definition seedPlayers :: "player list \<Rightarrow> BracketErrorCode + seeded_player list" where
  "seedPlayers players =
     (if length players < 2 then Inl INSUFFICIENT_PLAYERS
      else if list_ex (\<lambda>p. \<not> isFinite (pl_rating p)) players then Inl INVALID_PLAYER_RATING
      else let ranked = sort_key (\<lambda>p. - js_real (pl_rating p)) players
           in Inr (map2 with_seed ranked [0..<length ranked]))"

subsection \<open>generate-first-round.ts\<close>

text \<open>JavaScript's \<open>&\<close> reads both operands as 32-bit integers.\<close>

definition isPowerOfTwo :: "int \<Rightarrow> bool" where
  "isPowerOfTwo n \<longleftrightarrow> n > 0 \<and> (word_of_int n :: 32 word) AND word_of_int (n - 1) = 0"

definition slots :: "'a list \<Rightarrow> nat \<Rightarrow> 'a option list" where
  "slots seededPlayers bracketSize =
     map (\<lambda>i. if i < length seededPlayers then Some (seededPlayers ! i) else None) [0..<bracketSize]"

definition first_round_matches :: "seeded_player list \<Rightarrow> nat \<Rightarrow> bracket_match list" where
  "first_round_matches seededPlayers bracketSize =
     (let ss = slots seededPlayers bracketSize in
      concat (map (\<lambda>i.
        (case ss ! i of
           None \<Rightarrow> []
         | Some p1 \<Rightarrow> [\<lparr>player1 = p1, player2 = ss ! (bracketSize - 1 - i)\<rparr>])) [0..<bracketSize div 2]))"

definition generateFirstRound :: "seeded_player list \<Rightarrow> jsnum \<Rightarrow> BracketErrorCode + bracket_match list" where
  "generateFirstRound seededPlayers bracketSize =
     (if \<not> isInteger bracketSize \<or> js_less bracketSize (Fin 2) \<or> \<not> isPowerOfTwo \<lfloor>js_real bracketSize\<rfloor>
      then Inl INVALID_BRACKET_SIZE
      else if length seededPlayers < 2 then Inl INSUFFICIENT_PLAYERS
      else if length seededPlayers > nat \<lfloor>js_real bracketSize\<rfloor> then Inl PLAYERS_EXCEED_BRACKET_SIZE
      else Inr (first_round_matches seededPlayers (nat \<lfloor>js_real bracketSize\<rfloor>)))"

subsection \<open>Bracket size\<close>

lemma double_until_pow:
  assumes "k \<le> 10"
  shows "double_until n (2 ^ k) =
    Some (if 1024 < n then Inl INVALID_BRACKET_SIZE else Inr (2 ^ (LEAST j. k \<le> j \<and> n \<le> 2 ^ j)))"
  using assms
proof (induction "10 - k" arbitrary: k)
  case 0
  then have k: "k = 10" by simp
  have "(LEAST j. 10 \<le> j \<and> n \<le> 2 ^ j) = 10" if "n \<le> 1024"
    using that by (intro Least_equality) auto
  with k show ?case
    by (simp add: double_until.simps [of n 1024] MAX_BRACKET_SIZE_def)
next
  case (Suc d)
  show ?case
  proof (cases "2 ^ k < n")
    case False
    moreover have "(2::nat) ^ k \<le> 2 ^ 10" using Suc.prems by (intro power_increasing) auto
    moreover have "(LEAST j. k \<le> j \<and> n \<le> 2 ^ j) = k"
      using False by (intro Least_equality) auto
    ultimately show ?thesis by (simp add: double_until.simps [of n "2 ^ k"])
  next
    case True
    have kd: "k < 10" using Suc.hyps(2) by simp
    then have le: "(2::nat) ^ Suc k \<le> 2 ^ 10" by (intro power_increasing) simp_all
    have "(k \<le> j \<and> n \<le> 2 ^ j) \<longleftrightarrow> (Suc k \<le> j \<and> n \<le> 2 ^ j)" for j
      using True by (cases "j = k") auto
    then have "(LEAST j. k \<le> j \<and> n \<le> 2 ^ j) = (LEAST j. Suc k \<le> j \<and> n \<le> 2 ^ j)" by simp
    moreover have "double_until n (2 ^ Suc k) =
        Some (if 1024 < n then Inl INVALID_BRACKET_SIZE else Inr (2 ^ (LEAST j. Suc k \<le> j \<and> n \<le> 2 ^ j)))"
      using Suc.hyps kd by (intro Suc.hyps(1)) auto
    ultimately show ?thesis
      using True le by (simp add: double_until.simps [of n "2 ^ k"] MAX_BRACKET_SIZE_def mult.commute)
  qed
qed

text \<open>
  \<open>computeBracketSize\<close> always returns: for a registration count of 2 to 1024 with the
  smallest power of two that is not below it, and with the documented error for a number that is
  not an integer, for fewer than two players and for more than 1024.
\<close>

theorem computeBracketSize_least_power:
  "computeBracketSize x = Some
     (if \<not> isInteger x then Inl INVALID_BRACKET_SIZE
      else if js_real x < 2 then Inl INSUFFICIENT_PLAYERS
      else if 1024 < js_real x then Inl INVALID_BRACKET_SIZE
      else Inr (LEAST p. (\<exists>k. p = 2 ^ k) \<and> js_real x \<le> real p))"
proof (cases "isInteger x \<and> \<not> js_less x (Fin 2)")
  case False
  then show ?thesis by (cases x) (auto simp: computeBracketSize_def)
next
  case True
  then obtain i where x: "x = Fin (of_int i)" and i: "2 \<le> i"
    by (auto simp: isInteger_iff)
  define n where "n = nat i"
  have n: "i = int n" using i by (simp add: n_def)
  let ?j = "LEAST j. 0 \<le> j \<and> n \<le> 2 ^ j"
  have ex: "0 \<le> n \<and> n \<le> 2 ^ n" by (simp add: less_imp_le)
  have "(LEAST p. (\<exists>k. p = 2 ^ k) \<and> js_real x \<le> real p) = 2 ^ ?j"
  proof (rule Least_equality)
    show "(\<exists>k. 2 ^ ?j = (2::nat) ^ k) \<and> js_real x \<le> real (2 ^ ?j)"
      using LeastI [of "\<lambda>j. 0 \<le> j \<and> n \<le> 2 ^ j" n] ex
      by (auto simp: x n simp flip: of_nat_power)
  next
    fix p
    assume "(\<exists>k. p = 2 ^ k) \<and> js_real x \<le> real p"
    then obtain k where k: "p = 2 ^ k" and "n \<le> 2 ^ k"
      by (auto simp: x n simp flip: of_nat_power)
    then have "?j \<le> k" by (intro Least_le) simp
    then show "2 ^ ?j \<le> p" by (simp add: k)
  qed
  with double_until_pow [of 0 n] i show ?thesis
    by (simp add: computeBracketSize_def x n)
qed

subsection \<open>Seeding\<close>

lemma map2_with_seed: "map2 with_seed ps [0..<length ps] = map (\<lambda>i. with_seed (ps ! i) i) [0..<length ps]"
  by (rule nth_equalityI) auto

text \<open>A seeded player without his seed.\<close>

definition unseeded :: "seeded_player \<Rightarrow> player" where
  "unseeded p = \<lparr>pl_id = pl_id p, pl_rating = pl_rating p\<rparr>"

lemma unseeded_with_seed [simp]: "unseeded (with_seed p i) = p"
  by (simp add: unseeded_def with_seed_def)

lemma seedPlayers_Inr:
  "seedPlayers players = Inr sp \<Longrightarrow>
     2 \<le> length players \<and> (\<forall>p \<in> set players. isFinite (pl_rating p)) \<and>
     map unseeded sp = sort_key (\<lambda>p. - js_real (pl_rating p)) players \<and>
     map seed sp = [1..<Suc (length players)]"
proof -
  assume a: "seedPlayers players = Inr sp"
  define ranked where "ranked = sort_key (\<lambda>p. - js_real (pl_rating p)) players"
  have sp: "sp = map (\<lambda>i. with_seed (ranked ! i) i) [0..<length ranked]"
    using a unfolding seedPlayers_def Let_def ranked_def [symmetric] map2_with_seed
    by (simp split: if_splits)
  have "map unseeded sp = ranked"
    by (simp add: sp comp_def map_nth)
  moreover have "map seed sp = [1..<Suc (length players)]"
    by (rule nth_equalityI) (simp_all add: sp ranked_def with_seed_def del: upt_Suc)
  moreover have "2 \<le> length players" "\<forall>p \<in> set players. isFinite (pl_rating p)"
    using a by (auto simp: seedPlayers_def list_ex_iff split: if_splits)
  ultimately show ?thesis by (simp add: ranked_def)
qed

lemma seedPlayers_total:
  "2 \<le> length players \<Longrightarrow> \<forall>p \<in> set players. isFinite (pl_rating p) \<Longrightarrow> \<exists>sp. seedPlayers players = Inr sp"
  by (auto simp: seedPlayers_def Let_def list_ex_iff)

text \<open>
  Seeding is a stable sort: the seeded list holds exactly the registered players, in
  descending order of rating, players of equal rating in registration order, and the seeds are
  1, 2, ..., n.
\<close>

theorem seedPlayers_stable_sort:
  assumes "seedPlayers players = Inr sp"
  shows "mset (map unseeded sp) = mset players \<and>
    sorted_wrt (\<lambda>p q. js_real (pl_rating q) \<le> js_real (pl_rating p)) sp \<and>
    (\<forall>r. filter (\<lambda>p. pl_rating p = r) (map unseeded sp) = filter (\<lambda>p. pl_rating p = r) players) \<and>
    map seed sp = [1..<Suc (length players)]"
proof -
  let ?key = "\<lambda>p :: player. - js_real (pl_rating p)"
  note sp = seedPlayers_Inr [OF assms]
  have "sorted (map ?key (map unseeded sp))" using sp by simp
  then have "sorted_wrt (\<lambda>p q. js_real (pl_rating q) \<le> js_real (pl_rating p)) sp"
    by (simp add: sorted_map sorted_wrt_map unseeded_def)
  moreover have "filter (\<lambda>p. pl_rating p = r) (map unseeded sp) = filter (\<lambda>p. pl_rating p = r) players" for r
  proof (cases "isFinite r")
    case True
    then have eq: "pl_rating p = r \<longleftrightarrow> ?key p = - js_real r" if "p \<in> set players" for p
      using sp that by (auto simp: isFinite_iff)
    have "filter (\<lambda>p. pl_rating p = r) (sort_key ?key players) =
        filter (\<lambda>p. ?key p = - js_real r) (sort_key ?key players)"
      by (rule filter_cong) (auto simp: eq)
    also have "\<dots> = filter (\<lambda>p. ?key p = - js_real r) players"
      by (rule sort_key_stable)
    also have "\<dots> = filter (\<lambda>p. pl_rating p = r) players"
      by (rule filter_cong) (auto simp: eq)
    finally show ?thesis using sp by simp
  next
    case False
    then have "\<forall>p \<in> set players. pl_rating p \<noteq> r" using sp by auto
    then have "filter (\<lambda>p. pl_rating p = r) players = []"
      and "filter (\<lambda>p. pl_rating p = r) (sort_key ?key players) = []"
      by (simp_all add: filter_empty_conv)
    with sp show ?thesis by simp
  qed
  ultimately show ?thesis using sp by simp
qed

theorem seedPlayers_stable_sort_witness:
  "\<exists>sp. seedPlayers [\<lparr>pl_id = ''u1'', pl_rating = Fin 900\<rparr>, \<lparr>pl_id = ''u2'', pl_rating = Fin 1200\<rparr>] = Inr sp \<and>
     map seed sp = [1, 2]"
proof -
  let ?ps = "[\<lparr>pl_id = ''u1'', pl_rating = Fin 900\<rparr>, \<lparr>pl_id = ''u2'', pl_rating = Fin 1200\<rparr>]"
  obtain sp where sp: "seedPlayers ?ps = Inr sp"
    using seedPlayers_total [of ?ps] by auto
  from seedPlayers_stable_sort [OF sp] sp show ?thesis by (simp add: upt_rec)
qed

subsection \<open>The first round\<close>

lemma and_pred_even: "(2 * m) AND (2 * m - 1) = 2 * (m AND (m - 1))" for m :: int
proof -
  have "(2 * m - 1) div 2 = m - 1" by presburger
  then show ?thesis by (simp add: and_int.rec [of "2 * m"])
qed

lemma and_pred_zero_iff:
  fixes n :: int
  assumes "0 < n"
  shows "n AND (n - 1) = 0 \<longleftrightarrow> (\<exists>k. n = 2 ^ k)"
  using assms
proof (induction "nat n" arbitrary: n rule: less_induct)
  case less
  show ?case
  proof (cases "even n")
    case True
    then obtain m where m: "n = 2 * m" by blast
    have "(\<exists>k. n = 2 ^ k) \<longleftrightarrow> (\<exists>k. m = 2 ^ k)"
    proof
      assume "\<exists>k. n = 2 ^ k"
      then obtain k where k: "n = 2 ^ k" by blast
      show "\<exists>k. m = 2 ^ k"
      proof (cases k)
        case 0
        with k True show ?thesis by simp
      next
        case (Suc j)
        with k m show ?thesis by auto
      qed
    next
      assume "\<exists>k. m = 2 ^ k"
      then show "\<exists>k. n = 2 ^ k" by (metis m power_Suc)
    qed
    then show ?thesis
      using less.hyps [of m] less.prems by (simp add: m and_pred_even)
  next
    case False
    then obtain m where m: "n = 2 * m + 1" using oddE by blast
    have "n AND (n - 1) = 2 * m"
      by (simp add: m and_int.rec [of "2 * m + 1"])
    moreover have "(\<exists>k. n = 2 ^ k) \<longleftrightarrow> n = 1"
    proof
      assume "\<exists>k. n = 2 ^ k"
      then obtain k where k: "n = 2 ^ k" by blast
      with False show "n = 1" by (cases k) auto
    qed (auto intro: exI [of _ 0])
    ultimately show ?thesis by (simp add: m)
  qed
qed

lemma isPowerOfTwo_iff:
  assumes "n < 2 ^ 31"
  shows "isPowerOfTwo n \<longleftrightarrow> n > 0 \<and> (\<exists>k. n = 2 ^ k)"
proof (cases "0 < n")
  case True
  have bound: "0 \<le> n AND (n - 1)" "n AND (n - 1) < 2 ^ 32"
    using True assms AND_upper1 [of n "n - 1"] by auto
  have "(word_of_int n :: 32 word) AND word_of_int (n - 1) = word_of_int (n AND (n - 1))"
    by (simp add: of_int_and_eq)
  moreover have "(2::int) ^ 32 dvd x \<longleftrightarrow> x = 0" if "0 \<le> x" "x < 2 ^ 32" for x
    using that zdvd_not_zless [of x "2 ^ 32"] by (cases "x = 0") auto
  then have "(word_of_int (n AND (n - 1)) :: 32 word) = 0 \<longleftrightarrow> n AND (n - 1) = 0"
    using bound by (simp add: word_of_int_eq_0_iff)
  ultimately show ?thesis
    using True by (simp add: isPowerOfTwo_def and_pred_zero_iff)
qed (simp add: isPowerOfTwo_def)

lemma length_slots [simp]: "length (slots sp b) = b"
  by (simp add: slots_def)

lemma nth_slots [simp]: "i < b \<Longrightarrow> slots sp b ! i = (if i < length sp then Some (sp ! i) else None)"
  by (simp add: slots_def)

lemma first_round_matches_eq:
  "first_round_matches sp b =
     map (\<lambda>i. \<lparr>player1 = sp ! i,
                player2 = (if b - 1 - i < length sp then Some (sp ! (b - 1 - i)) else None)\<rparr>)
       [0..<min (length sp) (b div 2)]"
proof -
  let ?m = "\<lambda>i. \<lparr>player1 = sp ! i,
    player2 = (if b - 1 - i < length sp then Some (sp ! (b - 1 - i)) else None)\<rparr>"
  have "concat (map (\<lambda>i. case slots sp b ! i of None \<Rightarrow> []
      | Some p1 \<Rightarrow> [\<lparr>player1 = p1, player2 = slots sp b ! (b - 1 - i)\<rparr>]) [0..<h]) =
      map ?m [0..<min (length sp) h]" if "h \<le> b div 2" for h
    using that
  proof (induction h)
    case (Suc h)
    show ?case
    proof (cases "h < length sp")
      case True
      then have "min (length sp) (Suc h) = Suc h" "min (length sp) h = h" by auto
      with True Suc show ?thesis by simp
    next
      case False
      then have "min (length sp) (Suc h) = min (length sp) h" by auto
      with False Suc show ?thesis by simp
    qed
  qed simp
  then show ?thesis by (simp add: first_round_matches_def Let_def)
qed

text \<open>The players named by a list of matches.\<close>

definition match_players :: "bracket_match list \<Rightarrow> seeded_player list" where
  "match_players ms = concat (map (\<lambda>m. player1 m # (case player2 m of None \<Rightarrow> [] | Some p \<Rightarrow> [p])) ms)"

lemma mset_sum_nth: "mset xs = (\<Sum>i<length xs. {#xs ! i#})"
  by (induction xs rule: rev_induct) (simp_all add: nth_append)

lemma sum_lessThan_split: "(\<Sum>i<a + k. f i) = (\<Sum>i<a. f i) + (\<Sum>i<k. f (a + i))"
  for f :: "nat \<Rightarrow> 'a :: comm_monoid_add"
  by (induction k) (simp_all add: ac_simps)

lemma mset_match_players:
  assumes "length sp \<le> b" and "even b"
  shows "mset (match_players (first_round_matches sp b)) = mset sp"
proof -
  define n where "n = length sp"
  define h where "h = b div 2"
  define opt where "opt = (\<lambda>i. if i < n then {#sp ! i#} else {#})"
  have b: "b = 2 * h" using assms(2) by (simp add: h_def)
  have step: "mset (match_players (map (\<lambda>i. \<lparr>player1 = sp ! i,
      player2 = (if b - 1 - i < n then Some (sp ! (b - 1 - i)) else None)\<rparr>) [0..<min n k])) =
      (\<Sum>i<k. opt i + opt (b - 1 - i))" if "k \<le> h" for k
    using that
  proof (induction k)
    case (Suc k)
    show ?case
    proof (cases "k < n")
      case True
      then have "min n (Suc k) = Suc k" "min n k = k" by auto
      with True Suc show ?thesis by (simp add: match_players_def opt_def)
    next
      case False
      then have "min n (Suc k) = min n k" "\<not> b - Suc k < n" using Suc.prems b by auto
      with False Suc show ?thesis by (simp add: opt_def)
    qed
  qed (simp add: match_players_def)
  have "mset (match_players (first_round_matches sp b)) = (\<Sum>i<h. opt i + opt (b - 1 - i))"
    using step [of h] by (simp add: first_round_matches_eq n_def h_def)
  also have "\<dots> = (\<Sum>i<h. opt i) + (\<Sum>i<h. opt (h + i))"
  proof -
    have "(\<Sum>i<h. opt (b - 1 - i)) = (\<Sum>i<h. opt (h + (h - Suc i)))"
      by (rule sum.cong) (auto simp: b mult_2)
    also have "\<dots> = (\<Sum>i<h. opt (h + i))"
      by (rule sum.nat_diff_reindex)
    finally show ?thesis by (simp add: sum.distrib)
  qed
  also have "\<dots> = (\<Sum>i<h + h. opt i)"
    by (simp add: sum_lessThan_split)
  also have "\<dots> = (\<Sum>i<n. {#sp ! i#})"
    using assms(1) by (intro sum.mono_neutral_cong_right) (auto simp: opt_def b n_def)
  also have "\<dots> = mset sp"
    by (simp add: n_def mset_sum_nth [symmetric])
  finally show ?thesis .
qed

text \<open>
  C17. The first round of a bracket of size b: b is a power of two, the match at position i
  opposes the seeds i + 1 and b - i, a seed whose opponent would be missing has a bye, and every
  seeded player is in exactly one match. There are as many matches as half the bracket, or as
  players when these are fewer.
\<close>

theorem generateFirstRound_pairing:
  assumes "generateFirstRound sp (Fin (of_nat b)) = Inr ms" and "b < 2 ^ 31"
  shows "(\<exists>k. b = 2 ^ k) \<and> length ms = min (length sp) (b div 2) \<and>
    (\<forall>i < length ms. player1 (ms ! i) = sp ! i \<and>
       player2 (ms ! i) = (if b - 1 - i < length sp then Some (sp ! (b - 1 - i)) else None)) \<and>
    mset (match_players ms) = mset sp"
proof -
  from assms(1) have ms: "ms = first_round_matches sp b" and le: "length sp \<le> b" and "2 \<le> b"
    and pow: "isPowerOfTwo (int b)"
    by (auto simp: generateFirstRound_def split: if_splits)
  have "int b < 2 ^ 31" using assms(2) by simp
  with pow obtain k where "int b = 2 ^ k" by (auto simp: isPowerOfTwo_iff)
  then have k: "b = 2 ^ k" by (metis of_nat_eq_iff of_nat_numeral of_nat_power)
  with \<open>2 \<le> b\<close> have "even b" by (cases k) auto
  with mset_match_players [OF le] k show ?thesis
    by (auto simp: ms first_round_matches_eq)
qed

theorem generateFirstRound_pairing_witness:
  "\<exists>sp ms. seedPlayers [\<lparr>pl_id = ''u1'', pl_rating = Fin 900\<rparr>, \<lparr>pl_id = ''u2'', pl_rating = Fin 1200\<rparr>,
       \<lparr>pl_id = ''u3'', pl_rating = Fin 1000\<rparr>] = Inr sp \<and>
     generateFirstRound sp (Fin (of_nat 4)) = Inr ms \<and> length ms = 2 \<and> mset (match_players ms) = mset sp"
proof -
  let ?ps = "[\<lparr>pl_id = ''u1'', pl_rating = Fin 900\<rparr>, \<lparr>pl_id = ''u2'', pl_rating = Fin 1200\<rparr>,
    \<lparr>pl_id = ''u3'', pl_rating = Fin 1000\<rparr>]"
  obtain sp where sp: "seedPlayers ?ps = Inr sp"
    using seedPlayers_total [of ?ps] by auto
  have len: "length sp = 3"
  proof -
    have "length (map unseeded sp) = length ?ps"
      using seedPlayers_Inr [OF sp] by (simp only: length_sort)
    then show ?thesis by simp
  qed
  have p: "isPowerOfTwo 4" by (simp add: isPowerOfTwo_def)
  obtain ms where ms: "generateFirstRound sp (Fin (of_nat 4)) = Inr ms"
    by (simp add: generateFirstRound_def len p)
  have "length ms = 2 \<and> mset (match_players ms) = mset sp"
    using generateFirstRound_pairing [OF ms] len by simp
  with sp ms show ?thesis by blast
qed

end
