(* ===== verification/Match_State.thy ===== *)
theory Match_State
  imports Redis_Store
begin

section \<open>apps/game-service: moves, match state and its state machine\<close>

text \<open>
  Models \<open>rps/resolve.ts\<close>, \<open>match-session/match-session.types.ts\<close> and
  \<open>match-session/match-state-machine.ts\<close>. A move is a datatype; \<open>parse_move\<close> is the type guard
  \<open>isValidMove\<close>, which reads the string sent by a client. An instant is the number of
  milliseconds of a \<open>Date\<close>; its ISO string is the same instant, since \<open>toISOString\<close> and
  \<open>new Date\<close> are inverse. An absent optional field is \<open>None\<close>.
\<close>

subsection \<open>rps/resolve.ts\<close>

datatype Move = Rock | Paper | Scissors

definition VALID_MOVES :: "(string \<times> Move) list" where
  "VALID_MOVES = [(''rock'', Rock), (''paper'', Paper), (''scissors'', Scissors)]"

definition parse_move :: "string \<Rightarrow> Move option" where
  "parse_move value = map_of VALID_MOVES value"

definition isValidMove :: "string \<Rightarrow> bool" where
  "isValidMove value \<longleftrightarrow> value \<in> set (map fst VALID_MOVES)"

datatype RoundWinner = WinA | WinB | Draw

fun winsAgainst :: "Move \<Rightarrow> Move" where
  "winsAgainst Rock = Scissors"
| "winsAgainst Paper = Rock"
| "winsAgainst Scissors = Paper"

definition resolveRps :: "Move \<Rightarrow> Move \<Rightarrow> RoundWinner" where
  "resolveRps moveA moveB =
     (if moveA = moveB then Draw else if winsAgainst moveA = moveB then WinA else WinB)"

subsection \<open>match-session.types.ts\<close>

definition MATCH_SESSION_TTL_SECONDS :: nat where "MATCH_SESSION_TTL_SECONDS = 3600"
definition MATCH_LOCK_TTL_SECONDS :: nat where "MATCH_LOCK_TTL_SECONDS = 2"
definition ROUND_DEADLINE_MS :: int where "ROUND_DEADLINE_MS = 12000"
definition MAX_ROUNDS :: nat where "MAX_ROUNDS = 5"
definition WINS_TO_END :: nat where "WINS_TO_END = 2"

datatype MatchStatus = WAITING_PLAYS | RESOLVING | ENDED

datatype MatchEndReason = BEST_OF_3 | FORFEIT_TIMEOUT | DISCONNECT_FORFEIT | MAX_ROUNDS_DRAW

record MatchPlayer =
  mp_userId :: string
  mp_displayName :: string
  mp_rating :: int

record RoundPlays =
  rp_a :: "Move option"
  rp_b :: "Move option"

datatype RoundLabel = LabelA | LabelB | LabelDraw

record ResolvedRound =
  rr_roundNumber :: nat
  rr_moveA :: "Move option"
  rr_moveB :: "Move option"
  rr_winner :: RoundLabel
  rr_resolvedAt :: time

record MatchState =
  matchId :: string
  players :: "MatchPlayer \<times> MatchPlayer"
  scoreA :: nat
  scoreB :: nat
  currentRound :: nat
  status :: MatchStatus
  startedAt :: time
  roundDeadline :: time
  roundPlays :: RoundPlays
  rounds :: "ResolvedRound list option"
  winnerId :: "string option"
  endReason :: "MatchEndReason option"
  tournamentMatchId :: "string option"

definition matchStateKey :: "string \<Rightarrow> string" where
  "matchStateKey mid = ''match:'' @ mid @ '':state''"

definition matchLockKey :: "string \<Rightarrow> string" where
  "matchLockKey mid = ''match:'' @ mid @ '':lock''"

definition matchChannel :: "string \<Rightarrow> string" where
  "matchChannel mid = ''match:'' @ mid"

definition userMatchKey :: "string \<Rightarrow> string" where
  "userMatchKey userId = ''match:byUser:'' @ userId"

definition playerIndex :: "MatchState \<Rightarrow> string \<Rightarrow> nat option" where
  "playerIndex st userId =
     (if mp_userId (fst (players st)) = userId then Some 0
      else if mp_userId (snd (players st)) = userId then Some 1
      else None)"

definition emptyRoundPlays :: RoundPlays where
  "emptyRoundPlays = \<lparr>rp_a = None, rp_b = None\<rparr>"

subsection \<open>match-state-machine.ts\<close>

datatype SilentPlayer = SilentA | SilentB | SilentBoth

datatype MatchStateMachineEvent =
  PLAYS_RECEIVED
| ROUND_RESOLVED RoundWinner time
| TIMEOUT SilentPlayer time

datatype transition_error = InvalidMatchTransitionError MatchStatus MatchStateMachineEvent

definition endMatch :: "MatchState \<Rightarrow> string option \<Rightarrow> MatchEndReason \<Rightarrow> MatchState" where
  "endMatch st winner reason = st\<lparr>status := ENDED, winnerId := winner, endReason := Some reason\<rparr>"

definition resolveRound :: "MatchState \<Rightarrow> RoundWinner \<Rightarrow> time \<Rightarrow> MatchState" where
  "resolveRound st winner now =
     (let sA = scoreA st + (if winner = WinA then 1 else 0);
          sB = scoreB st + (if winner = WinB then 1 else 0)
      in if sA = WINS_TO_END \<or> sB = WINS_TO_END
         then endMatch (st\<lparr>scoreA := sA, scoreB := sB\<rparr>)
                (Some (if sA = WINS_TO_END then mp_userId (fst (players st))
                       else mp_userId (snd (players st)))) BEST_OF_3
         else if currentRound st \<ge> MAX_ROUNDS
         then endMatch (st\<lparr>scoreA := sA, scoreB := sB\<rparr>) None MAX_ROUNDS_DRAW
         else st\<lparr>scoreA := sA, scoreB := sB, status := WAITING_PLAYS,
                 currentRound := currentRound st + 1,
                 roundDeadline := now + ROUND_DEADLINE_MS,
                 roundPlays := emptyRoundPlays\<rparr>)"

fun transitionMatchState :: "MatchState \<Rightarrow> MatchStateMachineEvent \<Rightarrow> transition_error + MatchState" where
  "transitionMatchState st event =
     (if status st = ENDED then Inl (InvalidMatchTransitionError (status st) event)
      else case event of
        PLAYS_RECEIVED \<Rightarrow>
          (if status st \<noteq> WAITING_PLAYS then Inl (InvalidMatchTransitionError (status st) event)
           else Inr (st\<lparr>status := RESOLVING\<rparr>))
      | ROUND_RESOLVED winner now \<Rightarrow>
          (if status st \<noteq> RESOLVING then Inl (InvalidMatchTransitionError (status st) event)
           else Inr (resolveRound st winner now))
      | TIMEOUT silentPlayer now \<Rightarrow>
          (if status st \<noteq> WAITING_PLAYS then Inl (InvalidMatchTransitionError (status st) event)
           else if silentPlayer = SilentBoth then Inr (endMatch st None FORFEIT_TIMEOUT)
           else Inr (endMatch st
                  (Some (mp_userId ((if silentPlayer = SilentA then snd else fst) (players st))))
                  FORFEIT_TIMEOUT)))"

declare transitionMatchState.simps [simp del]

lemmas machine_defs = transitionMatchState.simps resolveRound_def endMatch_def Let_def
  WINS_TO_END_def MAX_ROUNDS_def

subsection \<open>Moves\<close>

lemma parse_move_valid: "isValidMove v \<longleftrightarrow> (\<exists>m. parse_move v = Some m)"
  by (auto simp: isValidMove_def parse_move_def VALID_MOVES_def)

lemma resolveRps_self [simp]: "resolveRps m m = Draw"
  by (simp add: resolveRps_def)

lemma resolveRps_WinA: "resolveRps a x = WinA \<longleftrightarrow> x = winsAgainst a"
  by (cases a; cases x) (simp_all add: resolveRps_def)

lemma resolveRps_WinB: "resolveRps a x = WinB \<longleftrightarrow> x = winsAgainst (winsAgainst a)"
  by (cases a; cases x) (simp_all add: resolveRps_def)

lemma resolveRps_Draw: "resolveRps a x = Draw \<longleftrightarrow> a = x"
  by (cases a; cases x) (simp_all add: resolveRps_def)

text \<open>
  Rock-paper-scissors is fair: equal moves draw, every move beats exactly one move and loses
  to exactly one, and exchanging the players exchanges the outcome.
\<close>

theorem resolveRps_fair:
  "(resolveRps a b = Draw \<longleftrightarrow> a = b) \<and>
   resolveRps b a = (case resolveRps a b of WinA \<Rightarrow> WinB | WinB \<Rightarrow> WinA | Draw \<Rightarrow> Draw) \<and>
   (\<exists>!x. resolveRps a x = WinA) \<and> (\<exists>!x. resolveRps a x = WinB)"
proof (intro conjI)
  show "resolveRps b a = (case resolveRps a b of WinA \<Rightarrow> WinB | WinB \<Rightarrow> WinA | Draw \<Rightarrow> Draw)"
    by (cases a; cases b) (simp_all add: resolveRps_def)
qed (simp_all add: resolveRps_WinA resolveRps_WinB resolveRps_Draw)

subsection \<open>The machine\<close>

text \<open>
  The transition table: plays are received and timeouts fire only while the match waits for
  plays, a round is resolved only after both plays are in, an ended match accepts no event, and
  every other event is refused with the error that names the state and the event.
\<close>

theorem transition_table:
  "(case transitionMatchState st e of
      Inl err \<Rightarrow> err = InvalidMatchTransitionError (status st) e \<and>
        (status st = ENDED \<or>
         (case e of ROUND_RESOLVED _ _ \<Rightarrow> status st = WAITING_PLAYS | _ \<Rightarrow> status st = RESOLVING))
    | Inr st' \<Rightarrow>
        (case e of
           PLAYS_RECEIVED \<Rightarrow> status st = WAITING_PLAYS \<and> status st' = RESOLVING
         | ROUND_RESOLVED _ _ \<Rightarrow> status st = RESOLVING \<and> status st' \<in> {WAITING_PLAYS, ENDED}
         | TIMEOUT _ _ \<Rightarrow> status st = WAITING_PLAYS \<and> status st' = ENDED \<and>
             endReason st' = Some FORFEIT_TIMEOUT))"
  by (cases "status st"; cases e) (auto simp: machine_defs)

lemma transition_ended [simp]: "status st = ENDED \<Longrightarrow> isl (transitionMatchState st e)"
  by (simp add: transitionMatchState.simps)

text \<open>The fields no event touches.\<close>

lemma transition_frame:
  assumes "transitionMatchState st e = Inr st'"
  shows "matchId st' = matchId st \<and> players st' = players st \<and> rounds st' = rounds st \<and>
    startedAt st' = startedAt st \<and> tournamentMatchId st' = tournamentMatchId st"
  using assms by (auto simp: machine_defs split: if_splits MatchStateMachineEvent.splits)

end
