(* ===== verification/Match_Rules.thy ===== *)
theory Match_Rules
  imports Match_State
begin

section \<open>apps/game-service: the mutators of a match\<close>

text \<open>
  The functions that \<open>match/match-play.service.ts\<close> hands to \<open>mutateState\<close>: a play
  (\<open>trySubmitPlay\<close>), a round timeout (\<open>applyPhaseTimeout\<close>) and a disconnect forfeit
  (\<open>handleDisconnectForfeit\<close>), each from the stored state to the state that replaces it. The
  inductive relation \<open>match_step\<close> has one rule per mutator; \<open>match_inv\<close> holds in every state
  reachable from \<open>buildInitialState\<close>. The abstract specification \<open>best_of_three\<close> reads the
  winner off the list of round results; the machine refines it.
\<close>

datatype PlayErrorCode = WRONG_ROUND | INVALID_MOVE | NOT_IN_MATCH | ALREADY_PLAYED

datatype play_error = PlayValidationError PlayErrorCode | PlayTransitionError transition_error

record RoundResolution =
  rs_moveA :: Move
  rs_moveB :: Move
  rs_roundNumber :: nat

subsection \<open>match-session.service.ts: buildInitialState\<close>

definition buildInitialState ::
  "MatchPlayer \<Rightarrow> MatchPlayer \<Rightarrow> string \<Rightarrow> time \<Rightarrow> string option \<Rightarrow> MatchState" where
  "buildInitialState playerA playerB mid now tid =
     \<lparr>matchId = mid, players = (playerA, playerB), scoreA = 0, scoreB = 0, currentRound = 1,
      status = WAITING_PLAYS, startedAt = now, roundDeadline = now + ROUND_DEADLINE_MS,
      roundPlays = emptyRoundPlays, rounds = None, winnerId = None, endReason = None,
      tournamentMatchId = (if truthy tid then tid else None)\<rparr>"

subsection \<open>match-play.service.ts: the play mutator\<close>

definition label_of :: "RoundWinner \<Rightarrow> RoundLabel" where
  "label_of w = (if w = Draw then LabelDraw else if w = WinA then LabelA else LabelB)"

text \<open>\<open>state.rounds ?? []\<close>\<close>

definition rounds_of :: "MatchState \<Rightarrow> ResolvedRound list" where
  "rounds_of st = (case rounds st of None \<Rightarrow> [] | Some rs \<Rightarrow> rs)"

definition push_round :: "MatchState \<Rightarrow> ResolvedRound \<Rightarrow> MatchState" where
  "push_round st r = st\<lparr>rounds := Some (rounds_of st @ [r])\<rparr>"

definition slot_play :: "nat \<Rightarrow> RoundPlays \<Rightarrow> Move option" where
  "slot_play index p = (if index = 0 then rp_a p else rp_b p)"

definition set_slot :: "nat \<Rightarrow> Move \<Rightarrow> RoundPlays \<Rightarrow> RoundPlays" where
  "set_slot index m p = (if index = 0 then p\<lparr>rp_a := Some m\<rparr> else p\<lparr>rp_b := Some m\<rparr>)"

definition resolve_plays ::
  "MatchState \<Rightarrow> Move \<Rightarrow> Move \<Rightarrow> time \<Rightarrow> play_error + MatchState \<times> RoundResolution option" where
  "resolve_plays updated mA mB resolvedAt =
     (case transitionMatchState updated PLAYS_RECEIVED of
        Inl e \<Rightarrow> Inl (PlayTransitionError e)
      | Inr resolving \<Rightarrow>
          (let winner = resolveRps mA mB in
           case transitionMatchState
              (resolving\<lparr>rounds := Some (rounds_of updated @
                 [\<lparr>rr_roundNumber = currentRound updated, rr_moveA = Some mA, rr_moveB = Some mB,
                   rr_winner = label_of winner, rr_resolvedAt = resolvedAt\<rparr>])\<rparr>)
              (ROUND_RESOLVED winner resolvedAt) of
             Inl e \<Rightarrow> Inl (PlayTransitionError e)
           | Inr st' \<Rightarrow> Inr (st', Some \<lparr>rs_moveA = mA, rs_moveB = mB,
                                        rs_roundNumber = currentRound updated\<rparr>)))"

definition play_mutator ::
  "string \<Rightarrow> int \<Rightarrow> Move \<Rightarrow> time \<Rightarrow> MatchState \<Rightarrow> play_error + MatchState \<times> RoundResolution option" where
  "play_mutator userId roundNumber move resolvedAt st =
     (case playerIndex st userId of
        None \<Rightarrow> Inl (PlayValidationError NOT_IN_MATCH)
      | Some index \<Rightarrow>
          (if status st \<noteq> WAITING_PLAYS \<or> roundNumber \<noteq> int (currentRound st)
           then Inl (PlayValidationError WRONG_ROUND)
           else if slot_play index (roundPlays st) \<noteq> None
           then Inl (PlayValidationError ALREADY_PLAYED)
           else let p = set_slot index move (roundPlays st);
                    updated = st\<lparr>roundPlays := p\<rparr>
                in case (rp_a p, rp_b p) of
                     (Some mA, Some mB) \<Rightarrow> resolve_plays updated mA mB resolvedAt
                   | _ \<Rightarrow> Inr (updated, None)))"

subsection \<open>match-play.service.ts: the timeout mutator\<close>

definition resolveSilentPlayer :: "Move option \<Rightarrow> Move option \<Rightarrow> SilentPlayer" where
  "resolveSilentPlayer slotA slotB =
     (if slotA = None \<and> slotB = None then SilentBoth
      else if slotA = None \<and> slotB \<noteq> None then SilentA
      else if slotB = None \<and> slotA \<noteq> None then SilentB
      else SilentBoth)"

text \<open>
  \<open>applyPhaseTimeout\<close> is called with the expected state \<open>WAITING_PLAYS\<close>, the only member of its
  type, so the silent player is the one who has not played.
\<close>

definition timeout_mutator :: "int \<Rightarrow> time \<Rightarrow> MatchState \<Rightarrow> transition_error + MatchState" where
  "timeout_mutator roundNumber resolvedAt st =
     (if status st \<noteq> WAITING_PLAYS \<or> int (currentRound st) \<noteq> roundNumber then Inr st
      else let silent = resolveSilentPlayer (rp_a (roundPlays st)) (rp_b (roundPlays st)) in
        if silent = SilentBoth then transitionMatchState st (TIMEOUT silent resolvedAt)
        else transitionMatchState
          (push_round st
             \<lparr>rr_roundNumber = nat roundNumber, rr_moveA = rp_a (roundPlays st),
              rr_moveB = rp_b (roundPlays st),
              rr_winner = (if silent = SilentA then LabelB else LabelA),
              rr_resolvedAt = resolvedAt\<rparr>)
          (TIMEOUT silent resolvedAt))"

subsection \<open>match-play.service.ts: the disconnect mutator\<close>

definition disconnect_mutator :: "string \<Rightarrow> MatchState \<Rightarrow> MatchState \<times> bool" where
  "disconnect_mutator userId st =
     (if status st = ENDED then (st, False)
      else case playerIndex st userId of
        None \<Rightarrow> (st, False)
      | Some index \<Rightarrow>
          (st\<lparr>status := ENDED,
              winnerId := Some (mp_userId ((if index = 0 then snd else fst) (players st))),
              endReason := Some DISCONNECT_FORFEIT\<rparr>, True))"

subsection \<open>Reachable states\<close>

inductive match_step :: "MatchState \<Rightarrow> MatchState \<Rightarrow> bool" where
  play: "play_mutator u n m now st = Inr (st', res) \<Longrightarrow> match_step st st'"
| timeout: "timeout_mutator n now st = Inr st' \<Longrightarrow> match_step st st'"
| disconnect: "disconnect_mutator u st = (st', f) \<Longrightarrow> match_step st st'"

inductive match_reachable :: "MatchState \<Rightarrow> bool" where
  init: "match_reachable (buildInitialState a b mid now tid)"
| step: "match_reachable st \<Longrightarrow> match_step st st' \<Longrightarrow> match_reachable st'"

inductive_cases match_stepE: "match_step st st'"

subsection \<open>The invariant\<close>

definition wins :: "RoundLabel \<Rightarrow> ResolvedRound list \<Rightarrow> nat" where
  "wins l rs = length (filter (\<lambda>r. rr_winner r = l) rs)"

text \<open>A round that both players played carries the label of the rules of the game.\<close>

definition played_round :: "ResolvedRound \<Rightarrow> bool" where
  "played_round r \<longleftrightarrow> (\<exists>a b. rr_moveA r = Some a \<and> rr_moveB r = Some b \<and>
     rr_winner r = label_of (resolveRps a b))"

text \<open>The numbers of the rounds are 1, 2, ...\<close>

definition numbered :: "ResolvedRound list \<Rightarrow> bool" where
  "numbered rs \<longleftrightarrow> map rr_roundNumber rs = [1..<Suc (length rs)]"

text \<open>What is true of the rounds played so far, whatever ended the match.\<close>

definition score_inv :: "MatchState \<Rightarrow> ResolvedRound list \<Rightarrow> bool" where
  "score_inv st rs \<longleftrightarrow> (\<forall>r \<in> set rs. played_round r) \<and> numbered rs \<and>
     scoreA st = wins LabelA rs \<and> scoreB st = wins LabelB rs"

definition undecided :: "ResolvedRound list \<Rightarrow> bool" where
  "undecided rs \<longleftrightarrow> wins LabelA rs < WINS_TO_END \<and> wins LabelB rs < WINS_TO_END"

definition open_inv :: "MatchState \<Rightarrow> ResolvedRound list \<Rightarrow> bool" where
  "open_inv st rs \<longleftrightarrow> score_inv st rs \<and> length rs + 1 = currentRound st \<and> currentRound st \<le> MAX_ROUNDS \<and>
     undecided rs \<and> (rp_a (roundPlays st) = None \<or> rp_b (roundPlays st) = None)"

definition waiting_inv :: "MatchState \<Rightarrow> bool" where
  "waiting_inv st \<longleftrightarrow> status st = WAITING_PLAYS \<and> open_inv st (rounds_of st) \<and>
     winnerId st = None \<and> endReason st = None"

definition uid :: "MatchState \<Rightarrow> RoundLabel \<Rightarrow> string option" where
  "uid st l = (case l of LabelA \<Rightarrow> Some (mp_userId (fst (players st)))
     | LabelB \<Rightarrow> Some (mp_userId (snd (players st))) | LabelDraw \<Rightarrow> None)"

definition ended_inv :: "MatchState \<Rightarrow> bool" where
  "ended_inv st \<longleftrightarrow> status st = ENDED \<and>
     (case endReason st of
        None \<Rightarrow> False
      | Some BEST_OF_3 \<Rightarrow> score_inv st (rounds_of st) \<and> length (rounds_of st) = currentRound st \<and>
          currentRound st \<le> MAX_ROUNDS \<and> undecided (butlast (rounds_of st)) \<and>
          (scoreA st = WINS_TO_END \<and> scoreB st < WINS_TO_END \<and> winnerId st = uid st LabelA \<or>
           scoreB st = WINS_TO_END \<and> scoreA st < WINS_TO_END \<and> winnerId st = uid st LabelB)
      | Some MAX_ROUNDS_DRAW \<Rightarrow> score_inv st (rounds_of st) \<and> length (rounds_of st) = MAX_ROUNDS \<and>
          currentRound st = MAX_ROUNDS \<and> undecided (rounds_of st) \<and> winnerId st = None
      | Some FORFEIT_TIMEOUT \<Rightarrow>
          (case (rp_a (roundPlays st), rp_b (roundPlays st)) of
             (None, None) \<Rightarrow> open_inv st (rounds_of st) \<and> winnerId st = None
           | (a, b) \<Rightarrow> \<exists>rs r. rounds_of st = rs @ [r] \<and> open_inv st rs \<and>
                 rr_moveA r = a \<and> rr_moveB r = b \<and> rr_roundNumber r = currentRound st \<and>
                 rr_winner r = (if a = None then LabelB else LabelA) \<and>
                 winnerId st = uid st (rr_winner r))
      | Some DISCONNECT_FORFEIT \<Rightarrow> open_inv st (rounds_of st) \<and>
          (winnerId st = uid st LabelA \<or> winnerId st = uid st LabelB))"

definition match_inv :: "MatchState \<Rightarrow> bool" where
  "match_inv st \<longleftrightarrow> waiting_inv st \<or> ended_inv st"

lemma wins_Nil [simp]: "wins l [] = 0"
  by (simp add: wins_def)

lemma wins_snoc [simp]: "wins l (rs @ [r]) = wins l rs + (if rr_winner r = l then 1 else 0)"
  by (simp add: wins_def)

lemma label_of_simps [simp]:
  "label_of WinA = LabelA" "label_of WinB = LabelB" "label_of Draw = LabelDraw"
  by (simp_all add: label_of_def)

lemma label_of_eq [simp]:
  "label_of w = LabelA \<longleftrightarrow> w = WinA" "label_of w = LabelB \<longleftrightarrow> w = WinB"
  "label_of w = LabelDraw \<longleftrightarrow> w = Draw"
  by (cases w; simp)+

lemma numbered_snoc: "numbered rs \<Longrightarrow> rr_roundNumber r = length rs + 1 \<Longrightarrow> numbered (rs @ [r])"
  by (simp add: numbered_def)

lemma rounds_of_simps [simp]:
  "rounds_of (st\<lparr>rounds := Some rs\<rparr>) = rs" "rounds_of (push_round st r) = rounds_of st @ [r]"
  "rounds_of (st\<lparr>status := s\<rparr>) = rounds_of st" "rounds_of (st\<lparr>winnerId := w\<rparr>) = rounds_of st"
  "rounds_of (st\<lparr>endReason := e\<rparr>) = rounds_of st" "rounds_of (st\<lparr>roundPlays := p\<rparr>) = rounds_of st"
  "rounds_of (st\<lparr>scoreA := n\<rparr>) = rounds_of st" "rounds_of (st\<lparr>scoreB := n\<rparr>) = rounds_of st"
  "rounds_of (st\<lparr>currentRound := n\<rparr>) = rounds_of st" "rounds_of (st\<lparr>roundDeadline := d\<rparr>) = rounds_of st"
  by (simp_all add: rounds_of_def push_round_def)

lemma waiting_buildInitialState: "waiting_inv (buildInitialState a b mid now tid)"
  by (simp add: waiting_inv_def open_inv_def score_inv_def numbered_def buildInitialState_def
      rounds_of_def emptyRoundPlays_def MAX_ROUNDS_def WINS_TO_END_def undecided_def)

subsection \<open>The play mutator, by cases\<close>

text \<open>The state after both plays of a round are in.\<close>

definition after_round :: "MatchState \<Rightarrow> Move \<Rightarrow> Move \<Rightarrow> time \<Rightarrow> MatchState" where
  "after_round st a b now = resolveRound
     (st\<lparr>status := RESOLVING,
         rounds := Some (rounds_of st @
           [\<lparr>rr_roundNumber = currentRound st, rr_moveA = Some a, rr_moveB = Some b,
             rr_winner = label_of (resolveRps a b), rr_resolvedAt = now\<rparr>])\<rparr>)
     (resolveRps a b) now"

lemma resolve_plays_eq:
  "status st = WAITING_PLAYS \<Longrightarrow> resolve_plays st a b now =
     Inr (after_round st a b now,
          Some \<lparr>rs_moveA = a, rs_moveB = b, rs_roundNumber = currentRound st\<rparr>)"
  by (simp add: resolve_plays_def transitionMatchState.simps after_round_def Let_def)

lemma play_mutator_Inr:
  "play_mutator u n m now st = Inr (st', res) \<Longrightarrow>
     status st = WAITING_PLAYS \<and> n = int (currentRound st) \<and>
     (\<exists>i p. playerIndex st u = Some i \<and> slot_play i (roundPlays st) = None \<and>
        p = set_slot i m (roundPlays st) \<and>
        ((rp_a p = None \<or> rp_b p = None) \<and> st' = st\<lparr>roundPlays := p\<rparr> \<and> res = None \<or>
         (\<exists>a b. rp_a p = Some a \<and> rp_b p = Some b \<and>
            st' = after_round (st\<lparr>roundPlays := p\<rparr>) a b now \<and>
            res = Some \<lparr>rs_moveA = a, rs_moveB = b, rs_roundNumber = currentRound st\<rparr>)))"
  unfolding play_mutator_def Let_def
  by (fastforce simp: resolve_plays_eq split: option.splits if_splits)

lemma playerIndex_01: "playerIndex st u = Some i \<Longrightarrow> i = 0 \<or> i = 1"
  by (auto simp: playerIndex_def split: if_splits)

lemma after_round_inv:
  assumes "waiting_inv st"
  shows "match_inv (after_round (st\<lparr>roundPlays := p\<rparr>) a b now)"
proof -
  define r where "r = \<lparr>rr_roundNumber = currentRound st, rr_moveA = Some a, rr_moveB = Some b,
    rr_winner = label_of (resolveRps a b), rr_resolvedAt = now\<rparr>"
  have r: "played_round r" "rr_winner r = label_of (resolveRps a b)" "rr_roundNumber r = currentRound st"
    by (simp_all add: played_round_def r_def)
  have st: "status st = WAITING_PLAYS" "score_inv st (rounds_of st)" "undecided (rounds_of st)"
    "length (rounds_of st) + 1 = currentRound st" "currentRound st \<le> MAX_ROUNDS"
    "winnerId st = None" "endReason st = None"
    using assms by (auto simp: waiting_inv_def open_inv_def)
  have num: "numbered (rounds_of st @ [r])"
    using st by (intro numbered_snoc) (auto simp: score_inv_def r)
  have after: "after_round (st\<lparr>roundPlays := p\<rparr>) a b now =
      resolveRound (st\<lparr>roundPlays := p, status := RESOLVING, rounds := Some (rounds_of st @ [r])\<rparr>)
        (resolveRps a b) now"
    by (simp add: after_round_def r_def)
  show ?thesis
    using st num r unfolding after
    by (cases "resolveRps a b")
      (auto simp: resolveRound_def endMatch_def Let_def match_inv_def waiting_inv_def ended_inv_def
        open_inv_def score_inv_def undecided_def uid_def WINS_TO_END_def MAX_ROUNDS_def emptyRoundPlays_def)
qed

lemma play_mutator_inv:
  assumes "match_inv st" and "play_mutator u n m now st = Inr (st', res)"
  shows "match_inv st'"
proof -
  from play_mutator_Inr [OF assms(2)] obtain i p where w: "status st = WAITING_PLAYS"
    and st': "(rp_a p = None \<or> rp_b p = None) \<and> st' = st\<lparr>roundPlays := p\<rparr> \<or>
      (\<exists>a b. st' = after_round (st\<lparr>roundPlays := p\<rparr>) a b now)"
    by blast
  from assms(1) w have "waiting_inv st"
    by (auto simp: match_inv_def ended_inv_def)
  with st' show ?thesis
    by (auto simp: after_round_inv) (auto simp: match_inv_def waiting_inv_def open_inv_def score_inv_def)
qed

subsection \<open>The other mutators keep the invariant\<close>

lemma timeout_mutator_inv:
  assumes "match_inv st" and "timeout_mutator n now st = Inr st'"
  shows "match_inv st'"
proof (cases "status st = WAITING_PLAYS \<and> int (currentRound st) = n")
  case False
  with assms show ?thesis by (auto simp: timeout_mutator_def split: if_splits)
next
  case True
  with assms(1) have "waiting_inv st" by (auto simp: match_inv_def ended_inv_def)
  with True assms(2) show ?thesis
    by (auto simp: timeout_mutator_def Let_def resolveSilentPlayer_def transitionMatchState.simps
        endMatch_def push_round_def match_inv_def waiting_inv_def ended_inv_def open_inv_def
        score_inv_def uid_def split: if_splits option.splits)
qed

lemma disconnect_mutator_inv:
  assumes "match_inv st" and "disconnect_mutator u st = (st', f)"
  shows "match_inv st'"
proof (cases "status st = ENDED")
  case True
  with assms show ?thesis by (simp add: disconnect_mutator_def)
next
  case False
  with assms(1) have "waiting_inv st" by (auto simp: match_inv_def ended_inv_def)
  with assms show ?thesis
    by (auto simp: disconnect_mutator_def match_inv_def waiting_inv_def ended_inv_def open_inv_def
        score_inv_def uid_def split: if_splits option.splits)
qed

lemma match_step_inv: "match_step st st' \<Longrightarrow> match_inv st \<Longrightarrow> match_inv st'"
  by (induction rule: match_step.induct)
    (auto intro: play_mutator_inv timeout_mutator_inv disconnect_mutator_inv)

lemma match_reachable_inv: "match_reachable st \<Longrightarrow> match_inv st"
proof (induction rule: match_reachable.induct)
  case (init a b mid now tid)
  show ?case by (simp add: match_inv_def waiting_buildInitialState)
next
  case (step st st')
  from step.hyps(2) step.IH show ?case by (rule match_step_inv)
qed

subsection \<open>Reachable states, in the terms of the code\<close>

lemma match_inv_cases:
  assumes "match_inv st"
  obtains "waiting_inv st" | "ended_inv st"
  using assms by (auto simp: match_inv_def)



subsection \<open>The abstract specification: a best of three\<close>

text \<open>
  What the rules of the game promise, over the list of results alone: the first player to win two
  rounds wins; nobody has won before that.
\<close>

definition label_wins :: "RoundLabel \<Rightarrow> RoundLabel list \<Rightarrow> nat" where
  "label_wins l ls = length (filter (\<lambda>x. x = l) ls)"

fun best_of_three :: "RoundLabel list \<Rightarrow> nat \<Rightarrow> nat \<Rightarrow> RoundLabel option" where
  "best_of_three [] a b = None"
| "best_of_three (l # ls) a b =
     (if l = LabelA \<and> Suc a = 2 then Some LabelA
      else if l = LabelB \<and> Suc b = 2 then Some LabelB
      else best_of_three ls (if l = LabelA then Suc a else a) (if l = LabelB then Suc b else b))"

definition result_of :: "ResolvedRound list \<Rightarrow> RoundLabel option" where
  "result_of rs = best_of_three (map rr_winner rs) 0 0"

lemma best_of_three_undecided:
  "a + label_wins LabelA ls < 2 \<Longrightarrow> b + label_wins LabelB ls < 2 \<Longrightarrow> best_of_three ls a b = None"
  by (induction ls arbitrary: a b) (auto simp: label_wins_def split: if_splits)

lemma best_of_three_snoc:
  "a + label_wins LabelA ls < 2 \<Longrightarrow> b + label_wins LabelB ls < 2 \<Longrightarrow>
   best_of_three (ls @ [l]) a b =
     (if l = LabelA \<and> a + label_wins LabelA ls = 1 then Some LabelA
      else if l = LabelB \<and> b + label_wins LabelB ls = 1 then Some LabelB else None)"
  by (induction ls arbitrary: a b) (auto simp: label_wins_def split: if_splits)

lemma wins_label_wins: "wins l rs = label_wins l (map rr_winner rs)"
  by (simp add: wins_def label_wins_def filter_map o_def)

lemma result_of_undecided: "undecided rs \<Longrightarrow> result_of rs = None"
  by (simp add: result_of_def undecided_def WINS_TO_END_def wins_label_wins best_of_three_undecided)

lemma result_of_decided:
  assumes "undecided (butlast rs)" and "wins l rs = 2" and "l \<noteq> LabelDraw"
  shows "result_of rs = Some l"
proof -
  have "rs \<noteq> []" using assms(2) by auto
  then obtain qs r where rs: "rs = qs @ [r]" by (metis rev_exhaust)
  have q: "label_wins LabelA (map rr_winner qs) < 2" "label_wins LabelB (map rr_winner qs) < 2"
    using assms(1) by (simp_all add: rs undecided_def WINS_TO_END_def wins_label_wins)
  then show ?thesis
    using assms(2,3) by (cases l) (auto simp: rs result_of_def best_of_three_snoc wins_label_wins [symmetric]
        split: if_splits)
qed

text \<open>
  C1. Refinement: the state machine implements the best of three. In every reachable state, a
  match that waits for plays has undecided rounds; one that ended with BEST_OF_3 has the winner
  that the rules read off its rounds, and its last round is the one that decided; one that ended
  with MAX_ROUNDS_DRAW has five undecided rounds and no winner.
\<close>

theorem match_refines_best_of_three:
  assumes "match_reachable st"
  shows "(status st = WAITING_PLAYS \<longrightarrow> result_of (rounds_of st) = None) \<and>
    (endReason st = Some BEST_OF_3 \<longrightarrow> result_of (butlast (rounds_of st)) = None \<and>
       (\<exists>l. result_of (rounds_of st) = Some l \<and> winnerId st = uid st l \<and> l \<noteq> LabelDraw)) \<and>
    (endReason st = Some MAX_ROUNDS_DRAW \<longrightarrow> result_of (rounds_of st) = None \<and>
       length (rounds_of st) = 5 \<and> winnerId st = None)"
proof -
  have "match_inv st" using assms by (rule match_reachable_inv)
  then show ?thesis
  proof (cases rule: match_inv_cases)
    case 1
    then show ?thesis by (auto simp: waiting_inv_def open_inv_def result_of_undecided)
  next
    case 2
    then show ?thesis
      by (auto simp: ended_inv_def score_inv_def WINS_TO_END_def MAX_ROUNDS_def
          result_of_undecided result_of_decided
          split: option.splits MatchEndReason.splits)
  qed
qed

text \<open>A match between two players that alice wins two to nothing.\<close>

definition demo_players :: "MatchPlayer \<times> MatchPlayer" where
  "demo_players = (\<lparr>mp_userId = ''a'', mp_displayName = ''A'', mp_rating = 1000\<rparr>,
     \<lparr>mp_userId = ''b'', mp_displayName = ''B'', mp_rating = 1000\<rparr>)"

fun run_plays :: "(string \<times> int \<times> Move \<times> time) list \<Rightarrow> MatchState \<Rightarrow> play_error + MatchState" where
  "run_plays [] st = Inr st"
| "run_plays ((u, n, m, t) # ps) st =
     (case play_mutator u n m t st of Inl e \<Rightarrow> Inl e | Inr (st', _) \<Rightarrow> run_plays ps st')"

lemma run_plays_reachable:
  "run_plays ps st = Inr st' \<Longrightarrow> match_reachable st \<Longrightarrow> match_reachable st'"
proof (induction ps arbitrary: st)
  case (Cons p ps)
  then show ?case
    by (cases p) (auto split: sum.splits dest: match_reachable.step [OF _ match_step.play])
qed simp

lemma demo_run:
  "\<exists>st. run_plays [(''a'', 1, Rock, 1), (''b'', 1, Scissors, 2), (''b'', 2, Rock, 3), (''a'', 2, Paper, 4)]
     (buildInitialState (fst demo_players) (snd demo_players) ''m'' 0 None) = Inr st \<and>
     endReason st = Some BEST_OF_3 \<and> winnerId st = Some ''a''"
  by (simp add: play_mutator_def playerIndex_def slot_play_def set_slot_def resolve_plays_def Let_def
      machine_defs resolveRps_def rounds_of_def demo_players_def buildInitialState_def emptyRoundPlays_def)

lemma match_refines_best_of_three_witness:
  "\<exists>st l. match_reachable st \<and> endReason st = Some BEST_OF_3 \<and> result_of (rounds_of st) = Some l \<and>
     winnerId st = uid st l"
proof -
  from demo_run obtain st where "match_reachable st" "endReason st = Some BEST_OF_3"
    by (meson run_plays_reachable match_reachable.init)
  with match_refines_best_of_three [of st] show ?thesis by blast
qed

subsection \<open>A match that is played ends\<close>

text \<open>Both players send their moves for each round until the match has ended.\<close>

fun play_rounds :: "(Move \<times> Move \<times> time) list \<Rightarrow> MatchState \<Rightarrow> play_error + MatchState" where
  "play_rounds [] st = Inr st"
| "play_rounds ((x, y, t) # ms) st =
     (if status st = ENDED then Inr st
      else case run_plays [(mp_userId (fst (players st)), int (currentRound st), x, t),
                           (mp_userId (snd (players st)), int (currentRound st), y, t)] st of
             Inl e \<Rightarrow> Inl e
           | Inr st' \<Rightarrow> play_rounds ms st')"

definition outcome_of :: "Move \<times> Move \<times> time \<Rightarrow> RoundLabel" where
  "outcome_of m = label_of (resolveRps (fst m) (fst (snd m)))"

lemma both_plays:
  assumes "status st = WAITING_PLAYS" and "roundPlays st = emptyRoundPlays"
    and "mp_userId (fst (players st)) \<noteq> mp_userId (snd (players st))"
  shows "run_plays [(mp_userId (fst (players st)), int (currentRound st), x, t),
      (mp_userId (snd (players st)), int (currentRound st), y, t)] st
    = Inr (after_round (st\<lparr>roundPlays := \<lparr>rp_a = Some x, rp_b = Some y\<rparr>\<rparr>) x y t)"
  using assms
  by (simp add: play_mutator_def playerIndex_def slot_play_def set_slot_def emptyRoundPlays_def
      Let_def resolve_plays_eq)

lemma after_round_fields:
  assumes "status st = WAITING_PLAYS" and "scoreA st < 2" and "scoreB st < 2"
  shows "let st' = after_round st x y t; l = label_of (resolveRps x y);
             sA = (if l = LabelA then Suc (scoreA st) else scoreA st);
             sB = (if l = LabelB then Suc (scoreB st) else scoreB st) in
    players st' = players st \<and> scoreA st' = sA \<and> scoreB st' = sB \<and>
    (if sA = 2 \<or> sB = 2 then status st' = ENDED \<and> winnerId st' = uid st l \<and> l \<noteq> LabelDraw
     else if 5 \<le> currentRound st then status st' = ENDED \<and> winnerId st' = None
     else status st' = WAITING_PLAYS \<and> currentRound st' = Suc (currentRound st) \<and>
       roundPlays st' = emptyRoundPlays)"
  using assms
  by (cases "resolveRps x y")
    (auto simp: after_round_def resolveRound_def endMatch_def Let_def WINS_TO_END_def MAX_ROUNDS_def uid_def)

lemma play_rounds_ended: "status st = ENDED \<Longrightarrow> play_rounds ms st = Inr st"
  by (cases ms) auto

lemma play_rounds_run:
  assumes "status st = WAITING_PLAYS" and "roundPlays st = emptyRoundPlays"
    and "mp_userId (fst (players st)) \<noteq> mp_userId (snd (players st))"
    and "scoreA st < 2" and "scoreB st < 2" and "length ms + currentRound st = 6" and "ms \<noteq> []"
  shows "\<exists>st'. play_rounds ms st = Inr st' \<and> status st' = ENDED \<and>
    winnerId st' = Option.bind (best_of_three (map outcome_of ms) (scoreA st) (scoreB st)) (uid st)"
  using assms
proof (induction ms arbitrary: st)
  case (Cons m ms)
  obtain x y t where m: "m = (x, y, t)" by (metis prod_cases3)
  define st1 where "st1 = after_round (st\<lparr>roundPlays := \<lparr>rp_a = Some x, rp_b = Some y\<rparr>\<rparr>) x y t"
  define l where "l = label_of (resolveRps x y)"
  have run: "play_rounds (m # ms) st = play_rounds ms st1"
    using Cons.prems both_plays [of st x t y] by (simp add: m st1_def del: run_plays.simps)
  have l: "outcome_of m = l" by (simp add: outcome_of_def m l_def)
  note f = after_round_fields [of "st\<lparr>roundPlays := \<lparr>rp_a = Some x, rp_b = Some y\<rparr>\<rparr>" x y t,
      folded st1_def l_def, unfolded Let_def, simplified, OF Cons.prems(1,4,5)]
  have u: "uid (st\<lparr>roundPlays := p\<rparr>) = uid st" for p by (rule ext) (simp add: uid_def split: RoundLabel.split)
  have u1: "uid st1 = uid st" by (rule ext) (simp add: uid_def f split: RoundLabel.split)
  show ?case
  proof (cases "scoreA st1 = 2 \<or> scoreB st1 = 2")
    case True
    then show ?thesis
      using f Cons.prems(4,5) unfolding run
      by (cases l) (auto simp: l u play_rounds_ended split: if_splits)
  next
    case False
    show ?thesis
    proof (cases "ms = []")
      case True
      then show ?thesis
        using f False Cons.prems(4-6) unfolding run
        by (cases l) (auto simp: l u play_rounds_ended split: if_splits)
    next
      case ms: False
      then have "\<not> 5 \<le> currentRound st" using Cons.prems(6) by (cases ms) auto
      with f False have w: "status st1 = WAITING_PLAYS" "currentRound st1 = Suc (currentRound st)"
        "roundPlays st1 = emptyRoundPlays" "players st1 = players st"
        by (auto split: if_splits)
      have sc: "scoreA st1 < 2" "scoreB st1 < 2"
        using f False Cons.prems(4,5) by (auto split: if_splits)
      obtain st' where st': "play_rounds ms st1 = Inr st'" "status st' = ENDED"
        "winnerId st' = Option.bind (best_of_three (map outcome_of ms) (scoreA st1) (scoreB st1)) (uid st1)"
        using Cons.IH [of st1] w sc ms Cons.prems(3,6) by auto
      moreover have "best_of_three (map outcome_of (m # ms)) (scoreA st) (scoreB st)
          = best_of_three (map outcome_of ms) (scoreA st1) (scoreB st1)"
        using f False by (cases l) (auto simp: l)
      ultimately show ?thesis unfolding run by (simp add: u1)
    qed
  qed
qed simp

text \<open>
  C3. A match between two different users ends: when both send their moves for each round, after at
  most five rounds the match has ended, every play is accepted, and the winner is the one the best
  of three gives for the results of the moves (nobody after five undecided rounds).
\<close>

theorem match_ends_within_five_rounds:
  assumes "mp_userId a \<noteq> mp_userId b" and "length ms = 5"
  shows "\<exists>st'. play_rounds ms (buildInitialState a b mid now tid) = Inr st' \<and> status st' = ENDED \<and>
    winnerId st' = Option.bind (best_of_three (map outcome_of ms) 0 0)
      (uid (buildInitialState a b mid now tid))"
proof -
  let ?st = "buildInitialState a b mid now tid"
  have "status ?st = WAITING_PLAYS" "roundPlays ?st = emptyRoundPlays" "scoreA ?st = 0" "scoreB ?st = 0"
    "currentRound ?st = 1" "players ?st = (a, b)"
    by (simp_all add: buildInitialState_def)
  moreover have "ms \<noteq> []" using assms(2) by auto
  ultimately show ?thesis using play_rounds_run [of ?st ms] assms by simp
qed

lemma match_ends_within_five_rounds_witness:
  "\<exists>st'. play_rounds (replicate 5 (Rock, Paper, 7))
      (buildInitialState (fst demo_players) (snd demo_players) ''m'' 0 None) = Inr st' \<and>
     winnerId st' = Some ''b''"
proof -
  have "mp_userId (fst demo_players) \<noteq> mp_userId (snd demo_players)"
    "length (replicate 5 (Rock, Paper, 7::int)) = 5"
    by (simp_all add: demo_players_def)
  from match_ends_within_five_rounds [OF this, of "''m''" 0 None] show ?thesis
    by (auto simp: outcome_of_def resolveRps_def eval_nat_numeral uid_def buildInitialState_def demo_players_def)
qed

end
