(* ===== verification/Game_Redis.thy ===== *)
theory Game_Redis
  imports Redis_Store Match_Rules Elo
begin

section \<open>apps/game-service: Redis, the queues and the other external services\<close>

text \<open>
  The clients the game service is built on (ioredis, BullMQ, prom-client, socket.io, the clock of
  the process) are not part of the repository: \<open>env\<close> is a record of their operations over an
  arbitrary state \<open>'s\<close>, and every handler takes it as an argument. The documentation of the
  clients is the instance \<open>mem_env\<close> over the \<open>world\<close> record (the keys of Redis with their expiry,
  the jobs of the queues, the messages published and emitted, the counters). The named hypothesis
  \<open>env_ok\<close> says that the client of the deployment behaves as documented, through a view of its
  state. Any remote call may fail: \<open>outages\<close> is the schedule of the calls that do.

  \<open>redis/redis.service.ts\<close> is then a layer of definitions over the client. A Lua script runs
  atomically, as a function of the key space. A stored text is a string or the JSON of a match
  state; \<open>JSON.stringify\<close> and \<open>JSON.parse\<close> are inverse on match states. Logging is left out.
\<close>

subsection \<open>Exceptions, messages, jobs and counters\<close>

datatype exn =
  RedisEx redis_error | RedisNotConnected | QueueError
| MatchSessionNotFoundError string | MatchSessionLockError string
| PlayEx play_error | TransitionEx transition_error | EloEx EloErrorCode

datatype bus_event =
  matchFound string MatchPlayer nat
| roundStart string nat time
| roundResolved string nat Move Move RoundLabel nat nat
| matchEnded string "string option" "nat \<times> nat" "int \<times> int" "MatchEndReason option"

record bus_msg =
  bm_event :: bus_event
  bm_recipient :: "string option"

record ended_payload =
  ep_matchId :: string
  ep_winner :: "string option"
  ep_finalScore :: "nat \<times> nat"
  ep_eloDelta :: "int \<times> int"
  ep_players :: "MatchPlayer \<times> MatchPlayer"
  ep_rounds :: "ResolvedRound list"
  ep_endReason :: "MatchEndReason option"
  ep_startedAt :: time
  ep_tournamentMatchId :: "string option"

datatype job_data =
  TimeoutJob string nat
| ForfeitJob string string
| EndedJob ended_payload

record job =
  job_queue :: string
  job_id :: string
  job_name :: string
  job_data :: job_data
  job_delay :: int
  job_attempts :: nat
  job_active :: bool

record resumed_payload =
  rp_matchId :: string
  rp_currentRound :: nat
  rp_scores :: "nat \<times> nat"
  rp_currentState :: MatchStatus
  rp_deadline :: time

datatype socket_event =
  EmitBus bus_event
| EmitConnected string string
| EmitResumed resumed_payload
| EmitError string
| EmitQueueJoined time int
| EmitQueueLeft

datatype metric =
  MatchPlayed string
| ReconnectTotal string
| QueueSize nat
| MatchDuration real

subsection \<open>The clients, as parameters\<close>

type_synonym game_redis = "MatchState redis"

type_synonym script = "game_redis \<Rightarrow> (redis_error + nat) \<times> game_redis"

record 's redis_client =
  rc_get :: "string \<Rightarrow> ('s, exn, MatchState stored option) eff"
  rc_set :: "string \<Rightarrow> MatchState stored \<Rightarrow> nat \<Rightarrow> ('s, exn, unit) eff"
  rc_set_nx :: "string \<Rightarrow> MatchState stored \<Rightarrow> nat \<Rightarrow> ('s, exn, bool) eff"
  rc_del :: "string \<Rightarrow> ('s, exn, nat) eff"
  rc_hset :: "string \<Rightarrow> (string \<times> string) list \<Rightarrow> ('s, exn, unit) eff"
  rc_hgetall :: "string \<Rightarrow> ('s, exn, (string \<times> string) list) eff"
  rc_zadd :: "string \<Rightarrow> int \<Rightarrow> string \<Rightarrow> ('s, exn, unit) eff"
  rc_zrem :: "string \<Rightarrow> string \<Rightarrow> ('s, exn, nat) eff"
  rc_zcard :: "string \<Rightarrow> ('s, exn, nat) eff"
  rc_zscore :: "string \<Rightarrow> string \<Rightarrow> ('s, exn, int option) eff"
  rc_zrange :: "string \<Rightarrow> ('s, exn, (string \<times> int) list) eff"
  rc_incr :: "string \<Rightarrow> ('s, exn, int) eff"
  rc_expire :: "string \<Rightarrow> nat \<Rightarrow> ('s, exn, unit) eff"
  rc_publish :: "string \<Rightarrow> bus_msg \<Rightarrow> ('s, exn, unit) eff"
  rc_eval :: "script \<Rightarrow> ('s, exn, nat) eff"

record 's queue_client =
  qc_add :: "string \<Rightarrow> string \<Rightarrow> job_data \<Rightarrow> string option \<Rightarrow> int \<Rightarrow> nat \<Rightarrow> ('s, exn, string) eff"
  qc_getJob :: "string \<Rightarrow> string \<Rightarrow> ('s, exn, bool) eff"
  qc_remove :: "string \<Rightarrow> string \<Rightarrow> ('s, exn, unit) eff"

record 's env =
  e_redis :: "'s redis_client option"
  e_queue :: "'s queue_client option"
  e_now :: "('s, exn, time) eff"
  e_sleep :: "int \<Rightarrow> ('s, exn, unit) eff"
  e_metric :: "metric \<Rightarrow> ('s, exn, unit) eff"
  e_emit :: "string \<Rightarrow> socket_event \<Rightarrow> ('s, exn, unit) eff"

subsection \<open>Their documented behaviour\<close>

record world =
  rd :: game_redis
  outages :: "bool list"
  published :: "(string \<times> bus_msg) list"
  jobs :: "job list"
  next_job :: nat
  metrics :: "metric list"
  emitted :: "(string \<times> socket_event) list"

text \<open>One remote call: the schedule says whether it fails.\<close>

definition remote :: "exn \<Rightarrow> (world \<Rightarrow> (exn + 'a) \<times> world) \<Rightarrow> (world, exn, 'a) eff" where
  "remote e f w =
     (case outages w of
        [] \<Rightarrow> f w
      | True # os \<Rightarrow> (Inl e, w\<lparr>outages := os\<rparr>)
      | False # os \<Rightarrow> f (w\<lparr>outages := os\<rparr>))"

definition command :: "(game_redis \<Rightarrow> (redis_error + 'a) \<times> game_redis) \<Rightarrow> (world, exn, 'a) eff" where
  "command c = remote (RedisEx RedisUnavailable) (\<lambda>w. case c (rd w) of
     (Inl e, d) \<Rightarrow> (Inl (RedisEx e), w\<lparr>rd := d\<rparr>) | (Inr a, d) \<Rightarrow> (Inr a, w\<lparr>rd := d\<rparr>))"

definition mem_redis :: "world redis_client" where
  "mem_redis = \<lparr>
     rc_get = \<lambda>k. command (do_get k),
     rc_set = \<lambda>k v ttl. command (do_set k v ttl),
     rc_set_nx = \<lambda>k v ttl. command (do_set_nx k v ttl),
     rc_del = \<lambda>k. command (do_del k),
     rc_hset = \<lambda>k vs. command (do_hset k vs),
     rc_hgetall = \<lambda>k. command (do_hgetall k),
     rc_zadd = \<lambda>k sc m. command (do_zadd k sc m),
     rc_zrem = \<lambda>k m. command (do_zrem k m),
     rc_zcard = \<lambda>k. command (do_zcard k),
     rc_zscore = \<lambda>k m. command (do_zscore k m),
     rc_zrange = \<lambda>k. command (do_zrange k),
     rc_incr = \<lambda>k. command (do_incr k),
     rc_expire = \<lambda>k ttl. command (do_expire k ttl),
     rc_publish = \<lambda>ch msg. remote (RedisEx RedisUnavailable) (\<lambda>w. (Inr (), w\<lparr>published := published w @ [(ch, msg)]\<rparr>)),
     rc_eval = command\<rparr>"

text \<open>
  BullMQ: a job added with the id of a job of the queue is not added again; other ids are
  generated. A job that a worker is running cannot be removed.
\<close>

definition is_job :: "string \<Rightarrow> string \<Rightarrow> job \<Rightarrow> bool" where
  "is_job q i j \<longleftrightarrow> job_queue j = q \<and> job_id j = i"

definition do_add ::
  "string \<Rightarrow> string \<Rightarrow> job_data \<Rightarrow> string option \<Rightarrow> int \<Rightarrow> nat \<Rightarrow> world \<Rightarrow> (exn + string) \<times> world" where
  "do_add q name data jid delay attempts w =
     (case jid of
        Some i \<Rightarrow>
          (if \<exists>j \<in> set (jobs w). is_job q i j then (Inr i, w)
           else (Inr i, w\<lparr>jobs := jobs w @ [\<lparr>job_queue = q, job_id = i, job_name = name, job_data = data,
                   job_delay = delay, job_attempts = attempts, job_active = False\<rparr>]\<rparr>))
      | None \<Rightarrow> (let i = show_nat (next_job w) in
          (Inr i, w\<lparr>next_job := Suc (next_job w),
                    jobs := jobs w @ [\<lparr>job_queue = q, job_id = i, job_name = name, job_data = data,
                      job_delay = delay, job_attempts = attempts, job_active = False\<rparr>]\<rparr>)))"

definition do_getJob :: "string \<Rightarrow> string \<Rightarrow> world \<Rightarrow> (exn + bool) \<times> world" where
  "do_getJob q i w = (Inr (\<exists>j \<in> set (jobs w). is_job q i j), w)"

definition do_remove :: "string \<Rightarrow> string \<Rightarrow> world \<Rightarrow> (exn + unit) \<times> world" where
  "do_remove q i w =
     (if \<exists>j \<in> set (jobs w). is_job q i j \<and> job_active j then (Inl QueueError, w)
      else (Inr (), w\<lparr>jobs := filter (\<lambda>j. \<not> is_job q i j) (jobs w)\<rparr>))"

definition mem_queue :: "world queue_client" where
  "mem_queue = \<lparr>
     qc_add = \<lambda>q name data jid delay attempts. remote QueueError (do_add q name data jid delay attempts),
     qc_getJob = \<lambda>q i. remote QueueError (do_getJob q i),
     qc_remove = \<lambda>q i. remote QueueError (do_remove q i)\<rparr>"

text \<open>While a handler sleeps, time passes.\<close>

definition mem_env :: "world env" where
  "mem_env = \<lparr>
     e_redis = Some mem_redis,
     e_queue = Some mem_queue,
     e_now = (\<lambda>w. (Inr (rd_now (rd w)), w)),
     e_sleep = (\<lambda>ms w. (Inr (), w\<lparr>rd := (rd w)\<lparr>rd_now := rd_now (rd w) + ms\<rparr>\<rparr>)),
     e_metric = (\<lambda>m w. (Inr (), w\<lparr>metrics := metrics w @ [m]\<rparr>)),
     e_emit = (\<lambda>sid ev w. (Inr (), w\<lparr>emitted := emitted w @ [(sid, ev)]\<rparr>))\<rparr>"

text \<open>The hypotheses: each operation of a client does what its documentation says.\<close>

definition redis_ok :: "'s redis_client \<Rightarrow> ('s \<Rightarrow> world) \<Rightarrow> bool" where
  "redis_ok c view \<longleftrightarrow>
     (\<forall>k. sim view (rc_get c k) (rc_get mem_redis k)) \<and>
     (\<forall>k v ttl. sim view (rc_set c k v ttl) (rc_set mem_redis k v ttl)) \<and>
     (\<forall>k v ttl. sim view (rc_set_nx c k v ttl) (rc_set_nx mem_redis k v ttl)) \<and>
     (\<forall>k. sim view (rc_del c k) (rc_del mem_redis k)) \<and>
     (\<forall>k vs. sim view (rc_hset c k vs) (rc_hset mem_redis k vs)) \<and>
     (\<forall>k. sim view (rc_hgetall c k) (rc_hgetall mem_redis k)) \<and>
     (\<forall>k sc m. sim view (rc_zadd c k sc m) (rc_zadd mem_redis k sc m)) \<and>
     (\<forall>k m. sim view (rc_zrem c k m) (rc_zrem mem_redis k m)) \<and>
     (\<forall>k. sim view (rc_zcard c k) (rc_zcard mem_redis k)) \<and>
     (\<forall>k m. sim view (rc_zscore c k m) (rc_zscore mem_redis k m)) \<and>
     (\<forall>k. sim view (rc_zrange c k) (rc_zrange mem_redis k)) \<and>
     (\<forall>k. sim view (rc_incr c k) (rc_incr mem_redis k)) \<and>
     (\<forall>k ttl. sim view (rc_expire c k ttl) (rc_expire mem_redis k ttl)) \<and>
     (\<forall>ch m. sim view (rc_publish c ch m) (rc_publish mem_redis ch m)) \<and>
     (\<forall>f. sim view (rc_eval c f) (rc_eval mem_redis f))"

definition queue_ok :: "'s queue_client \<Rightarrow> ('s \<Rightarrow> world) \<Rightarrow> bool" where
  "queue_ok c view \<longleftrightarrow>
     (\<forall>q n x i y z. sim view (qc_add c q n x i y z) (qc_add mem_queue q n x i y z)) \<and>
     (\<forall>q i. sim view (qc_getJob c q i) (qc_getJob mem_queue q i)) \<and>
     (\<forall>q i. sim view (qc_remove c q i) (qc_remove mem_queue q i))"

definition env_ok :: "'s env \<Rightarrow> ('s \<Rightarrow> world) \<Rightarrow> bool" where
  "env_ok env view \<longleftrightarrow>
     (\<exists>c. e_redis env = Some c \<and> redis_ok c view) \<and>
     (\<exists>c. e_queue env = Some c \<and> queue_ok c view) \<and>
     sim view (e_now env) (e_now mem_env) \<and>
     (\<forall>ms. sim view (e_sleep env ms) (e_sleep mem_env ms)) \<and>
     (\<forall>m. sim view (e_metric env m) (e_metric mem_env m)) \<and>
     (\<forall>sid ev. sim view (e_emit env sid ev) (e_emit mem_env sid ev))"

lemma env_ok_mem: "env_ok mem_env (\<lambda>w. w)"
  by (simp add: env_ok_def redis_ok_def queue_ok_def sim_refl) (simp add: mem_env_def sim_refl)

subsection \<open>redis.service.ts\<close>

definition USER_SOCKET_TTL_SECONDS :: nat where "USER_SOCKET_TTL_SECONDS = 3600"

definition userSocketKey :: "string \<Rightarrow> string" where
  "userSocketKey userId = ''ws:user:'' @ userId @ '':socket''"

definition blacklistKey :: "string \<Rightarrow> string" where
  "blacklistKey jti = ''blacklist:jwt:'' @ jti"

text \<open>The Lua scripts: both delete the key only if it still holds the token of the caller.\<close>

definition RELEASE_LOCK_IF_TOKEN_MATCHES_SCRIPT :: "string \<Rightarrow> string \<Rightarrow> script" where
  "RELEASE_LOCK_IF_TOKEN_MATCHES_SCRIPT = compare_and_delete"

definition REMOVE_USER_SOCKET_IF_MATCH_SCRIPT :: "string \<Rightarrow> string \<Rightarrow> script" where
  "REMOVE_USER_SOCKET_IF_MATCH_SCRIPT = compare_and_delete"

definition requireClient :: "'s env \<Rightarrow> ('s redis_client \<Rightarrow> ('s, exn, 'a) eff) \<Rightarrow> ('s, exn, 'a) eff" where
  "requireClient env f = (case e_redis env of None \<Rightarrow> raise RedisNotConnected | Some c \<Rightarrow> f c)"

definition get :: "'s env \<Rightarrow> string \<Rightarrow> ('s, exn, MatchState stored option) eff" where
  "get env k = requireClient env (\<lambda>c. rc_get c k)"

definition setex :: "'s env \<Rightarrow> string \<Rightarrow> nat \<Rightarrow> MatchState stored \<Rightarrow> ('s, exn, unit) eff" where
  "setex env k ttlSeconds v = requireClient env (\<lambda>c. rc_set c k v ttlSeconds)"

definition setnx :: "'s env \<Rightarrow> string \<Rightarrow> nat \<Rightarrow> string \<Rightarrow> ('s, exn, bool) eff" where
  "setnx env k ttlSeconds v = requireClient env (\<lambda>c. rc_set_nx c k (Txt v) ttlSeconds)"

definition releaseLock :: "'s env \<Rightarrow> string \<Rightarrow> string \<Rightarrow> ('s, exn, bool) eff" where
  "releaseLock env k token = requireClient env (\<lambda>c.
     bindS (rc_eval c (RELEASE_LOCK_IF_TOKEN_MATCHES_SCRIPT k token)) (\<lambda>released. ret (released = 1)))"

definition del :: "'s env \<Rightarrow> string \<Rightarrow> ('s, exn, unit) eff" where
  "del env k = requireClient env (\<lambda>c. thenS (rc_del c k) (ret ()))"

definition hset :: "'s env \<Rightarrow> string \<Rightarrow> (string \<times> string) list \<Rightarrow> ('s, exn, unit) eff" where
  "hset env k vs = requireClient env (\<lambda>c. rc_hset c k vs)"

definition hgetall :: "'s env \<Rightarrow> string \<Rightarrow> ('s, exn, (string \<times> string) list) eff" where
  "hgetall env k = requireClient env (\<lambda>c. rc_hgetall c k)"

definition zadd :: "'s env \<Rightarrow> string \<Rightarrow> int \<Rightarrow> string \<Rightarrow> ('s, exn, unit) eff" where
  "zadd env k sc m = requireClient env (\<lambda>c. rc_zadd c k sc m)"

definition zrem :: "'s env \<Rightarrow> string \<Rightarrow> string \<Rightarrow> ('s, exn, unit) eff" where
  "zrem env k m = requireClient env (\<lambda>c. thenS (rc_zrem c k m) (ret ()))"

definition zcard :: "'s env \<Rightarrow> string \<Rightarrow> ('s, exn, nat) eff" where
  "zcard env k = requireClient env (\<lambda>c. rc_zcard c k)"

definition zrangeWithScores :: "'s env \<Rightarrow> string \<Rightarrow> ('s, exn, (string \<times> int) list) eff" where
  "zrangeWithScores env k = requireClient env (\<lambda>c.
     bindS (rc_zrange c k) (\<lambda>es. ret (filter (\<lambda>p. fst p \<noteq> []) es)))"

definition incrWithExpiry :: "'s env \<Rightarrow> string \<Rightarrow> nat \<Rightarrow> ('s, exn, int) eff" where
  "incrWithExpiry env k ttlSeconds = requireClient env (\<lambda>c.
     bindS (rc_incr c k) (\<lambda>count.
       if count = 1 then thenS (rc_expire c k ttlSeconds) (ret count) else ret count))"

definition publish :: "'s env \<Rightarrow> string \<Rightarrow> bus_msg \<Rightarrow> ('s, exn, unit) eff" where
  "publish env ch msg = requireClient env (\<lambda>c. rc_publish c ch msg)"

definition evalScript :: "'s env \<Rightarrow> script \<Rightarrow> ('s, exn, nat) eff" where
  "evalScript env f = requireClient env (\<lambda>c. rc_eval c f)"

definition isAccessTokenRevoked :: "'s env \<Rightarrow> string \<Rightarrow> ('s, exn, bool) eff" where
  "isAccessTokenRevoked env jti = requireClient env (\<lambda>c.
     bindS (rc_get c (blacklistKey jti)) (\<lambda>v. ret (v = Some (Txt ''1''))))"

definition revokeAccessToken :: "'s env \<Rightarrow> string \<Rightarrow> nat \<Rightarrow> ('s, exn, unit) eff" where
  "revokeAccessToken env jti ttlSeconds = requireClient env (\<lambda>c.
     rc_set c (blacklistKey jti) (Txt ''1'') ttlSeconds)"

definition setUserSocket :: "'s env \<Rightarrow> string \<Rightarrow> string \<Rightarrow> ('s, exn, unit) eff" where
  "setUserSocket env userId socketId = requireClient env (\<lambda>c.
     rc_set c (userSocketKey userId) (Txt socketId) USER_SOCKET_TTL_SECONDS)"

definition removeUserSocket :: "'s env \<Rightarrow> string \<Rightarrow> string \<Rightarrow> ('s, exn, bool) eff" where
  "removeUserSocket env userId socketId = requireClient env (\<lambda>c.
     bindS (rc_eval c (REMOVE_USER_SOCKET_IF_MATCH_SCRIPT (userSocketKey userId) socketId))
       (\<lambda>removed. ret (removed = 1)))"

definition getUserSocket :: "'s env \<Rightarrow> string \<Rightarrow> ('s, exn, MatchState stored option) eff" where
  "getUserSocket env userId = requireClient env (\<lambda>c. rc_get c (userSocketKey userId))"

text \<open>
  The interface the services are proved against: a deployment whose clients do what they are
  documented to do. Every operation of the service then simulates its documented run.
\<close>

locale game_env =
  fixes env :: "'s env" and view :: "'s \<Rightarrow> world"
  assumes ok: "env_ok env view"
begin

lemma sim_requireClient:
  assumes "\<And>c. redis_ok c view \<Longrightarrow> sim view (f c) (f' mem_redis)"
  shows "sim view (requireClient env f) (requireClient mem_env f')"
  using ok assms by (auto simp: env_ok_def requireClient_def mem_env_def)

lemma sim_redis_service [sim_rules]:
  "sim view (get env k) (get mem_env k)"
  "sim view (setex env k ttl v) (setex mem_env k ttl v)"
  "sim view (setnx env k ttl t) (setnx mem_env k ttl t)"
  "sim view (releaseLock env k t) (releaseLock mem_env k t)"
  "sim view (del env k) (del mem_env k)"
  "sim view (hset env k vs) (hset mem_env k vs)"
  "sim view (hgetall env k) (hgetall mem_env k)"
  "sim view (zadd env k sc m) (zadd mem_env k sc m)"
  "sim view (zrem env k m) (zrem mem_env k m)"
  "sim view (zcard env k) (zcard mem_env k)"
  "sim view (zrangeWithScores env k) (zrangeWithScores mem_env k)"
  "sim view (incrWithExpiry env k ttl) (incrWithExpiry mem_env k ttl)"
  "sim view (publish env ch msg) (publish mem_env ch msg)"
  "sim view (evalScript env f) (evalScript mem_env f)"
  unfolding get_def setex_def setnx_def releaseLock_def del_def hset_def hgetall_def zadd_def zrem_def
    zcard_def zrangeWithScores_def incrWithExpiry_def publish_def evalScript_def
  by (intro sim_requireClient sim_rules; simp add: redis_ok_def)+

lemma sim_redis_users [sim_rules]:
  "sim view (isAccessTokenRevoked env u) (isAccessTokenRevoked mem_env u)"
  "sim view (revokeAccessToken env u ttl) (revokeAccessToken mem_env u ttl)"
  "sim view (setUserSocket env u t) (setUserSocket mem_env u t)"
  "sim view (removeUserSocket env u t) (removeUserSocket mem_env u t)"
  "sim view (getUserSocket env u) (getUserSocket mem_env u)"
  unfolding isAccessTokenRevoked_def revokeAccessToken_def setUserSocket_def removeUserSocket_def
    getUserSocket_def
  by (intro sim_requireClient sim_rules; simp add: redis_ok_def)+

lemma sim_zscore_client [sim_rules]:
  "sim view (requireClient env (\<lambda>c. rc_zscore c k m)) (requireClient mem_env (\<lambda>c. rc_zscore c k m))"
  "sim view (requireClient env (\<lambda>c. rc_zrem c k m)) (requireClient mem_env (\<lambda>c. rc_zrem c k m))"
  by (intro sim_requireClient sim_rules; simp add: redis_ok_def)+

lemma sim_process [sim_rules]:
  "sim view (e_now env) (e_now mem_env)"
  "sim view (e_sleep env ms) (e_sleep mem_env ms)"
  "sim view (e_metric env m) (e_metric mem_env m)"
  "sim view (e_emit env sid ev) (e_emit mem_env sid ev)"
  using ok by (simp_all add: env_ok_def)

lemma sim_queue [sim_rules]:
  assumes "\<And>c. queue_ok c view \<Longrightarrow> sim view (f c) (f' mem_queue)"
  shows "sim view (case e_queue env of None \<Rightarrow> m | Some c \<Rightarrow> f c)
    (case e_queue mem_env of None \<Rightarrow> m' | Some c \<Rightarrow> f' c)"
  using ok assms by (auto simp: env_ok_def mem_env_def)

end

interpretation doc: game_env mem_env "\<lambda>w. w"
  by unfold_locales (rule env_ok_mem)

subsection \<open>The documented run of the service\<close>

text \<open>What each operation does when the call does not fail.\<close>

lemma command_ok: "outages w = [] \<Longrightarrow> command c w =
    (map_sum RedisEx (\<lambda>a. a) (fst (c (rd w))), w\<lparr>rd := snd (c (rd w))\<rparr>)"
  by (simp add: command_def remote_def split: prod.split sum.split)

lemmas redis_service_defs = get_def setex_def setnx_def releaseLock_def del_def hset_def hgetall_def
  zadd_def zrem_def zcard_def zrangeWithScores_def incrWithExpiry_def publish_def evalScript_def
  isAccessTokenRevoked_def revokeAccessToken_def setUserSocket_def removeUserSocket_def getUserSocket_def

lemma redis_run:
  assumes "outages w = []"
  shows "get mem_env k w = (map_sum RedisEx (\<lambda>a. a) (fst (do_get k (rd w))), w)"
    and "setex mem_env k ttl v w = (Inr (), w\<lparr>rd := put k (RStr v) (expiry (rd w) ttl) (rd w)\<rparr>)"
    and "setnx mem_env k ttl t w = (if look (rd w) k = None
           then (Inr True, w\<lparr>rd := put k (RStr (Txt t)) (expiry (rd w) ttl) (rd w)\<rparr>) else (Inr False, w))"
    and "del mem_env k w = (Inr (), w\<lparr>rd := unset k (rd w)\<rparr>)"
    and "lock_key_ok k (rd w) \<Longrightarrow> releaseLock mem_env k t w =
           (if lock_owner k (rd w) = Some t then (Inr True, w\<lparr>rd := unset k (rd w)\<rparr>) else (Inr False, w))"
    and "publish mem_env ch msg w = (Inr (), w\<lparr>published := published w @ [(ch, msg)]\<rparr>)"
  using assms
  by (simp_all add: redis_service_defs requireClient_def mem_env_def mem_redis_def command_ok do_defs
      eff_simps remote_def RELEASE_LOCK_IF_TOKEN_MATCHES_SCRIPT_def compare_and_delete_cases)

lemma mem_env_simps [simp]:
  "e_now mem_env w = (Inr (rd_now (rd w)), w)"
  "e_sleep mem_env ms w = (Inr (), w\<lparr>rd := (rd w)\<lparr>rd_now := rd_now (rd w) + ms\<rparr>\<rparr>)"
  "e_metric mem_env m w = (Inr (), w\<lparr>metrics := metrics w @ [m]\<rparr>)"
  "e_emit mem_env sid ev w = (Inr (), w\<lparr>emitted := emitted w @ [(sid, ev)]\<rparr>)"
  by (simp_all add: mem_env_def)

text \<open>The lock at a key of Redis obeys the contract of a lock, while the calls succeed.\<close>

definition lock_up :: "string \<Rightarrow> world \<Rightarrow> bool" where
  "lock_up k w \<longleftrightarrow> outages w = [] \<and> lock_key_ok k (rd w)"

lemma redis_lock:
  assumes "0 < ttl"
  shows "lock (setnx mem_env k ttl) (releaseLock mem_env k) (\<lambda>w. lock_owner k (rd w)) (lock_up k)"
proof
  fix w t
  assume w: "lock_up k w"
  then show "lock_owner k (rd w) = None \<Longrightarrow>
      \<exists>w'. setnx mem_env k ttl t w = (Inr True, w') \<and> lock_owner k (rd w') = Some t \<and> lock_up k w'"
    using assms by (auto simp: lock_up_def redis_run lock_key_ok_def lock_owner_def)
  from w show "lock_owner k (rd w) \<noteq> None \<Longrightarrow> setnx mem_env k ttl t w = (Inr False, w)"
    by (auto simp: lock_up_def redis_run lock_key_ok_def lock_owner_def)
  from w show "lock_owner k (rd w) = Some t \<Longrightarrow>
      \<exists>b w'. releaseLock mem_env k t w = (Inr b, w') \<and> lock_owner k (rd w') = None \<and> lock_up k w'"
    by (auto simp: lock_up_def redis_run)
  from w show "lock_owner k (rd w) \<noteq> Some t \<Longrightarrow> \<exists>b. releaseLock mem_env k t w = (Inr b, w)"
    by (auto simp: lock_up_def redis_run)
qed

end
