(* ===== verification/Match_Session.thy ===== *)
theory Match_Session
  imports Game_Redis
begin

section \<open>apps/game-service: match sessions\<close>

text \<open>
  \<open>match-session/match-session.service.ts\<close> and \<open>match-event-bus.ts\<close>: the state of a match is
  the JSON under its key, every change goes through \<open>mutateState\<close>, which holds the lock of the
  match while it loads, changes and saves the state. The random identifiers of the code (match id,
  lock token) are arguments. A mutator may also return a value: in the code its closure assigns a
  local variable.
\<close>

subsection \<open>match-event-bus.ts\<close>

definition broadcastToMatch :: "'s env \<Rightarrow> string \<Rightarrow> bus_event \<Rightarrow> string option \<Rightarrow> ('s, exn, unit) eff" where
  "broadcastToMatch env mid event recipient =
     publish env (matchChannel mid) \<lparr>bm_event = event, bm_recipient = recipient\<rparr>"

subsection \<open>match-session.service.ts\<close>

definition saveState :: "'s env \<Rightarrow> MatchState \<Rightarrow> ('s, exn, unit) eff" where
  "saveState env st = setex env (matchStateKey (matchId st)) MATCH_SESSION_TTL_SECONDS (Json st)"

definition loadState :: "'s env \<Rightarrow> string \<Rightarrow> ('s, exn, MatchState option) eff" where
  "loadState env mid = bindS (get env (matchStateKey mid)) (\<lambda>serialized.
     ret (case serialized of Some (Json st) \<Rightarrow> Some st | _ \<Rightarrow> None))"

definition mutateState ::
  "'s env \<Rightarrow> string \<Rightarrow> string \<Rightarrow> (MatchState \<Rightarrow> ('s, exn, MatchState \<times> 'r) eff) \<Rightarrow> ('s, exn, MatchState \<times> 'r) eff" where
  "mutateState env mid lockToken mutator =
     with_lock (setnx env (matchLockKey mid) MATCH_LOCK_TTL_SECONDS lockToken)
       (releaseLock env (matchLockKey mid) lockToken)
       (raise (MatchSessionLockError mid))
       (bindS (loadState env mid) (\<lambda>state.
          case state of
            None \<Rightarrow> raise (MatchSessionNotFoundError mid)
          | Some st \<Rightarrow> bindS (mutator st) (\<lambda>next. thenS (saveState env (fst next)) (ret next))))"

text \<open>The entries \<open>match:byUser\<close> of the two players.\<close>

definition mapUsers :: "'s env \<Rightarrow> MatchState \<Rightarrow> ('s, exn, unit list) eff" where
  "mapUsers env st = allS (map (\<lambda>p. setex env (userMatchKey (mp_userId p)) MATCH_SESSION_TTL_SECONDS
     (Txt (matchId st))) [fst (players st), snd (players st)])"

definition persistStateOnly :: "'s env \<Rightarrow> MatchState \<Rightarrow> ('s, exn, unit) eff" where
  "persistStateOnly env st = thenS (saveState env st) (thenS (mapUsers env st) (ret ()))"

definition cleanupUserMappings :: "'s env \<Rightarrow> MatchState \<Rightarrow> ('s, exn, unit) eff" where
  "cleanupUserMappings env st =
     thenS (allS (map (\<lambda>p. del env (userMatchKey (mp_userId p))) [fst (players st), snd (players st)])) (ret ())"

definition broadcastRoundStart :: "'s env \<Rightarrow> MatchState \<Rightarrow> ('s, exn, unit) eff" where
  "broadcastRoundStart env st =
     broadcastToMatch env (matchId st) (roundStart (matchId st) (currentRound st) (roundDeadline st)) None"

definition broadcastInitialEvents :: "'s env \<Rightarrow> MatchState \<Rightarrow> ('s, exn, unit) eff" where
  "broadcastInitialEvents env st =
     (let a = fst (players st); b = snd (players st) in
      thenS (allS
        [broadcastToMatch env (matchId st) (matchFound (matchId st) b 3) (Some (mp_userId a)),
         broadcastToMatch env (matchId st) (matchFound (matchId st) a 3) (Some (mp_userId b)),
         broadcastRoundStart env st]) (ret ()))"

definition create ::
  "'s env \<Rightarrow> MatchPlayer \<times> MatchPlayer \<Rightarrow> string \<Rightarrow> string option \<Rightarrow> ('s, exn, MatchState) eff" where
  "create env ps mid tid = bindS (e_now env) (\<lambda>now.
     let st = buildInitialState (fst ps) (snd ps) mid now tid in
     thenS (saveState env st)
       (thenS (mapUsers env st)
         (thenS (broadcastInitialEvents env st) (ret st))))"

context game_env
begin

lemma sim_match_session [sim_rules]:
  "sim view (broadcastToMatch env mid ev r) (broadcastToMatch mem_env mid ev r)"
  "sim view (saveState env st) (saveState mem_env st)"
  "sim view (loadState env mid) (loadState mem_env mid)"
  "sim view (mapUsers env st) (mapUsers mem_env st)"
  "sim view (cleanupUserMappings env st) (cleanupUserMappings mem_env st)"
  unfolding broadcastToMatch_def saveState_def loadState_def mapUsers_def cleanupUserMappings_def
  by (intro sim_rules)+

lemma sim_match_session_writes [sim_rules]:
  "sim view (persistStateOnly env st) (persistStateOnly mem_env st)"
  "sim view (broadcastRoundStart env st) (broadcastRoundStart mem_env st)"
  "sim view (broadcastInitialEvents env st) (broadcastInitialEvents mem_env st)"
  "sim view (create env ps mid tid) (create mem_env ps mid tid)"
  unfolding persistStateOnly_def broadcastRoundStart_def broadcastInitialEvents_def create_def Let_def
  by (intro sim_rules)+

lemma sim_mutateState [sim_rules]:
  assumes "\<And>st. sim view (f st) (f' st)"
  shows "sim view (mutateState env mid t f) (mutateState mem_env mid t f')"
  unfolding mutateState_def by (intro sim_rules assms)

end

subsection \<open>The critical section\<close>

interpretation match_lock: lock "setnx mem_env (matchLockKey mid) MATCH_LOCK_TTL_SECONDS"
  "releaseLock mem_env (matchLockKey mid)" "\<lambda>w. lock_owner (matchLockKey mid) (rd w)"
  "lock_up (matchLockKey mid)" for mid
  by (rule redis_lock) (simp add: MATCH_LOCK_TTL_SECONDS_def)

text \<open>The session a match id has in the key space.\<close>

definition session :: "game_redis \<Rightarrow> string \<Rightarrow> MatchState option" where
  "session d mid = (case look d (matchStateKey mid) of Some (RStr (Json st)) \<Rightarrow> Some st | _ \<Rightarrow> None)"

text \<open>The keys of a match hold what the service stores in them.\<close>

definition match_keys_ok :: "string \<Rightarrow> game_redis \<Rightarrow> bool" where
  "match_keys_ok mid d \<longleftrightarrow> lock_key_ok (matchLockKey mid) d \<and>
     (look d (matchStateKey mid) = None \<or> (\<exists>t. look d (matchStateKey mid) = Some (RStr t)))"

lemma keys_distinct [simp]: "matchStateKey m \<noteq> matchLockKey n" "matchLockKey n \<noteq> matchStateKey m"
proof -
  have "last (matchStateKey m) \<noteq> last (matchLockKey n)"
    by (simp add: matchStateKey_def matchLockKey_def)
  then show "matchStateKey m \<noteq> matchLockKey n" "matchLockKey n \<noteq> matchStateKey m" by metis+
qed

lemma matchStateKey_inject [simp]: "matchStateKey m = matchStateKey n \<longleftrightarrow> m = n"
  by (simp add: matchStateKey_def)

lemma session_simps [simp]:
  "session (put (matchStateKey m) (RStr (Json st)) e d) n =
     (if n = m then if expired (rd_now d) e then None else Some st else session d n)"
  "session (put (matchLockKey m) v e d) n = session d n"
  "session (unset (matchLockKey m) d) n = session d n"
  by (simp_all add: session_def)

lemma loadState_run:
  assumes "outages w = []" and "match_keys_ok mid (rd w)"
  shows "loadState mem_env mid w = (Inr (session (rd w) mid), w)"
  using assms
  by (auto simp: loadState_def redis_run eff_simps do_get_def match_keys_ok_def session_def
      split: stored.split)

text \<open>The mutators of the service read the clock and change the state.\<close>

definition timed :: "'s env \<Rightarrow> (time \<Rightarrow> MatchState \<Rightarrow> exn + MatchState \<times> 'r) \<Rightarrow>
    MatchState \<Rightarrow> ('s, exn, MatchState \<times> 'r) eff" where
  "timed env f st = bindS (e_now env) (\<lambda>now. liftS (f now st))"

context game_env
begin

lemma sim_timed [sim_rules]: "sim view (timed env f st) (timed mem_env f st)"
  unfolding timed_def by (intro sim_rules)

end

lemma mutateState_run:
  assumes "outages w = []" and "match_keys_ok mid (rd w)"
  shows "mutateState mem_env mid t (timed mem_env f) w =
    (if lock_owner (matchLockKey mid) (rd w) \<noteq> None then (Inl (MatchSessionLockError mid), w)
     else let d = unset (matchLockKey mid) (rd w) in
       case session (rd w) mid of
         None \<Rightarrow> (Inl (MatchSessionNotFoundError mid), w\<lparr>rd := d\<rparr>)
       | Some st \<Rightarrow>
           (case f (rd_now (rd w)) st of
              Inl e \<Rightarrow> (Inl e, w\<lparr>rd := d\<rparr>)
            | Inr next \<Rightarrow> (Inr next, w\<lparr>rd := put (matchStateKey (matchId (fst next))) (RStr (Json (fst next)))
                 (expiry d MATCH_SESSION_TTL_SECONDS) d\<rparr>)))"
proof (cases "lock_owner (matchLockKey mid) (rd w) = None")
  case False
  with assms have "lock_up (matchLockKey mid) w" by (simp add: lock_up_def match_keys_ok_def)
  with False show ?thesis by (simp add: mutateState_def eff_simps match_lock.with_lock_busy)
next
  case True
  let ?d = "put (matchLockKey mid) (RStr (Txt t)) (expiry (rd w) MATCH_LOCK_TTL_SECONDS) (rd w)"
  from assms(2) True have free: "look (rd w) (matchLockKey mid) = None"
    by (auto simp: match_keys_ok_def lock_key_ok_def lock_owner_def)
  have up: "lock_key_ok (matchLockKey mid) ?d" "lock_owner (matchLockKey mid) ?d = Some t"
    using assms(2) by (simp_all add: match_keys_ok_def MATCH_LOCK_TTL_SECONDS_def)
  have load: "loadState mem_env mid (w\<lparr>rd := ?d\<rparr>) = (Inr (session (rd w) mid), w\<lparr>rd := ?d\<rparr>)"
    using assms by (subst loadState_run) (auto simp: match_keys_ok_def up)
  show ?thesis
    using assms(1) up free True
    by (auto simp: mutateState_def with_lock_def eff_simps redis_run load timed_def saveState_def Let_def
        unset_put_other lock_key_ok_def lock_owner_def split: option.split sum.split)
qed


text \<open>A world with one stored match and nothing else.\<close>

definition idle_world :: "MatchState \<Rightarrow> world" where
  "idle_world st = \<lparr>rd = put (matchStateKey (matchId st)) (RStr (Json st)) None
       \<lparr>rd_now = 0, rd_keys = (\<lambda>_. None)\<rparr>,
     outages = [], published = [], jobs = [], next_job = 0, metrics = [], emitted = []\<rparr>"

definition demo_match :: MatchState where
  "demo_match = buildInitialState (fst demo_players) (snd demo_players) ''m'' 0 None"

lemma idle_world_simps [simp]:
  "outages (idle_world st) = []" "rd_now (rd (idle_world st)) = 0"
  "session (rd (idle_world st)) n = (if n = matchId st then Some st else None)"
  "match_keys_ok n (rd (idle_world st))" "lock_owner (matchLockKey n) (rd (idle_world st)) = None"
  by (auto simp: idle_world_def match_keys_ok_def lock_key_ok_def lock_owner_def expired_def session_def look_def
      put_def)

lemma demo_match_id [simp]: "matchId demo_match = ''m''"
  by (simp add: demo_match_def buildInitialState_def)


end
