(* ===== verification/Match_Play.thy ===== *)
theory Match_Play
  imports Match_Session
begin

section \<open>apps/game-service: playing, timing out, disconnecting and finalizing\<close>

text \<open>
  The two delayed-job schedulers (\<open>match/match-timeout-scheduler.service.ts\<close>,
  \<open>match/match-disconnect-scheduler.service.ts\<close>), the publisher of the result of a match and
  \<open>match/match-play.service.ts\<close>, with the two workers that call it. The mutators are those of
  \<open>Match_Rules\<close>. A catch block that only logs is \<open>catchS _ (\<lambda>_. ret ())\<close>.
\<close>

subsection \<open>The schedulers\<close>

definition MATCH_TIMEOUT_QUEUE :: string where "MATCH_TIMEOUT_QUEUE = ''match-timeouts''"
definition MATCH_TIMEOUT_JOB_NAME :: string where "MATCH_TIMEOUT_JOB_NAME = ''round-timeout''"
definition MATCH_TIMEOUT_JOB_TTL_SECONDS :: nat where
  "MATCH_TIMEOUT_JOB_TTL_SECONDS = MATCH_SESSION_TTL_SECONDS"

definition matchTimeoutJobKey :: "string \<Rightarrow> string" where
  "matchTimeoutJobKey mid = ''match:'' @ mid @ '':timeoutJob''"

definition MATCH_DISCONNECT_FORFEIT_QUEUE :: string where
  "MATCH_DISCONNECT_FORFEIT_QUEUE = ''match-disconnect-forfeits''"
definition MATCH_DISCONNECT_FORFEIT_JOB_NAME :: string where
  "MATCH_DISCONNECT_FORFEIT_JOB_NAME = ''match-disconnect-forfeit''"
definition MATCH_DISCONNECT_FORFEIT_WINDOW_MS :: int where "MATCH_DISCONNECT_FORFEIT_WINDOW_MS = 10000"
definition MATCH_DISCONNECT_FORFEIT_JOB_TTL_SECONDS :: nat where
  "MATCH_DISCONNECT_FORFEIT_JOB_TTL_SECONDS = 60"
definition MATCH_DISCONNECT_FORFEIT_JOB_ATTEMPTS :: nat where
  "MATCH_DISCONNECT_FORFEIT_JOB_ATTEMPTS = 5"

definition matchDisconnectForfeitJobKey :: "string \<Rightarrow> string" where
  "matchDisconnectForfeitJobKey userId = ''match:disconnectForfeit:'' @ userId"

text \<open>
  Both services remember the id of the job they scheduled under a key, and remove that job before
  they forget it; a job that is already running stays. No job has the JSON of a match as its id.
\<close>

definition cancel_job :: "'s env \<Rightarrow> string \<Rightarrow> string \<Rightarrow> ('s, exn, unit) eff" where
  "cancel_job env q key = bindS (get env key) (\<lambda>jobId.
     if \<not> truthy_stored jobId then ret ()
     else case jobId of
       Some (Txt i) \<Rightarrow>
         thenS (case e_queue env of
              None \<Rightarrow> ret ()
            | Some c \<Rightarrow> bindS (qc_getJob c q i) (\<lambda>job.
                if job then catchS (qc_remove c q i) (\<lambda>_. ret ()) else ret ()))
           (del env key)
     | _ \<Rightarrow> del env key)"

definition cancelTimeout :: "'s env \<Rightarrow> string \<Rightarrow> ('s, exn, unit) eff" where
  "cancelTimeout env mid = cancel_job env MATCH_TIMEOUT_QUEUE (matchTimeoutJobKey mid)"

definition scheduleTimeout :: "'s env \<Rightarrow> string \<Rightarrow> nat \<Rightarrow> int \<Rightarrow> ('s, exn, string option) eff" where
  "scheduleTimeout env mid roundNumber delayMs =
     thenS (cancelTimeout env mid)
       (case e_queue env of
          None \<Rightarrow> ret None
        | Some c \<Rightarrow> bindS (qc_add c MATCH_TIMEOUT_QUEUE MATCH_TIMEOUT_JOB_NAME (TimeoutJob mid roundNumber)
              None (max 0 delayMs) 1) (\<lambda>i.
            if i = [] then ret None
            else thenS (setex env (matchTimeoutJobKey mid) MATCH_TIMEOUT_JOB_TTL_SECONDS (Txt i)) (ret (Some i))))"

definition cancelForfeit :: "'s env \<Rightarrow> string \<Rightarrow> ('s, exn, unit) eff" where
  "cancelForfeit env userId =
     cancel_job env MATCH_DISCONNECT_FORFEIT_QUEUE (matchDisconnectForfeitJobKey userId)"

definition cancelForfeitForPlayers :: "'s env \<Rightarrow> string list \<Rightarrow> ('s, exn, unit) eff" where
  "cancelForfeitForPlayers env userIds = thenS (allS (map (cancelForfeit env) userIds)) (ret ())"

definition scheduleForfeit :: "'s env \<Rightarrow> string \<Rightarrow> string \<Rightarrow> int \<Rightarrow> ('s, exn, string option) eff" where
  "scheduleForfeit env userId mid delayMs =
     thenS (cancelForfeit env userId)
       (case e_queue env of
          None \<Rightarrow> ret None
        | Some c \<Rightarrow> bindS (qc_add c MATCH_DISCONNECT_FORFEIT_QUEUE MATCH_DISCONNECT_FORFEIT_JOB_NAME
              (ForfeitJob userId mid) None (max 0 delayMs) MATCH_DISCONNECT_FORFEIT_JOB_ATTEMPTS) (\<lambda>i.
            if i = [] then ret None
            else thenS (setex env (matchDisconnectForfeitJobKey userId)
                MATCH_DISCONNECT_FORFEIT_JOB_TTL_SECONDS (Txt i)) (ret (Some i))))"

subsection \<open>match-ended-publisher.service.ts\<close>

definition ended_payload_of :: "MatchState \<Rightarrow> ended_payload" where
  "ended_payload_of st = \<lparr>ep_matchId = matchId st, ep_winner = winnerId st,
     ep_finalScore = (scoreA st, scoreB st), ep_eloDelta = (0, 0), ep_players = players st,
     ep_rounds = rounds_of st, ep_endReason = endReason st, ep_startedAt = startedAt st,
     ep_tournamentMatchId = (if truthy (tournamentMatchId st) then tournamentMatchId st else None)\<rparr>"

definition publishMatchEnded :: "'s env \<Rightarrow> MatchState \<Rightarrow> ('s, exn, unit) eff" where
  "publishMatchEnded env st =
     (case e_queue env of
        None \<Rightarrow> ret ()
      | Some c \<Rightarrow> thenS (qc_add c ''match-events'' ''match-ended'' (EndedJob (ended_payload_of st))
            (Some (matchId st)) 0 3) (ret ()))"

subsection \<open>match-play.service.ts: the end of a match\<close>

definition MATCH_FINALIZE_LOCK_TTL_SECONDS :: nat where "MATCH_FINALIZE_LOCK_TTL_SECONDS = 86400"

definition finalizedKey :: "string \<Rightarrow> string" where
  "finalizedKey mid = ''match:'' @ mid @ '':finalized''"

definition resolveMatchOutcome :: "MatchState \<Rightarrow> string" where
  "resolveMatchOutcome st =
     (if endReason st = Some FORFEIT_TIMEOUT \<or> endReason st = Some DISCONNECT_FORFEIT then ''forfeit''
      else if truthy (winnerId st) then ''win'' else ''draw'')"

definition toEloOutcome :: "MatchState \<Rightarrow> string" where
  "toEloOutcome st =
     (if \<not> truthy (winnerId st) then ''DRAW''
      else if winnerId st = Some (mp_userId (fst (players st))) then ''A'' else ''B'')"

definition resolveEloDelta :: "MatchState \<Rightarrow> exn + int \<times> int" where
  "resolveEloDelta st =
     (case computeElo (Fin (of_int (mp_rating (fst (players st))))) (Fin (of_int (mp_rating (snd (players st)))))
         (toEloOutcome st) (Fin 0) (Fin 0) of
        Inl e \<Rightarrow> Inl (EloEx e)
      | Inr elo \<Rightarrow> Inr (deltaA elo, deltaB elo))"

definition schedulePhaseTimeout :: "'s env \<Rightarrow> string \<Rightarrow> nat \<Rightarrow> time \<Rightarrow> ('s, exn, unit) eff" where
  "schedulePhaseTimeout env mid roundNumber deadline = bindS (e_now env) (\<lambda>now.
     catchS (thenS (scheduleTimeout env mid roundNumber (max 0 (deadline - now))) (ret ())) (\<lambda>_. ret ()))"

definition clearTimer :: "'s env \<Rightarrow> string \<Rightarrow> ('s, exn, unit) eff" where
  "clearTimer env mid = catchS (cancelTimeout env mid) (\<lambda>_. ret ())"

definition onMatchStarted :: "'s env \<Rightarrow> MatchState \<Rightarrow> ('s, exn, unit) eff" where
  "onMatchStarted env st = schedulePhaseTimeout env (matchId st) (currentRound st) (roundDeadline st)"

text \<open>The block that runs once the guard is claimed.\<close>

definition finalize_body :: "'s env \<Rightarrow> MatchState \<Rightarrow> ('s, exn, unit) eff" where
  "finalize_body env st =
     thenS (clearTimer env (matchId st))
    (thenS (e_metric env (MatchPlayed (resolveMatchOutcome st)))
    (thenS (cancelForfeitForPlayers env [mp_userId (fst (players st)), mp_userId (snd (players st))])
    (bindS (liftS (resolveEloDelta st)) (\<lambda>eloDelta.
       let payload = matchEnded (matchId st) (winnerId st) (scoreA st, scoreB st) eloDelta (endReason st) in
       thenS (allS [broadcastToMatch env (matchId st) payload (Some (mp_userId (fst (players st)))),
                    broadcastToMatch env (matchId st) payload (Some (mp_userId (snd (players st))))])
      (thenS (cleanupUserMappings env st)
        (publishMatchEnded env st))))))"

definition finalizeMatch :: "'s env \<Rightarrow> MatchState \<Rightarrow> ('s, exn, unit) eff" where
  "finalizeMatch env st =
     bindS (setnx env (finalizedKey (matchId st)) MATCH_FINALIZE_LOCK_TTL_SECONDS ''1'') (\<lambda>claimed.
       if \<not> claimed then ret ()
       else catchS (finalize_body env st) (\<lambda>e.
         thenS (catchS (del env (finalizedKey (matchId st))) (\<lambda>_. ret ())) (raise e)))"

subsection \<open>match-play.service.ts: playing\<close>

definition afterRoundResolved :: "'s env \<Rightarrow> MatchState \<Rightarrow> RoundResolution \<Rightarrow> ('s, exn, unit) eff" where
  "afterRoundResolved env st r =
     (let label = label_of (resolveRps (rs_moveA r) (rs_moveB r));
          payloadA = roundResolved (matchId st) (rs_roundNumber r) (rs_moveA r) (rs_moveB r) label (scoreA st) (scoreB st);
          payloadB = roundResolved (matchId st) (rs_roundNumber r) (rs_moveB r) (rs_moveA r) label (scoreA st) (scoreB st)
      in thenS (allS [broadcastToMatch env (matchId st) payloadA (Some (mp_userId (fst (players st)))),
                      broadcastToMatch env (matchId st) payloadB (Some (mp_userId (snd (players st))))])
        (if status st = ENDED then finalizeMatch env st
         else thenS (schedulePhaseTimeout env (matchId st) (currentRound st) (roundDeadline st))
           (broadcastRoundStart env st)))"

definition play_step :: "string \<Rightarrow> int \<Rightarrow> Move \<Rightarrow> time \<Rightarrow> MatchState \<Rightarrow> exn + MatchState \<times> RoundResolution option" where
  "play_step userId roundNumber move now st = map_sum PlayEx (\<lambda>x. x) (play_mutator userId roundNumber move now st)"

definition trySubmitPlay ::
  "'s env \<Rightarrow> string \<Rightarrow> string \<Rightarrow> int \<Rightarrow> Move \<Rightarrow> string \<Rightarrow> ('s, exn, (MatchState \<times> RoundResolution) option) eff" where
  "trySubmitPlay env userId mid roundNumber move token =
     bindS (mutateState env mid token (timed env (play_step userId roundNumber move))) (\<lambda>r.
       ret (map_option (\<lambda>res. (fst r, res)) (snd r)))"

text \<open>The attempts: the last one does not catch the lock error.\<close>

fun submit_attempts ::
  "'s env \<Rightarrow> string \<Rightarrow> string \<Rightarrow> int \<Rightarrow> Move \<Rightarrow> nat \<Rightarrow> string list \<Rightarrow> ('s, exn, unit) eff" where
  "submit_attempts env userId mid roundNumber move attempt [] = ret ()"
| "submit_attempts env userId mid roundNumber move attempt (token # tokens) =
     catchS (bindS (trySubmitPlay env userId mid roundNumber move token) (\<lambda>resolved.
         case resolved of None \<Rightarrow> ret () | Some r \<Rightarrow> afterRoundResolved env (fst r) (snd r)))
       (\<lambda>e. if (\<exists>m. e = MatchSessionLockError m) \<and> attempt < 4
         then thenS (e_sleep env (10 * (int attempt + 1)))
           (submit_attempts env userId mid roundNumber move (Suc attempt) tokens)
         else raise e)"

declare submit_attempts.simps [simp del]

definition submitPlay ::
  "'s env \<Rightarrow> string \<Rightarrow> string \<Rightarrow> int \<Rightarrow> string \<Rightarrow> (nat \<Rightarrow> string) \<Rightarrow> ('s, exn, unit) eff" where
  "submitPlay env userId mid roundNumber move token =
     (case parse_move move of
        None \<Rightarrow> raise (PlayEx (PlayValidationError INVALID_MOVE))
      | Some m \<Rightarrow> submit_attempts env userId mid roundNumber m 0 (map token [0..<5]))"

subsection \<open>match-play.service.ts: timeouts and disconnections\<close>

definition timeout_step :: "nat \<Rightarrow> time \<Rightarrow> MatchState \<Rightarrow> exn + MatchState \<times> unit" where
  "timeout_step roundNumber now st =
     map_sum TransitionEx (\<lambda>st'. (st', ())) (timeout_mutator (int roundNumber) now st)"

definition handleRoundTimeout :: "'s env \<Rightarrow> string \<Rightarrow> nat \<Rightarrow> string \<Rightarrow> ('s, exn, unit) eff" where
  "handleRoundTimeout env mid roundNumber token =
     bindS (mutateState env mid token (timed env (timeout_step roundNumber))) (\<lambda>r.
       if status (fst r) = ENDED then finalizeMatch env (fst r) else ret ())"

definition handleMatchTimeout :: "'s env \<Rightarrow> string \<Rightarrow> nat \<Rightarrow> MatchStatus \<Rightarrow> string \<Rightarrow> ('s, exn, unit) eff" where
  "handleMatchTimeout env mid roundNumber expectedState token =
     (if expectedState = WAITING_PLAYS then handleRoundTimeout env mid roundNumber token else ret ())"

definition disconnect_step :: "string \<Rightarrow> time \<Rightarrow> MatchState \<Rightarrow> exn + MatchState \<times> bool" where
  "disconnect_step userId now st = Inr (disconnect_mutator userId st)"

definition handleDisconnectForfeit :: "'s env \<Rightarrow> string \<Rightarrow> string \<Rightarrow> string \<Rightarrow> ('s, exn, bool) eff" where
  "handleDisconnectForfeit env userId mid token =
     bindS (getUserSocket env userId) (\<lambda>activeSocket.
       if truthy_stored activeSocket then ret False
       else bindS (mutateState env mid token (timed env (disconnect_step userId))) (\<lambda>r.
         if \<not> snd r \<or> status (fst r) \<noteq> ENDED then ret False
         else thenS (finalizeMatch env (fst r)) (ret True)))"

text \<open>The workers: \<open>match-timeout-worker.service.ts\<close> and \<open>match-disconnect-worker.service.ts\<close>.\<close>

definition processTimeoutJob :: "'s env \<Rightarrow> string \<Rightarrow> nat \<Rightarrow> string \<Rightarrow> ('s, exn, unit) eff" where
  "processTimeoutJob env mid roundNumber token = handleMatchTimeout env mid roundNumber WAITING_PLAYS token"

definition processForfeitJob :: "'s env \<Rightarrow> string \<Rightarrow> string \<Rightarrow> string \<Rightarrow> ('s, exn, unit) eff" where
  "processForfeitJob env userId mid token =
     bindS (handleDisconnectForfeit env userId mid token) (\<lambda>forfeited.
       if forfeited then e_metric env (ReconnectTotal ''forfeited'') else ret ())"

subsection \<open>The handlers run as documented\<close>

context game_env
begin

lemma sim_schedulers [sim_rules]:
  "sim view (cancel_job env q k) (cancel_job mem_env q k)"
  unfolding cancel_job_def by (intro sim_rules; simp add: queue_ok_def)+

lemma sim_scheduler_services [sim_rules]:
  "sim view (cancelTimeout env mid) (cancelTimeout mem_env mid)"
  "sim view (scheduleTimeout env mid n d) (scheduleTimeout mem_env mid n d)"
  "sim view (cancelForfeit env u) (cancelForfeit mem_env u)"
  "sim view (scheduleForfeit env u mid d) (scheduleForfeit mem_env u mid d)"
  "sim view (publishMatchEnded env st) (publishMatchEnded mem_env st)"
  unfolding cancelTimeout_def scheduleTimeout_def cancelForfeit_def scheduleForfeit_def publishMatchEnded_def
  by (intro sim_rules; simp add: queue_ok_def)+

lemma sim_timers [sim_rules]:
  "sim view (cancelForfeitForPlayers env us) (cancelForfeitForPlayers mem_env us)"
  "sim view (schedulePhaseTimeout env mid n t) (schedulePhaseTimeout mem_env mid n t)"
  "sim view (clearTimer env mid) (clearTimer mem_env mid)"
  unfolding cancelForfeitForPlayers_def schedulePhaseTimeout_def clearTimer_def by (intro sim_rules)+

lemma sim_finalize [sim_rules]:
  "sim view (onMatchStarted env st) (onMatchStarted mem_env st)"
  "sim view (finalize_body env st) (finalize_body mem_env st)"
  unfolding onMatchStarted_def finalize_body_def Let_def by (intro sim_rules)+

lemma sim_finalizeMatch [sim_rules]: "sim view (finalizeMatch env st) (finalizeMatch mem_env st)"
  unfolding finalizeMatch_def by (intro sim_rules)

lemma sim_afterRoundResolved [sim_rules]:
  "sim view (afterRoundResolved env st r) (afterRoundResolved mem_env st r)"
  "sim view (trySubmitPlay env u mid n m t) (trySubmitPlay mem_env u mid n m t)"
  unfolding afterRoundResolved_def trySubmitPlay_def Let_def by (intro sim_rules)+

lemma sim_submit_attempts [sim_rules]:
  "sim view (submit_attempts env u mid n m i ts) (submit_attempts mem_env u mid n m i ts)"
proof (induction ts arbitrary: i)
  case (Cons t ts)
  show ?case unfolding submit_attempts.simps by (intro sim_rules Cons.IH)
qed (simp add: submit_attempts.simps sim_ret)

lemma sim_submitPlay [sim_rules]: "sim view (submitPlay env u mid n m t) (submitPlay mem_env u mid n m t)"
  unfolding submitPlay_def by (intro sim_rules)

lemma sim_timeouts [sim_rules]:
  "sim view (handleRoundTimeout env mid n t) (handleRoundTimeout mem_env mid n t)"
  "sim view (handleDisconnectForfeit env u mid t) (handleDisconnectForfeit mem_env u mid t)"
  unfolding handleRoundTimeout_def handleDisconnectForfeit_def by (intro sim_rules)+

lemma sim_workers [sim_rules]:
  "sim view (processTimeoutJob env mid n t) (processTimeoutJob mem_env mid n t)"
  "sim view (processForfeitJob env u mid t) (processForfeitJob mem_env u mid t)"
  unfolding processTimeoutJob_def handleMatchTimeout_def processForfeitJob_def by (intro sim_rules)+

end

subsection \<open>What is stored is reachable\<close>

text \<open>
  Every match state in Redis is a reachable one, under the key of its match. The invariant holds
  through failing calls, retries and races for the lock, since it is kept by every single call.
\<close>

definition keys_inv :: "game_redis \<Rightarrow> bool" where
  "keys_inv d \<longleftrightarrow> (\<forall>k st e. rd_keys d k = Some (RStr (Json st), e) \<longrightarrow>
     match_reachable st \<and> k = matchStateKey (matchId st))"

definition stored_inv :: "world \<Rightarrow> bool" where
  "stored_inv w \<longleftrightarrow> keys_inv (rd w)"

lemma keys_inv_put:
  "keys_inv d \<Longrightarrow> (\<And>st. v = RStr (Json st) \<Longrightarrow> match_reachable st \<and> k = matchStateKey (matchId st)) \<Longrightarrow>
   keys_inv (put k v e d)"
  by (auto simp: keys_inv_def put_def)

lemma keys_inv_put_simps [simp]:
  "keys_inv d \<Longrightarrow> keys_inv (put k (RStr (Txt t)) e d)" "keys_inv d \<Longrightarrow> keys_inv (put k (RZset z) e d)"
  "keys_inv d \<Longrightarrow> keys_inv (put k (RHash h) e d)"
  by (auto intro: keys_inv_put)

lemma keys_inv_unset [simp]: "keys_inv d \<Longrightarrow> keys_inv (unset k d)"
  by (auto simp: keys_inv_def unset_def)

lemma keys_inv_look: "keys_inv d \<Longrightarrow> look d k = Some (RStr (Json st)) \<Longrightarrow>
    match_reachable st \<and> k = matchStateKey (matchId st)"
  by (auto simp: keys_inv_def look_def split: option.splits prod.splits if_splits)

lemma keys_inv_upd [simp]:
  "keys_inv d \<Longrightarrow> keys_inv (upd k (RStr (Txt t)) d)" "keys_inv d \<Longrightarrow> keys_inv (upd k (RZset z) d)"
  "keys_inv d \<Longrightarrow> keys_inv (upd k (RHash h) d)"
  by (simp_all add: upd_def)

lemma keys_inv_zstore [simp]: "keys_inv d \<Longrightarrow> keys_inv (zstore k z d)"
  by (simp add: zstore_def)

lemma keys_inv_do [simp]:
  assumes "keys_inv d"
  shows "keys_inv (snd (do_get k d))" "keys_inv (snd (do_set_nx k (Txt t) ttl d))" "keys_inv (snd (do_del k d))"
    "keys_inv (snd (do_hset k vs d))" "keys_inv (snd (do_hgetall k d))" "keys_inv (snd (do_zadd k sc m d))"
    "keys_inv (snd (do_zrem k m d))" "keys_inv (snd (do_zcard k d))" "keys_inv (snd (do_zscore k m d))"
    "keys_inv (snd (do_zrange k d))" "keys_inv (snd (do_incr k d))" "keys_inv (snd (do_expire k ttl d))"
    "keys_inv (snd (do_set k (Txt t) ttl d))" "keys_inv (snd (compare_and_delete k t d))"
  using assms
  by (auto simp: do_defs compare_and_delete_def split: option.splits sum.splits rvalue.splits stored.splits
      dest: keys_inv_look intro!: keys_inv_put)

lemma keeps_command:
  assumes "\<And>d. keys_inv d \<Longrightarrow> keys_inv (snd (c d))"
  shows "preserves stored_inv (command c)"
  using assms
  by (auto simp: keeps_def stored_inv_def command_def remote_def split: list.splits bool.splits prod.splits
      sum.splits)
    (metis snd_conv)+

lemma keeps_remote:
  assumes "\<And>w. stored_inv w \<Longrightarrow> stored_inv (snd (f w))"
  shows "preserves stored_inv (remote e f)"
proof -
  have "stored_inv (w\<lparr>outages := os\<rparr>) = stored_inv w" for w os by (simp add: stored_inv_def)
  with assms show ?thesis
    by (auto simp: keeps_def remote_def split: list.splits bool.splits)
qed

lemma keeps_requireClient:
  "preserves stored_inv (f mem_redis) \<Longrightarrow> preserves stored_inv (requireClient mem_env f)"
  by (simp add: requireClient_def mem_env_def)

lemma keeps_redis_client [keep_rules]:
  "preserves stored_inv (rc_get mem_redis k)" "preserves stored_inv (rc_set mem_redis k (Txt t) ttl)"
  "preserves stored_inv (rc_set_nx mem_redis k (Txt t) ttl)" "preserves stored_inv (rc_del mem_redis k)"
  "preserves stored_inv (rc_hset mem_redis k vs)" "preserves stored_inv (rc_hgetall mem_redis k)"
  "preserves stored_inv (rc_zadd mem_redis k sc m)" "preserves stored_inv (rc_zrem mem_redis k m)"
  "preserves stored_inv (rc_zcard mem_redis k)" "preserves stored_inv (rc_zscore mem_redis k m)"
  "preserves stored_inv (rc_zrange mem_redis k)" "preserves stored_inv (rc_incr mem_redis k)"
  "preserves stored_inv (rc_expire mem_redis k ttl)"
  "preserves stored_inv (rc_eval mem_redis (compare_and_delete k t))"
  by (simp_all add: mem_redis_def keeps_command)

lemma keeps_publish [keep_rules]: "preserves stored_inv (rc_publish mem_redis ch msg)"
  unfolding mem_redis_def redis_client.simps by (rule keeps_remote) (simp add: stored_inv_def)

lemma keeps_redis_service [keep_rules]:
  "preserves stored_inv (get mem_env k)"
  "preserves stored_inv (setex mem_env k ttl (Txt t))"
  "preserves stored_inv (setnx mem_env k ttl t)"
  "preserves stored_inv (releaseLock mem_env k t)"
  "preserves stored_inv (del mem_env k)"
  "preserves stored_inv (publish mem_env ch msg)"
  "preserves stored_inv (getUserSocket mem_env u)"
  "preserves stored_inv (setUserSocket mem_env u t)"
  "preserves stored_inv (removeUserSocket mem_env u t)"
  "preserves stored_inv (hset mem_env k vs)"
  "preserves stored_inv (hgetall mem_env k)"
  "preserves stored_inv (zadd mem_env k sc m)"
  "preserves stored_inv (zcard mem_env k)"
  "preserves stored_inv (zrangeWithScores mem_env k)"
  "preserves stored_inv (incrWithExpiry mem_env k ttl)"
  unfolding redis_service_defs RELEASE_LOCK_IF_TOKEN_MATCHES_SCRIPT_def REMOVE_USER_SOCKET_IF_MATCH_SCRIPT_def
  by (rule TrueI keeps_requireClient keep_rules)+

lemma keeps_process [keep_rules]:
  "preserves stored_inv (e_now mem_env)" "preserves stored_inv (e_sleep mem_env ms)"
  "preserves stored_inv (e_metric mem_env m)" "preserves stored_inv (e_emit mem_env sid ev)"
  by (simp_all add: keeps_def stored_inv_def keys_inv_def)

lemma keeps_queue [keep_rules]:
  "preserves stored_inv (qc_add mem_queue q n x jid y z)" "preserves stored_inv (qc_getJob mem_queue q i)"
  "preserves stored_inv (qc_remove mem_queue q i)"
  by (auto simp: mem_queue_def do_add_def do_getJob_def do_remove_def stored_inv_def Let_def
      intro!: keeps_remote split: option.splits)

lemma e_queue_mem: "e_queue mem_env = Some mem_queue"
  by (simp add: mem_env_def)

lemma keeps_saveState: "match_reachable st \<Longrightarrow> preserves stored_inv (saveState mem_env st)"
  unfolding saveState_def setex_def mem_redis_def
  by (intro keeps_requireClient) (auto simp: mem_redis_def do_set_def intro!: keeps_command keys_inv_put)

lemma keeps_loadState:
  "keeps stored_inv (loadState mem_env mid) (\<lambda>r. \<forall>st. r = Some st \<longrightarrow> match_reachable st \<and> matchId st = mid)"
proof -
  have "keeps stored_inv (get mem_env (matchStateKey mid))
      (\<lambda>r. \<forall>st. r = Some (Json st) \<longrightarrow> match_reachable st \<and> matchId st = mid)"
    by (auto simp: keeps_def get_def requireClient_def mem_env_def mem_redis_def command_def remote_def do_get_def
        stored_inv_def split: list.splits bool.splits option.splits rvalue.splits dest!: keys_inv_look)
  then show ?thesis
    unfolding loadState_def by (rule keeps_bindS) (auto intro: keeps_ret split: option.splits stored.splits)
qed

text \<open>A mutator is sound if it leads from reachable states to reachable states of the same match.\<close>

definition sound_mutator :: "(time \<Rightarrow> MatchState \<Rightarrow> exn + MatchState \<times> 'r) \<Rightarrow> bool" where
  "sound_mutator f \<longleftrightarrow> (\<forall>now st st' x. f now st = Inr (st', x) \<longrightarrow>
     match_step st st' \<and> matchId st' = matchId st)"

lemma keeps_mutateState [keep_rules]:
  assumes "sound_mutator f"
  shows "keeps stored_inv (mutateState mem_env mid t (timed mem_env f)) (\<lambda>r. match_reachable (fst r))"
proof -
  have mut: "keeps stored_inv (timed mem_env f st) (\<lambda>r. match_reachable (fst r))" if "match_reachable st" for st
    unfolding timed_def using assms that
    by (intro keeps_bindS [OF keeps_process(1)] keeps_liftS)
      (metis match_reachable.step prod.collapse sound_mutator_def)
  have "keeps stored_inv (bindS (loadState mem_env mid) (\<lambda>state. case state of
        None \<Rightarrow> raise (MatchSessionNotFoundError mid)
      | Some st \<Rightarrow> bindS (timed mem_env f st) (\<lambda>nx. thenS (saveState mem_env (fst nx)) (ret nx))))
     (\<lambda>r. match_reachable (fst r))"
    by (rule keeps_bindS [OF keeps_loadState]) ((rule TrueI keep_rules mut keeps_saveState | simp)+)
  note body = this
  show ?thesis unfolding mutateState_def by (rule TrueI body keep_rules)+
qed

lemma play_mutator_id: "play_mutator u n m now st = Inr (st', res) \<Longrightarrow> matchId st' = matchId st"
  by (auto dest!: play_mutator_Inr simp: after_round_def resolveRound_def endMatch_def Let_def)

lemma timeout_mutator_id: "timeout_mutator n now st = Inr st' \<Longrightarrow> matchId st' = matchId st"
  by (auto simp: timeout_mutator_def push_round_def Let_def split: if_splits dest!: transition_frame)

lemma disconnect_mutator_id: "matchId (fst (disconnect_mutator u st)) = matchId st"
  by (simp add: disconnect_mutator_def split: option.split)

lemma sound_steps [simp]:
  "sound_mutator (play_step u n m)" "sound_mutator (timeout_step k)" "sound_mutator (disconnect_step u)"
proof -
  show "sound_mutator (play_step u n m)"
    unfolding sound_mutator_def play_step_def
    by (auto simp: map_sum_def split: sum.splits dest: play_mutator_id intro: match_step.play)
  show "sound_mutator (timeout_step k)"
    unfolding sound_mutator_def timeout_step_def
    by (auto simp: map_sum_def split: sum.splits dest: timeout_mutator_id intro: match_step.timeout)
  show "sound_mutator (disconnect_step u)"
    unfolding sound_mutator_def disconnect_step_def
    by (auto intro: match_step.disconnect) (metis disconnect_mutator_id fst_conv)
qed

lemma keeps_broadcasts [keep_rules]:
  "preserves stored_inv (broadcastToMatch mem_env mid ev r)"
  "preserves stored_inv (mapUsers mem_env st)"
  "preserves stored_inv (cleanupUserMappings mem_env st)"
  "preserves stored_inv (broadcastRoundStart mem_env st)"
  unfolding broadcastToMatch_def mapUsers_def cleanupUserMappings_def broadcastRoundStart_def
  by (rule TrueI keep_rules)+

lemma keeps_initial_events [keep_rules]: "preserves stored_inv (broadcastInitialEvents mem_env st)"
  unfolding broadcastInitialEvents_def Let_def by (rule TrueI keep_rules)+

lemma keeps_create [keep_rules]: "preserves stored_inv (create mem_env ps mid tid)"
  unfolding create_def Let_def
  by (rule TrueI keep_rules keeps_saveState match_reachable.init)+

lemma keeps_schedulers [keep_rules]: "preserves stored_inv (cancel_job mem_env q k)"
  unfolding cancel_job_def e_queue_mem option.case by (rule TrueI keep_rules)+

lemma keeps_scheduler_services [keep_rules]:
  "preserves stored_inv (scheduleTimeout mem_env mid n d)"
  "preserves stored_inv (cancelTimeout mem_env mid)"
  "preserves stored_inv (cancelForfeit mem_env u)"
  "preserves stored_inv (scheduleForfeit mem_env u mid d)"
  "preserves stored_inv (publishMatchEnded mem_env st)"
  unfolding scheduleTimeout_def cancelTimeout_def cancelForfeit_def scheduleForfeit_def publishMatchEnded_def
    e_queue_mem option.case
  by (rule TrueI keep_rules)+

lemma keeps_timers [keep_rules]:
  "preserves stored_inv (schedulePhaseTimeout mem_env mid n t)"
  "preserves stored_inv (clearTimer mem_env mid)"
  "preserves stored_inv (cancelForfeitForPlayers mem_env us)"
  unfolding schedulePhaseTimeout_def clearTimer_def cancelForfeitForPlayers_def
  by (rule TrueI keep_rules)+

lemma keeps_finalize [keep_rules]: "preserves stored_inv (finalizeMatch mem_env st)"
  unfolding finalizeMatch_def finalize_body_def Let_def by (rule TrueI keep_rules)+

lemma keeps_afterRoundResolved [keep_rules]: "preserves stored_inv (afterRoundResolved mem_env st r)"
  unfolding afterRoundResolved_def Let_def by (rule TrueI keep_rules)+

lemma keeps_submit_attempts [keep_rules]: "preserves stored_inv (submit_attempts mem_env u mid n m i ts)"
proof (induction ts arbitrary: i)
  case (Cons t ts)
  show ?case unfolding submit_attempts.simps trySubmitPlay_def
    by (rule TrueI keep_rules Cons.IH sound_steps)+
qed (simp add: submit_attempts.simps keeps_ret)

lemma keeps_play_handlers:
  "preserves stored_inv (submitPlay mem_env u mid n mv t)"
  "preserves stored_inv (processTimeoutJob mem_env mid k tok)"
  "preserves stored_inv (processForfeitJob mem_env u mid tok)"
  unfolding submitPlay_def processTimeoutJob_def handleMatchTimeout_def handleRoundTimeout_def
    processForfeitJob_def handleDisconnectForfeit_def
  by (rule TrueI keep_rules sound_steps)+


lemma stored_inv_idle: "match_reachable st \<Longrightarrow> stored_inv (idle_world st)"
  by (auto simp: stored_inv_def idle_world_def keys_inv_def put_def)


end
