(* ===== verification/Match_Finalize.thy ===== *)
theory Match_Finalize
  imports Match_Play
begin

section \<open>apps/game-service: a match is finalized once\<close>

text \<open>
  What \<open>finalizeMatch\<close> does when no call fails, and what becomes of the result of a match when a
  call fails in the middle. Match ids are UUIDs; what matters of their shape is their length and
  that they contain no colon, so that the keys of different kinds cannot collide.
\<close>

definition is_uuid :: "string \<Rightarrow> bool" where
  "is_uuid s \<longleftrightarrow> length s = 36 \<and> CHR '':'' \<notin> set s"

text \<open>The jobs waiting in the queue of ended matches.\<close>

definition ends :: "world \<Rightarrow> job list" where
  "ends w = filter (\<lambda>j. job_queue j = ''match-events'') (jobs w)"

text \<open>\<open>quiet K w w'\<close>: nothing was published, and at most keys of \<open>K\<close> and timer jobs were removed.\<close>

definition quiet :: "string set \<Rightarrow> world \<Rightarrow> world \<Rightarrow> bool" where
  "quiet K w w' \<longleftrightarrow> outages w' = [] \<and> published w' = published w \<and> ends w' = ends w \<and>
     rd_now (rd w') = rd_now (rd w) \<and> (\<forall>k. look (rd w') k = look (rd w) k \<or> k \<in> K \<and> look (rd w') k = None)"

lemma quiet_trans: "quiet K w w' \<Longrightarrow> quiet L w' w'' \<Longrightarrow> quiet (K \<union> L) w w''"
  unfolding quiet_def by (metis Un_iff)

lemma quiet_look: "quiet K w w' \<Longrightarrow> k \<notin> K \<Longrightarrow> look (rd w') k = look (rd w) k"
  by (auto simp: quiet_def)

lemma ends_simps [simp]:
  "ends (w\<lparr>rd := d\<rparr>) = ends w" "ends (w\<lparr>outages := os\<rparr>) = ends w" "ends (w\<lparr>metrics := ms\<rparr>) = ends w"
  "ends (w\<lparr>published := ps\<rparr>) = ends w"
  by (simp_all add: ends_def)

subsection \<open>The pieces\<close>

lemma cancel_job_quiet:
  assumes "outages w = []" and "lock_key_ok k (rd w)" and "q \<noteq> ''match-events''"
  shows "\<exists>w'. cancel_job mem_env q k w = (Inr (), w') \<and> quiet {k} w w'"
proof -
  have queue: "remote QueueError f w = f w" for f :: "world \<Rightarrow> (exn + 'x) \<times> world"
    using assms(1) by (simp add: remote_def)
  have ends: "filter (\<lambda>j. \<not> is_job q i j \<and> job_queue j = ''match-events'') xs
      = filter (\<lambda>j. job_queue j = ''match-events'') xs" for i xs
    using assms(3) by (intro filter_cong) (auto simp: is_job_def)
  from assms(2) show ?thesis
  proof (cases rule: lock_key_cases)
    case 1
    with assms(1) have "cancel_job mem_env q k w = (Inr (), w)"
      by (simp add: cancel_job_def eff_simps redis_run do_get_def)
    with assms(1) show ?thesis by (auto simp: quiet_def)
  next
    case (2 t)
    show ?thesis
    proof (cases "t = []")
      case True
      with 2 assms(1) have "cancel_job mem_env q k w = (Inr (), w)"
        by (simp add: cancel_job_def eff_simps redis_run do_get_def)
      with assms(1) show ?thesis by (auto simp: quiet_def)
    next
      case False
      with 2 assms(1) show ?thesis
        by (auto simp: cancel_job_def eff_simps redis_run do_get_def e_queue_mem mem_queue_def queue remote_def
            do_getJob_def do_remove_def quiet_def ends_def ends)
    qed
  qed
qed

lemma clearTimer_quiet:
  assumes "outages w = []" and "lock_key_ok (matchTimeoutJobKey mid) (rd w)"
  shows "\<exists>w'. clearTimer mem_env mid w = (Inr (), w') \<and> quiet {matchTimeoutJobKey mid} w w'"
proof -
  have "MATCH_TIMEOUT_QUEUE \<noteq> ''match-events''" by (simp add: MATCH_TIMEOUT_QUEUE_def)
  from cancel_job_quiet [OF assms this] show ?thesis
    by (auto simp: clearTimer_def cancelTimeout_def eff_simps)
qed

lemma cancelForfeit_quiet:
  assumes "outages w = []" and "lock_key_ok (matchDisconnectForfeitJobKey u) (rd w)"
  shows "\<exists>w'. cancelForfeit mem_env u w = (Inr (), w') \<and> quiet {matchDisconnectForfeitJobKey u} w w'"
proof -
  have "MATCH_DISCONNECT_FORFEIT_QUEUE \<noteq> ''match-events''" by (simp add: MATCH_DISCONNECT_FORFEIT_QUEUE_def)
  from cancel_job_quiet [OF assms this] show ?thesis
    by (auto simp: cancelForfeit_def)
qed

lemma lock_key_ok_quiet: "quiet K w w' \<Longrightarrow> lock_key_ok k (rd w) \<Longrightarrow> lock_key_ok k (rd w')"
  unfolding quiet_def lock_key_ok_def by metis

text \<open>The keys a finished match leaves to clean up hold what the service stores in them.\<close>

definition end_keys :: "MatchState \<Rightarrow> string set" where
  "end_keys st = {matchTimeoutJobKey (matchId st), matchDisconnectForfeitJobKey (mp_userId (fst (players st))),
     matchDisconnectForfeitJobKey (mp_userId (snd (players st)))}"

definition end_keys_ok :: "MatchState \<Rightarrow> world \<Rightarrow> bool" where
  "end_keys_ok st w \<longleftrightarrow> lock_key_ok (matchTimeoutJobKey (matchId st)) (rd w) \<and>
     lock_key_ok (matchDisconnectForfeitJobKey (mp_userId (fst (players st)))) (rd w) \<and>
     lock_key_ok (matchDisconnectForfeitJobKey (mp_userId (snd (players st)))) (rd w)"

lemma cancelForfeitForPlayers_quiet:
  assumes "outages w = []" and "end_keys_ok st w"
  shows "\<exists>w'. cancelForfeitForPlayers mem_env [mp_userId (fst (players st)), mp_userId (snd (players st))] w
      = (Inr (), w') \<and> quiet (end_keys st) w w'"
proof -
  let ?a = "mp_userId (fst (players st))" and ?b = "mp_userId (snd (players st))"
  obtain w1 where w1: "cancelForfeit mem_env ?a w = (Inr (), w1)" "quiet {matchDisconnectForfeitJobKey ?a} w w1"
    using cancelForfeit_quiet [OF assms(1)] assms(2) by (auto simp: end_keys_ok_def)
  have "outages w1 = []" "lock_key_ok (matchDisconnectForfeitJobKey ?b) (rd w1)"
    using w1(2) assms(2) by (auto simp: quiet_def end_keys_ok_def intro: lock_key_ok_quiet [OF w1(2)])
  then obtain w2 where w2: "cancelForfeit mem_env ?b w1 = (Inr (), w2)" "quiet {matchDisconnectForfeitJobKey ?b} w1 w2"
    using cancelForfeit_quiet by blast
  have "quiet (end_keys st) w w2"
    using quiet_trans [OF w1(2) w2(2)] by (auto simp: quiet_def end_keys_def)
  with w1(1) w2(1) show ?thesis
    by (auto simp: cancelForfeitForPlayers_def eff_simps)
qed

text \<open>The job that carries the result.\<close>

definition ended_job :: "MatchState \<Rightarrow> job" where
  "ended_job st = \<lparr>job_queue = ''match-events'', job_id = matchId st, job_name = ''match-ended'',
     job_data = EndedJob (ended_payload_of st), job_delay = 0, job_attempts = 3, job_active = False\<rparr>"

text \<open>The two messages.\<close>

definition ended_msgs :: "MatchState \<Rightarrow> int \<times> int \<Rightarrow> (string \<times> bus_msg) list" where
  "ended_msgs st elo =
     (let ev = matchEnded (matchId st) (winnerId st) (scoreA st, scoreB st) elo (endReason st) in
      [(matchChannel (matchId st), \<lparr>bm_event = ev, bm_recipient = Some (mp_userId (fst (players st)))\<rparr>),
       (matchChannel (matchId st), \<lparr>bm_event = ev, bm_recipient = Some (mp_userId (snd (players st)))\<rparr>)])"

lemma publishMatchEnded_run:
  assumes "outages w = []" and "\<And>j. j \<in> set (ends w) \<Longrightarrow> job_id j \<noteq> matchId st"
  shows "publishMatchEnded mem_env st w = (Inr (), w\<lparr>jobs := jobs w @ [ended_job st]\<rparr>)"
proof -
  have "\<not> (\<exists>j \<in> set (jobs w). is_job ''match-events'' (matchId st) j)"
    using assms(2) by (auto simp: ends_def is_job_def)
  with assms(1) show ?thesis
    by (simp add: publishMatchEnded_def e_queue_mem mem_queue_def remote_def do_add_def eff_simps ended_job_def)
qed

lemma finalize_body_run:
  assumes "outages w = []" and "end_keys_ok st w" and "resolveEloDelta st = Inr elo"
    and "\<And>j. j \<in> set (ends w) \<Longrightarrow> job_id j \<noteq> matchId st"
  shows "\<exists>w'. finalize_body mem_env st w = (Inr (), w') \<and> outages w' = [] \<and>
    published w' = published w @ ended_msgs st elo \<and> ends w' = ends w @ [ended_job st] \<and>
    rd_now (rd w') = rd_now (rd w) \<and>
    look (rd w') (userMatchKey (mp_userId (fst (players st)))) = None \<and>
    look (rd w') (userMatchKey (mp_userId (snd (players st)))) = None \<and>
    (\<forall>k. k \<notin> end_keys st \<union> {userMatchKey (mp_userId (fst (players st))),
        userMatchKey (mp_userId (snd (players st)))} \<longrightarrow> look (rd w') k = look (rd w) k)"
proof -
  obtain w1 where w1: "clearTimer mem_env (matchId st) w = (Inr (), w1)" "quiet {matchTimeoutJobKey (matchId st)} w w1"
    using clearTimer_quiet [OF assms(1)] assms(2) by (auto simp: end_keys_ok_def)
  define w1' where "w1' = w1\<lparr>metrics := metrics w1 @ [MatchPlayed (resolveMatchOutcome st)]\<rparr>"
  have q1: "quiet {matchTimeoutJobKey (matchId st)} w w1'"
    using w1(2) by (simp add: quiet_def w1'_def)
  have "outages w1' = []" "end_keys_ok st w1'"
    using q1 assms(2) by (auto simp: quiet_def end_keys_ok_def intro: lock_key_ok_quiet [OF q1])
  then obtain w2 where w2: "cancelForfeitForPlayers mem_env
      [mp_userId (fst (players st)), mp_userId (snd (players st))] w1' = (Inr (), w2)"
    "quiet (end_keys st) w1' w2"
    using cancelForfeitForPlayers_quiet by blast
  have q: "quiet (end_keys st) w w2"
    using quiet_trans [OF q1 w2(2)] by (auto simp: quiet_def end_keys_def)
  define w3 where "w3 = w2\<lparr>published := published w2 @ ended_msgs st elo,
    rd := unset (userMatchKey (mp_userId (snd (players st)))) (unset (userMatchKey (mp_userId (fst (players st)))) (rd w2))\<rparr>"
  have out: "outages w2 = []" using q by (simp add: quiet_def)
  have "publishMatchEnded mem_env st w3 = (Inr (), w3\<lparr>jobs := jobs w3 @ [ended_job st]\<rparr>)"
  proof (rule publishMatchEnded_run)
    show "outages w3 = []" using out by (simp add: w3_def)
    have "ends w3 = ends w" using q by (simp add: w3_def quiet_def ends_def)
    then show "\<And>j. j \<in> set (ends w3) \<Longrightarrow> job_id j \<noteq> matchId st" using assms(4) by simp
  qed
  then have "finalize_body mem_env st w = (Inr (), w3\<lparr>jobs := jobs w3 @ [ended_job st]\<rparr>)"
    using w1(1) w2(1) out assms(3)
    by (simp add: finalize_body_def eff_simps w1'_def [symmetric] broadcastToMatch_def redis_run
        cleanupUserMappings_def ended_msgs_def Let_def w3_def)
  moreover have "quiet (end_keys st) w w2" by (rule q)
  ultimately show ?thesis
    by (auto simp: w3_def quiet_def ends_def ended_job_def)
qed

subsection \<open>The guard\<close>

lemma colon_prefix: "CHR '':'' \<notin> set xs \<Longrightarrow> CHR '':'' \<notin> set us \<Longrightarrow> xs @ CHR '':'' # ys = us @ CHR '':'' # vs \<Longrightarrow> xs = us"
  by (induction xs arbitrary: us) (case_tac us; auto)+

lemma finalizedKey_distinct:
  assumes "is_uuid mid"
  shows "finalizedKey mid \<noteq> matchTimeoutJobKey mid'" "finalizedKey mid \<noteq> userMatchKey u"
    "finalizedKey mid \<noteq> matchDisconnectForfeitJobKey u"
proof -
  have "last (finalizedKey mid) \<noteq> last (matchTimeoutJobKey mid')"
    by (simp add: finalizedKey_def matchTimeoutJobKey_def)
  then show "finalizedKey mid \<noteq> matchTimeoutJobKey mid'" by metis
  show "finalizedKey mid \<noteq> userMatchKey u"
  proof
    assume "finalizedKey mid = userMatchKey u"
    then have "mid @ CHR '':'' # ''finalized'' = ''byUser'' @ CHR '':'' # u"
      by (simp add: finalizedKey_def userMatchKey_def)
    then have "mid = ''byUser''" by (rule colon_prefix [rotated 2]) (use assms in \<open>simp_all add: is_uuid_def\<close>)
    with assms show False by (simp add: is_uuid_def)
  qed
  show "finalizedKey mid \<noteq> matchDisconnectForfeitJobKey u"
  proof
    assume "finalizedKey mid = matchDisconnectForfeitJobKey u"
    then have "mid @ CHR '':'' # ''finalized'' = ''disconnectForfeit'' @ CHR '':'' # u"
      by (simp add: finalizedKey_def matchDisconnectForfeitJobKey_def)
    then have "mid = ''disconnectForfeit''"
      by (rule colon_prefix [rotated 2]) (use assms in \<open>simp_all add: is_uuid_def\<close>)
    with assms show False by (simp add: is_uuid_def)
  qed
qed

lemma finalizeMatch_claimed:
  assumes "outages w = []" and "look (rd w) (finalizedKey (matchId st)) \<noteq> None"
  shows "finalizeMatch mem_env st w = (Inr (), w)"
  using assms by (auto simp: finalizeMatch_def eff_simps redis_run)

lemma resolveEloDelta_ok:
  assumes "0 \<le> mp_rating (fst (players st))" and "0 \<le> mp_rating (snd (players st))"
  obtains elo where "resolveEloDelta st = Inr elo"
proof -
  have "valid_args (Fin (of_int (mp_rating (fst (players st))))) (Fin (of_int (mp_rating (snd (players st)))))
      (toEloOutcome st) (Fin 0) (Fin 0)"
    using assms by (simp add: valid_args_def toEloOutcome_def)
  from computeElo_valid [OF this] that show ?thesis by (simp add: resolveEloDelta_def)
qed

lemma put_key_simps [simp]:
  "lock_key_ok k (put k' (RStr (Txt t)) e d) \<longleftrightarrow> lock_key_ok k d \<or> k = k'"
  by (auto simp: lock_key_ok_def)

text \<open>The first call: everything \<open>finalize_body\<close> does, with the guard set.\<close>

lemma finalizeMatch_first_run:
  assumes "outages w = []" and "is_uuid (matchId st)" and "look (rd w) (finalizedKey (matchId st)) = None"
    and "end_keys_ok st w" and "\<And>j. j \<in> set (ends w) \<Longrightarrow> job_id j \<noteq> matchId st"
    and "0 \<le> mp_rating (fst (players st))" and "0 \<le> mp_rating (snd (players st))"
  obtains elo w' where "resolveEloDelta st = Inr elo" and "finalizeMatch mem_env st w = (Inr (), w')" and "outages w' = []"
    and "published w' = published w @ ended_msgs st elo" and "ends w' = ends w @ [ended_job st]"
    and "look (rd w') (userMatchKey (mp_userId (fst (players st)))) = None"
    and "look (rd w') (userMatchKey (mp_userId (snd (players st)))) = None"
    and "look (rd w') (finalizedKey (matchId st)) \<noteq> None"
    and "\<And>k. k \<notin> end_keys st \<union> {finalizedKey (matchId st), userMatchKey (mp_userId (fst (players st))),
      userMatchKey (mp_userId (snd (players st)))} \<Longrightarrow> look (rd w') k = look (rd w) k"
proof -
  obtain elo where elo: "resolveEloDelta st = Inr elo" using resolveEloDelta_ok assms(6,7) by blast
  let ?k = "finalizedKey (matchId st)"
  define w1 where "w1 = w\<lparr>rd := put ?k (RStr (Txt ''1'')) (expiry (rd w) MATCH_FINALIZE_LOCK_TTL_SECONDS) (rd w)\<rparr>"
  have w1: "outages w1 = []" "end_keys_ok st w1" "ends w1 = ends w" "published w1 = published w"
    "look (rd w1) ?k \<noteq> None" "\<And>k. k \<noteq> ?k \<Longrightarrow> look (rd w1) k = look (rd w) k"
    using assms(1,4) by (simp_all add: w1_def end_keys_ok_def MATCH_FINALIZE_LOCK_TTL_SECONDS_def)
  obtain w' where w': "finalize_body mem_env st w1 = (Inr (), w')" "outages w' = []"
    "published w' = published w @ ended_msgs st elo" "ends w' = ends w @ [ended_job st]"
    "look (rd w') (userMatchKey (mp_userId (fst (players st)))) = None"
    "look (rd w') (userMatchKey (mp_userId (snd (players st)))) = None"
    "\<And>k. k \<notin> end_keys st \<union> {userMatchKey (mp_userId (fst (players st))),
        userMatchKey (mp_userId (snd (players st)))} \<Longrightarrow> look (rd w') k = look (rd w1) k"
    using finalize_body_run [OF w1(1,2) elo] w1(3,4) assms(5) by auto
  have "look (rd w') ?k \<noteq> None"
    using w'(7) [of ?k] w1(5) finalizedKey_distinct [OF assms(2)] by (auto simp: end_keys_def)
  moreover have "finalizeMatch mem_env st w = (Inr (), w')"
    using assms(1,3) w'(1) by (simp add: finalizeMatch_def eff_simps redis_run w1_def)
  ultimately show ?thesis using that [OF elo] w'(2-7) w1(6) by auto
qed

text \<open>
  C5. Finalizing a match that ended, when no call fails and nobody has finalized it: each player is
  sent the end of the match, exactly one job with the result of the match is queued under the id of
  the match, the players are free to play again, and the guard is set; finalizing the match again
  (a timeout and a disconnection may both reach this point), with any state of it, changes nothing.
\<close>

theorem finalizeMatch_once:
  assumes "env_ok env view" and "outages (view s) = []" and "is_uuid (matchId st)"
    and "look (rd (view s)) (finalizedKey (matchId st)) = None" and "end_keys_ok st (view s)"
    and "\<And>j. j \<in> set (ends (view s)) \<Longrightarrow> job_id j \<noteq> matchId st"
    and "0 \<le> mp_rating (fst (players st))" and "0 \<le> mp_rating (snd (players st))"
    and "matchId st' = matchId st"
  shows "fst (finalizeMatch env st s) = Inr () \<and>
    (let w' = view (snd (finalizeMatch env st s)) in
      (\<exists>elo. published w' = published (view s) @ ended_msgs st elo) \<and>
      ends w' = ends (view s) @ [ended_job st] \<and>
      look (rd w') (userMatchKey (mp_userId (fst (players st)))) = None \<and>
      look (rd w') (userMatchKey (mp_userId (snd (players st)))) = None \<and>
      fst (finalizeMatch env st' (snd (finalizeMatch env st s))) = Inr () \<and>
      view (snd (finalizeMatch env st' (snd (finalizeMatch env st s)))) = w')"
proof -
  obtain elo w' where w': "resolveEloDelta st = Inr elo" "finalizeMatch mem_env st (view s) = (Inr (), w')" "outages w' = []"
    "published w' = published (view s) @ ended_msgs st elo" "ends w' = ends (view s) @ [ended_job st]"
    "look (rd w') (userMatchKey (mp_userId (fst (players st)))) = None"
    "look (rd w') (userMatchKey (mp_userId (snd (players st)))) = None"
    "look (rd w') (finalizedKey (matchId st)) \<noteq> None"
    by (rule finalizeMatch_first_run [OF assms(2-8)]) blast+
  have sim: "sim view (finalizeMatch env st) (finalizeMatch mem_env st)" for st
    using assms(1) by (intro game_env.sim_finalizeMatch game_env.intro)
  define s1 where "s1 = snd (finalizeMatch env st s)"
  have s1: "view s1 = w'" "fst (finalizeMatch env st s) = Inr ()"
    using simD [OF sim, of st s] w'(2) by (simp_all add: s1_def)
  have "finalizeMatch mem_env st' w' = (Inr (), w')"
    using finalizeMatch_claimed [OF w'(3), of st'] w'(8) assms(9) by simp
  with simD [OF sim, of st' s1] have again: "fst (finalizeMatch env st' s1) = Inr ()"
    "view (snd (finalizeMatch env st' s1)) = w'"
    by (simp_all add: s1)
  show ?thesis
    unfolding Let_def s1_def [symmetric] s1 again using w'(4-7) by blast
qed

text \<open>A match that alice won against bob, in the world where it is stored.\<close>

definition uuid_m :: string where "uuid_m = replicate 36 CHR ''m''"

definition won_match :: MatchState where
  "won_match = (buildInitialState (fst demo_players) (snd demo_players) uuid_m 0 None)
     \<lparr>scoreA := 2, status := ENDED, winnerId := Some ''a'', endReason := Some BEST_OF_3\<rparr>"

lemma won_match_simps [simp]:
  "matchId won_match = uuid_m" "is_uuid uuid_m" "players won_match = demo_players"
  by (simp_all add: won_match_def buildInitialState_def is_uuid_def uuid_m_def demo_players_def)

lemma idle_world_look:
  "look (rd (idle_world st)) k = (if k = matchStateKey (matchId st) then Some (RStr (Json st)) else None)"
  by (simp add: idle_world_def expired_def) (simp add: look_def)

lemma idle_world_fields [simp]: "ends (idle_world st) = []" "published (idle_world st) = []" "jobs (idle_world st) = []"
  by (simp_all add: idle_world_def ends_def)

lemma matchStateKey_neq:
  "finalizedKey m \<noteq> matchStateKey n" "matchTimeoutJobKey m \<noteq> matchStateKey n"
proof -
  have "last (matchStateKey n) = CHR ''e''" "last (finalizedKey m) = CHR ''d''" "last (matchTimeoutJobKey m) = CHR ''b''"
    by (simp_all add: matchStateKey_def finalizedKey_def matchTimeoutJobKey_def)
  then show "finalizedKey m \<noteq> matchStateKey n" "matchTimeoutJobKey m \<noteq> matchStateKey n" by force+
qed

lemma forfeitKey_neq: "u \<noteq> [] \<Longrightarrow> last u \<noteq> CHR ''e'' \<Longrightarrow> matchDisconnectForfeitJobKey u \<noteq> matchStateKey n"
proof
  assume u: "u \<noteq> []" "last u \<noteq> CHR ''e''" and eq: "matchDisconnectForfeitJobKey u = matchStateKey n"
  have "last (matchStateKey n) = CHR ''e''" "last (matchDisconnectForfeitJobKey u) = last u"
    using u by (simp_all add: matchStateKey_def matchDisconnectForfeitJobKey_def)
  with eq u show False by simp
qed

lemma end_keys_idle: "end_keys_ok won_match (idle_world won_match)"
  using forfeitKey_neq [of "''a''" uuid_m] forfeitKey_neq [of "''b''" uuid_m]
  by (simp add: end_keys_ok_def lock_key_ok_def idle_world_look matchStateKey_neq demo_players_def)

lemma finalizeMatch_once_witness:
  "ends (snd (finalizeMatch mem_env won_match (idle_world won_match))) = [ended_job won_match]"
proof -
  have r: "0 \<le> mp_rating (fst (players won_match))" "0 \<le> mp_rating (snd (players won_match))"
    by (simp_all add: demo_players_def)
  have free: "look (rd (idle_world won_match)) (finalizedKey (matchId won_match)) = None"
    by (simp add: idle_world_look matchStateKey_neq)
  have "is_uuid (matchId won_match)" by simp
  from finalizeMatch_once [OF env_ok_mem, of "idle_world won_match", OF _ this free end_keys_idle _ r, of won_match]
  show ?thesis by (simp add: Let_def)
qed

subsection \<open>A forfeit that fails half-way\<close>

text \<open>The calls of a forfeit job up to the guard, one by one.\<close>

lemmas call_by_call = eff_simps redis_service_defs requireClient_def mem_redis_def command_def remote_def
  do_defs compare_and_delete_def RELEASE_LOCK_IF_TOKEN_MATCHES_SCRIPT_def

lemma userSocketKey_neq:
  "userSocketKey u \<noteq> matchStateKey m" "userSocketKey u \<noteq> matchLockKey m" "userSocketKey u \<noteq> finalizedKey m"
  by (simp_all add: userSocketKey_def matchStateKey_def matchLockKey_def finalizedKey_def)

lemma e_redis_mem: "e_redis mem_env = Some mem_redis"
  by (simp add: mem_env_def)

lemma forfeit_first_run:
  assumes "look (rd w) (userSocketKey u) = None" and "look (rd w) (matchLockKey mid) = None"
    and "look (rd w) (matchStateKey mid) = Some (RStr (Json st))" and "matchId st = mid"
    and "disconnect_mutator u st = (st', True)" and "status st' = ENDED" and "matchId st' = mid"
  shows "processForfeitJob mem_env u mid t (w\<lparr>outages := [False, False, False, False, False, True]\<rparr>) =
    (Inl (RedisEx RedisUnavailable), w\<lparr>outages := [], rd := put (matchStateKey mid) (RStr (Json st'))
       (expiry (rd w) MATCH_SESSION_TTL_SECONDS) (unset (matchLockKey mid) (rd w))\<rparr>)"
  using assms
  by (simp add: processForfeitJob_def handleDisconnectForfeit_def mutateState_def with_lock_def loadState_def
      saveState_def timed_def disconnect_step_def finalizeMatch_def call_by_call e_redis_mem unset_put_other
      userSocketKey_neq MATCH_LOCK_TTL_SECONDS_def)


end
