(* ===== verification/Matchmaking.thy ===== *)
theory Matchmaking
  imports Match_Finalize
begin

section \<open>apps/game-service: matchmaking\<close>

text \<open>
  \<open>matchmaking/\<close> (\<open>elo-window.ts\<close>, \<open>rating.service.ts\<close>, \<open>matchmaking.service.ts\<close>,
  \<open>matchmaking-worker.service.ts\<close>): players join a sorted set with a hash of their details; every
  half second the worker pairs those whose ratings are within a window that widens with the time
  they have waited. The script that commits a pair is a function of the key space. The random
  match ids are arguments: \<open>uuid i\<close> is the id the worker draws for the \<open>i\<close>-th candidate.
\<close>

subsection \<open>matchmaking.constants.ts\<close>

definition MATCHMAKING_QUEUE_KEY :: string where "MATCHMAKING_QUEUE_KEY = ''matchmaking:queue''"
definition MATCHMAKING_META_PREFIX :: string where "MATCHMAKING_META_PREFIX = ''matchmaking:meta:''"
definition MATCHMAKING_LOCK_PREFIX :: string where "MATCHMAKING_LOCK_PREFIX = ''matchmaking:lock:''"
definition MATCHMAKING_RATE_PREFIX :: string where "MATCHMAKING_RATE_PREFIX = ''matchmaking:rate:''"
definition MATCH_BY_USER_PREFIX :: string where "MATCH_BY_USER_PREFIX = ''match:byUser:''"
definition MATCHMAKING_PAIR_LOCK_PREFIX :: string where
  "MATCHMAKING_PAIR_LOCK_PREFIX = ''matchmaking:pair-lock:''"
definition USER_RATING_PREFIX :: string where "USER_RATING_PREFIX = ''user:rating:''"
definition MATCHMAKING_LOCK_TTL_SECONDS :: nat where "MATCHMAKING_LOCK_TTL_SECONDS = 5"
definition MATCHMAKING_PAIR_LOCK_TTL_SECONDS :: nat where "MATCHMAKING_PAIR_LOCK_TTL_SECONDS = 5"
definition MATCH_STATE_TTL_SECONDS :: nat where "MATCH_STATE_TTL_SECONDS = 3600"
definition MATCHMAKING_RATE_LIMIT_TTL_SECONDS :: nat where "MATCHMAKING_RATE_LIMIT_TTL_SECONDS = 1"
definition DEFAULT_RATING :: int where "DEFAULT_RATING = 1000"

record QueueMemberMeta =
  qm_userId :: string
  qm_rating :: int
  qm_displayName :: string
  qm_queuedAt :: int

definition matchmakingMetaKey :: "string \<Rightarrow> string" where
  "matchmakingMetaKey userId = MATCHMAKING_META_PREFIX @ userId"

definition matchByUserKey :: "string \<Rightarrow> string" where
  "matchByUserKey userId = MATCH_BY_USER_PREFIX @ userId"

definition matchmakingPairLockKey :: "string \<Rightarrow> string \<Rightarrow> string" where
  "matchmakingPairLockKey userA userB =
     (let p = (if userA < userB then (userA, userB) else (userB, userA))
      in MATCHMAKING_PAIR_LOCK_PREFIX @ fst p @ '':'' @ snd p)"

subsection \<open>elo-window.ts\<close>

text \<open>\<open>None\<close> is the infinite window.\<close>

definition getEloWindow :: "int \<Rightarrow> int option" where
  "getEloWindow elapsedMs =
     (if elapsedMs < 10000 then Some 50
      else if elapsedMs < 30000 then Some 100
      else if elapsedMs < 60000 then Some 200
      else None)"

definition ratingsMatch :: "int \<Rightarrow> int \<Rightarrow> int option \<Rightarrow> int option \<Rightarrow> bool" where
  "ratingsMatch ratingA ratingB windowA windowB =
     (case (windowA, windowB) of
        (Some a, Some b) \<Rightarrow> \<bar>ratingA - ratingB\<bar> \<le> max a b
      | _ \<Rightarrow> True)"

subsection \<open>rating.service.ts\<close>

definition getRating :: "'s env \<Rightarrow> string \<Rightarrow> ('s, exn, int) eff" where
  "getRating env userId = bindS (get env (USER_RATING_PREFIX @ userId)) (\<lambda>stored.
     ret (case stored of
        Some (Txt t) \<Rightarrow> (if t = [] then DEFAULT_RATING
          else case parse_int t of None \<Rightarrow> DEFAULT_RATING | Some r \<Rightarrow> r)
      | _ \<Rightarrow> DEFAULT_RATING))"

subsection \<open>matchmaking.service.ts\<close>

datatype JoinErrorCode = ALREADY_IN_QUEUE | ALREADY_IN_MATCH | RATE_LIMITED

datatype JoinQueueResult = JoinOk int int | JoinRefused JoinErrorCode

definition queue_meta :: "string \<Rightarrow> string \<Rightarrow> int \<Rightarrow> int \<Rightarrow> (string \<times> string) list" where
  "queue_meta userId displayName rating queuedAt =
     [(''userId'', userId), (''rating'', show_int rating), (''displayName'', displayName),
      (''queuedAt'', show_int queuedAt)]"

text \<open>The part of \<open>joinQueue\<close> that runs under the lock of the user.\<close>

definition join_locked :: "'s env \<Rightarrow> string \<Rightarrow> string \<Rightarrow> ('s, exn, JoinQueueResult) eff" where
  "join_locked env userId displayName =
     bindS (requireClient env (\<lambda>c. rc_zscore c MATCHMAKING_QUEUE_KEY userId)) (\<lambda>score.
       if score \<noteq> None then ret (JoinRefused ALREADY_IN_QUEUE)
       else bindS (getRating env userId) (\<lambda>rating. bindS (e_now env) (\<lambda>queuedAt.
         thenS (zadd env MATCHMAKING_QUEUE_KEY rating userId)
           (thenS (hset env (matchmakingMetaKey userId) (queue_meta userId displayName rating queuedAt))
             (ret (JoinOk queuedAt rating))))))"

definition joinQueue :: "'s env \<Rightarrow> string \<Rightarrow> string \<Rightarrow> ('s, exn, JoinQueueResult) eff" where
  "joinQueue env userId displayName =
     bindS (get env (matchByUserKey userId)) (\<lambda>existingMatch.
       if truthy_stored existingMatch then ret (JoinRefused ALREADY_IN_MATCH)
       else bindS (requireClient env (\<lambda>c. rc_zscore c MATCHMAKING_QUEUE_KEY userId)) (\<lambda>queueScore.
         if queueScore \<noteq> None then ret (JoinRefused ALREADY_IN_QUEUE)
         else bindS (incrWithExpiry env (MATCHMAKING_RATE_PREFIX @ userId) MATCHMAKING_RATE_LIMIT_TTL_SECONDS)
           (\<lambda>rateCount.
             if rateCount > 1 then ret (JoinRefused RATE_LIMITED)
             else with_lock (setnx env (MATCHMAKING_LOCK_PREFIX @ userId) MATCHMAKING_LOCK_TTL_SECONDS ''1'')
                    (del env (MATCHMAKING_LOCK_PREFIX @ userId))
                    (ret (JoinRefused ALREADY_IN_QUEUE))
                    (join_locked env userId displayName))))"

definition leaveQueue :: "'s env \<Rightarrow> string \<Rightarrow> ('s, exn, bool) eff" where
  "leaveQueue env userId =
     bindS (requireClient env (\<lambda>c. rc_zrem c MATCHMAKING_QUEUE_KEY userId)) (\<lambda>removed.
       thenS (del env (matchmakingMetaKey userId)) (ret (removed > 0)))"

definition isInQueue :: "'s env \<Rightarrow> string \<Rightarrow> ('s, exn, bool) eff" where
  "isInQueue env userId =
     bindS (requireClient env (\<lambda>c. rc_zscore c MATCHMAKING_QUEUE_KEY userId)) (\<lambda>score. ret (score \<noteq> None))"

definition isInMatch :: "'s env \<Rightarrow> string \<Rightarrow> ('s, exn, bool) eff" where
  "isInMatch env userId = bindS (get env (matchByUserKey userId)) (\<lambda>matchId. ret (matchId \<noteq> None))"

definition getQueueSize :: "'s env \<Rightarrow> ('s, exn, nat) eff" where
  "getQueueSize env = zcard env MATCHMAKING_QUEUE_KEY"

definition getMatchIdForUser :: "'s env \<Rightarrow> string \<Rightarrow> ('s, exn, MatchState stored option) eff" where
  "getMatchIdForUser env userId = get env (MATCH_BY_USER_PREFIX @ userId)"

text \<open>
  The fields were written with \<open>String\<close> and are read with \<open>parseInt\<close>; text that is not a number (NaN
  in the code) is not a value the service writes and reads as 0 here.
\<close>

definition read_int :: "string \<Rightarrow> int" where
  "read_int s = (case parse_int s of None \<Rightarrow> 0 | Some i \<Rightarrow> i)"

definition member_of :: "(string \<times> string) list \<Rightarrow> QueueMemberMeta option" where
  "member_of meta =
     (if truthy (map_of meta ''userId'') \<and> truthy (map_of meta ''displayName'') \<and>
         truthy (map_of meta ''queuedAt'') \<and> truthy (map_of meta ''rating'')
      then Some \<lparr>qm_userId = the (map_of meta ''userId''),
                 qm_rating = read_int (the (map_of meta ''rating'')),
                 qm_displayName = the (map_of meta ''displayName''),
                 qm_queuedAt = read_int (the (map_of meta ''queuedAt''))\<rparr>
      else None)"

fun list_members :: "'s env \<Rightarrow> (string \<times> int) list \<Rightarrow> ('s, exn, QueueMemberMeta list) eff" where
  "list_members env [] = ret []"
| "list_members env (entry # entries) =
     bindS (hgetall env (matchmakingMetaKey (fst entry))) (\<lambda>meta.
       bindS (list_members env entries) (\<lambda>members.
         ret (case member_of meta of None \<Rightarrow> members | Some m \<Rightarrow> m # members)))"

definition listQueueMembers :: "'s env \<Rightarrow> ('s, exn, QueueMemberMeta list) eff" where
  "listQueueMembers env = bindS (zrangeWithScores env MATCHMAKING_QUEUE_KEY) (\<lambda>entries.
     bindS (list_members env entries) (\<lambda>members. ret (sort_key qm_queuedAt members)))"

subsection \<open>matchmaking-worker.service.ts\<close>

definition PAIR_PLAYERS_SCRIPT :: "string \<Rightarrow> string \<Rightarrow> string \<Rightarrow> string \<Rightarrow> MatchState \<Rightarrow> nat \<Rightarrow> script" where
  "PAIR_PLAYERS_SCRIPT pairLockKey mid userA userB st matchTtl d =
     (if look d pairLockKey = None then (Inr 0, d)
      else case zset_of (look d MATCHMAKING_QUEUE_KEY) of
        Inl e \<Rightarrow> (Inl e, d)
      | Inr z \<Rightarrow>
          (if map_of z userA = None \<or> map_of z userB = None then (Inr 0, unset pairLockKey d)
           else (Inr 1, unset pairLockKey
              (put (matchStateKey mid) (RStr (Json st)) (expiry d matchTtl)
              (put (matchByUserKey userB) (RStr (Txt mid)) (expiry d matchTtl)
              (put (matchByUserKey userA) (RStr (Txt mid)) (expiry d matchTtl)
              (unset (matchmakingMetaKey userB) (unset (matchmakingMetaKey userA)
              (zstore MATCHMAKING_QUEUE_KEY (zdrop userB (zdrop userA z)) d)))))))))"

definition findOpponent ::
  "QueueMemberMeta \<Rightarrow> QueueMemberMeta list \<Rightarrow> int \<Rightarrow> string list \<Rightarrow> QueueMemberMeta option" where
  "findOpponent player members now pairedUserIds =
     find (\<lambda>candidate. qm_userId candidate \<noteq> qm_userId player \<and>
         qm_userId candidate \<notin> set pairedUserIds \<and>
         ratingsMatch (qm_rating player) (qm_rating candidate)
           (getEloWindow (now - qm_queuedAt player)) (getEloWindow (now - qm_queuedAt candidate))) members"

definition player_of :: "QueueMemberMeta \<Rightarrow> MatchPlayer" where
  "player_of m = \<lparr>mp_userId = qm_userId m, mp_displayName = qm_displayName m, mp_rating = qm_rating m\<rparr>"

definition tryPairPlayers ::
  "'s env \<Rightarrow> QueueMemberMeta \<Rightarrow> QueueMemberMeta \<Rightarrow> int \<Rightarrow> string \<Rightarrow> ('s, exn, bool) eff" where
  "tryPairPlayers env playerA playerB now mid =
     (let pairLockKey = matchmakingPairLockKey (qm_userId playerA) (qm_userId playerB);
          st = buildInitialState (player_of playerA) (player_of playerB) mid now None in
      bindS (setnx env pairLockKey MATCHMAKING_PAIR_LOCK_TTL_SECONDS ''1'') (\<lambda>lockAcquired.
        if \<not> lockAcquired then ret False
        else bindS (evalScript env (PAIR_PLAYERS_SCRIPT pairLockKey mid (qm_userId playerA) (qm_userId playerB)
              st MATCH_STATE_TTL_SECONDS)) (\<lambda>committed.
          if committed \<noteq> 1 then ret False
          else thenS (e_metric env (MatchDuration (of_int (now - qm_queuedAt playerA) / 1000)))
              (thenS (e_metric env (MatchDuration (of_int (now - qm_queuedAt playerB) / 1000)))
                (thenS (onMatchStarted env st)
                  (thenS (broadcastInitialEvents env st) (ret True)))))))"

fun pair_loop ::
  "'s env \<Rightarrow> QueueMemberMeta list \<Rightarrow> int \<Rightarrow> (nat \<Rightarrow> string) \<Rightarrow> QueueMemberMeta list \<Rightarrow> string list \<Rightarrow> nat \<Rightarrow>
   ('s, exn, nat) eff" where
  "pair_loop env members now uuid [] paired created = ret created"
| "pair_loop env members now uuid (candidate # rest) paired created =
     (if qm_userId candidate \<in> set paired then pair_loop env members now uuid rest paired created
      else case findOpponent candidate members now paired of
        None \<Rightarrow> pair_loop env members now uuid rest paired created
      | Some opponent \<Rightarrow>
          bindS (tryPairPlayers env candidate opponent now (uuid (length rest))) (\<lambda>ok.
            if ok then pair_loop env members now uuid rest
              (qm_userId opponent # qm_userId candidate # paired) (created + 1)
            else pair_loop env members now uuid rest paired created))"

text \<open>\<open>running\<close> is the flag of the worker: a tick that overlaps another does nothing.\<close>

definition tick :: "'s env \<Rightarrow> bool \<Rightarrow> int \<Rightarrow> (nat \<Rightarrow> string) \<Rightarrow> ('s, exn, nat) eff" where
  "tick env running now uuid =
     (if running then ret 0
      else bindS (getQueueSize env) (\<lambda>queueSize.
        thenS (e_metric env (QueueSize queueSize))
          (if queueSize < 2 then ret 0
           else bindS (listQueueMembers env) (\<lambda>members. pair_loop env members now uuid members [] 0))))"

context game_env
begin

lemma sim_matchmaking [sim_rules]:
  "sim view (getRating env u) (getRating mem_env u)"
  "sim view (leaveQueue env u) (leaveQueue mem_env u)"
  "sim view (isInQueue env u) (isInQueue mem_env u)"
  "sim view (isInMatch env u) (isInMatch mem_env u)"
  "sim view (getQueueSize env) (getQueueSize mem_env)"
  "sim view (getMatchIdForUser env u) (getMatchIdForUser mem_env u)"
  unfolding getRating_def leaveQueue_def isInQueue_def isInMatch_def getQueueSize_def getMatchIdForUser_def
  by (intro sim_rules)+

lemma sim_joinQueue [sim_rules]: "sim view (joinQueue env u n) (joinQueue mem_env u n)"
  unfolding joinQueue_def join_locked_def by (intro sim_rules)

lemma sim_list_members [sim_rules]: "sim view (list_members env es) (list_members mem_env es)"
  by (induction es) (auto intro!: sim_rules)

lemma sim_listQueueMembers [sim_rules]: "sim view (listQueueMembers env) (listQueueMembers mem_env)"
  unfolding listQueueMembers_def by (intro sim_rules)

lemma sim_tryPairPlayers [sim_rules]:
  "sim view (tryPairPlayers env a b now mid) (tryPairPlayers mem_env a b now mid)"
  unfolding tryPairPlayers_def Let_def by (intro sim_rules)

lemma sim_pair_loop [sim_rules]:
  "sim view (pair_loop env ms now uuid cs ps n) (pair_loop mem_env ms now uuid cs ps n)"
proof (induction cs arbitrary: ps n)
  case (Cons c cs)
  show ?case unfolding pair_loop.simps by (intro sim_rules Cons.IH)
qed (simp add: sim_ret)

lemma sim_tick [sim_rules]: "sim view (tick env r now uuid) (tick mem_env r now uuid)"
  unfolding tick_def by (intro sim_rules)

end

end
