(* ===== verification/Matchmaking_Inv.thy ===== *)
theory Matchmaking_Inv
  imports Matchmaking
begin

section \<open>apps/game-service: a player is never both queued and in a match\<close>

text \<open>
  The invariant \<open>exclusive\<close> of the key space: no user is in the queue while his \<open>match:byUser\<close> entry
  names a match. The locale \<open>queue_invariant\<close> says what an invariant of the queue has to allow, and
  its lemmas go once through the operations of the matchmaking service; it is interpreted for
  \<open>exclusive\<close> itself and for the stronger invariant a user has between the check and the insertion
  of \<open>joinQueue\<close>.
\<close>

definition queued :: "game_redis \<Rightarrow> string \<Rightarrow> bool" where
  "queued d u = (case zset_of (look d MATCHMAKING_QUEUE_KEY) of Inl _ \<Rightarrow> False | Inr z \<Rightarrow> map_of z u \<noteq> None)"

definition in_match :: "game_redis \<Rightarrow> string \<Rightarrow> bool" where
  "in_match d u = (case look d (matchByUserKey u) of Some (RStr t) \<Rightarrow> truthy_stored (Some t) | _ \<Rightarrow> False)"

definition exclusive :: "game_redis \<Rightarrow> bool" where
  "exclusive d \<longleftrightarrow> (\<forall>u. \<not> (queued d u \<and> in_match d u))"

definition free_user :: "string \<Rightarrow> game_redis \<Rightarrow> bool" where
  "free_user u d \<longleftrightarrow> exclusive d \<and> \<not> in_match d u"

text \<open>The keys that are neither the queue nor an entry of a player.\<close>

definition other_key :: "string \<Rightarrow> bool" where
  "other_key k \<longleftrightarrow> k \<noteq> MATCHMAKING_QUEUE_KEY \<and> (\<forall>u. k \<noteq> matchByUserKey u)"

lemma matchByUserKey_neq [simp]: "matchByUserKey u \<noteq> MATCHMAKING_QUEUE_KEY" "MATCHMAKING_QUEUE_KEY \<noteq> matchByUserKey u"
  by (simp_all add: matchByUserKey_def MATCH_BY_USER_PREFIX_def MATCHMAKING_QUEUE_KEY_def)

lemma matchByUserKey_inject [simp]: "matchByUserKey u = matchByUserKey v \<longleftrightarrow> u = v"
  by (simp add: matchByUserKey_def)

lemma other_matchmaking_keys [simp]:
  "other_key (matchmakingMetaKey u)" "other_key (MATCHMAKING_LOCK_PREFIX @ u)"
  "other_key (MATCHMAKING_RATE_PREFIX @ u)" "other_key (matchmakingPairLockKey u v)"
  by (simp_all add: other_key_def matchmakingMetaKey_def MATCHMAKING_META_PREFIX_def MATCHMAKING_LOCK_PREFIX_def
      MATCHMAKING_RATE_PREFIX_def matchmakingPairLockKey_def MATCHMAKING_PAIR_LOCK_PREFIX_def Let_def
      MATCHMAKING_QUEUE_KEY_def matchByUserKey_def MATCH_BY_USER_PREFIX_def)

lemma uuid_byUser: "is_uuid mid \<Longrightarrow> ''match:'' @ mid @ CHR '':'' # xs \<noteq> matchByUserKey u"
proof
  assume u: "is_uuid mid" and "''match:'' @ mid @ CHR '':'' # xs = matchByUserKey u"
  then have "mid @ CHR '':'' # xs = ''byUser'' @ CHR '':'' # u"
    by (simp add: matchByUserKey_def MATCH_BY_USER_PREFIX_def)
  then have "mid = ''byUser''" by (rule colon_prefix [rotated 2]) (use u in \<open>simp_all add: is_uuid_def\<close>)
  with u show False by (simp add: is_uuid_def)
qed

lemma other_match_keys [simp]:
  "is_uuid mid \<Longrightarrow> other_key (matchStateKey mid)" "is_uuid mid \<Longrightarrow> other_key (matchTimeoutJobKey mid)"
  using uuid_byUser
  by (simp_all add: other_key_def matchStateKey_def matchTimeoutJobKey_def MATCHMAKING_QUEUE_KEY_def)

lemma queued_simps [simp]:
  "k \<noteq> MATCHMAKING_QUEUE_KEY \<Longrightarrow> queued (put k v e d) u = queued d u"
  "k \<noteq> MATCHMAKING_QUEUE_KEY \<Longrightarrow> queued (unset k d) u = queued d u"
  by (simp_all add: queued_def)

lemma in_match_simps [simp]:
  "k \<noteq> matchByUserKey u \<Longrightarrow> in_match (put k v e d) u = in_match d u"
  "in_match (unset k d) u = (in_match d u \<and> k \<noteq> matchByUserKey u)"
  "in_match (zstore MATCHMAKING_QUEUE_KEY z d) u = in_match d u"
  by (auto simp: in_match_def zstore_def)

lemma queued_unset: "queued (unset k d) u \<Longrightarrow> queued d u"
  by (cases "k = MATCHMAKING_QUEUE_KEY") (simp_all add: queued_def zset_of_def)

lemma queued_zstore: "queued (zstore MATCHMAKING_QUEUE_KEY z d) u \<longleftrightarrow> map_of z u \<noteq> None"
  by (simp add: queued_def zstore_def zset_of_def)

lemma map_of_zdrop [simp]: "map_of (zdrop m z) u = (if u = m then None else map_of z u)"
  by (induction z) (auto simp: zdrop_def)

lemma map_of_zput [simp]: "map_of (zput m sc z) u = (if u = m then Some sc else map_of z u)"
  using map_of_zdrop [of m z u] by (simp add: zput_def zdrop_def)

locale queue_invariant =
  fixes K :: "game_redis \<Rightarrow> bool"
  assumes put_other: "K d \<Longrightarrow> other_key k \<Longrightarrow> K (put k v e d)"
    and unset_any: "K d \<Longrightarrow> K (unset k d)"
    and drop_queued: "K d \<Longrightarrow> zset_of (look d MATCHMAKING_QUEUE_KEY) = Inr z \<Longrightarrow>
      K (zstore MATCHMAKING_QUEUE_KEY (zdrop u z) d)"
begin

abbreviation I :: "world \<Rightarrow> bool" where "I \<equiv> (\<lambda>w. K (rd w))"

lemma keeps_command_I:
  assumes "\<And>d. K d \<Longrightarrow> K (snd (c d))"
  shows "preserves I (command c)"
proof -
  have key: "K d'" if "K d" "c d = (r, d')" for d r d'
    using assms [OF that(1)] that(2) by simp
  show ?thesis
    by (auto simp: keeps_def command_def remote_def split: list.splits bool.splits prod.splits sum.splits
        intro: key)
qed

lemma keeps_remote_I:
  assumes "\<And>w. K (rd w) \<Longrightarrow> K (rd (snd (f w)))"
  shows "preserves I (remote e f)"
  using assms by (auto simp: keeps_def remote_def split: list.splits bool.splits)

lemma upd_other: "K d \<Longrightarrow> other_key k \<Longrightarrow> K (upd k v d)"
  by (simp add: upd_def put_other)

lemma keeps_client [keep_rules]:
  "preserves I (rc_get mem_redis k)" "preserves I (rc_del mem_redis k)" "preserves I (rc_hgetall mem_redis k)"
  "preserves I (rc_zcard mem_redis k)" "preserves I (rc_zscore mem_redis k m)" "preserves I (rc_zrange mem_redis k)"
  "preserves I (rc_publish mem_redis ch msg)"
  by (auto simp: mem_redis_def do_defs unset_any intro!: keeps_command_I keeps_remote_I split: option.splits)

lemma keeps_client_writes [keep_rules]:
  "other_key k \<Longrightarrow> preserves I (rc_set mem_redis k v ttl)"
  "other_key k \<Longrightarrow> preserves I (rc_set_nx mem_redis k v ttl)"
  "other_key k \<Longrightarrow> preserves I (rc_hset mem_redis k vs)"
  "other_key k \<Longrightarrow> preserves I (rc_incr mem_redis k)"
  "other_key k \<Longrightarrow> preserves I (rc_expire mem_redis k ttl)"
  "preserves I (rc_zrem mem_redis MATCHMAKING_QUEUE_KEY m)"
  by (auto simp: mem_redis_def do_defs put_other upd_other drop_queued intro!: keeps_command_I
      split: option.splits sum.splits rvalue.splits stored.splits)

lemma keeps_require [keep_rules]: "keeps I (f mem_redis) Q \<Longrightarrow> keeps I (requireClient mem_env f) Q"
  by (simp add: requireClient_def mem_env_def)

lemma keeps_service [keep_rules]:
  "preserves I (get mem_env k)" "preserves I (del mem_env k)" "preserves I (hgetall mem_env k)"
  "preserves I (zcard mem_env k)" "preserves I (zrangeWithScores mem_env k)" "preserves I (publish mem_env ch msg)"
  unfolding redis_service_defs by (rule TrueI keep_rules)+

lemma keeps_service_writes [keep_rules]:
  assumes "other_key k"
  shows "preserves I (setex mem_env k ttl v)" "preserves I (setnx mem_env k ttl t)" "preserves I (hset mem_env k vs)"
    "preserves I (incrWithExpiry mem_env k ttl)"
  unfolding redis_service_defs by (rule TrueI assms keep_rules)+

lemma keeps_mem_process [keep_rules]:
  "preserves I (e_now mem_env)" "preserves I (e_metric mem_env m)" "preserves I (e_emit mem_env sid ev)"
  by (simp_all add: keeps_def)

lemma keeps_mem_queue [keep_rules]:
  "preserves I (qc_add mem_queue q n x jid y z)" "preserves I (qc_getJob mem_queue q i)"
  "preserves I (qc_remove mem_queue q i)"
  by (auto simp: mem_queue_def do_add_def do_getJob_def do_remove_def Let_def intro!: keeps_remote_I
      split: option.splits)

lemma keeps_cancel_job [keep_rules]: "preserves I (cancel_job mem_env q k)"
  unfolding cancel_job_def e_queue_mem option.case by (rule TrueI keep_rules)+

lemma keeps_onMatchStarted [keep_rules]:
  assumes "is_uuid (matchId st)"
  shows "preserves I (onMatchStarted mem_env st)"
  unfolding onMatchStarted_def schedulePhaseTimeout_def scheduleTimeout_def cancelTimeout_def e_queue_mem option.case
  by (rule TrueI keep_rules other_match_keys(2) [OF assms])+

lemma keeps_initial_events_I [keep_rules]: "preserves I (broadcastInitialEvents mem_env st)"
  unfolding broadcastInitialEvents_def broadcastToMatch_def broadcastRoundStart_def Let_def
  by (rule TrueI keep_rules)+

lemma keeps_leaveQueue [keep_rules]: "preserves I (leaveQueue mem_env u)"
  unfolding leaveQueue_def by (rule TrueI keep_rules)+

lemma keeps_getRating [keep_rules]: "preserves I (getRating mem_env u)"
  unfolding getRating_def by (rule TrueI keep_rules)+

lemma keeps_list_members [keep_rules]: "preserves I (list_members mem_env es)"
  by (induction es) (simp_all only: list_members.simps, (rule TrueI keep_rules | assumption)+)

lemma keeps_listQueueMembers [keep_rules]: "preserves I (listQueueMembers mem_env)"
  unfolding listQueueMembers_def by (rule TrueI keep_rules)+

end

interpretation excl: queue_invariant exclusive
proof
  fix d k v e z u
  assume d: "exclusive d"
  show "exclusive (put k v e d)" if "other_key k"
    using d that by (simp add: exclusive_def other_key_def)
  show "exclusive (unset k d)"
    using d queued_unset by (fastforce simp: exclusive_def)
  show "exclusive (zstore MATCHMAKING_QUEUE_KEY (zdrop u z) d)"
    if "zset_of (look d MATCHMAKING_QUEUE_KEY) = Inr z"
    using d that by (auto simp: exclusive_def queued_zstore) (auto simp: queued_def)
qed

interpretation free: queue_invariant "free_user u" for u
proof
  fix d k v e z m
  assume d: "free_user u d"
  show "free_user u (put k v e d)" if "other_key k"
    using d that excl.put_other by (simp add: free_user_def other_key_def)
  show "free_user u (unset k d)"
    using d excl.unset_any by (simp add: free_user_def)
  show "free_user u (zstore MATCHMAKING_QUEUE_KEY (zdrop m z) d)"
    if "zset_of (look d MATCHMAKING_QUEUE_KEY) = Inr z"
    using d that excl.drop_queued by (simp add: free_user_def)
qed

subsection \<open>The operations keep it\<close>

text \<open>A queue insertion is safe for a user who is in no match.\<close>

lemma exclusive_zadd:
  assumes "free_user u d" and "zset_of (look d MATCHMAKING_QUEUE_KEY) = Inr z"
  shows "free_user u (zstore MATCHMAKING_QUEUE_KEY (zput u sc z) d)"
  using assms by (auto simp: free_user_def exclusive_def queued_zstore) (auto simp: queued_def)

lemma keeps_zadd: "preserves (\<lambda>w. free_user u (rd w)) (zadd mem_env MATCHMAKING_QUEUE_KEY sc u)"
  unfolding zadd_def
  by (rule free.keeps_require) (auto simp: mem_redis_def do_zadd_def exclusive_zadd intro!: free.keeps_command_I
      split: sum.splits)

lemma keeps_join_locked: "preserves (\<lambda>w. free_user u (rd w)) (join_locked mem_env u n)"
  unfolding join_locked_def
  by (rule TrueI keep_rules free.keeps_client free.keeps_require free.keeps_service free.keeps_service_writes
      free.keeps_mem_process free.keeps_getRating keeps_zadd other_matchmaking_keys)+

text \<open>After the check that the user is in no match, he is not.\<close>

lemma keeps_checked:
  assumes "preserves (\<lambda>w. free_user u (rd w)) m"
  shows "preserves (\<lambda>w. exclusive (rd w)) (bindS (get mem_env (matchByUserKey u))
    (\<lambda>existing. if truthy_stored existing then ret r else m))"
proof -
  let ?get = "get mem_env (matchByUserKey u)"
  have run: "rd (snd (?get w)) = rd w" "fst (?get w) = Inr x \<Longrightarrow> \<not> truthy_stored x \<Longrightarrow> \<not> in_match (rd w) u" for w x
    by (auto simp: get_def requireClient_def mem_env_def mem_redis_def command_def remote_def do_get_def in_match_def
        split: list.splits bool.splits option.splits rvalue.splits)
  have "exclusive (rd (snd (bindS ?get (\<lambda>existing. if truthy_stored existing then ret r else m) w)))"
    if "exclusive (rd w)" for w
  proof (cases "?get w")
    case (Pair r' w')
    then have w': "rd w' = rd w" using run(1) [of w] by simp
    show ?thesis
    proof (cases r')
      case (Inr x)
      show ?thesis
      proof (cases "truthy_stored x")
        case False
        with run(2) [of w x] Pair Inr w' that have "free_user u (rd w')" by (simp add: free_user_def)
        then have "free_user u (rd (snd (m w')))" using assms by (simp add: keeps_def)
        with Pair Inr False show ?thesis by (simp add: eff_simps free_user_def)
      qed (use Pair Inr w' that in \<open>simp add: eff_simps\<close>)
    qed (use Pair w' that in \<open>simp add: eff_simps\<close>)
  qed
  then show ?thesis by (simp add: keeps_def)
qed

lemma keeps_joinQueue: "preserves (\<lambda>w. exclusive (rd w)) (joinQueue mem_env u n)"
  unfolding joinQueue_def
  by (rule keeps_checked) (rule TrueI keep_rules free.keeps_client free.keeps_require free.keeps_service
      free.keeps_service_writes keeps_join_locked other_matchmaking_keys)+

text \<open>The script takes both players out of the queue when it gives them a match.\<close>

lemma exclusive_pair_script:
  assumes "exclusive d" and "is_uuid mid" and "other_key lk"
  shows "exclusive (snd (PAIR_PLAYERS_SCRIPT lk mid a b st ttl d))"
proof -
  have other: "other_key (matchStateKey mid)" using assms(2) by simp
  have "exclusive (put (matchByUserKey b) v e (put (matchByUserKey a) v e
      (unset (matchmakingMetaKey b) (unset (matchmakingMetaKey a)
      (zstore MATCHMAKING_QUEUE_KEY (zdrop b (zdrop a z)) d)))))"
    if "zset_of (look d MATCHMAKING_QUEUE_KEY) = Inr z" for z v e
  proof -
    have "matchmakingMetaKey x \<noteq> MATCHMAKING_QUEUE_KEY" "matchmakingMetaKey x \<noteq> matchByUserKey y" for x y
      using other_matchmaking_keys(1) [of x] by (auto simp: other_key_def)
    then show ?thesis
      using assms(1) that by (auto simp: exclusive_def queued_zstore) (auto simp: queued_def)
  qed
  with assms other show ?thesis
    by (auto simp: PAIR_PLAYERS_SCRIPT_def excl.unset_any excl.put_other split: sum.splits)
qed

lemma keeps_tryPairPlayers:
  assumes "is_uuid mid"
  shows "preserves (\<lambda>w. exclusive (rd w)) (tryPairPlayers mem_env a b now mid)"
proof -
  have id: "is_uuid (matchId (buildInitialState x y mid now None))" for x y
    using assms by (simp add: buildInitialState_def)
  have script: "preserves (\<lambda>w. exclusive (rd w)) (evalScript mem_env
      (PAIR_PLAYERS_SCRIPT (matchmakingPairLockKey x y) mid u v st ttl))" for x y u v st ttl
    unfolding evalScript_def
    by (rule excl.keeps_require) (simp add: mem_redis_def excl.keeps_command_I exclusive_pair_script assms)
  show ?thesis
    unfolding tryPairPlayers_def Let_def
    by (rule TrueI script keep_rules excl.keeps_service_writes excl.keeps_mem_process
        excl.keeps_onMatchStarted [OF id] excl.keeps_initial_events_I other_matchmaking_keys)+
qed

lemma keeps_pair_loop:
  assumes "\<And>i. is_uuid (uuid i)"
  shows "preserves (\<lambda>w. exclusive (rd w)) (pair_loop mem_env ms now uuid cs ps n)"
proof (induction cs arbitrary: ps n)
  case (Cons c cs)
  show ?case unfolding pair_loop.simps
    by (rule TrueI Cons.IH keeps_tryPairPlayers assms keep_rules)+
qed (simp add: keeps_ret)

lemma keeps_tick:
  assumes "\<And>i. is_uuid (uuid i)"
  shows "preserves (\<lambda>w. exclusive (rd w)) (tick mem_env r now uuid)"
  unfolding tick_def getQueueSize_def
  by (rule TrueI keep_rules keeps_pair_loop assms excl.keeps_service excl.keeps_mem_process
      excl.keeps_listQueueMembers)+

text \<open>Two players with close ratings in the queue.\<close>

definition queue_world :: world where
  "queue_world = \<lparr>rd = put (matchmakingMetaKey ''a'') (RHash (queue_meta ''a'' ''A'' 1000 0)) None
     (put (matchmakingMetaKey ''b'') (RHash (queue_meta ''b'' ''B'' 1040 10)) None
     (put MATCHMAKING_QUEUE_KEY (RZset [(''a'', 1000), (''b'', 1040)]) None
       \<lparr>rd_now = 0, rd_keys = (\<lambda>_. None)\<rparr>)),
     outages = [], published = [], jobs = [], next_job = 0, metrics = [], emitted = []\<rparr>"

lemma expired_None [simp]: "\<not> expired now None"
  by (simp add: expired_def)

lemma look_empty [simp]: "look \<lparr>rd_now = t, rd_keys = (\<lambda>_. None)\<rparr> k = None"
  by (simp add: look_def)

lemma metaKey_inject [simp]: "matchmakingMetaKey u = matchmakingMetaKey v \<longleftrightarrow> u = v"
  by (simp add: matchmakingMetaKey_def)

lemma metaKey_neq [simp]: "matchmakingMetaKey u \<noteq> MATCHMAKING_QUEUE_KEY" "MATCHMAKING_QUEUE_KEY \<noteq> matchmakingMetaKey u"
  "matchmakingMetaKey u \<noteq> matchByUserKey v" "matchByUserKey v \<noteq> matchmakingMetaKey u"
  using other_matchmaking_keys(1) [of u] unfolding other_key_def by metis+

lemma exclusive_queue_world: "exclusive (rd queue_world)"
  by (simp add: exclusive_def in_match_def queue_world_def)

subsection \<open>Opponents\<close>

lemma ratingsMatch_mono:
  assumes "ratingsMatch a b (getEloWindow e) (getEloWindow f)" and "e \<le> e'" and "f \<le> f'"
  shows "ratingsMatch a b (getEloWindow e') (getEloWindow f')"
  using assms by (auto simp: ratingsMatch_def getEloWindow_def split: if_splits)

text \<open>
  The window of opponents: who may play whom does not depend on the side, two players who may
  play each other still may after waiting longer, and a player who has waited a minute is given the
  first other unpaired player of the list, whatever the ratings; an opponent is always another
  unpaired player of the list, and the first one within the window.
\<close>

theorem findOpponent_window:
  "ratingsMatch a b w w' = ratingsMatch b a w' w \<and>
   (e \<le> e' \<longrightarrow> f \<le> f' \<longrightarrow> ratingsMatch a b (getEloWindow e) (getEloWindow f) \<longrightarrow>
      ratingsMatch a b (getEloWindow e') (getEloWindow f')) \<and>
   (60000 \<le> now - qm_queuedAt p \<longrightarrow>
      findOpponent p ms now paired = find (\<lambda>c. qm_userId c \<noteq> qm_userId p \<and> qm_userId c \<notin> set paired) ms) \<and>
   (\<forall>c. findOpponent p ms now paired = Some c \<longrightarrow> (\<exists>i < length ms. ms ! i = c \<and>
      qm_userId c \<noteq> qm_userId p \<and> qm_userId c \<notin> set paired \<and>
      (\<forall>j < i. qm_userId (ms ! j) = qm_userId p \<or> qm_userId (ms ! j) \<in> set paired \<or>
         \<not> ratingsMatch (qm_rating p) (qm_rating (ms ! j))
             (getEloWindow (now - qm_queuedAt p)) (getEloWindow (now - qm_queuedAt (ms ! j))))))"
proof (intro conjI impI allI)
  show "ratingsMatch a b w w' = ratingsMatch b a w' w"
    by (auto simp: ratingsMatch_def split: option.split)
  show "ratingsMatch a b (getEloWindow e') (getEloWindow f')"
    if "e \<le> e'" "f \<le> f'" "ratingsMatch a b (getEloWindow e) (getEloWindow f)"
    using ratingsMatch_mono that by blast
  show "findOpponent p ms now paired = find (\<lambda>c. qm_userId c \<noteq> qm_userId p \<and> qm_userId c \<notin> set paired) ms"
    if "60000 \<le> now - qm_queuedAt p"
    using that by (simp add: findOpponent_def ratingsMatch_def getEloWindow_def)
  show "\<exists>i < length ms. ms ! i = c \<and> qm_userId c \<noteq> qm_userId p \<and> qm_userId c \<notin> set paired \<and>
      (\<forall>j < i. qm_userId (ms ! j) = qm_userId p \<or> qm_userId (ms ! j) \<in> set paired \<or>
         \<not> ratingsMatch (qm_rating p) (qm_rating (ms ! j))
             (getEloWindow (now - qm_queuedAt p)) (getEloWindow (now - qm_queuedAt (ms ! j))))"
    if "findOpponent p ms now paired = Some c" for c
    using that unfolding findOpponent_def find_Some_iff by metis
qed

definition demo_members :: "QueueMemberMeta list" where
  "demo_members = [\<lparr>qm_userId = ''a'', qm_rating = 1000, qm_displayName = ''A'', qm_queuedAt = 0\<rparr>,
     \<lparr>qm_userId = ''b'', qm_rating = 2000, qm_displayName = ''B'', qm_queuedAt = 50000\<rparr>]"

lemma findOpponent_window_witness:
  "findOpponent (demo_members ! 0) demo_members 60000 [] = Some (demo_members ! 1)"
  using findOpponent_window [of 0 0 None None 0 0 0 0 60000 "demo_members ! 0" demo_members "[]"]
  by (simp add: demo_members_def)

subsection \<open>A pair is committed whole\<close>

lemma scheduleTimeout_run:
  assumes "outages w = []" and "lock_key_ok (matchTimeoutJobKey mid) (rd w)"
  shows "\<exists>w'. schedulePhaseTimeout mem_env mid n deadline w = (Inr (), w') \<and> outages w' = [] \<and>
    published w' = published w \<and> (\<forall>k. k \<noteq> matchTimeoutJobKey mid \<longrightarrow> look (rd w') k = look (rd w) k)"
proof -
  have "MATCH_TIMEOUT_QUEUE \<noteq> ''match-events''" by (simp add: MATCH_TIMEOUT_QUEUE_def)
  from cancel_job_quiet [OF assms this] obtain w1 where w1: "cancelTimeout mem_env mid w = (Inr (), w1)"
    "quiet {matchTimeoutJobKey mid} w w1"
    by (auto simp: cancelTimeout_def)
  then have q: "outages w1 = []" "published w1 = published w" "k \<noteq> matchTimeoutJobKey mid \<Longrightarrow> look (rd w1) k = look (rd w) k"
    for k by (auto simp: quiet_def)
  let ?i = "show_nat (next_job w1)"
  define w2 where "w2 = w1\<lparr>next_job := Suc (next_job w1), jobs := jobs w1 @
     [\<lparr>job_queue = MATCH_TIMEOUT_QUEUE, job_id = ?i, job_name = MATCH_TIMEOUT_JOB_NAME, job_data = TimeoutJob mid n,
       job_delay = max 0 (max 0 (deadline - rd_now (rd w))), job_attempts = 1, job_active = False\<rparr>]\<rparr>"
  define w3 where "w3 = w2\<lparr>rd := put (matchTimeoutJobKey mid) (RStr (Txt ?i))
     (expiry (rd w2) MATCH_TIMEOUT_JOB_TTL_SECONDS) (rd w2)\<rparr>"
  have "schedulePhaseTimeout mem_env mid n deadline w = (Inr (), w3)"
    using q(1) by (simp add: schedulePhaseTimeout_def scheduleTimeout_def eff_simps w1(1) e_queue_mem mem_queue_def
        remote_def do_add_def Let_def w2_def [symmetric] redis_run(2) w3_def) (simp add: w2_def redis_run(2))
  moreover have "outages w3 = []" "published w3 = published w"
    "k \<noteq> matchTimeoutJobKey mid \<Longrightarrow> look (rd w3) k = look (rd w) k" for k
    using q by (simp_all add: w3_def w2_def)
  ultimately show ?thesis by blast
qed

text \<open>The three messages of a new match.\<close>

definition start_msgs :: "MatchState \<Rightarrow> (string \<times> bus_msg) list" where
  "start_msgs st =
     (let ch = matchChannel (matchId st); a = fst (players st); b = snd (players st) in
      [(ch, \<lparr>bm_event = matchFound (matchId st) b 3, bm_recipient = Some (mp_userId a)\<rparr>),
       (ch, \<lparr>bm_event = matchFound (matchId st) a 3, bm_recipient = Some (mp_userId b)\<rparr>),
       (ch, \<lparr>bm_event = roundStart (matchId st) (currentRound st) (roundDeadline st), bm_recipient = None\<rparr>)])"

lemma broadcastInitialEvents_run:
  "outages w = [] \<Longrightarrow> broadcastInitialEvents mem_env st w = (Inr (), w\<lparr>published := published w @ start_msgs st\<rparr>)"
  by (simp add: broadcastInitialEvents_def broadcastToMatch_def broadcastRoundStart_def Let_def eff_simps
      redis_run start_msgs_def)

lemma pairLock_neq:
  "matchmakingPairLockKey u v \<noteq> MATCHMAKING_QUEUE_KEY" "matchmakingPairLockKey u v \<noteq> matchByUserKey x"
  "matchmakingPairLockKey u v \<noteq> matchmakingMetaKey x" "matchmakingPairLockKey u v \<noteq> matchStateKey mid"
  "matchmakingPairLockKey u v \<noteq> matchTimeoutJobKey mid" "matchByUserKey x \<noteq> matchmakingPairLockKey u v"
  by (simp_all add: matchmakingPairLockKey_def MATCHMAKING_PAIR_LOCK_PREFIX_def Let_def MATCHMAKING_QUEUE_KEY_def
      matchByUserKey_def MATCH_BY_USER_PREFIX_def matchmakingMetaKey_def MATCHMAKING_META_PREFIX_def
      matchStateKey_def matchTimeoutJobKey_def)

lemma match_key_neq:
  assumes "is_uuid mid"
  shows "matchStateKey mid \<noteq> MATCHMAKING_QUEUE_KEY" "MATCHMAKING_QUEUE_KEY \<noteq> matchStateKey mid"
    "matchByUserKey u \<noteq> matchStateKey mid" "matchTimeoutJobKey mid \<noteq> MATCHMAKING_QUEUE_KEY"
    "MATCHMAKING_QUEUE_KEY \<noteq> matchTimeoutJobKey mid" "matchByUserKey u \<noteq> matchTimeoutJobKey mid"
    "matchTimeoutJobKey mid \<noteq> matchByUserKey u" "matchmakingMetaKey u \<noteq> matchTimeoutJobKey mid"
    "matchTimeoutJobKey mid \<noteq> matchmakingMetaKey u" "matchStateKey mid \<noteq> matchTimeoutJobKey mid"
  using other_match_keys [OF assms] matchStateKey_neq(2) [of mid mid] unfolding other_key_def
  by (metis | simp add: matchmakingMetaKey_def MATCHMAKING_META_PREFIX_def matchTimeoutJobKey_def)+

lemmas key_neqs = pairLock_neq pairLock_neq [symmetric] match_key_neq match_key_neq [symmetric]

lemma look_zstore: "k \<noteq> MATCHMAKING_QUEUE_KEY \<Longrightarrow> look (zstore MATCHMAKING_QUEUE_KEY z d) k = look d k"
  by (simp add: zstore_def)

lemma zstore_now [simp]: "rd_now (zstore k z d) = rd_now d"
  by (simp add: zstore_def)

lemma pair_script_effect:
  assumes "look d lk \<noteq> None" and "lk = matchmakingPairLockKey x y" and "is_uuid mid" and "0 < ttl"
    and "queued d a" and "queued d b"
  shows "\<exists>d'. PAIR_PLAYERS_SCRIPT lk mid a b st ttl d = (Inr 1, d') \<and> look d' lk = None \<and>
    \<not> queued d' a \<and> \<not> queued d' b \<and> look d' (matchByUserKey a) = Some (RStr (Txt mid)) \<and>
    look d' (matchByUserKey b) = Some (RStr (Txt mid)) \<and> look d' (matchStateKey mid) = Some (RStr (Json st)) \<and>
    (\<forall>u. u \<noteq> a \<longrightarrow> u \<noteq> b \<longrightarrow> queued d' u = queued d u \<and> look d' (matchByUserKey u) = look d (matchByUserKey u)) \<and>
    look d' (matchTimeoutJobKey mid) = look d (matchTimeoutJobKey mid)"
proof -
  obtain z where z: "zset_of (look d MATCHMAKING_QUEUE_KEY) = Inr z" "map_of z a \<noteq> None" "map_of z b \<noteq> None"
    using assms(5,6) by (auto simp: queued_def split: sum.splits)
  define d1 where "d1 = unset (matchmakingMetaKey b) (unset (matchmakingMetaKey a)
    (zstore MATCHMAKING_QUEUE_KEY (zdrop b (zdrop a z)) d))"
  define d' where "d' = unset lk (put (matchStateKey mid) (RStr (Json st)) (expiry d ttl)
    (put (matchByUserKey b) (RStr (Txt mid)) (expiry d ttl) (put (matchByUserKey a) (RStr (Txt mid)) (expiry d ttl) d1)))"
  have q1: "queued d1 u \<longleftrightarrow> queued d u \<and> u \<noteq> a \<and> u \<noteq> b" for u
    using z(1) by (simp add: d1_def queued_zstore) (simp add: queued_def)
  have l1: "look d1 (matchByUserKey u) = look d (matchByUserKey u)" "rd_now d1 = rd_now d"
    "look d1 (matchTimeoutJobKey mid) = look d (matchTimeoutJobKey mid)" for u
    by (simp_all add: d1_def look_zstore match_key_neq assms(3))
  have "PAIR_PLAYERS_SCRIPT lk mid a b st ttl d = (Inr 1, d')"
    using assms(1) z by (auto simp: PAIR_PLAYERS_SCRIPT_def d'_def d1_def)
  moreover have "\<not> expired (rd_now d) (expiry d ttl)" using assms(4) by simp
  ultimately show ?thesis
    using q1 l1 assms(3)
    by (auto simp: d'_def assms(2) key_neqs)
qed

lemma evalScript_run:
  "outages w = [] \<Longrightarrow> evalScript mem_env f w = (map_sum RedisEx (\<lambda>a. a) (fst (f (rd w))), w\<lparr>rd := snd (f (rd w))\<rparr>)"
  by (simp add: evalScript_def requireClient_def e_redis_mem mem_redis_def command_ok)

lemma onMatchStarted_run:
  assumes "outages w = []" and "lock_key_ok (matchTimeoutJobKey (matchId st)) (rd w)"
  obtains w' where "onMatchStarted mem_env st w = (Inr (), w')" "outages w' = []" "published w' = published w"
    "\<And>k. k \<noteq> matchTimeoutJobKey (matchId st) \<Longrightarrow> look (rd w') k = look (rd w) k"
  using scheduleTimeout_run [OF assms, of "currentRound st" "roundDeadline st"] unfolding onMatchStarted_def by blast

text \<open>Whoever left the queue in the meantime: the script puts nobody into a match.\<close>

lemma pair_script_refuses:
  assumes "look d lk \<noteq> None" and "zset_of (look d MATCHMAKING_QUEUE_KEY) = Inr z" and "\<not> (queued d a \<and> queued d b)"
  shows "PAIR_PLAYERS_SCRIPT lk mid a b st ttl d = (Inr 0, unset lk d)"
proof -
  have "map_of z a = None \<or> map_of z b = None" using assms(2,3) by (auto simp: queued_def)
  then show ?thesis using assms(1,2) by (auto simp: PAIR_PLAYERS_SCRIPT_def)
qed

text \<open>
  C18. Pairing two queued players whose pair lock is free: the worker answers that they are paired,
  both have left the queue, both are mapped to the new match, the stored match is the initial state
  for them, the lock is free, nobody else's place changed, and both are told who they play and that
  the first round has started. When one of them has left the queue in the meantime, nothing changes
  but the lock.
\<close>

theorem tryPairPlayers_commits:
  assumes "env_ok env view" and "outages (view s) = []" and "is_uuid mid"
    and "zset_of (look (rd (view s)) MATCHMAKING_QUEUE_KEY) = Inr z"
    and "look (rd (view s)) (matchmakingPairLockKey (qm_userId a) (qm_userId b)) = None"
    and "lock_key_ok (matchTimeoutJobKey mid) (rd (view s))"
  shows "let r = fst (tryPairPlayers env a b now mid s); d = rd (view s);
             w' = view (snd (tryPairPlayers env a b now mid s)); d' = rd w';
             st = buildInitialState (player_of a) (player_of b) mid now None in
    look d' (matchmakingPairLockKey (qm_userId a) (qm_userId b)) = None \<and>
    (if queued d (qm_userId a) \<and> queued d (qm_userId b)
     then r = Inr True \<and> \<not> queued d' (qm_userId a) \<and> \<not> queued d' (qm_userId b) \<and>
       look d' (matchByUserKey (qm_userId a)) = Some (RStr (Txt mid)) \<and>
       look d' (matchByUserKey (qm_userId b)) = Some (RStr (Txt mid)) \<and>
       session d' mid = Some st \<and> published w' = published (view s) @ start_msgs st \<and>
       (\<forall>u. u \<noteq> qm_userId a \<longrightarrow> u \<noteq> qm_userId b \<longrightarrow>
          queued d' u = queued d u \<and> look d' (matchByUserKey u) = look d (matchByUserKey u))
     else r = Inr False \<and> published w' = published (view s) \<and>
       (\<forall>k. look d' k = look d k))"
proof -
  let ?a = "qm_userId a" and ?b = "qm_userId b"
  let ?st = "buildInitialState (player_of a) (player_of b) mid now None"
  let ?lk = "matchmakingPairLockKey ?a ?b"
  let ?w = "view s" and ?d = "rd (view s)"
  have sim: "sim view (tryPairPlayers env a b now mid) (tryPairPlayers mem_env a b now mid)"
    using assms(1) by (intro game_env.sim_tryPairPlayers game_env.intro)
  define w1 where "w1 = ?w\<lparr>rd := put ?lk (RStr (Txt ''1'')) (expiry ?d MATCHMAKING_PAIR_LOCK_TTL_SECONDS) ?d\<rparr>"
  have w1: "look (rd w1) ?lk \<noteq> None" "outages w1 = []" "queued (rd w1) u = queued ?d u"
    "look (rd w1) (matchTimeoutJobKey mid) = look ?d (matchTimeoutJobKey mid)"
    "look (rd w1) (matchByUserKey u) = look ?d (matchByUserKey u)" "published w1 = published ?w" for u
    using assms(2) by (simp_all add: w1_def MATCHMAKING_PAIR_LOCK_TTL_SECONDS_def key_neqs)
  have lock: "setnx mem_env ?lk MATCHMAKING_PAIR_LOCK_TTL_SECONDS ''1'' ?w = (Inr True, w1)"
    using assms(2,5) by (simp add: redis_run w1_def)
  note eval = evalScript_run [OF w1(2)]
  show ?thesis
  proof (cases "queued ?d ?a \<and> queued ?d ?b")
    case False
    have z: "zset_of (look (rd w1) MATCHMAKING_QUEUE_KEY) = Inr z"
      using assms(4) by (simp add: w1_def key_neqs)
    then have "PAIR_PLAYERS_SCRIPT ?lk mid ?a ?b ?st MATCH_STATE_TTL_SECONDS (rd w1) = (Inr 0, unset ?lk ?d)"
      using pair_script_refuses [OF w1(1) z, of ?a ?b mid ?st MATCH_STATE_TTL_SECONDS] False w1(3) by (simp add: w1_def)
    then have run: "tryPairPlayers mem_env a b now mid ?w = (Inr False, w1\<lparr>rd := unset ?lk ?d\<rparr>)"
      by (simp add: tryPairPlayers_def Let_def eff_simps lock eval)
    show ?thesis
      unfolding Let_def sim_run [OF sim run, THEN conjunct1] sim_run [OF sim run, THEN conjunct2]
      using False assms(5) w1(6) by auto
  next
    case True
    then obtain d2 where d2: "PAIR_PLAYERS_SCRIPT ?lk mid ?a ?b ?st MATCH_STATE_TTL_SECONDS (rd w1) = (Inr 1, d2)"
      "look d2 ?lk = None" "\<not> queued d2 ?a" "\<not> queued d2 ?b"
      "look d2 (matchByUserKey ?a) = Some (RStr (Txt mid))" "look d2 (matchByUserKey ?b) = Some (RStr (Txt mid))"
      "look d2 (matchStateKey mid) = Some (RStr (Json ?st))"
      "\<And>u. u \<noteq> ?a \<Longrightarrow> u \<noteq> ?b \<Longrightarrow> queued d2 u = queued ?d u \<and> look d2 (matchByUserKey u) = look ?d (matchByUserKey u)"
      "look d2 (matchTimeoutJobKey mid) = look ?d (matchTimeoutJobKey mid)"
      using pair_script_effect [OF w1(1) refl assms(3), of MATCH_STATE_TTL_SECONDS ?a ?b ?st] w1(3-5)
      by (auto simp: MATCH_STATE_TTL_SECONDS_def)
    define w2 where "w2 = w1\<lparr>rd := d2, metrics := metrics w1 @ [MatchDuration (of_int (now - qm_queuedAt a) / 1000)]
      @ [MatchDuration (of_int (now - qm_queuedAt b) / 1000)]\<rparr>"
    have st: "matchId ?st = mid" by (simp add: buildInitialState_def)
    have "outages w2 = []" "lock_key_ok (matchTimeoutJobKey mid) (rd w2)"
      using w1(2) d2(9) assms(6) by (simp_all add: w2_def lock_key_ok_def)
    then obtain w3 where w3: "onMatchStarted mem_env ?st w2 = (Inr (), w3)" "outages w3 = []" "published w3 = published ?w"
      "\<And>k. k \<noteq> matchTimeoutJobKey mid \<Longrightarrow> look (rd w3) k = look d2 k"
      using onMatchStarted_run [of w2 ?st] w1(6) unfolding st by (auto simp: w2_def)
    have run: "tryPairPlayers mem_env a b now mid ?w = (Inr True, w3\<lparr>published := published ?w @ start_msgs ?st\<rparr>)"
      using w3 by (simp add: tryPairPlayers_def Let_def eff_simps lock eval d2(1)
          w2_def [simplified, symmetric] broadcastInitialEvents_run)
    have q3: "queued (rd w3) u = queued d2 u" for u
      by (simp add: queued_def w3(4) match_key_neq assms(3))
    show ?thesis
      unfolding Let_def sim_run [OF sim run, THEN conjunct1] sim_run [OF sim run, THEN conjunct2]
      using True d2 by (simp add: q3 w3(4) key_neqs assms(3) session_def)
  qed
qed

lemma tryPairPlayers_commits_witness:
  "fst (tryPairPlayers mem_env (demo_members ! 0) (demo_members ! 1) 20 uuid_m queue_world) = Inr True"
proof -
  let ?d = "rd queue_world"
  have z: "zset_of (look ?d MATCHMAKING_QUEUE_KEY) = Inr [(''a'', 1000), (''b'', 1040)]"
    by (simp add: queue_world_def zset_of_def)
  have l: "look ?d (matchmakingPairLockKey u v) = None" "lock_key_ok (matchTimeoutJobKey uuid_m) ?d" for u v
    by (simp_all add: queue_world_def lock_key_ok_def key_neqs)
  have o: "outages queue_world = []" by (simp add: queue_world_def)
  have q: "queued ?d ''a''" "queued ?d ''b''" by (simp_all add: queued_def z)
  have "is_uuid uuid_m" by simp
  from tryPairPlayers_commits [OF env_ok_mem o this z l(1) l(2), of "demo_members ! 0" "demo_members ! 1" 20] q
  show ?thesis by (simp add: Let_def demo_members_def)
qed

end
