(* ===== verification/Directed_Match.thy ===== *)
theory Directed_Match
  imports Matchmaking_Inv
begin

section \<open>apps/game-service: directed matches of tournaments\<close>

text \<open>
  \<open>directed-match/directed-match.service.ts\<close> and its claim script: the job runner asks for a match
  between the two players of a bracket slot. The claim is one atomic script; a request for a
  tournament match that already runs answers with the running match when it is the match of both
  players. \<open>uuidValidate\<close> of the uuid package is an argument; so is the new match id.
  \<open>grpc/tournaments-grpc.controller.ts\<close> is the entry point: it accepts both spellings of each
  field.
\<close>

record DirectedMatchPlayer =
  dp_userId :: string
  dp_displayName :: string

record StartDirectedMatchInput =
  si_tournamentMatchId :: string
  si_slotA :: DirectedMatchPlayer
  si_slotB :: DirectedMatchPlayer

datatype StartDirectedMatchErrorCode =
  SAME_PLAYER | PLAYER_ALREADY_IN_MATCH | INVALID_PLAYER | INVALID_TOURNAMENT_MATCH
| TOURNAMENT_MATCH_ALREADY_STARTED

datatype StartDirectedMatchResult = StartOk string | StartRefused StartDirectedMatchErrorCode

datatype Claim = Claimed | PlayersBusy | TournamentAlreadyStarted

definition tournamentMatchKey :: "string \<Rightarrow> string" where
  "tournamentMatchKey tid = ''tournament-match:'' @ tid @ '':match''"

definition CLAIM_DIRECTED_PLAYERS_SCRIPT :: "string \<Rightarrow> string \<Rightarrow> string \<Rightarrow> string \<Rightarrow> string \<Rightarrow> nat \<Rightarrow> script" where
  "CLAIM_DIRECTED_PLAYERS_SCRIPT pairLockKey mid userA userB tKey matchTtl d =
     (if look d pairLockKey = None then (Inr 0, d)
      else if look d tKey \<noteq> None then (Inr 2, unset pairLockKey d)
      else if look d (matchByUserKey userA) \<noteq> None then (Inr 0, unset pairLockKey d)
      else if look d (matchByUserKey userB) \<noteq> None then (Inr 0, unset pairLockKey d)
      else case zset_of (look d MATCHMAKING_QUEUE_KEY) of
        Inl e \<Rightarrow> (Inl e, d)
      | Inr z \<Rightarrow> (Inr 1, unset pairLockKey
          (put tKey (RStr (Txt mid)) (expiry d matchTtl)
          (put (matchByUserKey userB) (RStr (Txt mid)) (expiry d matchTtl)
          (put (matchByUserKey userA) (RStr (Txt mid)) (expiry d matchTtl)
          (unset (matchmakingMetaKey userB) (unset (matchmakingMetaKey userA)
          (zstore MATCHMAKING_QUEUE_KEY (zdrop userB (zdrop userA z)) d))))))))"

definition isValidPlayer :: "DirectedMatchPlayer \<Rightarrow> bool" where
  "isValidPlayer p \<longleftrightarrow> length (trim (dp_userId p)) > 0 \<and> length (trim (dp_displayName p)) > 0"

definition toMatchPlayer :: "'s env \<Rightarrow> DirectedMatchPlayer \<Rightarrow> ('s, exn, MatchPlayer) eff" where
  "toMatchPlayer env p = bindS (getRating env (dp_userId p)) (\<lambda>rating.
     ret \<lparr>mp_userId = dp_userId p, mp_displayName = dp_displayName p, mp_rating = rating\<rparr>)"

definition claimPlayers :: "'s env \<Rightarrow> string \<Rightarrow> string \<Rightarrow> string \<Rightarrow> string \<Rightarrow> ('s, exn, Claim) eff" where
  "claimPlayers env userA userB tid mid =
     (let pairLockKey = matchmakingPairLockKey userA userB in
      bindS (setnx env pairLockKey MATCHMAKING_PAIR_LOCK_TTL_SECONDS ''1'') (\<lambda>lockAcquired.
        if \<not> lockAcquired then ret PlayersBusy
        else bindS (evalScript env (CLAIM_DIRECTED_PLAYERS_SCRIPT pairLockKey mid userA userB
              (tournamentMatchKey tid) MATCH_SESSION_TTL_SECONDS)) (\<lambda>claimed.
          ret (if claimed = 1 then Claimed else if claimed = 2 then TournamentAlreadyStarted else PlayersBusy))))"

definition resolveExistingTournamentMatch ::
  "'s env \<Rightarrow> string \<Rightarrow> string \<Rightarrow> string \<Rightarrow> ('s, exn, StartDirectedMatchResult) eff" where
  "resolveExistingTournamentMatch env tid userA userB =
     bindS (get env (tournamentMatchKey tid)) (\<lambda>existing.
       if \<not> truthy_stored existing then ret (StartRefused TOURNAMENT_MATCH_ALREADY_STARTED)
       else bindS (allS [get env (userMatchKey userA), get env (userMatchKey userB)]) (\<lambda>ids.
         if ids ! 0 = existing \<and> ids ! 1 = existing
         then ret (case existing of Some (Txt mid) \<Rightarrow> StartOk mid
                     | _ \<Rightarrow> StartRefused TOURNAMENT_MATCH_ALREADY_STARTED)
         else ret (StartRefused TOURNAMENT_MATCH_ALREADY_STARTED)))"

definition releaseClaims :: "'s env \<Rightarrow> string \<Rightarrow> string \<Rightarrow> string \<Rightarrow> ('s, exn, unit) eff" where
  "releaseClaims env userA userB tid =
     thenS (allS [del env (userMatchKey userA), del env (userMatchKey userB), del env (tournamentMatchKey tid)]) (ret ())"

definition start_claimed ::
  "'s env \<Rightarrow> MatchPlayer \<times> MatchPlayer \<Rightarrow> string \<Rightarrow> string \<Rightarrow> ('s, exn, StartDirectedMatchResult) eff" where
  "start_claimed env ps tid mid =
     catchS (bindS (create env ps mid (Some tid)) (\<lambda>state.
         thenS (onMatchStarted env state) (ret (StartOk (matchId state)))))
       (\<lambda>e. thenS (releaseClaims env (mp_userId (fst ps)) (mp_userId (snd ps)) tid) (raise e))"

definition startMatch ::
  "'s env \<Rightarrow> (string \<Rightarrow> bool) \<Rightarrow> StartDirectedMatchInput \<Rightarrow> string \<Rightarrow> ('s, exn, StartDirectedMatchResult) eff" where
  "startMatch env uuidValidate input mid =
     (let slotA = si_slotA input; slotB = si_slotB input; tid = trim (si_tournamentMatchId input) in
      if dp_userId slotA = dp_userId slotB then ret (StartRefused SAME_PLAYER)
      else if \<not> isValidPlayer slotA \<or> \<not> isValidPlayer slotB then ret (StartRefused INVALID_PLAYER)
      else if length tid = 0 \<or> \<not> uuidValidate tid then ret (StartRefused INVALID_TOURNAMENT_MATCH)
      else bindS (allS [toMatchPlayer env slotA, toMatchPlayer env slotB]) (\<lambda>ps.
        bindS (claimPlayers env (dp_userId slotA) (dp_userId slotB) tid mid) (\<lambda>claim.
          case claim of
            TournamentAlreadyStarted \<Rightarrow> resolveExistingTournamentMatch env tid (dp_userId slotA) (dp_userId slotB)
          | PlayersBusy \<Rightarrow> ret (StartRefused PLAYER_ALREADY_IN_MATCH)
          | Claimed \<Rightarrow> start_claimed env (ps ! 0, ps ! 1) tid mid)))"

subsection \<open>tournaments-grpc.controller.ts\<close>

record GrpcSlot =
  gs_userId :: "string option"
  gs_displayName :: "string option"
  gs_user_id :: "string option"
  gs_display_name :: "string option"

record StartMatchRequest =
  sr_tournamentMatchId :: "string option"
  sr_tournament_match_id :: "string option"
  sr_slotA :: "GrpcSlot option"
  sr_slot_a :: "GrpcSlot option"
  sr_slotB :: "GrpcSlot option"
  sr_slot_b :: "GrpcSlot option"

record StartMatchResponse =
  sp_success :: bool
  sp_matchId :: string
  sp_errorCode :: "StartDirectedMatchErrorCode option"

text \<open>\<open>a ?? b\<close>\<close>

definition orElse :: "'a option \<Rightarrow> 'a option \<Rightarrow> 'a option" where
  "orElse a b = (case a of None \<Rightarrow> b | Some _ \<Rightarrow> a)"

definition slot_of :: "GrpcSlot option \<Rightarrow> DirectedMatchPlayer" where
  "slot_of slot = \<lparr>
     dp_userId = (case orElse (Option.bind slot gs_userId) (Option.bind slot gs_user_id) of
        None \<Rightarrow> [] | Some s \<Rightarrow> s),
     dp_displayName = (case orElse (Option.bind slot gs_displayName) (Option.bind slot gs_display_name) of
        None \<Rightarrow> [] | Some s \<Rightarrow> s)\<rparr>"

definition grpc_startMatch ::
  "'s env \<Rightarrow> (string \<Rightarrow> bool) \<Rightarrow> StartMatchRequest \<Rightarrow> string \<Rightarrow> ('s, exn, StartMatchResponse) eff" where
  "grpc_startMatch env uuidValidate data mid =
     bindS (startMatch env uuidValidate
       \<lparr>si_tournamentMatchId = (case orElse (sr_tournamentMatchId data) (sr_tournament_match_id data) of
          None \<Rightarrow> [] | Some s \<Rightarrow> s),
        si_slotA = slot_of (orElse (sr_slotA data) (sr_slot_a data)),
        si_slotB = slot_of (orElse (sr_slotB data) (sr_slot_b data))\<rparr> mid) (\<lambda>result.
       ret (case result of
          StartRefused code \<Rightarrow> \<lparr>sp_success = False, sp_matchId = [], sp_errorCode = Some code\<rparr>
        | StartOk m \<Rightarrow> \<lparr>sp_success = True, sp_matchId = m, sp_errorCode = None\<rparr>))"

lemma sim_case_claim [sim_rules]:
  assumes "sim view a a'" and "sim view b b'" and "sim view c c'"
  shows "sim view (case x of Claimed \<Rightarrow> a | PlayersBusy \<Rightarrow> b | TournamentAlreadyStarted \<Rightarrow> c)
    (case x of Claimed \<Rightarrow> a' | PlayersBusy \<Rightarrow> b' | TournamentAlreadyStarted \<Rightarrow> c')"
  using assms by (cases x) simp_all

context game_env
begin

lemma sim_directed [sim_rules]:
  "sim view (toMatchPlayer env p) (toMatchPlayer mem_env p)"
  "sim view (claimPlayers env a b tid mid) (claimPlayers mem_env a b tid mid)"
  "sim view (resolveExistingTournamentMatch env tid a b) (resolveExistingTournamentMatch mem_env tid a b)"
  "sim view (releaseClaims env a b tid) (releaseClaims mem_env a b tid)"
  unfolding toMatchPlayer_def claimPlayers_def resolveExistingTournamentMatch_def releaseClaims_def Let_def
  by (intro sim_rules)+

lemma sim_start_claimed [sim_rules]: "sim view (start_claimed env ps tid mid) (start_claimed mem_env ps tid mid)"
  unfolding start_claimed_def by (intro sim_rules)

lemma sim_startMatch [sim_rules]: "sim view (startMatch env v i mid) (startMatch mem_env v i mid)"
  unfolding startMatch_def Let_def by (intro sim_rules)

lemma sim_grpc_startMatch [sim_rules]: "sim view (grpc_startMatch env v r mid) (grpc_startMatch mem_env v r mid)"
  unfolding grpc_startMatch_def by (intro sim_rules)

end

subsection \<open>Claims\<close>

lemma userMatchKey_eq: "userMatchKey u = matchByUserKey u"
  by (simp add: userMatchKey_def matchByUserKey_def MATCH_BY_USER_PREFIX_def)

lemma tKey_neq:
  "tournamentMatchKey t \<noteq> MATCHMAKING_QUEUE_KEY" "tournamentMatchKey t \<noteq> matchByUserKey u"
  "tournamentMatchKey t \<noteq> matchmakingMetaKey u" "tournamentMatchKey t \<noteq> matchmakingPairLockKey u v"
  "tournamentMatchKey t \<noteq> matchStateKey m" "tournamentMatchKey t \<noteq> matchTimeoutJobKey m"
  by (simp_all add: tournamentMatchKey_def MATCHMAKING_QUEUE_KEY_def matchByUserKey_def MATCH_BY_USER_PREFIX_def
      matchmakingMetaKey_def MATCHMAKING_META_PREFIX_def matchmakingPairLockKey_def MATCHMAKING_PAIR_LOCK_PREFIX_def
      Let_def matchStateKey_def matchTimeoutJobKey_def)

lemma other_tKey [simp]: "other_key (tournamentMatchKey t)"
  using tKey_neq by (simp add: other_key_def)

text \<open>Two users who are out of the queue.\<close>

definition unqueued :: "string \<Rightarrow> string \<Rightarrow> game_redis \<Rightarrow> bool" where
  "unqueued a b d \<longleftrightarrow> exclusive d \<and> \<not> queued d a \<and> \<not> queued d b"

interpretation unq: queue_invariant "unqueued a b" for a b
proof
  fix d k v e z m
  assume d: "unqueued a b d"
  show "unqueued a b (put k v e d)" if "other_key k"
    using d that excl.put_other by (simp add: unqueued_def other_key_def)
  show "unqueued a b (unset k d)"
    using d excl.unset_any queued_unset by (auto simp: unqueued_def)
  show "unqueued a b (zstore MATCHMAKING_QUEUE_KEY (zdrop m z) d)"
    if "zset_of (look d MATCHMAKING_QUEUE_KEY) = Inr z"
    using d that excl.drop_queued by (auto simp: unqueued_def queued_zstore) (auto simp: queued_def)
qed

lemma unqueued_exclusive: "unqueued a b d \<Longrightarrow> exclusive d"
  by (simp add: unqueued_def)

lemma unqueued_byUser: "unqueued a b d \<Longrightarrow> u = a \<or> u = b \<Longrightarrow> unqueued a b (put (matchByUserKey u) v e d)"
  unfolding unqueued_def exclusive_def by (metis in_match_simps(1) matchByUserKey_inject matchByUserKey_neq(1) queued_simps(1))

lemma keeps_mapUsers:
  "preserves (\<lambda>w. unqueued (mp_userId (fst (players st))) (mp_userId (snd (players st))) (rd w)) (mapUsers mem_env st)"
proof -
  have "preserves (\<lambda>w. unqueued a b (rd w)) (setex mem_env (userMatchKey u) ttl v)" if "u = a \<or> u = b" for a b u ttl v
    unfolding setex_def userMatchKey_eq
    by (rule unq.keeps_require) (simp add: mem_redis_def do_set_def unq.keeps_command_I unqueued_byUser that)
  then show ?thesis unfolding mapUsers_def by (simp add: keeps_allS_Cons keeps_allS_Nil del: allS.simps)
qed

lemma keeps_create_unqueued:
  assumes "is_uuid mid"
  shows "keeps (\<lambda>w. unqueued (mp_userId (fst ps)) (mp_userId (snd ps)) (rd w)) (create mem_env ps mid tid)
    (\<lambda>st. matchId st = mid)"
proof -
  have map: "preserves (\<lambda>w. unqueued (mp_userId (fst ps)) (mp_userId (snd ps)) (rd w))
      (mapUsers mem_env (buildInitialState (fst ps) (snd ps) mid now tid))" for now
    using keeps_mapUsers [of "buildInitialState (fst ps) (snd ps) mid now tid"] by (simp add: buildInitialState_def)
  have id: "matchId (buildInitialState (fst ps) (snd ps) mid now tid) = mid" for now
    by (simp add: buildInitialState_def)
  show ?thesis
    unfolding create_def Let_def saveState_def
    by (rule TrueI keep_rules map id unq.keeps_mem_process unq.keeps_service_writes unq.keeps_initial_events_I
        | simp only: id | rule other_match_keys assms)+
qed

lemma keeps_start_claimed:
  assumes "is_uuid mid"
  shows "preserves (\<lambda>w. unqueued (mp_userId (fst ps)) (mp_userId (snd ps)) (rd w)) (start_claimed mem_env ps tid mid)"
proof -
  have started: "preserves (\<lambda>w. unqueued (mp_userId (fst ps)) (mp_userId (snd ps)) (rd w))
      (bindS (create mem_env ps mid (Some tid)) (\<lambda>state. thenS (onMatchStarted mem_env state) (ret (StartOk (matchId state)))))"
    using assms by (intro keeps_bindS [OF keeps_create_unqueued] keeps_thenS unq.keeps_onMatchStarted keeps_ret) auto
  show ?thesis
    unfolding start_claimed_def releaseClaims_def
    by (rule started TrueI keep_rules unq.keeps_service)+
qed

text \<open>The claim: it only succeeds with both players out of the queue.\<close>

lemma claim_script_exclusive:
  assumes "exclusive d"
  shows "exclusive (snd (CLAIM_DIRECTED_PLAYERS_SCRIPT (matchmakingPairLockKey x y) mid a b (tournamentMatchKey t) ttl d))"
    and "fst (CLAIM_DIRECTED_PLAYERS_SCRIPT (matchmakingPairLockKey x y) mid a b (tournamentMatchKey t) ttl d) = Inr 1 \<Longrightarrow>
      unqueued a b (snd (CLAIM_DIRECTED_PLAYERS_SCRIPT (matchmakingPairLockKey x y) mid a b (tournamentMatchKey t) ttl d))"
proof -
  let ?c = "CLAIM_DIRECTED_PLAYERS_SCRIPT (matchmakingPairLockKey x y) mid a b (tournamentMatchKey t) ttl d"
  have unq: "unqueued a b (put (tournamentMatchKey t) v e (put (matchByUserKey b) v e (put (matchByUserKey a) v e
      (unset (matchmakingMetaKey b) (unset (matchmakingMetaKey a)
      (zstore MATCHMAKING_QUEUE_KEY (zdrop b (zdrop a z)) d))))))"
    if z: "zset_of (look d MATCHMAKING_QUEUE_KEY) = Inr z" for z v e
  proof -
    have "exclusive (zstore MATCHMAKING_QUEUE_KEY (zdrop b (zdrop a z)) d)"
      using assms z by (auto simp: exclusive_def queued_zstore) (auto simp: queued_def)
    then have "unqueued a b (zstore MATCHMAKING_QUEUE_KEY (zdrop b (zdrop a z)) d)"
      by (simp add: unqueued_def queued_zstore)
    then show ?thesis
      by (intro unq.put_other unqueued_byUser unq.unset_any) auto
  qed
  note claimed = unq [THEN unq.unset_any]
  have "(fst ?c = Inr 1 \<longrightarrow> unqueued a b (snd ?c)) \<and> exclusive (snd ?c)"
    using assms
    by (auto simp: CLAIM_DIRECTED_PLAYERS_SCRIPT_def excl.unset_any claimed claimed [THEN unqueued_exclusive] split: sum.splits)
  then show "exclusive (snd ?c)" "fst ?c = Inr 1 \<Longrightarrow> unqueued a b (snd ?c)" by simp_all
qed

lemma claimPlayers_exclusive:
  assumes "exclusive (rd w)" and "claimPlayers mem_env a b tid mid w = (r, w')"
  shows "exclusive (rd w') \<and> (r = Inr Claimed \<longrightarrow> unqueued a b (rd w'))"
proof -
  let ?lk = "matchmakingPairLockKey a b"
  let ?f = "CLAIM_DIRECTED_PLAYERS_SCRIPT ?lk mid a b (tournamentMatchKey tid) MATCH_SESSION_TTL_SECONDS"
  obtain r1 w1 where s: "setnx mem_env ?lk MATCHMAKING_PAIR_LOCK_TTL_SECONDS ''1'' w = (r1, w1)" by force
  have ex1: "exclusive (rd w1)"
    using keepsD [OF excl.keeps_service_writes(2), of ?lk w MATCHMAKING_PAIR_LOCK_TTL_SECONDS "''1''"] assms(1) s by simp
  have ev: "fst (evalScript mem_env ?f w1) = Inr n \<Longrightarrow> rd (snd (evalScript mem_env ?f w1)) = snd (?f (rd w1)) \<and> fst (?f (rd w1)) = Inr n"
    "rd (snd (evalScript mem_env ?f w1)) = snd (?f (rd w1)) \<or> rd (snd (evalScript mem_env ?f w1)) = rd w1" for n
    by (auto simp: evalScript_def requireClient_def e_redis_mem mem_redis_def command_def remote_def
        split: list.splits bool.splits prod.splits sum.splits)
  have ex2: "exclusive (rd (snd (evalScript mem_env ?f w1)))"
    using ev(2) ex1 claim_script_exclusive(1) [OF ex1] by metis
  show ?thesis
  proof (cases "evalScript mem_env ?f w1")
    case (Pair r2 w2)
    then have "r2 = Inr (Suc 0) \<Longrightarrow> unqueued a b (rd w2)"
      using ev(1) [of "Suc 0"] claim_script_exclusive(2) [OF ex1] by fastforce
    with Pair ex1 ex2 assms(2) show ?thesis
      by (auto simp: claimPlayers_def Let_def eff_simps s split: sum.splits if_splits)
  qed
qed

lemma keeps_existing: "preserves (\<lambda>w. exclusive (rd w)) (resolveExistingTournamentMatch mem_env tid a b)"
  unfolding resolveExistingTournamentMatch_def by (rule TrueI keep_rules excl.keeps_service)+

lemma keeps_toMatchPlayer: "keeps (\<lambda>w. exclusive (rd w)) (toMatchPlayer mem_env p) (\<lambda>m. mp_userId m = dp_userId p)"
  unfolding toMatchPlayer_def by (rule keeps_bindS [OF excl.keeps_getRating]) (simp add: keeps_ret)

lemma allS_pair:
  assumes "keeps P m Q" and "keeps P k R"
  shows "keeps P (allS [m, k]) (\<lambda>xs. \<exists>x y. xs = [x, y] \<and> Q x \<and> R y)"
  using assms by (fastforce simp: keeps_def ret_def split: prod.splits sum.splits)

lemma keeps_startMatch:
  assumes "is_uuid mid"
  shows "preserves (\<lambda>w. exclusive (rd w)) (startMatch mem_env v i mid)"
proof -
  let ?a = "dp_userId (si_slotA i)" and ?b = "dp_userId (si_slotB i)" and ?tid = "trim (si_tournamentMatchId i)"
  have claim: "preserves (\<lambda>w. exclusive (rd w)) (bindS (claimPlayers mem_env ?a ?b ?tid mid) (\<lambda>claim. case claim of
        TournamentAlreadyStarted \<Rightarrow> resolveExistingTournamentMatch mem_env ?tid ?a ?b
      | PlayersBusy \<Rightarrow> ret (StartRefused PLAYER_ALREADY_IN_MATCH)
      | Claimed \<Rightarrow> start_claimed mem_env ps ?tid mid))"
    if ps: "mp_userId (fst ps) = ?a" "mp_userId (snd ps) = ?b" for ps
  proof -
    have started: "exclusive (rd (snd (start_claimed mem_env ps ?tid mid w)))" if "unqueued ?a ?b (rd w)" for w
      using keepsD [OF keeps_start_claimed [OF assms], of ps w ?tid] that ps by (simp add: unqueued_def)
    have existing: "exclusive (rd w) \<Longrightarrow> exclusive (rd (snd (resolveExistingTournamentMatch mem_env ?tid ?a ?b w)))" for w
      by (rule keepsD [OF keeps_existing])
    show ?thesis
      using claimPlayers_exclusive started existing
      by (auto simp: keeps_def bindS_apply ret_apply split: prod.splits sum.splits Claim.splits)
  qed
  have players: "keeps (\<lambda>w. exclusive (rd w)) (allS [toMatchPlayer mem_env (si_slotA i), toMatchPlayer mem_env (si_slotB i)])
      (\<lambda>ps. mp_userId (ps ! 0) = ?a \<and> mp_userId (ps ! 1) = ?b)"
    using allS_pair [OF keeps_toMatchPlayer keeps_toMatchPlayer] by (fastforce simp: keeps_def)
  show ?thesis
    unfolding startMatch_def Let_def
    by (intro keeps_if keeps_ret TrueI keeps_bindS [OF players]) (use claim in auto)
qed



subsection \<open>Starting a tournament match\<close>

definition rating_in :: "game_redis \<Rightarrow> string \<Rightarrow> int" where
  "rating_in d u = (case look d (USER_RATING_PREFIX @ u) of
     Some (RStr (Txt t)) \<Rightarrow> (if t = [] then DEFAULT_RATING
       else case parse_int t of None \<Rightarrow> DEFAULT_RATING | Some r \<Rightarrow> r)
   | _ \<Rightarrow> DEFAULT_RATING)"

definition string_key :: "game_redis \<Rightarrow> string \<Rightarrow> bool" where
  "string_key d k \<longleftrightarrow> (case look d k of None \<Rightarrow> True | Some (RStr _) \<Rightarrow> True | _ \<Rightarrow> False)"

lemma getRating_run:
  assumes "outages w = []" and "string_key (rd w) (USER_RATING_PREFIX @ u)"
  shows "getRating mem_env u w = (Inr (rating_in (rd w) u), w)"
  using assms
  by (auto simp: getRating_def redis_run eff_simps do_get_def string_key_def rating_in_def
      split: option.splits rvalue.splits stored.splits)

definition directed_player :: "game_redis \<Rightarrow> DirectedMatchPlayer \<Rightarrow> MatchPlayer" where
  "directed_player d p = \<lparr>mp_userId = dp_userId p, mp_displayName = dp_displayName p,
     mp_rating = rating_in d (dp_userId p)\<rparr>"

lemma toMatchPlayer_run:
  "outages w = [] \<Longrightarrow> string_key (rd w) (USER_RATING_PREFIX @ dp_userId p) \<Longrightarrow>
   toMatchPlayer mem_env p w = (Inr (directed_player (rd w) p), w)"
  by (simp add: toMatchPlayer_def eff_simps getRating_run directed_player_def)

text \<open>The requests the service accepts.\<close>

definition good_input :: "(string \<Rightarrow> bool) \<Rightarrow> StartDirectedMatchInput \<Rightarrow> bool" where
  "good_input valid i \<longleftrightarrow> dp_userId (si_slotA i) \<noteq> dp_userId (si_slotB i) \<and> isValidPlayer (si_slotA i) \<and>
     isValidPlayer (si_slotB i) \<and> trim (si_tournamentMatchId i) \<noteq> [] \<and> valid (trim (si_tournamentMatchId i))"

lemma startMatch_valid:
  assumes "good_input valid i" and "outages w = []"
    and "string_key (rd w) (USER_RATING_PREFIX @ dp_userId (si_slotA i))"
    and "string_key (rd w) (USER_RATING_PREFIX @ dp_userId (si_slotB i))"
  shows "startMatch mem_env valid i mid w =
    bindS (claimPlayers mem_env (dp_userId (si_slotA i)) (dp_userId (si_slotB i)) (trim (si_tournamentMatchId i)) mid)
      (\<lambda>claim. case claim of
          TournamentAlreadyStarted \<Rightarrow> resolveExistingTournamentMatch mem_env (trim (si_tournamentMatchId i))
            (dp_userId (si_slotA i)) (dp_userId (si_slotB i))
        | PlayersBusy \<Rightarrow> ret (StartRefused PLAYER_ALREADY_IN_MATCH)
        | Claimed \<Rightarrow> start_claimed mem_env (directed_player (rd w) (si_slotA i), directed_player (rd w) (si_slotB i))
            (trim (si_tournamentMatchId i)) mid) w"
  using assms
  by (simp add: startMatch_def good_input_def eff_simps toMatchPlayer_run Let_def)

lemma claimPlayers_run:
  assumes "outages w = []" and "look (rd w) (matchmakingPairLockKey a b) = None"
  shows "claimPlayers mem_env a b tid mid w =
    (case CLAIM_DIRECTED_PLAYERS_SCRIPT (matchmakingPairLockKey a b) mid a b (tournamentMatchKey tid)
        MATCH_SESSION_TTL_SECONDS (put (matchmakingPairLockKey a b) (RStr (Txt ''1''))
          (expiry (rd w) MATCHMAKING_PAIR_LOCK_TTL_SECONDS) (rd w)) of
       (Inl e, d) \<Rightarrow> (Inl (RedisEx e), w\<lparr>rd := d\<rparr>)
     | (Inr n, d) \<Rightarrow> (Inr (if n = 1 then Claimed else if n = 2 then TournamentAlreadyStarted else PlayersBusy), w\<lparr>rd := d\<rparr>))"
  using assms
  by (auto simp: claimPlayers_def Let_def eff_simps redis_run evalScript_def requireClient_def e_redis_mem
      mem_redis_def command_ok map_sum_def split: prod.splits sum.splits)

lemma start_again_run:
  assumes "good_input valid i" and "outages w = []"
    and "string_key (rd w) (USER_RATING_PREFIX @ dp_userId (si_slotA i))"
    and "string_key (rd w) (USER_RATING_PREFIX @ dp_userId (si_slotB i))"
    and "look (rd w) (matchmakingPairLockKey (dp_userId (si_slotA i)) (dp_userId (si_slotB i))) = None"
    and "look (rd w) (tournamentMatchKey (trim (si_tournamentMatchId i))) = Some (RStr (Txt m))" and "m \<noteq> []"
    and "string_key (rd w) (matchByUserKey (dp_userId (si_slotA i)))"
    and "string_key (rd w) (matchByUserKey (dp_userId (si_slotB i)))"
  shows "startMatch mem_env valid i mid w =
    (Inr (if look (rd w) (matchByUserKey (dp_userId (si_slotA i))) = Some (RStr (Txt m)) \<and>
             look (rd w) (matchByUserKey (dp_userId (si_slotB i))) = Some (RStr (Txt m))
          then StartOk m else StartRefused TOURNAMENT_MATCH_ALREADY_STARTED),
     w\<lparr>rd := unset (matchmakingPairLockKey (dp_userId (si_slotA i)) (dp_userId (si_slotB i))) (rd w)\<rparr>)"
proof -
  let ?a = "dp_userId (si_slotA i)" and ?b = "dp_userId (si_slotB i)"
  let ?lk = "matchmakingPairLockKey ?a ?b" and ?t = "trim (si_tournamentMatchId i)"
  let ?w' = "w\<lparr>rd := unset ?lk (rd w)\<rparr>"
  have claim: "claimPlayers mem_env ?a ?b ?t mid w = (Inr TournamentAlreadyStarted, ?w')"
    using assms(2,5,6)
    by (simp add: claimPlayers_run CLAIM_DIRECTED_PLAYERS_SCRIPT_def tKey_neq MATCHMAKING_PAIR_LOCK_TTL_SECONDS_def)
  have keys: "look (rd ?w') (tournamentMatchKey ?t) = Some (RStr (Txt m))"
    "look (rd ?w') (matchByUserKey u) = look (rd w) (matchByUserKey u)" for u
    using assms(6) by (simp_all add: tKey_neq key_neqs)
  have get: "get mem_env (matchByUserKey u) ?w' =
      (Inr (case look (rd w) (matchByUserKey u) of Some (RStr t) \<Rightarrow> Some t | _ \<Rightarrow> None), ?w')"
    if "string_key (rd w) (matchByUserKey u)" for u
    using that assms(2) keys by (auto simp: redis_run do_get_def string_key_def split: option.splits rvalue.splits)
  have get_t: "get mem_env (tournamentMatchKey ?t) ?w' = (Inr (Some (Txt m)), ?w')"
    using assms(2) keys(1) by (simp add: redis_run do_get_def del: look_unset)
  have "resolveExistingTournamentMatch mem_env ?t ?a ?b ?w' =
    (Inr (if look (rd w) (matchByUserKey ?a) = Some (RStr (Txt m)) \<and> look (rd w) (matchByUserKey ?b) = Some (RStr (Txt m))
          then StartOk m else StartRefused TOURNAMENT_MATCH_ALREADY_STARTED), ?w')"
    using assms(7) get [OF assms(8)] get [OF assms(9)] get_t
    by (auto simp: resolveExistingTournamentMatch_def eff_simps userMatchKey_eq split: option.splits rvalue.splits)
  then show ?thesis
    using claim by (simp add: startMatch_valid [OF assms(1-4)] eff_simps)
qed

lemma rating_neq:
  "USER_RATING_PREFIX @ u \<noteq> MATCHMAKING_QUEUE_KEY" "USER_RATING_PREFIX @ u \<noteq> matchByUserKey v"
  "USER_RATING_PREFIX @ u \<noteq> matchmakingMetaKey v" "USER_RATING_PREFIX @ u \<noteq> matchmakingPairLockKey v x"
  "USER_RATING_PREFIX @ u \<noteq> matchStateKey m" "USER_RATING_PREFIX @ u \<noteq> matchTimeoutJobKey m"
  "USER_RATING_PREFIX @ u \<noteq> tournamentMatchKey t"
  by (simp_all add: USER_RATING_PREFIX_def tournamentMatchKey_def MATCHMAKING_QUEUE_KEY_def matchByUserKey_def
      MATCH_BY_USER_PREFIX_def matchmakingMetaKey_def MATCHMAKING_META_PREFIX_def matchmakingPairLockKey_def
      MATCHMAKING_PAIR_LOCK_PREFIX_def Let_def matchStateKey_def matchTimeoutJobKey_def)

lemmas directed_neqs = key_neqs tKey_neq tKey_neq [symmetric] rating_neq rating_neq [symmetric]

text \<open>What the key space holds once the match of two players of a tournament runs.\<close>

definition running_match :: "game_redis \<Rightarrow> string \<Rightarrow> string \<Rightarrow> string \<Rightarrow> string \<Rightarrow> bool" where
  "running_match d tid a b mid \<longleftrightarrow>
     look d (tournamentMatchKey tid) = Some (RStr (Txt mid)) \<and>
     look d (matchByUserKey a) = Some (RStr (Txt mid)) \<and> look d (matchByUserKey b) = Some (RStr (Txt mid)) \<and>
     look d (matchmakingPairLockKey a b) = None"

text \<open>What it may hold before.\<close>

definition claimable :: "game_redis \<Rightarrow> string \<Rightarrow> string \<Rightarrow> string \<Rightarrow> bool" where
  "claimable d tid a b \<longleftrightarrow>
     (\<exists>z. zset_of (look d MATCHMAKING_QUEUE_KEY) = Inr z) \<and> look d (tournamentMatchKey tid) = None \<and>
     look d (matchByUserKey a) = None \<and> look d (matchByUserKey b) = None \<and>
     look d (matchmakingPairLockKey a b) = None \<and>
     string_key d (USER_RATING_PREFIX @ a) \<and> string_key d (USER_RATING_PREFIX @ b)"

lemma claim_fresh:
  assumes "outages w = []" and "claimable (rd w) tid a b" and "is_uuid mid"
  shows "\<exists>w'. claimPlayers mem_env a b tid mid w = (Inr Claimed, w') \<and> outages w' = [] \<and>
    published w' = published w \<and> running_match (rd w') tid a b mid \<and>
    look (rd w') (matchTimeoutJobKey mid) = look (rd w) (matchTimeoutJobKey mid) \<and>
    (\<forall>u. look (rd w') (USER_RATING_PREFIX @ u) = look (rd w) (USER_RATING_PREFIX @ u))"
proof -
  let ?lk = "matchmakingPairLockKey a b"
  let ?d = "put ?lk (RStr (Txt ''1'')) (expiry (rd w) MATCHMAKING_PAIR_LOCK_TTL_SECONDS) (rd w)"
  obtain z where z: "zset_of (look (rd w) MATCHMAKING_QUEUE_KEY) = Inr z"
    using assms(2) by (auto simp: claimable_def)
  have fresh: "look (rd w) (tournamentMatchKey tid) = None" "look (rd w) (matchByUserKey a) = None"
    "look (rd w) (matchByUserKey b) = None" "look (rd w) ?lk = None"
    using assms(2) by (simp_all add: claimable_def)
  have lk: "look ?d ?lk \<noteq> None" by (simp add: MATCHMAKING_PAIR_LOCK_TTL_SECONDS_def)
  define d' where "d' = unset ?lk (put (tournamentMatchKey tid) (RStr (Txt mid)) (expiry ?d MATCH_SESSION_TTL_SECONDS)
          (put (matchByUserKey b) (RStr (Txt mid)) (expiry ?d MATCH_SESSION_TTL_SECONDS)
          (put (matchByUserKey a) (RStr (Txt mid)) (expiry ?d MATCH_SESSION_TTL_SECONDS)
          (unset (matchmakingMetaKey b) (unset (matchmakingMetaKey a)
          (zstore MATCHMAKING_QUEUE_KEY (zdrop b (zdrop a z)) ?d))))))"
  have "CLAIM_DIRECTED_PLAYERS_SCRIPT ?lk mid a b (tournamentMatchKey tid) MATCH_SESSION_TTL_SECONDS ?d = (Inr 1, d')"
    using lk z fresh
    by (simp only: CLAIM_DIRECTED_PLAYERS_SCRIPT_def d'_def if_False look_put directed_neqs refl) simp
  then have run: "claimPlayers mem_env a b tid mid w = (Inr Claimed, w\<lparr>rd := d'\<rparr>)"
    using assms(1) fresh(4) by (simp add: claimPlayers_run)
  have "running_match d' tid a b mid"
    by (simp add: running_match_def d'_def directed_neqs MATCH_SESSION_TTL_SECONDS_def expired_def expiry_def)
  moreover have "look d' (matchTimeoutJobKey mid) = look (rd w) (matchTimeoutJobKey mid)"
    "look d' (USER_RATING_PREFIX @ u) = look (rd w) (USER_RATING_PREFIX @ u)" for u
    by (simp_all add: d'_def directed_neqs assms(3) look_zstore)
  ultimately show ?thesis using run assms(1) by simp
qed

lemma start_claimed_run:
  assumes "outages w = []" and "is_uuid mid" and "lock_key_ok (matchTimeoutJobKey mid) (rd w)"
    and "running_match (rd w) tid (mp_userId pa) (mp_userId pb) mid"
  shows "\<exists>w'. start_claimed mem_env (pa, pb) tid mid w = (Inr (StartOk mid), w') \<and> outages w' = [] \<and>
    running_match (rd w') tid (mp_userId pa) (mp_userId pb) mid \<and>
    session (rd w') mid = Some (buildInitialState pa pb mid (rd_now (rd w)) (Some tid)) \<and>
    published w' = published w @ start_msgs (buildInitialState pa pb mid (rd_now (rd w)) (Some tid)) \<and>
    (\<forall>u. look (rd w') (USER_RATING_PREFIX @ u) = look (rd w) (USER_RATING_PREFIX @ u))"
proof -
  let ?st = "buildInitialState pa pb mid (rd_now (rd w)) (Some tid)"
  let ?e = "expiry (rd w) MATCH_SESSION_TTL_SECONDS"
  have st: "matchId ?st = mid" "players ?st = (pa, pb)" by (simp_all add: buildInitialState_def)
  define w1 where "w1 = w\<lparr>rd := put (matchByUserKey (mp_userId pb)) (RStr (Txt mid)) ?e
      (put (matchByUserKey (mp_userId pa)) (RStr (Txt mid)) ?e (put (matchStateKey mid) (RStr (Json ?st)) ?e (rd w))),
      published := published w @ start_msgs ?st\<rparr>"
  have create: "create mem_env (pa, pb) mid (Some tid) w = (Inr ?st, w1)"
    using assms(1) by (simp add: create_def eff_simps Let_def saveState_def mapUsers_def redis_run st
        broadcastInitialEvents_run userMatchKey_eq w1_def)
  have "outages w1 = []" "lock_key_ok (matchTimeoutJobKey mid) (rd w1)"
    using assms(1-3) by (simp_all add: w1_def lock_key_ok_def directed_neqs)
  from scheduleTimeout_run [OF this, of "currentRound ?st" "roundDeadline ?st"] obtain w2
    where w2: "schedulePhaseTimeout mem_env mid (currentRound ?st) (roundDeadline ?st) w1 = (Inr (), w2)"
      "outages w2 = []" "published w2 = published w1"
      "\<And>k. k \<noteq> matchTimeoutJobKey mid \<Longrightarrow> look (rd w2) k = look (rd w1) k" by blast
  have "start_claimed mem_env (pa, pb) tid mid w = (Inr (StartOk mid), w2)"
    using w2(1) by (simp add: start_claimed_def eff_simps create onMatchStarted_def st)
  moreover have "running_match (rd w2) tid (mp_userId pa) (mp_userId pb) mid"
    using assms(4) by (simp add: running_match_def w2(4) directed_neqs assms(2) w1_def MATCH_SESSION_TTL_SECONDS_def
        expired_def expiry_def)
  moreover have "session (rd w2) mid = Some ?st"
    by (simp add: session_def w2(4) directed_neqs assms(2) w1_def MATCH_SESSION_TTL_SECONDS_def expired_def expiry_def)
  moreover have "look (rd w2) (USER_RATING_PREFIX @ u) = look (rd w) (USER_RATING_PREFIX @ u)" for u
    by (simp add: w2(4) directed_neqs w1_def)
  ultimately show ?thesis using w2(2,3) by (simp add: w1_def)
qed

text \<open>
  C20. Starting a tournament match is idempotent. When the players are free, the service starts their
  match under the given id, with the ratings it knows, and tells both; asking again for the same
  tournament match, with any other fresh id, answers with the match that runs, starts no other and
  tells nobody.
\<close>

theorem startMatch_idempotent:
  assumes "env_ok env view" and "outages (view s) = []" and "good_input valid i" and "is_uuid mid"
    and "claimable (rd (view s)) (trim (si_tournamentMatchId i)) (dp_userId (si_slotA i)) (dp_userId (si_slotB i))"
    and "lock_key_ok (matchTimeoutJobKey mid) (rd (view s))"
  shows "let st = buildInitialState (directed_player (rd (view s)) (si_slotA i))
               (directed_player (rd (view s)) (si_slotB i)) mid (rd_now (rd (view s)))
               (Some (trim (si_tournamentMatchId i)));
             s1 = snd (startMatch env valid i mid s); s2 = snd (startMatch env valid i mid' s1) in
    fst (startMatch env valid i mid s) = Inr (StartOk mid) \<and> session (rd (view s1)) mid = Some st \<and>
    published (view s1) = published (view s) @ start_msgs st \<and>
    fst (startMatch env valid i mid' s1) = Inr (StartOk mid) \<and>
    published (view s2) = published (view s1) \<and> (\<forall>k. look (rd (view s2)) k = look (rd (view s1)) k)"
proof -
  let ?a = "dp_userId (si_slotA i)" and ?b = "dp_userId (si_slotB i)" and ?t = "trim (si_tournamentMatchId i)"
  let ?d = "rd (view s)"
  let ?pa = "directed_player ?d (si_slotA i)" and ?pb = "directed_player ?d (si_slotB i)"
  have u: "mp_userId ?pa = ?a" "mp_userId ?pb = ?b" by (simp_all add: directed_player_def)
  have r: "string_key ?d (USER_RATING_PREFIX @ ?a)" "string_key ?d (USER_RATING_PREFIX @ ?b)"
    using assms(5) by (simp_all add: claimable_def)
  have sim: "sim view (startMatch env valid i m) (startMatch mem_env valid i m)" for m
    using assms(1) by (intro game_env.sim_startMatch game_env.intro)
  obtain w1 where w1: "claimPlayers mem_env ?a ?b ?t mid (view s) = (Inr Claimed, w1)" "outages w1 = []"
    "published w1 = published (view s)" "running_match (rd w1) ?t ?a ?b mid"
    "look (rd w1) (matchTimeoutJobKey mid) = look ?d (matchTimeoutJobKey mid)"
    "\<And>u. look (rd w1) (USER_RATING_PREFIX @ u) = look ?d (USER_RATING_PREFIX @ u)"
    using claim_fresh [OF assms(2,5,4)] by auto
  have now: "rd_now (rd w1) = rd_now ?d"
    using w1(1) assms(2,5) by (auto simp: claimPlayers_run claimable_def CLAIM_DIRECTED_PLAYERS_SCRIPT_def
        split: if_splits sum.splits)
  have "lock_key_ok (matchTimeoutJobKey mid) (rd w1)" using assms(6) w1(5) by (simp add: lock_key_ok_def)
  from start_claimed_run [OF w1(2) assms(4) this, of ?t ?pa ?pb] w1(4) u now obtain w2
    where w2: "start_claimed mem_env (?pa, ?pb) ?t mid w1 = (Inr (StartOk mid), w2)" "outages w2 = []"
      "running_match (rd w2) ?t ?a ?b mid"
      "session (rd w2) mid = Some (buildInitialState ?pa ?pb mid (rd_now ?d) (Some ?t))"
      "published w2 = published (view s) @ start_msgs (buildInitialState ?pa ?pb mid (rd_now ?d) (Some ?t))"
      "\<And>u. look (rd w2) (USER_RATING_PREFIX @ u) = look ?d (USER_RATING_PREFIX @ u)"
    using w1(3,6) by auto
  have run1: "startMatch mem_env valid i mid (view s) = (Inr (StartOk mid), w2)"
    using w1(1) w2(1) by (simp add: startMatch_valid [OF assms(3,2) r] eff_simps)
  have keys: "string_key (rd w2) (USER_RATING_PREFIX @ ?a)" "string_key (rd w2) (USER_RATING_PREFIX @ ?b)"
    "look (rd w2) (matchmakingPairLockKey ?a ?b) = None" "look (rd w2) (tournamentMatchKey ?t) = Some (RStr (Txt mid))"
    "string_key (rd w2) (matchByUserKey ?a)" "string_key (rd w2) (matchByUserKey ?b)" "mid \<noteq> []"
    using r w2(3,6) assms(4) by (auto simp: string_key_def running_match_def is_uuid_def)
  have run2: "startMatch mem_env valid i mid' w2 =
      (Inr (StartOk mid), w2\<lparr>rd := unset (matchmakingPairLockKey ?a ?b) (rd w2)\<rparr>)"
    using start_again_run [OF assms(3) w2(2) keys(1-4,7,5,6)] w2(3) by (simp add: running_match_def)
  define s1 where "s1 = snd (startMatch env valid i mid s)"
  have s1: "fst (startMatch env valid i mid s) = Inr (StartOk mid)" "view s1 = w2"
    using sim_run [OF sim run1] by (simp_all add: s1_def)
  have s2: "fst (startMatch env valid i mid' s1) = Inr (StartOk mid)"
    "view (snd (startMatch env valid i mid' s1)) = w2\<lparr>rd := unset (matchmakingPairLockKey ?a ?b) (rd w2)\<rparr>"
    using sim_run [OF sim, of mid' s1] run2 by (simp_all add: s1)
  show ?thesis
    unfolding Let_def s1_def [symmetric] s1 s2 using w2(4,5) keys(3) by simp
qed

definition demo_input :: StartDirectedMatchInput where
  "demo_input = \<lparr>si_tournamentMatchId = ''t'', si_slotA = \<lparr>dp_userId = ''a'', dp_displayName = ''A''\<rparr>,
     si_slotB = \<lparr>dp_userId = ''b'', dp_displayName = ''B''\<rparr>\<rparr>"

lemma demo_input_good: "good_input (\<lambda>_. True) demo_input" "trim ''t'' = ''t''"
  by (simp_all add: good_input_def demo_input_def isValidPlayer_def trim_def is_space_def)

lemma startMatch_idempotent_witness:
  "fst (startMatch mem_env (\<lambda>_. True) demo_input uuid_m queue_world) = Inr (StartOk uuid_m)"
proof -
  have "claimable (rd queue_world) (trim (si_tournamentMatchId demo_input)) (dp_userId (si_slotA demo_input))
      (dp_userId (si_slotB demo_input))"
    by (simp add: claimable_def queue_world_def demo_input_def directed_neqs string_key_def zset_of_def)
  moreover have "outages queue_world = []" "lock_key_ok (matchTimeoutJobKey uuid_m) (rd queue_world)"
    by (simp_all add: queue_world_def lock_key_ok_def directed_neqs)
  moreover have "is_uuid uuid_m" by simp
  ultimately show ?thesis
    using startMatch_idempotent [OF env_ok_mem _ demo_input_good(1), of queue_world uuid_m "[]"] by (simp add: Let_def)
qed

end
