(* ===== verification/Game_Auth.thy ===== *)
theory Game_Auth
  imports Redis_Store
begin

section \<open>apps/game-service: who is behind a socket\<close>

text \<open>
  The game service asks the auth service, over gRPC, whose access token a socket presents, and
  remembers a positive answer for 30 seconds: \<open>grpc/auth-token-cache.service.ts\<close> (a map with
  expiry), \<open>grpc/api-auth.client.ts\<close> (the remote call behind the cache), \<open>auth/ws-auth.service.ts\<close>
  (the verdict) and the middleware of \<open>game.gateway.ts\<close>. The answer of the remote call is an
  argument, \<open>None\<close> when it fails or times out, and so is the clock at the two points where the code
  reads it.
\<close>

subsection \<open>Responses\<close>

datatype VerifyTokenReason = R_INVALID | R_EXPIRED | R_REVOKED | R_UNAVAILABLE

record VerifyTokenResponse =
  vt_valid :: bool
  vt_userId :: "string option"
  vt_role :: "string option"
  vt_displayName :: "string option"
  vt_reason :: "VerifyTokenReason option"
  vt_jti :: "string option"

text \<open>The message on the wire: the reason is any string.\<close>

record AuthGrpcResponse =
  ag_valid :: bool
  ag_userId :: "string option"
  ag_role :: "string option"
  ag_displayName :: "string option"
  ag_reason :: "string option"
  ag_jti :: "string option"

definition reason_of :: "string option \<Rightarrow> VerifyTokenReason" where
  "reason_of r =
     (if r = Some ''REVOKED'' then R_REVOKED
      else if r = Some ''EXPIRED'' then R_EXPIRED
      else if r = Some ''UNAVAILABLE'' then R_UNAVAILABLE
      else R_INVALID)"

definition mapVerifyTokenResponse :: "AuthGrpcResponse \<Rightarrow> VerifyTokenResponse" where
  "mapVerifyTokenResponse response =
     (if \<not> ag_valid response
      then \<lparr>vt_valid = False, vt_userId = None, vt_role = None, vt_displayName = None,
            vt_reason = Some (reason_of (ag_reason response)), vt_jti = None\<rparr>
      else \<lparr>vt_valid = True, vt_userId = ag_userId response, vt_role = ag_role response,
            vt_displayName = ag_displayName response, vt_reason = None, vt_jti = ag_jti response\<rparr>)"

subsection \<open>The cache\<close>

record CacheEntry =
  ce_result :: VerifyTokenResponse
  ce_expiresAt :: time

type_synonym token_cache = "string \<Rightarrow> CacheEntry option"

definition cache_ttlMs :: int where "cache_ttlMs = 30000"

definition cache_get :: "time \<Rightarrow> string \<Rightarrow> token_cache \<Rightarrow> VerifyTokenResponse option \<times> token_cache" where
  "cache_get now token entries =
     (case entries token of
        None \<Rightarrow> (None, entries)
      | Some entry \<Rightarrow>
          if now \<ge> ce_expiresAt entry then (None, entries(token := None))
          else (Some (ce_result entry), entries))"

definition cache_set :: "time \<Rightarrow> string \<Rightarrow> VerifyTokenResponse \<Rightarrow> token_cache \<Rightarrow> token_cache" where
  "cache_set now token result entries =
     (if \<not> vt_valid result then entries
      else entries(token \<mapsto> \<lparr>ce_result = result, ce_expiresAt = now + cache_ttlMs\<rparr>))"

definition cache_invalidate :: "string \<Rightarrow> token_cache \<Rightarrow> token_cache" where
  "cache_invalidate token entries = entries(token := None)"

subsection \<open>The client\<close>

datatype auth_failure = AuthUnavailableError

record auth_client =
  ac_entries :: token_cache
  ac_calls :: "string list"

definition client_verifyToken ::
  "time \<Rightarrow> AuthGrpcResponse option \<Rightarrow> time \<Rightarrow> string \<Rightarrow> auth_client \<Rightarrow>
   (auth_failure + VerifyTokenResponse) \<times> auth_client" where
  "client_verifyToken asked answer answered token c =
     (case cache_get asked token (ac_entries c) of
        (Some cached, entries) \<Rightarrow> (Inr cached, c\<lparr>ac_entries := entries\<rparr>)
      | (None, entries) \<Rightarrow>
          (case answer of
             None \<Rightarrow> (Inl AuthUnavailableError, c\<lparr>ac_entries := entries, ac_calls := ac_calls c @ [''error'']\<rparr>)
           | Some response \<Rightarrow>
               let result = mapVerifyTokenResponse response in
               (Inr result, c\<lparr>ac_entries := (if vt_valid result then cache_set answered token result entries
                                             else cache_invalidate token entries),
                              ac_calls := ac_calls c @ [''ok'']\<rparr>)))"

subsection \<open>ws-auth.service.ts and the middleware of game.gateway.ts\<close>

definition WS_AUTH_INVALID_TOKEN_CODE :: nat where "WS_AUTH_INVALID_TOKEN_CODE = 4001"
definition WS_AUTH_UNAVAILABLE_CODE :: nat where "WS_AUTH_UNAVAILABLE_CODE = 4002"
definition WS_AUTH_TOKEN_REVOKED_CODE :: nat where "WS_AUTH_TOKEN_REVOKED_CODE = 4003"

datatype WsAuthError = WsAuthError string nat

record WsAuthResult =
  wa_userId :: string
  wa_displayName :: string
  wa_jti :: string

definition verdict :: "auth_failure + VerifyTokenResponse \<Rightarrow> WsAuthError + WsAuthResult" where
  "verdict r =
     (case r of
        Inl AuthUnavailableError \<Rightarrow> Inl (WsAuthError ''AUTH_UNAVAILABLE'' WS_AUTH_UNAVAILABLE_CODE)
      | Inr result \<Rightarrow>
          if vt_valid result then
            (if \<not> truthy (vt_userId result) \<or> \<not> truthy (vt_displayName result) \<or> \<not> truthy (vt_jti result)
             then Inl (WsAuthError ''INVALID_TOKEN'' WS_AUTH_INVALID_TOKEN_CODE)
             else Inr \<lparr>wa_userId = the (vt_userId result), wa_displayName = the (vt_displayName result),
                       wa_jti = the (vt_jti result)\<rparr>)
          else if vt_reason result = Some R_REVOKED then Inl (WsAuthError ''TOKEN_REVOKED'' WS_AUTH_TOKEN_REVOKED_CODE)
          else if vt_reason result = Some R_UNAVAILABLE then Inl (WsAuthError ''AUTH_UNAVAILABLE'' WS_AUTH_UNAVAILABLE_CODE)
          else Inl (WsAuthError ''INVALID_TOKEN'' WS_AUTH_INVALID_TOKEN_CODE))"

definition ws_verifyToken ::
  "time \<Rightarrow> AuthGrpcResponse option \<Rightarrow> time \<Rightarrow> string option \<Rightarrow> auth_client \<Rightarrow>
   (WsAuthError + WsAuthResult) \<times> auth_client" where
  "ws_verifyToken asked answer answered token c =
     (case token of
        None \<Rightarrow> (Inl (WsAuthError ''INVALID_TOKEN'' WS_AUTH_INVALID_TOKEN_CODE), c)
      | Some t \<Rightarrow>
          if t = [] \<or> trim t = [] then (Inl (WsAuthError ''INVALID_TOKEN'' WS_AUTH_INVALID_TOKEN_CODE), c)
          else case client_verifyToken asked answer answered t c of (r, c') \<Rightarrow> (verdict r, c'))"

text \<open>The token of the handshake query: absent, one value or several.\<close>

datatype query_token = NoToken | OneToken string | ManyTokens "string list"

definition extractToken :: "query_token \<Rightarrow> string option" where
  "extractToken q =
     (case q of
        NoToken \<Rightarrow> None
      | OneToken t \<Rightarrow> Some t
      | ManyTokens ts \<Rightarrow> (case ts of [] \<Rightarrow> None | t # _ \<Rightarrow> if t = [] then None else Some t))"

text \<open>\<open>next()\<close> with the identity of the socket, or \<open>next(err)\<close> with a message and a code.\<close>

definition authenticate ::
  "time \<Rightarrow> AuthGrpcResponse option \<Rightarrow> time \<Rightarrow> query_token \<Rightarrow> auth_client \<Rightarrow>
   (string \<times> nat + WsAuthResult) \<times> auth_client" where
  "authenticate asked answer answered q c =
     (case ws_verifyToken asked answer answered (extractToken q) c of
        (Inl (WsAuthError m code), c') \<Rightarrow> (Inl (m, code), c')
      | (Inr auth, c') \<Rightarrow> (Inr auth, c'))"

subsection \<open>How old an answer can be\<close>

text \<open>A handshake: when it asked, what the auth service answered when, and the token.\<close>

record handshake =
  hs_asked :: time
  hs_answer :: "AuthGrpcResponse option"
  hs_answered :: time
  hs_token :: query_token

definition handshake_step :: "auth_client \<Rightarrow> handshake \<Rightarrow> auth_client" where
  "handshake_step c h = snd (authenticate (hs_asked h) (hs_answer h) (hs_answered h) (hs_token h) c)"

definition fresh_client :: auth_client where
  "fresh_client = \<lparr>ac_entries = Map.empty, ac_calls = []\<rparr>"

text \<open>\<open>vouches h t r\<close>: in the handshake \<open>h\<close> the auth service said that \<open>t\<close> is valid, with the data \<open>r\<close>.\<close>

definition vouches :: "handshake \<Rightarrow> string \<Rightarrow> VerifyTokenResponse \<Rightarrow> bool" where
  "vouches h t r \<longleftrightarrow> extractToken (hs_token h) = Some t \<and> vt_valid r \<and>
     (\<exists>a. hs_answer h = Some a \<and> mapVerifyTokenResponse a = r)"

text \<open>Every entry of the cache was vouched for at most 30 seconds before it expires.\<close>

definition cache_inv :: "handshake list \<Rightarrow> auth_client \<Rightarrow> bool" where
  "cache_inv hs c \<longleftrightarrow> (\<forall>t e. ac_entries c t = Some e \<longrightarrow>
     (\<exists>h \<in> set hs. vouches h t (ce_result e) \<and> ce_expiresAt e = hs_answered h + cache_ttlMs))"

lemma cache_inv_mono: "cache_inv hs c \<Longrightarrow> cache_inv (hs @ hs') c"
  unfolding cache_inv_def by fastforce

lemma cache_inv_drop: "cache_inv hs c \<Longrightarrow> cache_inv hs (c\<lparr>ac_entries := (ac_entries c)(t := None), ac_calls := x\<rparr>)"
  by (auto simp: cache_inv_def)

lemma cache_get_cases:
  "cache_get now t es = (r, es') \<Longrightarrow> (es' = es \<or> es' = es(t := None)) \<and>
   (\<forall>x. r = Some x \<longrightarrow> (\<exists>e. es t = Some e \<and> ce_result e = x \<and> now < ce_expiresAt e))"
  by (auto simp: cache_get_def split: option.splits if_splits)

lemma handshake_step_inv:
  assumes "cache_inv hs c"
  shows "cache_inv (hs @ [h]) (handshake_step c h)"
proof (cases "extractToken (hs_token h)")
  case None
  then show ?thesis
    using assms by (simp add: handshake_step_def authenticate_def ws_verifyToken_def cache_inv_mono)
next
  case (Some t)
  obtain r es where g: "cache_get (hs_asked h) t (ac_entries c) = (r, es)" by fastforce
  then have es: "\<And>x. cache_inv hs (c\<lparr>ac_entries := es, ac_calls := x\<rparr>)"
    using assms cache_get_cases [OF g] by (auto simp: cache_inv_def split: if_splits)
  from Some g assms es show ?thesis
    by (auto simp: handshake_step_def authenticate_def ws_verifyToken_def client_verifyToken_def Let_def
        cache_set_def cache_invalidate_def vouches_def cache_inv_def
        split: option.splits sum.splits WsAuthError.splits)
qed

lemma run_inv: "cache_inv hs (foldl handshake_step fresh_client hs)"
proof (induction hs rule: rev_induct)
  case (snoc h hs)
  then show ?case by (simp add: handshake_step_inv)
qed (simp add: cache_inv_def fresh_client_def)

text \<open>
  C21. A socket is only let in on the word of the auth service, and that word is less than 30
  seconds old. After any handshakes, with any answers: when a handshake is accepted, the identity it
  gets is what the auth service said of the same token, either in answer to this handshake or in
  an earlier one, whose answer came less than 30 seconds before this handshake asked. So a token
  that is revoked stops being accepted at most 30 seconds later. A missing or blank token is never
  accepted, and neither is one the auth service failed to answer for.
\<close>

theorem accepted_on_fresh_word:
  assumes "fst (authenticate asked answer answered q (foldl handshake_step fresh_client hs)) = Inr auth"
  shows "\<exists>t r h. extractToken q = Some t \<and> trim t \<noteq> [] \<and>
    vt_userId r = Some (wa_userId auth) \<and> vt_displayName r = Some (wa_displayName auth) \<and>
    vt_jti r = Some (wa_jti auth) \<and> vouches h t r \<and>
    (h = \<lparr>hs_asked = asked, hs_answer = answer, hs_answered = answered, hs_token = q\<rparr> \<or>
     h \<in> set hs \<and> asked < hs_answered h + 30000)"
proof -
  let ?c = "foldl handshake_step fresh_client hs"
  obtain t where t: "extractToken q = Some t" "trim t \<noteq> []"
    using assms by (auto simp: authenticate_def ws_verifyToken_def split: option.splits if_splits prod.splits)
  with assms obtain r where r: "fst (client_verifyToken asked answer answered t ?c) = Inr r" "verdict (Inr r) = Inr auth"
    by (auto simp: authenticate_def ws_verifyToken_def verdict_def
        split: option.splits if_splits prod.splits sum.splits WsAuthError.splits auth_failure.splits)
  from r(2) have id: "vt_valid r" "vt_userId r = Some (wa_userId auth)"
    "vt_displayName r = Some (wa_displayName auth)" "vt_jti r = Some (wa_jti auth)"
    by (auto simp: verdict_def truthy_iff split: if_splits)
  obtain x es where g: "cache_get asked t (ac_entries ?c) = (x, es)" by fastforce
  have "\<exists>h. vouches h t r \<and> (h = \<lparr>hs_asked = asked, hs_answer = answer, hs_answered = answered, hs_token = q\<rparr> \<or>
     h \<in> set hs \<and> asked < hs_answered h + 30000)"
  proof (cases x)
    case None
    with r(1) g have "\<exists>a. answer = Some a \<and> mapVerifyTokenResponse a = r"
      by (auto simp: client_verifyToken_def Let_def split: option.splits)
    with t(1) id(1) show ?thesis
      by (intro exI [of _ "\<lparr>hs_asked = asked, hs_answer = answer, hs_answered = answered, hs_token = q\<rparr>"])
        (simp add: vouches_def)
  next
    case (Some y)
    with r(1) g have "y = r" by (simp add: client_verifyToken_def)
    with cache_get_cases [OF g] Some obtain e where e: "ac_entries ?c t = Some e" "ce_result e = r" "asked < ce_expiresAt e"
      by auto
    with run_inv [of hs] obtain h where "h \<in> set hs" "vouches h t r" "ce_expiresAt e = hs_answered h + cache_ttlMs"
      by (auto simp: cache_inv_def)
    with e show ?thesis by (auto simp: cache_ttlMs_def)
  qed
  with t id show ?thesis by blast
qed

definition demo_answer :: AuthGrpcResponse where
  "demo_answer = \<lparr>ag_valid = True, ag_userId = Some ''a'', ag_role = Some ''player'',
     ag_displayName = Some ''Ann'', ag_reason = None, ag_jti = Some ''j''\<rparr>"

definition demo_handshake :: handshake where
  "demo_handshake = \<lparr>hs_asked = 0, hs_answer = Some demo_answer, hs_answered = 5, hs_token = OneToken ''t''\<rparr>"

lemma accepted_on_fresh_word_witness:
  "\<exists>r h. vouches h ''t'' r \<and> (h = \<lparr>hs_asked = 30004, hs_answer = None, hs_answered = 30004, hs_token = OneToken ''t''\<rparr> \<or>
     h \<in> set [demo_handshake] \<and> 30004 < hs_answered h + 30000)"
proof -
  have "fst (authenticate 30004 None 30004 (OneToken ''t'') (foldl handshake_step fresh_client [demo_handshake])) =
      Inr \<lparr>wa_userId = ''a'', wa_displayName = ''Ann'', wa_jti = ''j''\<rparr>"
    by (simp add: demo_handshake_def demo_answer_def handshake_step_def authenticate_def ws_verifyToken_def
        client_verifyToken_def cache_get_def cache_set_def cache_ttlMs_def mapVerifyTokenResponse_def fresh_client_def
        extractToken_def trim_def is_space_def verdict_def Let_def)
  from accepted_on_fresh_word [OF this] show ?thesis by (auto simp: extractToken_def)
qed

end
