(* ===== verification/Game_Gateway.thy ===== *)
theory Game_Gateway
  imports Matchmaking_Inv Game_Auth
begin

section \<open>apps/game-service: sockets, reconnection and the relay of events\<close>

text \<open>
  \<open>match/match-reconnect.service.ts\<close>, \<open>match/match-events-relay.service.ts\<close>,
  \<open>matchmaking/matchmaking-events.service.ts\<close>, \<open>matchmaking/matchmaking.gateway.ts\<close> and
  \<open>game.gateway.ts\<close>: what happens when a socket connects, disconnects or sends a message, and which
  sockets an event of a match reaches. \<open>client.emit\<close> and \<open>server.to(id).emit\<close> are both the emission
  to one socket. A message the subscriber receives is \<open>None\<close> when it is not JSON.
\<close>

subsection \<open>match-reconnect.service.ts\<close>

definition toResumedCurrentState :: "MatchState \<Rightarrow> MatchStatus option" where
  "toResumedCurrentState st =
     (if status st = WAITING_PLAYS \<or> status st = RESOLVING then Some WAITING_PLAYS else None)"

definition buildMatchResumedPayload :: "MatchState \<Rightarrow> resumed_payload option" where
  "buildMatchResumedPayload st =
     (case toResumedCurrentState st of
        None \<Rightarrow> None
      | Some c \<Rightarrow> Some \<lparr>rp_matchId = matchId st, rp_currentRound = currentRound st,
          rp_scores = (scoreA st, scoreB st), rp_currentState = c, rp_deadline = roundDeadline st\<rparr>)"

text \<open>The text of a stored value; no key of the service holds the JSON of a match as a match id.\<close>

fun stored_text :: "'j stored option \<Rightarrow> string option" where
  "stored_text (Some (Txt t)) = (if t = [] then None else Some t)"
| "stored_text _ = None"

definition reconnect_handleDisconnect :: "'s env \<Rightarrow> string \<Rightarrow> string \<Rightarrow> ('s, exn, unit) eff" where
  "reconnect_handleDisconnect env userId socketId =
     bindS (isInMatch env userId) (\<lambda>inMatch.
       if inMatch then
         bindS (getMatchIdForUser env userId) (\<lambda>matchId.
           case stored_text matchId of
             None \<Rightarrow> ret ()
           | Some mid \<Rightarrow> bindS (removeUserSocket env userId socketId) (\<lambda>removedActiveSocket.
               if removedActiveSocket
               then thenS (scheduleForfeit env userId mid MATCH_DISCONNECT_FORFEIT_WINDOW_MS) (ret ())
               else ret ()))
       else thenS (leaveQueue env userId) (thenS (removeUserSocket env userId socketId) (ret ())))"

definition handleReconnect :: "'s env \<Rightarrow> string \<Rightarrow> ('s, exn, resumed_payload option) eff" where
  "handleReconnect env userId =
     bindS (getMatchIdForUser env userId) (\<lambda>matchId.
       case stored_text matchId of
         None \<Rightarrow> ret None
       | Some mid \<Rightarrow> bindS (loadState env mid) (\<lambda>state.
           case state of
             None \<Rightarrow> ret None
           | Some st \<Rightarrow>
               if status st = ENDED then ret None
               else case buildMatchResumedPayload st of
                 None \<Rightarrow> ret None
               | Some resumed \<Rightarrow> thenS (cancelForfeit env userId)
                   (thenS (e_metric env (ReconnectTotal ''resumed'')) (ret (Some resumed)))))"

subsection \<open>match-events-relay.service.ts\<close>

fun event_match :: "bus_event \<Rightarrow> string" where
  "event_match (matchFound mid _ _) = mid"
| "event_match (roundStart mid _ _) = mid"
| "event_match (roundResolved mid _ _ _ _ _ _) = mid"
| "event_match (matchEnded mid _ _ _ _) = mid"

text \<open>The lookup of a socket and the emission to it, which the relay does at two places.\<close>

definition emit_to_user :: "'s env \<Rightarrow> string \<Rightarrow> bus_event \<Rightarrow> ('s, exn, unit) eff" where
  "emit_to_user env userId event =
     bindS (getUserSocket env userId) (\<lambda>socketId.
       case stored_text socketId of None \<Rightarrow> ret () | Some sid \<Rightarrow> e_emit env sid (EmitBus event))"

definition emitToRecipients :: "'s env \<Rightarrow> bool \<Rightarrow> bus_msg \<Rightarrow> ('s, exn, unit) eff" where
  "emitToRecipients env hasServer event =
     (if \<not> hasServer then ret ()
      else if truthy (bm_recipient event) then emit_to_user env (the (bm_recipient event)) (bm_event event)
      else if event_match (bm_event event) = [] then ret ()
      else bindS (get env (''match:'' @ event_match (bm_event event) @ '':state'')) (\<lambda>stateRaw.
        case stateRaw of
          Some (Json st) \<Rightarrow>
            thenS (allS (map (\<lambda>player. emit_to_user env (mp_userId player) (bm_event event))
              [fst (players st), snd (players st)])) (ret ())
        | _ \<Rightarrow> ret ()))"

definition handleMatchMessage :: "'s env \<Rightarrow> bool \<Rightarrow> bus_msg option \<Rightarrow> ('s, exn, unit) eff" where
  "handleMatchMessage env hasServer message =
     (if \<not> hasServer then ret ()
      else case message of None \<Rightarrow> ret () | Some event \<Rightarrow> emitToRecipients env hasServer event)"

subsection \<open>matchmaking-events.service.ts\<close>

record MatchFoundEvent =
  mf_userId :: string
  mf_payload :: bus_event
  mf_queuedAt :: time

definition emitMatchFound :: "'s env \<Rightarrow> bool \<Rightarrow> MatchFoundEvent \<Rightarrow> ('s, exn, unit) eff" where
  "emitMatchFound env hasServer event =
     (if \<not> hasServer then ret ()
      else bindS (getUserSocket env (mf_userId event)) (\<lambda>socketId.
        case stored_text socketId of None \<Rightarrow> ret () | Some sid \<Rightarrow> e_emit env sid (EmitBus (mf_payload event))))"

definition handleMatchFoundMessage :: "'s env \<Rightarrow> bool \<Rightarrow> MatchFoundEvent option \<Rightarrow> ('s, exn, unit) eff" where
  "handleMatchFoundMessage env hasServer message =
     (if \<not> hasServer then ret ()
      else case message of None \<Rightarrow> ret () | Some event \<Rightarrow> emitMatchFound env hasServer event)"

subsection \<open>game.gateway.ts\<close>

definition handleConnection :: "'s env \<Rightarrow> string \<Rightarrow> string \<Rightarrow> string \<Rightarrow> ('s, exn, unit) eff" where
  "handleConnection env userId displayName clientId =
     thenS (setUserSocket env userId clientId)
    (thenS (e_emit env clientId (EmitConnected userId displayName))
    (bindS (handleReconnect env userId) (\<lambda>resumed.
       case resumed of None \<Rightarrow> ret () | Some p \<Rightarrow> e_emit env clientId (EmitResumed p))))"

definition handleDisconnect :: "'s env \<Rightarrow> string option \<Rightarrow> string \<Rightarrow> ('s, exn, unit) eff" where
  "handleDisconnect env userId clientId =
     (if truthy userId then catchS (reconnect_handleDisconnect env (the userId) clientId) (\<lambda>_. ret ())
      else ret ())"

text \<open>Every occurrence of \<open>?token=\<close> or \<open>&token=\<close>, in any case, has its value replaced by stars.\<close>

definition token_prefix :: "string \<Rightarrow> bool" where
  "token_prefix s \<longleftrightarrow> length s = 7 \<and> hd s \<in> {CHR ''?'', CHR ''&''} \<and> toLowerCase (tl s) = ''token=''"

function scrubTokenFromUrl :: "string \<Rightarrow> string" where
  "scrubTokenFromUrl url =
     (if url = [] then []
      else if token_prefix (take 7 url)
      then take 7 url @ ''***'' @ scrubTokenFromUrl (dropWhile (\<lambda>c. c \<noteq> CHR ''&'') (drop 7 url))
      else hd url # scrubTokenFromUrl (tl url))"
  by pat_completeness auto
termination
proof (relation "measure length")
  fix url :: string
  assume "url \<noteq> []" "token_prefix (take 7 url)"
  then have "7 \<le> length url" by (auto simp: token_prefix_def min_def split: if_splits)
  moreover have "length (dropWhile (\<lambda>c. c \<noteq> CHR ''&'') (drop 7 url)) \<le> length url - 7"
    using length_dropWhile_le [of "\<lambda>c. c \<noteq> CHR ''&''" "drop 7 url"] by simp
  ultimately show "(dropWhile (\<lambda>c. c \<noteq> CHR ''&'') (drop 7 url), url) \<in> measure length" by simp
qed (auto simp: neq_Nil_conv)

declare scrubTokenFromUrl.simps [simp del]

subsection \<open>matchmaking.gateway.ts\<close>

definition code_text :: "JoinErrorCode \<Rightarrow> string" where
  "code_text c = (case c of ALREADY_IN_QUEUE \<Rightarrow> ''ALREADY_IN_QUEUE'' | ALREADY_IN_MATCH \<Rightarrow> ''ALREADY_IN_MATCH''
     | RATE_LIMITED \<Rightarrow> ''RATE_LIMITED'')"

definition handleJoinQueue :: "'s env \<Rightarrow> string \<Rightarrow> string \<Rightarrow> string \<Rightarrow> ('s, exn, unit) eff" where
  "handleJoinQueue env userId displayName clientId =
     bindS (joinQueue env userId displayName) (\<lambda>result.
       case result of
         JoinRefused code \<Rightarrow> e_emit env clientId (EmitError (code_text code))
       | JoinOk queuedAt currentRating \<Rightarrow> e_emit env clientId (EmitQueueJoined queuedAt currentRating))"

definition handleLeaveQueue :: "'s env \<Rightarrow> string \<Rightarrow> string \<Rightarrow> ('s, exn, unit) eff" where
  "handleLeaveQueue env userId clientId =
     thenS (leaveQueue env userId) (e_emit env clientId EmitQueueLeft)"

definition play_code_text :: "PlayErrorCode \<Rightarrow> string" where
  "play_code_text c = (case c of INVALID_MOVE \<Rightarrow> ''INVALID_MOVE'' | NOT_IN_MATCH \<Rightarrow> ''NOT_IN_MATCH''
     | WRONG_ROUND \<Rightarrow> ''WRONG_ROUND'' | ALREADY_PLAYED \<Rightarrow> ''ALREADY_PLAYED'')"

definition handlePlay ::
  "'s env \<Rightarrow> string option \<Rightarrow> string \<Rightarrow> string \<Rightarrow> int \<Rightarrow> string \<Rightarrow> (nat \<Rightarrow> string) \<Rightarrow> ('s, exn, unit) eff" where
  "handlePlay env userId clientId mid roundNumber move token =
     (if \<not> truthy userId then ret ()
      else catchS (submitPlay env (the userId) mid roundNumber move token)
        (\<lambda>error. case error of
           PlayEx (PlayValidationError code) \<Rightarrow> e_emit env clientId (EmitError (play_code_text code))
         | _ \<Rightarrow> ret ()))"

subsection \<open>The handlers run as documented\<close>

lemma sim_case_exn:
  "(\<And>c. sim view (f c) (f' c)) \<Longrightarrow> sim view
     (case e of PlayEx (PlayValidationError c) \<Rightarrow> f c | _ \<Rightarrow> ret ())
     (case e of PlayEx (PlayValidationError c) \<Rightarrow> f' c | _ \<Rightarrow> ret ())"
  by (auto intro: sim_ret split: exn.splits play_error.splits)

lemma sim_case_join:
  assumes "\<And>c. sim view (f c) (f' c)" and "\<And>q r. sim view (g q r) (g' q r)"
  shows "sim view (case x of JoinOk q r \<Rightarrow> g q r | JoinRefused c \<Rightarrow> f c)
    (case x of JoinOk q r \<Rightarrow> g' q r | JoinRefused c \<Rightarrow> f' c)"
  using assms by (cases x) simp_all

context game_env
begin

lemma sim_reconnect [sim_rules]:
  "sim view (reconnect_handleDisconnect env u sid) (reconnect_handleDisconnect mem_env u sid)"
  "sim view (handleReconnect env u) (handleReconnect mem_env u)"
  unfolding reconnect_handleDisconnect_def handleReconnect_def by (intro sim_rules)+

lemma sim_emit_to_user [sim_rules]: "sim view (emit_to_user env u ev) (emit_to_user mem_env u ev)"
  unfolding emit_to_user_def by (intro sim_rules)

lemma sim_emitToRecipients [sim_rules]:
  "sim view (emitToRecipients env b m) (emitToRecipients mem_env b m)"
  unfolding emitToRecipients_def by (intro sim_rules)

lemma sim_relay [sim_rules]:
  "sim view (handleMatchMessage env b msg) (handleMatchMessage mem_env b msg)"
  "sim view (emitMatchFound env b ev) (emitMatchFound mem_env b ev)"
  unfolding handleMatchMessage_def emitMatchFound_def by (intro sim_rules)+

lemma sim_gateway [sim_rules]:
  "sim view (handleConnection env u n sid) (handleConnection mem_env u n sid)"
  "sim view (handleDisconnect env uo sid) (handleDisconnect mem_env uo sid)"
  "sim view (handleLeaveQueue env u sid) (handleLeaveQueue mem_env u sid)"
  unfolding handleConnection_def handleDisconnect_def handleLeaveQueue_def by (intro sim_rules)+

lemma sim_handleJoinQueue [sim_rules]:
  "sim view (handleJoinQueue env u n sid) (handleJoinQueue mem_env u n sid)"
  unfolding handleJoinQueue_def by (intro sim_rules sim_case_join)

lemma sim_handlePlay [sim_rules]:
  "sim view (handlePlay env uo sid mid n m t) (handlePlay mem_env uo sid mid n m t)"
  unfolding handlePlay_def by (intro sim_rules sim_case_exn)

end

subsection \<open>A player who comes back in time\<close>

text \<open>The player is in a match that waits for moves.\<close>

definition playing :: "string \<Rightarrow> MatchState \<Rightarrow> world \<Rightarrow> bool" where
  "playing u st w \<longleftrightarrow> outages w = [] \<and> is_uuid (matchId st) \<and> status st \<in> {WAITING_PLAYS, RESOLVING} \<and>
     look (rd w) (matchByUserKey u) = Some (RStr (Txt (matchId st))) \<and>
     look (rd w) (matchStateKey (matchId st)) = Some (RStr (Json st))"

definition forfeit_job :: "string \<Rightarrow> string \<Rightarrow> string \<Rightarrow> job" where
  "forfeit_job u mid i = \<lparr>job_queue = MATCH_DISCONNECT_FORFEIT_QUEUE, job_id = i,
     job_name = MATCH_DISCONNECT_FORFEIT_JOB_NAME, job_data = ForfeitJob u mid, job_delay = 10000,
     job_attempts = 5, job_active = False\<rparr>"

definition resumed_of :: "MatchState \<Rightarrow> resumed_payload" where
  "resumed_of st = \<lparr>rp_matchId = matchId st, rp_currentRound = currentRound st,
     rp_scores = (scoreA st, scoreB st), rp_currentState = WAITING_PLAYS, rp_deadline = roundDeadline st\<rparr>"

lemma forfeitKey_uuid: "is_uuid mid \<Longrightarrow> matchDisconnectForfeitJobKey u \<noteq> matchStateKey mid"
proof
  assume u: "is_uuid mid" and "matchDisconnectForfeitJobKey u = matchStateKey mid"
  then have "mid @ CHR '':'' # ''state'' = ''disconnectForfeit'' @ CHR '':'' # u"
    by (simp add: matchDisconnectForfeitJobKey_def matchStateKey_def)
  then have "mid = ''disconnectForfeit''" by (rule colon_prefix [rotated 2]) (use u in \<open>simp_all add: is_uuid_def\<close>)
  with u show False by (simp add: is_uuid_def)
qed

lemma socket_keys:
  "userSocketKey u \<noteq> matchByUserKey v" "userSocketKey u \<noteq> matchDisconnectForfeitJobKey v"
  "matchDisconnectForfeitJobKey v \<noteq> matchByUserKey u" "userSocketKey u \<noteq> matchStateKey m"
  by (simp_all add: userSocketKey_def matchByUserKey_def MATCH_BY_USER_PREFIX_def matchDisconnectForfeitJobKey_def
      matchStateKey_def)

lemma userSocketKey_inject: "userSocketKey u = userSocketKey v \<longleftrightarrow> u = v"
  by (simp add: userSocketKey_def)

lemmas gateway_keys = socket_keys socket_keys [symmetric] forfeitKey_uuid forfeitKey_uuid [symmetric]

lemma uuid_not_Nil: "is_uuid mid \<Longrightarrow> mid \<noteq> []"
  by (auto simp: is_uuid_def)

lemma playing_look_run:
  assumes "playing u st w"
  shows "isInMatch mem_env u w = (Inr True, w)" "getMatchIdForUser mem_env u w = (Inr (Some (Txt (matchId st))), w)"
    "loadState mem_env (matchId st) w = (Inr (Some st), w)"
  using assms by (simp_all add: playing_def isInMatch_def getMatchIdForUser_def loadState_def eff_simps redis_run
      do_get_def matchByUserKey_def)

lemma removeUserSocket_run:
  assumes "outages w = []" and "look (rd w) (userSocketKey u) = Some (RStr (Txt sid'))"
  shows "removeUserSocket mem_env u sid w =
    (if sid' = sid then (Inr True, w\<lparr>rd := unset (userSocketKey u) (rd w)\<rparr>) else (Inr False, w))"
  using assms by (simp add: removeUserSocket_def call_by_call e_redis_mem REMOVE_USER_SOCKET_IF_MATCH_SCRIPT_def)

lemma setUserSocket_run:
  "outages w = [] \<Longrightarrow> setUserSocket mem_env u sid w =
    (Inr (), w\<lparr>rd := put (userSocketKey u) (RStr (Txt sid)) (expiry (rd w) USER_SOCKET_TTL_SECONDS) (rd w)\<rparr>)"
  by (simp add: setUserSocket_def call_by_call e_redis_mem)

lemma scheduleForfeit_run:
  assumes "outages w = []" and "look (rd w) (matchDisconnectForfeitJobKey u) = None"
  shows "scheduleForfeit mem_env u mid MATCH_DISCONNECT_FORFEIT_WINDOW_MS w = (let i = show_nat (next_job w) in
    (Inr (Some i), w\<lparr>next_job := Suc (next_job w), jobs := jobs w @ [forfeit_job u mid i],
       rd := put (matchDisconnectForfeitJobKey u) (RStr (Txt i))
         (expiry (rd w) MATCH_DISCONNECT_FORFEIT_JOB_TTL_SECONDS) (rd w)\<rparr>))"
  using assms
  by (simp add: scheduleForfeit_def cancelForfeit_def cancel_job_def eff_simps redis_run do_get_def e_queue_mem
      mem_queue_def remote_def do_add_def Let_def forfeit_job_def MATCH_DISCONNECT_FORFEIT_WINDOW_MS_def
      MATCH_DISCONNECT_FORFEIT_JOB_ATTEMPTS_def)

lemma cancelForfeit_run:
  assumes "outages w = []" and "look (rd w) (matchDisconnectForfeitJobKey u) = Some (RStr (Txt i))" and "i \<noteq> []"
    and "\<And>j. j \<in> set (jobs w) \<Longrightarrow> is_job MATCH_DISCONNECT_FORFEIT_QUEUE i j \<Longrightarrow> \<not> job_active j"
  shows "cancelForfeit mem_env u w = (Inr (), w\<lparr>jobs := filter (\<lambda>j. \<not> is_job MATCH_DISCONNECT_FORFEIT_QUEUE i j) (jobs w),
    rd := unset (matchDisconnectForfeitJobKey u) (rd w)\<rparr>)"
proof (cases "\<exists>j \<in> set (jobs w). is_job MATCH_DISCONNECT_FORFEIT_QUEUE i j")
  case True
  have "\<not> (\<exists>j \<in> set (jobs w). is_job MATCH_DISCONNECT_FORFEIT_QUEUE i j \<and> job_active j)"
    using assms(4) by blast
  with True assms(1-3) show ?thesis
    by (auto simp: cancelForfeit_def cancel_job_def eff_simps redis_run do_get_def e_queue_mem
        mem_queue_def remote_def do_getJob_def do_remove_def)
next
  case False
  then have "filter (\<lambda>j. \<not> is_job MATCH_DISCONNECT_FORFEIT_QUEUE i j) (jobs w) = jobs w"
    by (simp add: filter_id_conv)
  with False assms(1-3) show ?thesis
    by (simp add: cancelForfeit_def cancel_job_def eff_simps redis_run do_get_def e_queue_mem
        mem_queue_def remote_def do_getJob_def)
qed

lemma disconnect_active_run:
  assumes "playing u st w" and "u \<noteq> []" and "look (rd w) (userSocketKey u) = Some (RStr (Txt sid))"
    and "look (rd w) (matchDisconnectForfeitJobKey u) = None"
  shows "handleDisconnect mem_env (Some u) sid w = (let i = show_nat (next_job w) in
    (Inr (), w\<lparr>next_job := Suc (next_job w), jobs := jobs w @ [forfeit_job u (matchId st) i],
       rd := put (matchDisconnectForfeitJobKey u) (RStr (Txt i))
         (expiry (rd w) MATCH_DISCONNECT_FORFEIT_JOB_TTL_SECONDS) (unset (userSocketKey u) (rd w))\<rparr>))"
proof -
  have o: "outages w = []" and "matchId st \<noteq> []" using assms(1) by (auto simp: playing_def uuid_not_Nil)
  with assms show ?thesis
    by (simp add: handleDisconnect_def reconnect_handleDisconnect_def eff_simps playing_look_run [OF assms(1)]
        removeUserSocket_run scheduleForfeit_run Let_def gateway_keys)
qed

lemma disconnect_stale_run:
  assumes "playing u st w" and "u \<noteq> []" and "look (rd w) (userSocketKey u) = Some (RStr (Txt sid'))" and "sid' \<noteq> sid"
  shows "handleDisconnect mem_env (Some u) sid w = (Inr (), w)"
proof -
  have o: "outages w = []" and "matchId st \<noteq> []" using assms(1) by (auto simp: playing_def uuid_not_Nil)
  with assms show ?thesis
    by (simp add: handleDisconnect_def reconnect_handleDisconnect_def eff_simps playing_look_run [OF assms(1)]
        removeUserSocket_run)
qed

lemma connection_run:
  assumes "playing u st w" and "look (rd w) (matchDisconnectForfeitJobKey u) = Some (RStr (Txt i))" and "i \<noteq> []"
    and "\<And>j. j \<in> set (jobs w) \<Longrightarrow> is_job MATCH_DISCONNECT_FORFEIT_QUEUE i j \<Longrightarrow> \<not> job_active j"
  shows "handleConnection mem_env u n sid w = (Inr (), w\<lparr>
    rd := unset (matchDisconnectForfeitJobKey u)
      (put (userSocketKey u) (RStr (Txt sid)) (expiry (rd w) USER_SOCKET_TTL_SECONDS) (rd w)),
    jobs := filter (\<lambda>j. \<not> is_job MATCH_DISCONNECT_FORFEIT_QUEUE i j) (jobs w),
    metrics := metrics w @ [ReconnectTotal ''resumed''],
    emitted := emitted w @ [(sid, EmitConnected u n), (sid, EmitResumed (resumed_of st))]\<rparr>)"
proof -
  define w1 where "w1 = w\<lparr>rd := put (userSocketKey u) (RStr (Txt sid)) (expiry (rd w) USER_SOCKET_TTL_SECONDS) (rd w),
    emitted := emitted w @ [(sid, EmitConnected u n)]\<rparr>"
  have p: "playing u st w1" using assms(1) by (simp add: playing_def w1_def gateway_keys)
  have "outages w = []" "matchId st \<noteq> []" "status st = WAITING_PLAYS \<or> status st = RESOLVING"
    using assms(1) by (auto simp: playing_def uuid_not_Nil)
  moreover have "cancelForfeit mem_env u w1 = (Inr (), w1\<lparr>jobs := filter (\<lambda>j. \<not> is_job MATCH_DISCONNECT_FORFEIT_QUEUE i j) (jobs w1),
    rd := unset (matchDisconnectForfeitJobKey u) (rd w1)\<rparr>)"
    using assms p by (intro cancelForfeit_run) (auto simp: w1_def playing_def gateway_keys)
  ultimately show ?thesis
    using playing_look_run [OF p]
    by (auto simp: handleConnection_def handleReconnect_def eff_simps setUserSocket_run w1_def
        buildMatchResumedPayload_def toResumedCurrentState_def resumed_of_def)
qed

text \<open>
  C22. A player who loses his connection and comes back. When the socket he is known under
  disconnects during a match, the socket is forgotten and one forfeit job is queued, 10 seconds
  ahead, with five attempts. When he connects again before it runs, the job is gone, the
  new socket is the one he is known under, and it is told the state of the match. When the old
  socket is reported as disconnected once more (or only now), nothing at all changes: the late
  report does not forfeit the match of a player who is back.
\<close>

theorem disconnect_reconnect_cycle:
  assumes "env_ok env view" and "playing u st (view s)" and "u \<noteq> []" and "old \<noteq> new"
    and "look (rd (view s)) (userSocketKey u) = Some (RStr (Txt old))"
    and "look (rd (view s)) (matchDisconnectForfeitJobKey u) = None"
    and "\<And>j. j \<in> set (jobs (view s)) \<Longrightarrow> \<not> is_job MATCH_DISCONNECT_FORFEIT_QUEUE (show_nat (next_job (view s))) j"
  shows "let w = view s;
      s1 = snd (handleDisconnect env (Some u) old s); s2 = snd (handleConnection env u n new s1);
      s3 = snd (handleDisconnect env (Some u) old s2) in
    jobs (view s1) = jobs w @ [forfeit_job u (matchId st) (show_nat (next_job w))] \<and>
    look (rd (view s1)) (userSocketKey u) = None \<and>
    jobs (view s2) = jobs w \<and> look (rd (view s2)) (userSocketKey u) = Some (RStr (Txt new)) \<and>
    emitted (view s2) = emitted w @ [(new, EmitConnected u n), (new, EmitResumed (resumed_of st))] \<and>
    view s3 = view s2"
proof -
  let ?w = "view s" and ?q = MATCH_DISCONNECT_FORFEIT_QUEUE
  note sim = game_env.sim_gateway [OF game_env.intro [OF assms(1)]]
  define i where "i = show_nat (next_job ?w)"
  define w1 where "w1 = ?w\<lparr>next_job := Suc (next_job ?w), jobs := jobs ?w @ [forfeit_job u (matchId st) i],
    rd := put (matchDisconnectForfeitJobKey u) (RStr (Txt i))
      (expiry (rd ?w) MATCH_DISCONNECT_FORFEIT_JOB_TTL_SECONDS) (unset (userSocketKey u) (rd ?w))\<rparr>"
  have r1: "handleDisconnect mem_env (Some u) old ?w = (Inr (), w1)"
    using disconnect_active_run [OF assms(2,3,5,6)] by (simp add: w1_def i_def Let_def)
  have w1: "playing u st w1" "look (rd w1) (matchDisconnectForfeitJobKey u) = Some (RStr (Txt i))"
    "look (rd w1) (userSocketKey u) = None" "emitted w1 = emitted ?w"
    using assms(2) by (simp_all add: w1_def playing_def gateway_keys MATCH_DISCONNECT_FORFEIT_JOB_TTL_SECONDS_def)
  have idle: "\<not> job_active j" if "j \<in> set (jobs w1)" "is_job ?q i j" for j
    using that assms(7) by (auto simp: w1_def i_def forfeit_job_def)
  have gone: "filter (\<lambda>j. \<not> is_job ?q i j) (jobs w1) = jobs ?w"
    using assms(7) by (simp add: w1_def i_def forfeit_job_def is_job_def filter_id_conv)
  define w2 where "w2 = w1\<lparr>rd := unset (matchDisconnectForfeitJobKey u)
      (put (userSocketKey u) (RStr (Txt new)) (expiry (rd w1) USER_SOCKET_TTL_SECONDS) (rd w1)),
    jobs := jobs ?w, metrics := metrics w1 @ [ReconnectTotal ''resumed''],
    emitted := emitted w1 @ [(new, EmitConnected u n), (new, EmitResumed (resumed_of st))]\<rparr>"
  have r2: "handleConnection mem_env u n new w1 = (Inr (), w2)"
    using connection_run [OF w1(1,2) _ idle, of n new] by (simp add: w2_def gone) (simp add: i_def)
  have w2: "playing u st w2" "look (rd w2) (userSocketKey u) = Some (RStr (Txt new))"
    using w1(1) by (simp_all add: w2_def playing_def gateway_keys USER_SOCKET_TTL_SECONDS_def)
  have r3: "handleDisconnect mem_env (Some u) old w2 = (Inr (), w2)"
    using disconnect_stale_run [OF w2(1) assms(3) w2(2)] assms(4) by metis
  define s1 where "s1 = snd (handleDisconnect env (Some u) old s)"
  define s2 where "s2 = snd (handleConnection env u n new s1)"
  have v1: "view s1 = w1" using sim_state [OF sim(2), of "Some u" old s] by (simp add: s1_def r1)
  have v2: "view s2 = w2" using sim_state [OF sim(1), of u n new s1] by (simp add: s2_def v1 r2)
  have v3: "view (snd (handleDisconnect env (Some u) old s2)) = w2"
    using sim_state [OF sim(2), of "Some u" old s2] by (simp add: v2 r3)
  show ?thesis
    unfolding Let_def s1_def [symmetric] s2_def [symmetric] v1 v2 v3
    using w1(3,4) w2(2) by (simp add: w2_def) (simp add: w1_def i_def)
qed

text \<open>Ann is in the demonstration match, under the socket \<open>s1\<close>.\<close>

definition ann_match :: MatchState where
  "ann_match = buildInitialState (fst demo_players) (snd demo_players) uuid_m 0 None"

definition ann_world :: world where
  "ann_world = (idle_world ann_match)\<lparr>rd := put (userSocketKey ''a'') (RStr (Txt ''s1'')) None
     (put (matchByUserKey ''a'') (RStr (Txt uuid_m)) None (rd (idle_world ann_match)))\<rparr>"

lemma ann_world_look:
  "look (rd ann_world) k = (if k = userSocketKey ''a'' then Some (RStr (Txt ''s1''))
     else if k = matchByUserKey ''a'' then Some (RStr (Txt uuid_m))
     else if k = matchStateKey uuid_m then Some (RStr (Json ann_match)) else None)"
  by (simp add: ann_world_def idle_world_look expired_def ann_match_def buildInitialState_def)

lemma ann_world_fields [simp]:
  "jobs ann_world = []" "next_job ann_world = 0" "outages ann_world = []" "emitted ann_world = []"
  by (simp_all add: ann_world_def) (simp_all add: idle_world_def)

lemma ann_playing: "playing ''a'' ann_match ann_world"
  by (simp add: playing_def ann_world_look gateway_keys match_key_neq match_key_neq [symmetric] ann_match_def buildInitialState_def)

lemma disconnect_reconnect_cycle_witness:
  "let s1 = snd (handleDisconnect mem_env (Some ''a'') ''s1'' ann_world);
       s2 = snd (handleConnection mem_env ''a'' ''A'' ''s2'' s1) in
    jobs s1 = [forfeit_job ''a'' (matchId ann_match) (show_nat 0)] \<and> jobs s2 = [] \<and>
    snd (handleDisconnect mem_env (Some ''a'') ''s1'' s2) = s2"
proof -
  have neq: "matchDisconnectForfeitJobKey ''a'' \<noteq> matchStateKey uuid_m" by (simp add: forfeitKey_uuid)
  have "look (rd ann_world) (userSocketKey ''a'') = Some (RStr (Txt ''s1''))"
    "look (rd ann_world) (matchDisconnectForfeitJobKey ''a'') = None"
    using neq by (simp_all add: ann_world_look gateway_keys)
  from disconnect_reconnect_cycle [OF env_ok_mem, of "''a''" ann_match ann_world "''s1''" "''s2''" "''A''",
      OF ann_playing _ _ this]
  show ?thesis by (simp add: Let_def)
qed

subsection \<open>Who hears of an event\<close>

text \<open>The socket a user is known under.\<close>

definition socket_of :: "game_redis \<Rightarrow> string \<Rightarrow> string option" where
  "socket_of d u = (case look d (userSocketKey u) of Some (RStr t) \<Rightarrow> stored_text (Some t) | _ \<Rightarrow> None)"

text \<open>To whom a message is addressed: its recipient, or else both players of the match it is about.\<close>

definition audience :: "game_redis \<Rightarrow> bus_msg \<Rightarrow> string list" where
  "audience d m =
     (if truthy (bm_recipient m) then [the (bm_recipient m)]
      else case session d (event_match (bm_event m)) of
        None \<Rightarrow> []
      | Some st \<Rightarrow> if event_match (bm_event m) = [] then []
                   else [mp_userId (fst (players st)), mp_userId (snd (players st))])"

definition string_keys :: "game_redis \<Rightarrow> string set \<Rightarrow> bool" where
  "string_keys d ks \<longleftrightarrow> (\<forall>k \<in> ks. look d k = None \<or> (\<exists>t. look d k = Some (RStr t)))"

lemma relay_key: "''match:'' @ mid @ '':state'' = matchStateKey mid"
  by (simp add: matchStateKey_def)

lemma emit_to_user_run:
  assumes "outages w = []" and "string_keys (rd w) {userSocketKey u}"
  shows "emit_to_user mem_env u ev w = (Inr (), w\<lparr>emitted := emitted w @
    map (\<lambda>sid. (sid, EmitBus ev)) (List.map_filter (socket_of (rd w)) [u])\<rparr>)"
  using assms by (auto simp: emit_to_user_def call_by_call e_redis_mem string_keys_def socket_of_def map_filter_def
      split: option.split)

lemma handleMatchMessage_run:
  assumes "env_ok env view" and "outages (view s) = []"
    and "string_keys (rd (view s)) (range userSocketKey \<union> range matchStateKey)"
  shows "fst (handleMatchMessage env up msg s) = Inr () \<and>
    view (snd (handleMatchMessage env up msg s)) = (view s)\<lparr>emitted := emitted (view s) @
      (case msg of None \<Rightarrow> []
       | Some m \<Rightarrow> if up then map (\<lambda>sid. (sid, EmitBus (bm_event m)))
           (List.map_filter (socket_of (rd (view s))) (audience (rd (view s)) m)) else [])\<rparr>"
proof -
  let ?w = "view s"
  have user: "emit_to_user mem_env u ev w = (Inr (), w\<lparr>emitted := emitted w @
      map (\<lambda>sid. (sid, EmitBus ev)) (List.map_filter (socket_of (rd w)) [u])\<rparr>)"
    if "outages w = []" "rd w = rd ?w" for u ev w
    using assms(3) that by (intro emit_to_user_run) (auto simp: string_keys_def)
  have state: "get mem_env (matchStateKey mid) ?w = (Inr (case look (rd ?w) (matchStateKey mid) of
      Some (RStr t) \<Rightarrow> Some t | _ \<Rightarrow> None), ?w)" for mid
  proof -
    have "matchStateKey mid \<in> range userSocketKey \<union> range matchStateKey" by simp
    then have "look (rd ?w) (matchStateKey mid) = None \<or> (\<exists>t. look (rd ?w) (matchStateKey mid) = Some (RStr t))"
      using assms(3) unfolding string_keys_def by blast
    then show ?thesis using assms(2) by (auto simp: redis_run(1) do_get_def)
  qed
  have both: "allS (map (\<lambda>p. emit_to_user mem_env (mp_userId p) ev) [p, q]) ?w = (Inr [(), ()], ?w\<lparr>emitted := emitted ?w @
      map (\<lambda>sid. (sid, EmitBus ev)) (List.map_filter (socket_of (rd ?w)) [mp_userId p, mp_userId q])\<rparr>)" for p q ev
    using assms(2) by (simp add: eff_simps user map_filter_def)
  have one: "emitToRecipients mem_env True m ?w = (Inr (), ?w\<lparr>emitted := emitted ?w @
      map (\<lambda>sid. (sid, EmitBus (bm_event m))) (List.map_filter (socket_of (rd ?w)) (audience (rd ?w) m))\<rparr>)" for m
  proof (cases "truthy (bm_recipient m) \<or> event_match (bm_event m) = []")
    case True
    with assms(2) show ?thesis
      by (auto simp: emitToRecipients_def audience_def user eff_simps map_filter_def split: option.split)
  next
    case False
    let ?v = "look (rd ?w) (matchStateKey (event_match (bm_event m)))"
    show ?thesis
    proof (cases "\<exists>st. ?v = Some (RStr (Json st))")
      case True
      then obtain st where st: "?v = Some (RStr (Json st))" ..
      with False show ?thesis
        unfolding emitToRecipients_def relay_key
        by (simp add: audience_def session_def bindS_apply thenS_apply state both ret_apply
            del: allS.simps list.map map_filter_simps)
    next
      case no: False
      then have "session (rd ?w) (event_match (bm_event m)) = None"
        "(case ?v of Some (RStr t) \<Rightarrow> Some t | _ \<Rightarrow> None) = None \<or> (\<exists>x. (case ?v of Some (RStr t) \<Rightarrow> Some t | _ \<Rightarrow> None) = Some (Txt x))"
        by (auto simp: session_def split: option.split rvalue.split stored.split) (metis stored.exhaust)
      with False show ?thesis
        unfolding emitToRecipients_def relay_key
        by (auto simp: audience_def bindS_apply state ret_apply map_filter_def)
    qed
  qed
  have "handleMatchMessage mem_env up msg ?w = (Inr (), ?w\<lparr>emitted := emitted ?w @
      (case msg of None \<Rightarrow> []
       | Some m \<Rightarrow> if up then map (\<lambda>sid. (sid, EmitBus (bm_event m)))
           (List.map_filter (socket_of (rd ?w)) (audience (rd ?w) m)) else [])\<rparr>)"
    by (simp add: handleMatchMessage_def ret_apply one split: option.split)
  with sim_run [OF game_env.sim_relay(1) [OF game_env.intro [OF assms(1)]]] show ?thesis by blast
qed

text \<open>
  C23. The relay of events. A message on the channel of a match, that one or all instances of
  the service receive, is emitted by an instance to the sockets of exactly its recipient, or of
  both players of the stored match when it names none, each once and in the order of the players;
  who has no socket is skipped. Nothing else changes. A message that is not JSON, an event of an
  unknown match, and a message that arrives before the server is up are dropped without an error.
\<close>

theorem relay_reaches_audience:
  assumes "env_ok env view" and "outages (view s) = []"
    and "string_keys (rd (view s)) (range userSocketKey \<union> range matchStateKey)"
  shows "fst (handleMatchMessage env up msg s) = Inr () \<and>
    view (snd (handleMatchMessage env up msg s)) = (view s)\<lparr>emitted := emitted (view s) @
      (case msg of None \<Rightarrow> []
       | Some m \<Rightarrow> if up then map (\<lambda>sid. (sid, EmitBus (bm_event m)))
           (List.map_filter (socket_of (rd (view s))) (audience (rd (view s)) m)) else [])\<rparr>"
  using handleMatchMessage_run [OF assms] .

lemma relay_reaches_audience_witness:
  "emitted (snd (handleMatchMessage mem_env True
     (Some \<lparr>bm_event = roundStart uuid_m 1 0, bm_recipient = None\<rparr>) ann_world)) = [(''s1'', EmitBus (roundStart uuid_m 1 0))]"
proof -
  have "string_keys (rd ann_world) (range userSocketKey \<union> range matchStateKey)"
    by (auto simp: string_keys_def ann_world_look)
  from relay_reaches_audience [OF env_ok_mem _ this, of True] show ?thesis
    by (simp add: audience_def session_def ann_world_look socket_of_def map_filter_def gateway_keys ann_match_def
        buildInitialState_def demo_players_def match_key_neq [symmetric] uuid_not_Nil userSocketKey_inject)
qed

end
