(* ===== verification/Bracket_Build.thy ===== *)
theory Bracket_Build
  imports Bracket
begin

section \<open>apps/job-runner: building the bracket of a tournament\<close>

text \<open>
  \<open>tournaments/build-bracket-structure.ts\<close> and \<open>resolve-feeder-target-slot.ts\<close>. The code builds the
  rounds as an array of arrays of drafts and then changes the drafts in place; here the array of
  arrays is passed on. An access out of range is \<open>undefined\<close> in the code and is skipped by its
  guards; here it is \<open>draft_at = None\<close>, and \<open>set_draft\<close> changes nothing. \<open>uuid r p\<close> is the fresh id of
  the match at position \<open>p\<close> of round \<open>r\<close>. The bracket size has been checked to be a power of two by
  \<open>generateFirstRound\<close>, so \<open>Math.log2\<close> is exact.
\<close>

datatype WinnerSlot = Slot_a | Slot_b

record BracketMatchDraft =
  bd_id :: string
  bd_round :: nat
  bd_positionIndex :: nat
  bd_slotAId :: "string option"
  bd_slotBId :: "string option"
  bd_winnerSlot :: "WinnerSlot option"
  bd_nextMatchId :: "string option"

record RoundOnePlayableMatch =
  ro_tournamentMatchId :: string
  ro_slotAId :: string
  ro_slotBId :: string

record BuiltBracketStructure =
  bb_matches :: "BracketMatchDraft list"
  bb_roundOnePlayable :: "RoundOnePlayableMatch list"

type_synonym rounds = "BracketMatchDraft list list"

definition draft_at :: "rounds \<Rightarrow> nat \<Rightarrow> nat \<Rightarrow> BracketMatchDraft option" where
  "draft_at rounds ri p =
     (if ri < length rounds \<and> p < length (rounds ! ri) then Some (rounds ! ri ! p) else None)"

definition set_draft :: "rounds \<Rightarrow> nat \<Rightarrow> nat \<Rightarrow> (BracketMatchDraft \<Rightarrow> BracketMatchDraft) \<Rightarrow> rounds" where
  "set_draft rounds ri p f = rounds[ri := (rounds ! ri)[p := f (rounds ! ri ! p)]]"

subsection \<open>The empty rounds and their links\<close>

definition empty_round :: "(nat \<Rightarrow> nat \<Rightarrow> string) \<Rightarrow> nat \<Rightarrow> nat \<Rightarrow> BracketMatchDraft list" where
  "empty_round uuid bracketSize r =
     map (\<lambda>p. \<lparr>bd_id = uuid r p, bd_round = r, bd_positionIndex = p, bd_slotAId = None, bd_slotBId = None,
               bd_winnerSlot = None, bd_nextMatchId = None\<rparr>) [0..<bracketSize div 2 ^ r]"

text \<open>\<open>Math.log2\<close> on a power of two: how often it can be halved.\<close>

fun halvings :: "nat \<Rightarrow> nat" where
  "halvings b = (if b \<le> 1 then 0 else 1 + halvings (b div 2))"

declare halvings.simps [simp del]

definition empty_rounds :: "(nat \<Rightarrow> nat \<Rightarrow> string) \<Rightarrow> nat \<Rightarrow> rounds" where
  "empty_rounds uuid bracketSize = map (empty_round uuid bracketSize) [1..<Suc (halvings bracketSize)]"

definition link_round :: "BracketMatchDraft list \<Rightarrow> BracketMatchDraft list \<Rightarrow> BracketMatchDraft list" where
  "link_round nextRound currentRound =
     map (\<lambda>p. if p div 2 < length nextRound
              then (currentRound ! p)\<lparr>bd_nextMatchId := Some (bd_id (nextRound ! (p div 2)))\<rparr>
              else currentRound ! p) [0..<length currentRound]"

definition link_rounds :: "rounds \<Rightarrow> rounds" where
  "link_rounds rounds =
     map (\<lambda>ri. if Suc ri < length rounds then link_round (rounds ! Suc ri) (rounds ! ri) else rounds ! ri)
       [0..<length rounds]"

subsection \<open>Advancing\<close>

definition advanceWinner :: "rounds \<Rightarrow> nat \<Rightarrow> nat \<Rightarrow> string \<Rightarrow> rounds" where
  "advanceWinner rounds roundIndex positionIndex winnerId =
     (if draft_at rounds (Suc roundIndex) (positionIndex div 2) = None then rounds
      else set_draft rounds (Suc roundIndex) (positionIndex div 2)
        (\<lambda>parent. if even positionIndex then parent\<lparr>bd_slotAId := Some winnerId\<rparr>
                  else parent\<lparr>bd_slotBId := Some winnerId\<rparr>))"

fun isBranchEmpty :: "rounds \<Rightarrow> nat \<Rightarrow> nat \<Rightarrow> bool" where
  "isBranchEmpty rounds roundIndex p =
     (case draft_at rounds roundIndex p of
        None \<Rightarrow> True
      | Some m \<Rightarrow>
          if bd_slotAId m \<noteq> None \<or> bd_slotBId m \<noteq> None then False
          else case roundIndex of
            0 \<Rightarrow> True
          | Suc ri \<Rightarrow> isBranchEmpty rounds ri (p * 2) \<and> isBranchEmpty rounds ri (p * 2 + 1))"

declare isBranchEmpty.simps [simp del]

definition hasPendingFeeder :: "rounds \<Rightarrow> nat \<Rightarrow> nat \<Rightarrow> WinnerSlot \<Rightarrow> bool" where
  "hasPendingFeeder rounds roundIndex positionIndex slot =
     (case roundIndex of
        0 \<Rightarrow> False
      | Suc ri \<Rightarrow>
          (case draft_at rounds ri (positionIndex * 2 + (if slot = Slot_a then 0 else 1)) of
             None \<Rightarrow> False
           | Some feeder \<Rightarrow> \<not> isBranchEmpty rounds ri (bd_positionIndex feeder)))"

text \<open>One match of the pass over the later rounds: the new rounds, and whether somebody advanced.\<close>

definition advance_step :: "rounds \<Rightarrow> nat \<times> nat \<Rightarrow> rounds \<times> bool" where
  "advance_step rounds cell =
     (let ri = fst cell; m = rounds ! ri ! snd cell;
          hasSlotA = bd_slotAId m \<noteq> None; hasSlotB = bd_slotBId m \<noteq> None;
          missingSlot = (if hasSlotA then Slot_b else Slot_a);
          winnerId = (if hasSlotA then bd_slotAId m else bd_slotBId m);
          decided = set_draft rounds ri (snd cell)
            (\<lambda>m. m\<lparr>bd_winnerSlot := Some (if hasSlotA then Slot_a else Slot_b)\<rparr>)
      in if bd_winnerSlot m \<noteq> None \<or> hasSlotA = hasSlotB \<or>
            hasPendingFeeder rounds ri (bd_positionIndex m) missingSlot
         then (rounds, False)
         else (if truthy winnerId then advanceWinner decided ri (bd_positionIndex m) (the winnerId) else decided, True))"

definition cells :: "rounds \<Rightarrow> nat list \<Rightarrow> (nat \<times> nat) list" where
  "cells rounds ris = concat (map (\<lambda>ri. map (Pair ri) [0..<length (rounds ! ri)]) ris)"

fun advance_pass :: "(nat \<times> nat) list \<Rightarrow> rounds \<Rightarrow> bool \<Rightarrow> rounds \<times> bool" where
  "advance_pass [] rounds advanced = (rounds, advanced)"
| "advance_pass (c # cs) rounds advanced =
     (case advance_step rounds c of (rounds', a) \<Rightarrow> advance_pass cs rounds' (advanced \<or> a))"

text \<open>Each pass that advances somebody decides a match that was not decided.\<close>

definition undecided :: "rounds \<Rightarrow> nat" where
  "undecided rounds = length (filter (\<lambda>m. bd_winnerSlot m = None) (concat rounds))"

definition later_cells :: "rounds \<Rightarrow> (nat \<times> nat) list" where
  "later_cells rounds = cells rounds [1..<length rounds]"

subsection \<open>Changing one draft\<close>

lemma length_set_draft [simp]: "length (set_draft rs ri p f) = length rs"
  by (simp add: set_draft_def)

lemma nth_set_draft:
  "i < length rs \<Longrightarrow> set_draft rs ri p f ! i = (if i = ri then (rs ! ri)[p := f (rs ! ri ! p)] else rs ! i)"
  by (simp add: set_draft_def)

lemma length_nth_set_draft [simp]: "length (set_draft rs ri p f ! i) = length (rs ! i)"
  by (cases "ri < length rs"; cases "i < length rs") (auto simp: set_draft_def nth_list_update list_update_beyond)

lemma cells_set_draft [simp]: "cells (set_draft rs ri p f) = cells rs"
  by (simp add: cells_def fun_eq_iff)

lemma draft_at_set_draft:
  "draft_at (set_draft rs ri p f) i q =
     (if i = ri \<and> q = p then map_option f (draft_at rs ri p) else draft_at rs i q)"
  by (auto simp: draft_at_def nth_set_draft)

text \<open>What does not depend on the changed fields is the same in all cells.\<close>

definition same_cells :: "(BracketMatchDraft \<Rightarrow> 'a) \<Rightarrow> rounds \<Rightarrow> rounds \<Rightarrow> bool" where
  "same_cells g rs rs' \<longleftrightarrow> map (map g) rs' = map (map g) rs"

lemma same_cells_refl [simp]: "same_cells g rs rs"
  by (simp add: same_cells_def)

lemma same_cells_trans: "same_cells g rs rs' \<Longrightarrow> same_cells g rs' rs'' \<Longrightarrow> same_cells g rs rs''"
  by (simp add: same_cells_def)

lemma map_update_same: "(\<And>m. g (f m) = g m) \<Longrightarrow> map g (xs[p := f (xs ! p)]) = map g xs"
  by (cases "p < length xs") (auto simp: nth_list_update list_update_beyond intro!: nth_equalityI)

lemma same_cells_set_draft: "(\<And>m. g (f m) = g m) \<Longrightarrow> same_cells g rs (set_draft rs ri p f)"
  unfolding same_cells_def set_draft_def
  by (rule map_update_same [where f = "\<lambda>xs. xs[p := f (xs ! p)]"]) (rule map_update_same)

lemma same_cells_advanceWinner:
  "(\<And>m w. g (m\<lparr>bd_slotAId := w\<rparr>) = g m) \<Longrightarrow> (\<And>m w. g (m\<lparr>bd_slotBId := w\<rparr>) = g m) \<Longrightarrow>
   same_cells g rs (advanceWinner rs ri p w)"
  by (simp add: advanceWinner_def same_cells_set_draft)

lemma same_cells_lengths:
  assumes "same_cells g rs rs'"
  shows "length rs' = length rs" "i < length rs \<Longrightarrow> length (rs' ! i) = length (rs ! i)"
proof -
  have eq: "map (map g) rs' = map (map g) rs" using assms by (simp add: same_cells_def)
  show len: "length rs' = length rs" using arg_cong [OF eq, of length] by simp
  assume "i < length rs"
  with len arg_cong [OF eq, of "\<lambda>xs. xs ! i"] have "map g (rs' ! i) = map g (rs ! i)" by simp
  from arg_cong [OF this, of length] show "length (rs' ! i) = length (rs ! i)" by simp
qed

lemma same_cells_at:
  assumes "same_cells g rs rs'"
  shows "map_option g (draft_at rs' i p) = map_option g (draft_at rs i p)"
proof (cases "i < length rs")
  case True
  have eq: "map (map g) rs' = map (map g) rs" using assms by (simp add: same_cells_def)
  note len = same_cells_lengths(1) [OF assms] same_cells_lengths(2) [OF assms True]
  have "map g (rs' ! i) = map g (rs ! i)"
    using arg_cong [OF eq, of "\<lambda>xs. xs ! i"] True len by simp
  from arg_cong [OF this, of "\<lambda>xs. xs ! p"] show ?thesis
    using True len by (cases "p < length (rs ! i)") (simp_all add: draft_at_def)
qed (use same_cells_lengths(1) [OF assms] in \<open>simp add: draft_at_def\<close>)

lemma same_cells_later: "same_cells g rs rs' \<Longrightarrow> later_cells rs' = later_cells rs"
  unfolding later_cells_def cells_def
  by (rule arg_cong [where f = concat]) (auto simp: same_cells_lengths)

subsection \<open>The passes end\<close>

lemma same_cells_advance_step:
  "(\<And>m w. g (m\<lparr>bd_slotAId := w\<rparr>) = g m) \<Longrightarrow> (\<And>m w. g (m\<lparr>bd_slotBId := w\<rparr>) = g m) \<Longrightarrow>
   (\<And>m w. g (m\<lparr>bd_winnerSlot := w\<rparr>) = g m) \<Longrightarrow> same_cells g rs (fst (advance_step rs c))"
  by (auto simp: advance_step_def Let_def same_cells_set_draft
      intro: same_cells_trans [OF same_cells_set_draft same_cells_advanceWinner])

lemma undecided_same: "same_cells bd_winnerSlot rs rs' \<Longrightarrow> undecided rs' = undecided rs"
proof -
  assume "same_cells bd_winnerSlot rs rs'"
  then have eq: "map bd_winnerSlot (concat rs') = map bd_winnerSlot (concat rs)"
    by (simp add: same_cells_def map_concat)
  have u: "undecided xs = length (filter (\<lambda>w. w = None) (map bd_winnerSlot (concat xs)))" for xs
    by (simp add: undecided_def filter_map comp_def)
  show ?thesis unfolding u eq ..
qed

lemma length_filter_update:
  "p < length xs \<Longrightarrow> P (xs ! p) \<Longrightarrow> \<not> P y \<Longrightarrow> Suc (length (filter P (xs[p := y]))) = length (filter P xs)"
  by (induction xs arbitrary: p) (auto split: nat.split simp: nth_Cons')

lemma undecided_decide:
  assumes "draft_at rs ri p = Some m" and "bd_winnerSlot m = None" and "bd_winnerSlot (f m) \<noteq> None"
  shows "Suc (undecided (set_draft rs ri p f)) = undecided rs"
proof -
  have r: "ri < length rs" "p < length (rs ! ri)" "rs ! ri ! p = m"
    using assms(1) by (auto simp: draft_at_def split: if_splits)
  let ?P = "\<lambda>m. bd_winnerSlot m = None"
  have u: "undecided rs = (\<Sum>i<length rs. length (filter ?P (rs ! i)))" for rs
    by (simp add: undecided_def filter_concat length_concat sum_list_sum_nth atLeast0LessThan comp_def)
  have "(\<Sum>i<length rs. length (filter ?P (rs ! i))) = length (filter ?P (rs ! ri)) + (\<Sum>i \<in> {..<length rs} - {ri}. length (filter ?P (rs ! i)))"
    using r(1) by (simp add: sum.remove)
  moreover have "(\<Sum>i<length rs. length (filter ?P (set_draft rs ri p f ! i))) =
      length (filter ?P ((rs ! ri)[p := f m])) + (\<Sum>i \<in> {..<length rs} - {ri}. length (filter ?P (rs ! i)))"
    using r by (simp add: sum.remove [of _ ri] nth_set_draft)
  moreover have "Suc (length (filter ?P ((rs ! ri)[p := f m]))) = length (filter ?P (rs ! ri))"
    using r assms(2,3) by (intro length_filter_update) auto
  ultimately show ?thesis by (simp add: u)
qed

lemma advance_step_cases:
  assumes "draft_at rs (fst c) (snd c) \<noteq> None"
  shows "\<not> snd (advance_step rs c) \<and> fst (advance_step rs c) = rs \<or>
    snd (advance_step rs c) \<and> undecided (fst (advance_step rs c)) < undecided rs"
proof (cases "snd (advance_step rs c)")
  case False
  then show ?thesis by (auto simp: advance_step_def Let_def split: if_splits)
next
  case True
  from assms obtain m where m: "draft_at rs (fst c) (snd c) = Some m" "rs ! fst c ! snd c = m"
    by (auto simp: draft_at_def split: if_splits)
  from True m(2) have "bd_winnerSlot m = None" by (auto simp: advance_step_def Let_def split: if_splits)
  then have "undecided (set_draft rs (fst c) (snd c) (\<lambda>m. m\<lparr>bd_winnerSlot := Some w\<rparr>)) < undecided rs" for w
    using undecided_decide [OF m(1), of "\<lambda>m. m\<lparr>bd_winnerSlot := Some w\<rparr>"] by simp
  moreover have "undecided (advanceWinner rs' i p w) = undecided rs'" for rs' i p w
    by (rule undecided_same) (rule same_cells_advanceWinner; simp)
  ultimately show ?thesis using True by (auto simp: advance_step_def Let_def split: if_splits)
qed

lemma later_cells_at: "c \<in> set (later_cells rs) \<Longrightarrow> draft_at rs (fst c) (snd c) \<noteq> None"
  by (auto simp: later_cells_def cells_def draft_at_def)

lemma same_cells_draft_at: "same_cells g rs rs' \<Longrightarrow> draft_at rs i p \<noteq> None \<Longrightarrow> draft_at rs' i p \<noteq> None"
  using same_cells_at [of g rs rs' i p] by (cases "draft_at rs' i p") auto

lemma advance_pass_cases:
  assumes "\<forall>c \<in> set cs. draft_at rs (fst c) (snd c) \<noteq> None"
  shows "\<not> snd (advance_pass cs rs b) \<and> \<not> b \<and> fst (advance_pass cs rs b) = rs \<and> (\<forall>c \<in> set cs. \<not> snd (advance_step rs c)) \<or>
    snd (advance_pass cs rs b) \<and> (b \<and> undecided (fst (advance_pass cs rs b)) \<le> undecided rs \<or>
      undecided (fst (advance_pass cs rs b)) < undecided rs)"
  using assms
proof (induction cs arbitrary: rs b)
  case (Cons c cs)
  obtain rs' a where step: "advance_step rs c = (rs', a)" by fastforce
  have "same_cells bd_id rs rs'"
    using same_cells_advance_step [of bd_id rs c] step by simp
  then have "\<forall>c \<in> set cs. draft_at rs' (fst c) (snd c) \<noteq> None"
    using Cons.prems same_cells_draft_at by fastforce
  from Cons.IH [OF this, of "b \<or> a"] advance_step_cases [of rs c] Cons.prems step show ?case by auto
qed auto

function advanceUnopposedPlayers :: "rounds \<Rightarrow> rounds" where
  "advanceUnopposedPlayers rounds =
     (case advance_pass (later_cells rounds) rounds False of (rounds', advanced) \<Rightarrow>
        if advanced then advanceUnopposedPlayers rounds' else rounds')"
  by pat_completeness auto
termination
proof (relation "measure undecided")
  fix rounds rounds' advanced
  assume "(rounds', advanced) = advance_pass (later_cells rounds) rounds False" "advanced"
  then show "(rounds', rounds) \<in> measure undecided"
    using advance_pass_cases [of "later_cells rounds" rounds False] later_cells_at [of _ rounds]
    by (metis fst_conv in_measure snd_conv)
qed simp

declare advanceUnopposedPlayers.simps [simp del]

subsection \<open>Pruning, and the whole construction\<close>

definition prune_step :: "rounds \<Rightarrow> nat \<times> nat \<Rightarrow> rounds" where
  "prune_step rounds cell =
     (let ri = fst cell; m = rounds ! ri ! snd cell;
          siblingPosition = (if even (bd_positionIndex m) then bd_positionIndex m + 1 else bd_positionIndex m - 1)
      in if bd_nextMatchId m = None \<or> bd_winnerSlot m \<noteq> None then rounds
         else if bd_slotAId m = None \<or> bd_slotBId m = None then rounds
         else if isBranchEmpty rounds ri siblingPosition
           then set_draft rounds ri (snd cell) (\<lambda>m. m\<lparr>bd_nextMatchId := None\<rparr>)
         else rounds)"

definition prunePlayableMatchesWithEmptySibling :: "rounds \<Rightarrow> rounds" where
  "prunePlayableMatchesWithEmptySibling rounds =
     foldl prune_step rounds (cells rounds [0..<length rounds - 1])"

text \<open>The loop over the first half of the slots: the rounds, the playable matches, the pairing index.\<close>

fun first_round_loop ::
  "seeded_player option list \<Rightarrow> bracket_match list \<Rightarrow> nat list \<Rightarrow> rounds \<Rightarrow> RoundOnePlayableMatch list \<Rightarrow> nat \<Rightarrow>
   rounds \<times> RoundOnePlayableMatch list" where
  "first_round_loop ss pairings [] rounds playable k = (rounds, playable)"
| "first_round_loop ss pairings (p # ps) rounds playable k =
     (if ss ! p = None then first_round_loop ss pairings ps rounds playable k
      else if \<not> k < length pairings then first_round_loop ss pairings ps rounds playable (Suc k)
      else case draft_at rounds 0 p of
        None \<Rightarrow> first_round_loop ss pairings ps rounds playable (Suc k)
      | Some match \<Rightarrow>
          let pairing = pairings ! k;
              filled = set_draft rounds 0 p (\<lambda>m. m\<lparr>bd_slotAId := Some (pl_id (player1 pairing)),
                bd_slotBId := map_option pl_id (player2 pairing)\<rparr>)
          in case player2 pairing of
               None \<Rightarrow> first_round_loop ss pairings ps
                 (advanceWinner (set_draft filled 0 p (\<lambda>m. m\<lparr>bd_winnerSlot := Some Slot_a\<rparr>)) 0
                   (bd_positionIndex match) (pl_id (player1 pairing))) playable (Suc k)
             | Some q \<Rightarrow> first_round_loop ss pairings ps filled
                 (playable @ [\<lparr>ro_tournamentMatchId = bd_id match, ro_slotAId = pl_id (player1 pairing),
                               ro_slotBId = pl_id q\<rparr>]) (Suc k))"

definition buildBracketStructure ::
  "(nat \<Rightarrow> nat \<Rightarrow> string) \<Rightarrow> seeded_player list \<Rightarrow> nat \<Rightarrow> bracket_match list \<Rightarrow> BuiltBracketStructure" where
  "buildBracketStructure uuid seededPlayers bracketSize firstRoundPairings =
     (case first_round_loop (slots seededPlayers bracketSize) firstRoundPairings [0..<bracketSize div 2]
             (link_rounds (empty_rounds uuid bracketSize)) [] 0 of
        (rounds, roundOnePlayable) \<Rightarrow>
          \<lparr>bb_matches = concat (prunePlayableMatchesWithEmptySibling (advanceUnopposedPlayers rounds)),
           bb_roundOnePlayable = roundOnePlayable\<rparr>)"

definition bracket_default_rating :: int where "bracket_default_rating = 1000"

definition defaultRatingForUser :: "int option \<Rightarrow> int" where
  "defaultRatingForUser rating = (case rating of None \<Rightarrow> bracket_default_rating | Some r \<Rightarrow> r)"

subsection \<open>resolve-feeder-target-slot.ts\<close>

datatype slot_update = SetSlotA string | SetSlotB string

definition resolveFeederTargetSlotUpdate ::
  "nat \<Rightarrow> string option \<Rightarrow> string option \<Rightarrow> string \<Rightarrow> slot_update option" where
  "resolveFeederTargetSlotUpdate positionIndex slotAId slotBId winnerId =
     (if slotAId = Some winnerId \<or> slotBId = Some winnerId then None
      else if even positionIndex then
        (if \<not> truthy slotAId then Some (SetSlotA winnerId)
         else if \<not> truthy slotBId then Some (SetSlotB winnerId) else None)
      else
        (if \<not> truthy slotBId then Some (SetSlotB winnerId)
         else if \<not> truthy slotAId then Some (SetSlotA winnerId) else None))"

subsection \<open>The shape of a bracket\<close>

text \<open>What a match is and where its winner goes does not change while players advance.\<close>

definition place :: "BracketMatchDraft \<Rightarrow> string \<times> nat \<times> nat \<times> string option" where
  "place m = (bd_id m, bd_round m, bd_positionIndex m, bd_nextMatchId m)"

definition filling :: "BracketMatchDraft \<Rightarrow> string option \<times> string option \<times> WinnerSlot option" where
  "filling m = (bd_slotAId m, bd_slotBId m, bd_winnerSlot m)"

lemma place_filling_simps [simp]:
  "place (m\<lparr>bd_slotAId := x\<rparr>) = place m" "place (m\<lparr>bd_slotBId := x\<rparr>) = place m"
  "place (m\<lparr>bd_winnerSlot := w\<rparr>) = place m" "filling (m\<lparr>bd_nextMatchId := x\<rparr>) = filling m"
  by (simp_all add: place_def filling_def)

lemma same_cells_first_round:
  "same_cells place rs (fst (first_round_loop ss pairings ps rs playable k))"
proof (induction ps arbitrary: rs playable k)
  case (Cons p ps)
  have step: "same_cells place rs rs' \<Longrightarrow> same_cells place rs (fst (first_round_loop ss pairings ps rs' playable' k'))"
    for rs' playable' k' using Cons.IH by (rule same_cells_trans [rotated])
  have fill: "same_cells place rs (set_draft rs 0 p (\<lambda>m. m\<lparr>bd_slotAId := x, bd_slotBId := y\<rparr>))" for x y
    by (rule same_cells_set_draft) simp
  have win: "same_cells place rs (advanceWinner (set_draft (set_draft rs 0 p (\<lambda>m. m\<lparr>bd_slotAId := x, bd_slotBId := y\<rparr>))
      0 p (\<lambda>m. m\<lparr>bd_winnerSlot := v\<rparr>)) i q w)" for x y v i q w
    by (rule same_cells_trans [OF same_cells_trans [OF fill same_cells_set_draft] same_cells_advanceWinner]) simp_all
  show ?case
    by (auto simp: Let_def split: option.split intro!: step fill win)
qed simp

lemma same_cells_pass: "same_cells place rs (fst (advance_pass cs rs b))"
proof (induction cs arbitrary: rs b)
  case (Cons c cs)
  obtain rs' a where step: "advance_step rs c = (rs', a)" by fastforce
  then have "same_cells place rs rs'"
    using same_cells_advance_step [of place rs c] by simp
  with Cons.IH [of rs' "b \<or> a"] step show ?case by (auto intro: same_cells_trans)
qed simp

lemma same_cells_advanceUnopposed: "same_cells place rs (advanceUnopposedPlayers rs)"
proof (induction rs rule: advanceUnopposedPlayers.induct)
  case (1 rs)
  obtain rs' b where pass: "advance_pass (later_cells rs) rs False = (rs', b)" by fastforce
  then have "same_cells place rs rs'" using same_cells_pass [of rs "later_cells rs" False] by simp
  with 1 pass show ?case
    by (simp add: advanceUnopposedPlayers.simps [of rs]) (metis same_cells_trans)
qed

text \<open>When the passes end, none of the later matches can be decided without a game.\<close>

lemma advance_settled: "\<forall>c \<in> set (later_cells rs). \<not> snd (advance_step (advanceUnopposedPlayers rs) c)"
proof (induction rs rule: advanceUnopposedPlayers.induct)
  case (1 rs)
  obtain rs' b where pass: "advance_pass (later_cells rs) rs False = (rs', b)" by fastforce
  have later: "later_cells rs' = later_cells rs"
    using same_cells_later [OF same_cells_pass [of rs "later_cells rs" False]] pass by simp
  show ?case
  proof (cases b)
    case True
    with 1 pass later show ?thesis by (simp add: advanceUnopposedPlayers.simps [of rs])
  next
    case False
    with pass advance_pass_cases [of "later_cells rs" rs False] later_cells_at [of _ rs] show ?thesis
      by (auto simp: advanceUnopposedPlayers.simps [of rs])
  qed
qed

lemma isBranchEmpty_eqs:
  "isBranchEmpty rs 0 p = (case draft_at rs 0 p of None \<Rightarrow> True | Some m \<Rightarrow> bd_slotAId m = None \<and> bd_slotBId m = None)"
  "isBranchEmpty rs (Suc ri) p = (case draft_at rs (Suc ri) p of None \<Rightarrow> True
     | Some m \<Rightarrow> bd_slotAId m = None \<and> bd_slotBId m = None \<and>
         isBranchEmpty rs ri (p * 2) \<and> isBranchEmpty rs ri (p * 2 + 1))"
  by (auto simp: isBranchEmpty.simps [of rs 0 p] isBranchEmpty.simps [of rs "Suc ri" p] split: option.split)

lemma filling_at:
  assumes "same_cells filling rs rs'"
  shows "draft_at rs i p = None \<and> draft_at rs' i p = None \<or>
    (\<exists>m m'. draft_at rs i p = Some m \<and> draft_at rs' i p = Some m' \<and> bd_slotAId m' = bd_slotAId m \<and>
      bd_slotBId m' = bd_slotBId m \<and> bd_winnerSlot m' = bd_winnerSlot m)"
  using same_cells_at [OF assms, of i p]
  by (cases "draft_at rs i p"; cases "draft_at rs' i p") (simp_all add: filling_def)

lemma isBranchEmpty_same: "same_cells filling rs rs' \<Longrightarrow> isBranchEmpty rs' ri p = isBranchEmpty rs ri p"
proof (induction ri arbitrary: p)
  case 0
  from filling_at [OF 0, of 0 p] show ?case by (auto simp only: isBranchEmpty_eqs option.case)
next
  case (Suc ri)
  from filling_at [OF Suc.prems, of "Suc ri" p] show ?case
    by (auto simp only: isBranchEmpty_eqs option.case Suc.IH [OF Suc.prems])
qed

text \<open>Pruning only cuts the link of a playable match whose sibling is empty.\<close>

lemma prune_steps:
  "same_cells filling rs (foldl prune_step rs cs) \<and>
   same_cells (\<lambda>m. (bd_id m, bd_round m, bd_positionIndex m)) rs (foldl prune_step rs cs) \<and>
   (\<forall>ri p m m'. draft_at rs ri p = Some m \<longrightarrow> draft_at (foldl prune_step rs cs) ri p = Some m' \<longrightarrow>
      bd_nextMatchId m' = bd_nextMatchId m \<or>
      bd_nextMatchId m' = None \<and> bd_slotAId m \<noteq> None \<and> bd_slotBId m \<noteq> None \<and> bd_winnerSlot m = None)"
proof (induction cs rule: rev_induct)
  case (snoc c cs)
  let ?rs = "foldl prune_step rs cs"
  have f: "same_cells filling ?rs (prune_step ?rs c)"
    "same_cells (\<lambda>m. (bd_id m, bd_round m, bd_positionIndex m)) ?rs (prune_step ?rs c)"
    by (auto simp: prune_step_def Let_def intro!: same_cells_set_draft)
  have "bd_nextMatchId m' = bd_nextMatchId m \<or>
      bd_nextMatchId m' = None \<and> bd_slotAId m \<noteq> None \<and> bd_slotBId m \<noteq> None \<and> bd_winnerSlot m = None"
    if m: "draft_at ?rs ri p = Some m" "draft_at (prune_step ?rs c) ri p = Some m'" for ri p m m'
  proof -
    have "?rs ! fst c ! snd c = m" if "ri = fst c" "p = snd c"
      using m(1) that by (auto simp: draft_at_def split: if_splits)
    with m show ?thesis by (auto simp: prune_step_def Let_def draft_at_set_draft split: if_splits)
  qed
  note step = this
  have "bd_nextMatchId m' = bd_nextMatchId m \<or>
      bd_nextMatchId m' = None \<and> bd_slotAId m \<noteq> None \<and> bd_slotBId m \<noteq> None \<and> bd_winnerSlot m = None"
    if m: "draft_at rs ri p = Some m" "draft_at (prune_step ?rs c) ri p = Some m'" for ri p m m'
  proof -
    obtain m1 where m1: "draft_at ?rs ri p = Some m1" "bd_slotAId m1 = bd_slotAId m" "bd_slotBId m1 = bd_slotBId m"
      "bd_winnerSlot m1 = bd_winnerSlot m"
      using filling_at [of rs ?rs ri p] snoc m(1) by auto
    have "bd_nextMatchId m1 = bd_nextMatchId m \<or>
        bd_nextMatchId m1 = None \<and> bd_slotAId m \<noteq> None \<and> bd_slotBId m \<noteq> None \<and> bd_winnerSlot m = None"
      using snoc m(1) m1(1) by blast
    with step [OF m1(1) m(2)] m1(2-4) show ?thesis by auto
  qed
  with snoc f show ?case unfolding foldl_append foldl.simps by (blast intro: same_cells_trans)
qed simp

text \<open>The rounds before anybody is placed.\<close>

lemma halvings_pow [simp]: "halvings (2 ^ n) = n"
proof (induction n)
  case (Suc n)
  have "(1 :: nat) < 2 ^ Suc n" by (rule one_less_power) simp_all
  then have "\<not> 2 ^ Suc n \<le> (1 :: nat)" by (simp only: not_le)
  with Suc show ?case by (subst halvings.simps) simp
qed (simp add: halvings.simps)

lemma empty_rounds_pow:
  "length (empty_rounds uuid (2 ^ n)) = n"
  "ri < n \<Longrightarrow> length (empty_rounds uuid (2 ^ n) ! ri) = 2 ^ (n - Suc ri)"
  "ri < n \<Longrightarrow> p < 2 ^ (n - Suc ri) \<Longrightarrow> empty_rounds uuid (2 ^ n) ! ri ! p =
     \<lparr>bd_id = uuid (Suc ri) p, bd_round = Suc ri, bd_positionIndex = p, bd_slotAId = None, bd_slotBId = None,
      bd_winnerSlot = None, bd_nextMatchId = None\<rparr>"
proof -
  have d: "ri < n \<Longrightarrow> (2 :: nat) ^ n div 2 ^ Suc ri = 2 ^ (n - Suc ri)"
    by (simp add: power_diff [symmetric] del: power_Suc)
  show "length (empty_rounds uuid (2 ^ n)) = n" by (simp add: empty_rounds_def)
  assume "ri < n"
  then have r: "empty_rounds uuid (2 ^ n) ! ri = empty_round uuid (2 ^ n) (Suc ri)"
    by (simp add: empty_rounds_def del: upt_Suc)
  show "length (empty_rounds uuid (2 ^ n) ! ri) = 2 ^ (n - Suc ri)"
    using d \<open>ri < n\<close> by (simp add: r empty_round_def del: power_Suc)
  assume "p < 2 ^ (n - Suc ri)"
  then show "empty_rounds uuid (2 ^ n) ! ri ! p =
     \<lparr>bd_id = uuid (Suc ri) p, bd_round = Suc ri, bd_positionIndex = p, bd_slotAId = None, bd_slotBId = None,
      bd_winnerSlot = None, bd_nextMatchId = None\<rparr>"
    using d \<open>ri < n\<close> by (simp add: r empty_round_def del: power_Suc)
qed

definition blank_draft :: "(nat \<Rightarrow> nat \<Rightarrow> string) \<Rightarrow> nat \<Rightarrow> nat \<Rightarrow> nat \<Rightarrow> BracketMatchDraft" where
  "blank_draft uuid n ri p = \<lparr>bd_id = uuid (Suc ri) p, bd_round = Suc ri, bd_positionIndex = p, bd_slotAId = None,
     bd_slotBId = None, bd_winnerSlot = None,
     bd_nextMatchId = (if Suc ri < n then Some (uuid (Suc (Suc ri)) (p div 2)) else None)\<rparr>"

lemma half_position: "Suc ri < n \<Longrightarrow> p < 2 ^ (n - Suc ri) \<Longrightarrow> p div 2 < (2 :: nat) ^ (n - Suc (Suc ri))"
proof -
  assume "Suc ri < n" "p < 2 ^ (n - Suc ri)"
  moreover have "(2 :: nat) ^ (n - Suc ri) = 2 * 2 ^ (n - Suc (Suc ri))"
    using \<open>Suc ri < n\<close> by (metis Suc_diff_Suc power_Suc)
  ultimately show ?thesis by linarith
qed

lemma linked_rounds_at:
  "draft_at (link_rounds (empty_rounds uuid (2 ^ n))) ri p =
     (if ri < n \<and> p < 2 ^ (n - Suc ri) then Some (blank_draft uuid n ri p) else None)"
  "length (link_rounds (empty_rounds uuid (2 ^ n))) = n"
  "ri < n \<Longrightarrow> length (link_rounds (empty_rounds uuid (2 ^ n)) ! ri) = 2 ^ (n - Suc ri)"
  by (auto simp: draft_at_def link_rounds_def link_round_def empty_rounds_pow half_position blank_draft_def)

text \<open>What the construction returns, round by round.\<close>

definition final_rounds ::
  "(nat \<Rightarrow> nat \<Rightarrow> string) \<Rightarrow> seeded_player list \<Rightarrow> nat \<Rightarrow> bracket_match list \<Rightarrow> rounds" where
  "final_rounds uuid sp b pairings = prunePlayableMatchesWithEmptySibling (advanceUnopposedPlayers
     (fst (first_round_loop (slots sp b) pairings [0..<b div 2] (link_rounds (empty_rounds uuid b)) [] 0)))"

lemma built_matches: "bb_matches (buildBracketStructure uuid sp b pairings) = concat (final_rounds uuid sp b pairings)"
  by (simp add: buildBracketStructure_def final_rounds_def split: prod.split)

lemma final_rounds_at:
  fixes uuid sp n pairings
  defines "rs \<equiv> final_rounds uuid sp (2 ^ n) pairings"
  shows "length rs = n" and "ri < n \<Longrightarrow> length (rs ! ri) = 2 ^ (n - Suc ri)"
    and "draft_at rs ri p = Some m \<Longrightarrow> ri < n \<and> p < 2 ^ (n - Suc ri) \<and>
      bd_id m = uuid (Suc ri) p \<and> bd_round m = Suc ri \<and> bd_positionIndex m = p \<and>
      (bd_nextMatchId m = (if Suc ri < n then Some (uuid (Suc (Suc ri)) (p div 2)) else None) \<or>
       bd_nextMatchId m = None \<and> bd_slotAId m \<noteq> None \<and> bd_slotBId m \<noteq> None \<and> bd_winnerSlot m = None)"
proof -
  define rs0 where "rs0 = link_rounds (empty_rounds uuid (2 ^ n))"
  define rs1 where "rs1 = advanceUnopposedPlayers (fst (first_round_loop (slots sp (2 ^ n)) pairings [0..<2 ^ n div 2] rs0 [] 0))"
  have s01: "same_cells place rs0 rs1"
    unfolding rs1_def by (rule same_cells_trans [OF same_cells_first_round same_cells_advanceUnopposed])
  have rs: "rs = foldl prune_step rs1 (cells rs1 [0..<length rs1 - 1])"
    by (simp add: rs_def final_rounds_def rs1_def rs0_def prunePlayableMatchesWithEmptySibling_def)
  note prune = prune_steps [of rs1 "cells rs1 [0..<length rs1 - 1]", folded rs]
  note len1 = same_cells_lengths [OF s01] and len = same_cells_lengths [OF prune [THEN conjunct1]]
  show l: "length rs = n" using len(1) len1(1) by (simp add: rs0_def linked_rounds_at)
  show ll: "length (rs ! ri) = 2 ^ (n - Suc ri)" if "ri < n"
    using len(1) len(2) [of ri] len1(1) len1(2) [of ri] that by (simp add: rs0_def linked_rounds_at)
  assume m: "draft_at rs ri p = Some m"
  then have r: "ri < n" "p < 2 ^ (n - Suc ri)" using l ll by (auto simp: draft_at_def split: if_splits)
  then have m0: "draft_at rs0 ri p = Some (blank_draft uuid n ri p)" by (simp add: rs0_def linked_rounds_at)
  with same_cells_at [OF s01, of ri p] obtain m1 where m1: "draft_at rs1 ri p = Some m1" "place m1 = place (blank_draft uuid n ri p)"
    by auto
  with same_cells_at [OF prune [THEN conjunct2, THEN conjunct1], of ri p] m
  have "bd_id m = bd_id m1" "bd_round m = bd_round m1" "bd_positionIndex m = bd_positionIndex m1" by auto
  moreover have "bd_slotAId m = bd_slotAId m1 \<and> bd_slotBId m = bd_slotBId m1 \<and> bd_winnerSlot m = bd_winnerSlot m1"
    using filling_at [OF prune [THEN conjunct1], of ri p] m m1 by auto
  moreover have "bd_nextMatchId m = bd_nextMatchId m1 \<or>
      bd_nextMatchId m = None \<and> bd_slotAId m1 \<noteq> None \<and> bd_slotBId m1 \<noteq> None \<and> bd_winnerSlot m1 = None"
    using prune [THEN conjunct2, THEN conjunct2] m m1(1) by blast
  ultimately show "ri < n \<and> p < 2 ^ (n - Suc ri) \<and>
      bd_id m = uuid (Suc ri) p \<and> bd_round m = Suc ri \<and> bd_positionIndex m = p \<and>
      (bd_nextMatchId m = (if Suc ri < n then Some (uuid (Suc (Suc ri)) (p div 2)) else None) \<or>
       bd_nextMatchId m = None \<and> bd_slotAId m \<noteq> None \<and> bd_slotBId m \<noteq> None \<and> bd_winnerSlot m = None)"
    using r m1(2) by (simp add: place_def blank_draft_def)
qed

lemma final_rounds_settled:
  assumes "draft_at (final_rounds uuid sp (2 ^ n) pairings) ri p = Some m" and "0 < ri" and "bd_winnerSlot m = None"
    and "(bd_slotAId m = None) \<noteq> (bd_slotBId m = None)"
  shows "hasPendingFeeder (final_rounds uuid sp (2 ^ n) pairings) ri p (if bd_slotAId m = None then Slot_a else Slot_b)"
proof -
  define rs0 where "rs0 = fst (first_round_loop (slots sp (2 ^ n)) pairings [0..<2 ^ n div 2] (link_rounds (empty_rounds uuid (2 ^ n))) [] 0)"
  define rs1 where "rs1 = advanceUnopposedPlayers rs0"
  define rs where "rs = final_rounds uuid sp (2 ^ n) pairings"
  have rs: "rs = foldl prune_step rs1 (cells rs1 [0..<length rs1 - 1])"
    by (simp add: rs_def final_rounds_def rs1_def rs0_def prunePlayableMatchesWithEmptySibling_def)
  note fill = prune_steps [of rs1 "cells rs1 [0..<length rs1 - 1]", folded rs, THEN conjunct1]
    and pos = prune_steps [of rs1 "cells rs1 [0..<length rs1 - 1]", folded rs, THEN conjunct2, THEN conjunct1]
  from assms(1) have m: "draft_at rs ri p = Some m" by (simp add: rs_def)
  with same_cells_at [OF pos, of ri p] filling_at [OF fill, of ri p] obtain m1 where m1: "draft_at rs1 ri p = Some m1"
    "bd_slotAId m1 = bd_slotAId m" "bd_slotBId m1 = bd_slotBId m" "bd_winnerSlot m1 = bd_winnerSlot m"
    "bd_positionIndex m1 = p"
    using final_rounds_at(3) [OF assms(1)] by (auto simp: rs_def)
  have "later_cells rs1 = later_cells rs0"
    unfolding rs1_def by (rule same_cells_later [OF same_cells_advanceUnopposed])
  moreover have "(ri, p) \<in> set (later_cells rs1)"
    using m1(1) assms(2) by (force simp: later_cells_def cells_def draft_at_def split: if_splits)
  ultimately have "\<not> snd (advance_step rs1 (ri, p))"
    using advance_settled [of rs0] by (auto simp: rs1_def)
  moreover have "rs1 ! ri ! p = m1" using m1(1) by (auto simp: draft_at_def split: if_splits)
  ultimately have h: "hasPendingFeeder rs1 ri p (if bd_slotAId m = None then Slot_a else Slot_b)"
    using assms(3,4) m1 by (auto simp: advance_step_def Let_def split: if_splits)
  have "hasPendingFeeder rs ri p s = hasPendingFeeder rs1 ri p s" for s
    using same_cells_at [OF pos, of "ri - 1" "p * 2 + (if s = Slot_a then 0 else 1)"]
    by (auto simp: hasPendingFeeder_def isBranchEmpty_same [OF fill] split: nat.split option.splits)
  with h show ?thesis by (simp add: rs_def)
qed

lemma sum_pow2_below: "(\<Sum>i<n. 2 ^ (n - Suc i)) = 2 ^ n - (1 :: nat)"
proof -
  have "(\<Sum>i<n. 2 ^ (n - Suc i)) = (\<Sum>i<n. (2 :: nat) ^ i)"
    by (rule sum.reindex_bij_witness [where i = "\<lambda>i. n - Suc i" and j = "\<lambda>i. n - Suc i"]) auto
  also have "\<dots> = 2 ^ n - 1" by (induction n) simp_all
  finally show ?thesis .
qed


text \<open>A bracket of four with three players: the first seed has a bye and waits in the final.\<close>

definition demo_uuid :: "nat \<Rightarrow> nat \<Rightarrow> string" where
  "demo_uuid r p = [digit_char r, digit_char p]"

definition demo_seeds :: "seeded_player list" where
  "demo_seeds = map (\<lambda>i. with_seed \<lparr>pl_id = [digit_char (Suc i)], pl_rating = Fin 1000\<rparr> i) [0..<3]"


subsection \<open>Six players in a bracket of sixteen\<close>

text \<open>
  The link of a match is removed when the branch beside it is empty, even when other branches are not: of
  the three matches that six players of a bracket of sixteen can play first, one leads nowhere, so that
  its winner is taken for the winner of the tournament.
\<close>

definition six_seeds :: "seeded_player list" where
  "six_seeds = map (\<lambda>i. with_seed \<lparr>pl_id = [digit_char (Suc i)], pl_rating = Fin 1000\<rparr> i) [0..<6]"

definition playable :: "BracketMatchDraft \<Rightarrow> bool" where
  "playable m \<longleftrightarrow> bd_winnerSlot m = None \<and> bd_slotAId m \<noteq> None \<and> bd_slotBId m \<noteq> None"

lemma pruned_link_ends_tournament:
  "map (\<lambda>m. (bd_slotAId m, bd_slotBId m, bd_nextMatchId m))
     (filter playable (bb_matches (buildBracketStructure demo_uuid six_seeds 16 (first_round_matches six_seeds 16)))) =
   [(Some ''1'', Some ''2'', Some (demo_uuid 3 0)), (Some ''3'', Some ''4'', Some (demo_uuid 3 0)), (Some ''5'', Some ''6'', None)]"
  by code_simp

end
