(* ===== verification/Database.thy ===== *)
theory Database
  imports Redis_Store Match_State Elo Leagues Bracket_Build
begin

section \<open>packages/db: the tables, and the services around the database\<close>

text \<open>
  The rows of \<open>packages/db/prisma/schema.prisma\<close> and the clients the api, the job runner and the
  user service are built on: Prisma, ioredis, BullMQ and the clock. None of the clients is part of
  the repository: \<open>app_env\<close> is a record of their operations over an arbitrary state \<open>'s\<close>, with one
  delegate (\<open>table\<close>) per model, as the generated Prisma client has. Their documentation is the
  instance \<open>mem_app\<close> over \<open>app_world\<close>; the named hypothesis \<open>app_ok\<close> says that the clients of the
  deployment behave as documented, through a view of their state. Any call may fail
  (\<open>w_outages\<close>). \<open>OutOfFuel\<close> is no exception of the code but the end of the fuel of a loop.

  A condition (\<open>where\<close>) is a predicate on rows, an order (\<open>orderBy\<close>) a list of integer keys, \<open>data\<close>
  a function on rows. The columns \<open>@default(now())\<close> and \<open>@updatedAt\<close> are stamped by the table; the
  unique constraints of the schema are checked; foreign keys are not modelled. A transaction
  (\<open>$transaction\<close>) is a begin, the body, and a commit, or a rollback when the body throws.
\<close>

subsection \<open>Rows\<close>

datatype UserRole = RolePlayer | RoleAdmin
datatype SeasonStatus = SeasonUpcoming | SeasonActive | SeasonClosed
datatype DbMatchStatus = MatchInProgress | MatchEnded | MatchAborted
datatype TournamentFormat = SingleElim | DoubleElim
datatype TournamentStatus = TUpcoming | TRegistrationOpen | TInProgress | TCompleted

record user_row =
  us_id :: string
  us_email :: string
  us_displayName :: string
  us_passwordHash :: string
  us_role :: UserRole
  us_createdAt :: time
  us_updatedAt :: time

record elo_row =
  er_userId :: string
  er_rating :: int
  er_gamesPlayed :: int
  er_updatedAt :: time

record match_row =
  mt_id :: string
  mt_playerAId :: string
  mt_playerBId :: string
  mt_winnerId :: "string option"
  mt_scoreA :: nat
  mt_scoreB :: nat
  mt_startedAt :: time
  mt_endedAt :: "time option"
  mt_status :: DbMatchStatus

record round_row =
  rw_matchId :: string
  rw_roundNumber :: nat
  rw_moveA :: "Move option"
  rw_moveB :: "Move option"
  rw_commitA :: "string option"
  rw_commitB :: "string option"
  rw_nonceA :: "string option"
  rw_nonceB :: "string option"
  rw_winner :: RoundLabel
  rw_resolvedAt :: time

record refresh_row =
  rt_id :: string
  rt_userId :: string
  rt_tokenHash :: string
  rt_expiresAt :: time
  rt_revokedAt :: "time option"
  rt_createdAt :: time

record reset_row =
  pr_id :: string
  pr_userId :: string
  pr_tokenHash :: string
  pr_expiresAt :: time
  pr_usedAt :: "time option"
  pr_createdAt :: time

record history_row =
  eh_userId :: string
  eh_matchId :: string
  eh_ratingBefore :: int
  eh_ratingAfter :: int
  eh_delta :: int
  eh_createdAt :: time

record league_row = league +
  lg_id :: string

record season_row =
  sn_id :: string
  sn_name :: string
  sn_startedAt :: time
  sn_endsAt :: "time option"
  sn_status :: SeasonStatus
  sn_createdAt :: time
  sn_updatedAt :: time

record standing_row =
  sd_seasonId :: string
  sd_userId :: string
  sd_finalRating :: int
  sd_finalLeagueId :: string
  sd_rank :: nat
  sd_rewardsDistributed :: bool

record tournament_row =
  tn_id :: string
  tn_name :: string
  tn_format :: TournamentFormat
  tn_bracketSize :: nat
  tn_registrationOpensAt :: time
  tn_startsAt :: time
  tn_endedAt :: "time option"
  tn_status :: TournamentStatus
  tn_winnerId :: "string option"
  tn_createdAt :: time
  tn_updatedAt :: time

record registration_row =
  rg_tournamentId :: string
  rg_userId :: string
  rg_seed :: "nat option"
  rg_registeredAt :: time

record tmatch_row =
  tm_id :: string
  tm_tournamentId :: string
  tm_round :: nat
  tm_positionIndex :: nat
  tm_matchId :: "string option"
  tm_slotAId :: "string option"
  tm_slotBId :: "string option"
  tm_nextMatchId :: "string option"
  tm_winnerSlot :: "WinnerSlot option"

subsection \<open>Exceptions and jobs\<close>

datatype db_error = DbUnavailable | UniqueViolation | RecordNotFound

datatype app_exn =
  DbEx db_error | CacheEx redis_error | QueueEx
| UnrecoverableError string | JobError string
| EloFailure EloErrorCode | LeagueFailure LeagueErrorCode | BracketFailure BracketErrorCode
| HttpError nat string | GrpcError nat string | ArgonError | OutOfFuel

record mail =
  ml_to :: string
  ml_template :: string
  ml_data :: "(string \<times> string) list"

datatype app_job_data = SendMail mail | GenerateBracket string | SeasonReset "string option" string

record app_job =
  aj_queue :: string
  aj_name :: string
  aj_data :: app_job_data
  aj_jobId :: "string option"
  aj_attempts :: nat

text \<open>What the services keep in Redis as JSON: a pair of tokens, a page of the leaderboard.\<close>

record AuthTokens =
  at_access :: string
  at_refresh :: string

record LeaderboardItem =
  lb_rank :: nat
  lb_userId :: string
  lb_displayName :: string
  lb_rating :: int
  lb_gamesPlayed :: int
  lb_league :: league_summary

datatype app_json = TokensJson AuthTokens | LeaderboardJson "LeaderboardItem list"

subsection \<open>The clients, as parameters\<close>

record ('s, 'r) table =
  t_find :: "('r \<Rightarrow> bool) \<Rightarrow> ('r \<Rightarrow> int list) \<Rightarrow> nat option \<Rightarrow> ('s, app_exn, 'r list) eff"
  t_create :: "'r list \<Rightarrow> ('s, app_exn, unit) eff"
  t_update :: "('r \<Rightarrow> bool) \<Rightarrow> ('r \<Rightarrow> 'r) \<Rightarrow> ('s, app_exn, 'r list) eff"
  t_delete :: "('r \<Rightarrow> bool) \<Rightarrow> ('s, app_exn, nat) eff"

record 's app_env =
  a_user :: "('s, user_row) table"
  a_eloRating :: "('s, elo_row) table"
  a_match :: "('s, match_row) table"
  a_round :: "('s, round_row) table"
  a_eloHistory :: "('s, history_row) table"
  a_league :: "('s, league_row) table"
  a_season :: "('s, season_row) table"
  a_seasonStanding :: "('s, standing_row) table"
  a_tournament :: "('s, tournament_row) table"
  a_tournamentRegistration :: "('s, registration_row) table"
  a_tournamentMatch :: "('s, tmatch_row) table"
  a_refreshToken :: "('s, refresh_row) table"
  a_passwordResetToken :: "('s, reset_row) table"
  a_begin :: "('s, app_exn, unit) eff"
  a_commit :: "('s, app_exn, unit) eff"
  a_rollback :: "('s, app_exn, unit) eff"
  a_now :: "('s, app_exn, time) eff"
  a_set_nx :: "string \<Rightarrow> nat \<Rightarrow> string \<Rightarrow> ('s, app_exn, bool) eff"
  a_compare_delete :: "string \<Rightarrow> string \<Rightarrow> ('s, app_exn, nat) eff"
  a_get :: "string \<Rightarrow> ('s, app_exn, app_json stored option) eff"
  a_setex :: "string \<Rightarrow> nat \<Rightarrow> app_json stored \<Rightarrow> ('s, app_exn, unit) eff"
  a_del :: "string \<Rightarrow> ('s, app_exn, unit) eff"
  a_del_prefix :: "string \<Rightarrow> ('s, app_exn, unit) eff"
  a_rpc :: "('s, app_exn, unit) eff"
  a_sleep :: "nat \<Rightarrow> ('s, app_exn, unit) eff"
  a_publish :: "string \<Rightarrow> string \<Rightarrow> ('s, app_exn, unit) eff"
  a_add_job :: "app_job \<Rightarrow> ('s, app_exn, unit) eff"

text \<open>The calls of the Prisma client in terms of the four operations of a table.\<close>

definition findMany :: "('s, 'r) table \<Rightarrow> ('r \<Rightarrow> bool) \<Rightarrow> ('s, app_exn, 'r list) eff" where
  "findMany t w = t_find t w (\<lambda>_. []) None"

definition findFirst :: "('s, 'r) table \<Rightarrow> ('r \<Rightarrow> bool) \<Rightarrow> ('r \<Rightarrow> int list) \<Rightarrow> ('s, app_exn, 'r option) eff" where
  "findFirst t w key = bindS (t_find t w key (Some 1)) (\<lambda>rows. ret (case rows of [] \<Rightarrow> None | r # _ \<Rightarrow> Some r))"

definition findUnique :: "('s, 'r) table \<Rightarrow> ('r \<Rightarrow> bool) \<Rightarrow> ('s, app_exn, 'r option) eff" where
  "findUnique t w = findFirst t w (\<lambda>_. [])"

definition countRows :: "('s, 'r) table \<Rightarrow> ('r \<Rightarrow> bool) \<Rightarrow> ('s, app_exn, nat) eff" where
  "countRows t w = bindS (findMany t w) (\<lambda>rows. ret (length rows))"

definition createMany :: "('s, 'r) table \<Rightarrow> 'r list \<Rightarrow> ('s, app_exn, unit) eff" where
  "createMany t rows = t_create t rows"

definition updateMany :: "('s, 'r) table \<Rightarrow> ('r \<Rightarrow> bool) \<Rightarrow> ('r \<Rightarrow> 'r) \<Rightarrow> ('s, app_exn, nat) eff" where
  "updateMany t w f = bindS (t_update t w f) (\<lambda>rows. ret (length rows))"

text \<open>\<open>update\<close> names one row by a unique key; it throws when there is none.\<close>

definition updateRow :: "('s, 'r) table \<Rightarrow> ('r \<Rightarrow> bool) \<Rightarrow> ('r \<Rightarrow> 'r) \<Rightarrow> ('s, app_exn, 'r) eff" where
  "updateRow t w f = bindS (t_update t w f) (\<lambda>rows. case rows of [] \<Rightarrow> raise (DbEx RecordNotFound) | r # _ \<Rightarrow> ret r)"

text \<open>\<open>upsert\<close> with an empty update: the row, or else the one created.\<close>

definition upsertRow :: "('s, 'r) table \<Rightarrow> ('r \<Rightarrow> bool) \<Rightarrow> 'r \<Rightarrow> ('s, app_exn, 'r) eff" where
  "upsertRow t w new = bindS (findUnique t w) (\<lambda>found.
     case found of Some r \<Rightarrow> ret r | None \<Rightarrow> thenS (createMany t [new]) (ret new))"

definition transaction :: "'s app_env \<Rightarrow> ('s, app_exn, 'a) eff \<Rightarrow> ('s, app_exn, 'a) eff" where
  "transaction env body =
     thenS (a_begin env)
       (bindS (catchS body (\<lambda>e. thenS (a_rollback env) (raise e)))
         (\<lambda>r. thenS (a_commit env) (ret r)))"

subsection \<open>Their documented behaviour\<close>

record db =
  d_users :: "user_row list"
  d_elo :: "elo_row list"
  d_matches :: "match_row list"
  d_rounds :: "round_row list"
  d_history :: "history_row list"
  d_leagues :: "league_row list"
  d_seasons :: "season_row list"
  d_standings :: "standing_row list"
  d_tournaments :: "tournament_row list"
  d_registrations :: "registration_row list"
  d_tmatches :: "tmatch_row list"
  d_refreshTokens :: "refresh_row list"
  d_resetTokens :: "reset_row list"

record app_world =
  w_db :: db
  w_saved :: "db list"
  w_keys :: "app_json redis"
  w_jobs :: "app_job list"
  w_published :: "(string \<times> string) list"
  w_outages :: "bool list"

definition app_call :: "app_exn \<Rightarrow> (app_world \<Rightarrow> (app_exn + 'a) \<times> app_world) \<Rightarrow> (app_world, app_exn, 'a) eff" where
  "app_call e f w =
     (case w_outages w of
        [] \<Rightarrow> f w
      | True # os \<Rightarrow> (Inl e, w\<lparr>w_outages := os\<rparr>)
      | False # os \<Rightarrow> f (w\<lparr>w_outages := os\<rparr>))"

definition limit :: "nat option \<Rightarrow> 'a list \<Rightarrow> 'a list" where
  "limit n xs = (case n of None \<Rightarrow> xs | Some k \<Rightarrow> take k xs)"

text \<open>
  A table of the database: how to read and write its rows, its unique constraints, what it stamps on a new
  row and on a changed one.
\<close>

definition mem_table ::
  "(db \<Rightarrow> 'r list) \<Rightarrow> ('r list \<Rightarrow> db \<Rightarrow> db) \<Rightarrow> ('r list \<Rightarrow> bool) \<Rightarrow> (time \<Rightarrow> 'r \<Rightarrow> 'r) \<Rightarrow> (time \<Rightarrow> 'r \<Rightarrow> 'r) \<Rightarrow>
   (app_world, 'r) table" where
  "mem_table rows store unique stamp touch = \<lparr>
     t_find = \<lambda>w key n. app_call (DbEx DbUnavailable) (\<lambda>s.
       (Inr (limit n (sort_key key (filter w (rows (w_db s))))), s)),
     t_create = \<lambda>new. app_call (DbEx DbUnavailable) (\<lambda>s.
       let all = rows (w_db s) @ map (stamp (rd_now (w_keys s))) new in
       if unique all then (Inr (), s\<lparr>w_db := store all (w_db s)\<rparr>) else (Inl (DbEx UniqueViolation), s)),
     t_update = \<lambda>w f. app_call (DbEx DbUnavailable) (\<lambda>s.
       let g = touch (rd_now (w_keys s)) \<circ> f; all = map (\<lambda>r. if w r then g r else r) (rows (w_db s)) in
       if unique all then (Inr (map g (filter w (rows (w_db s)))), s\<lparr>w_db := store all (w_db s)\<rparr>)
       else (Inl (DbEx UniqueViolation), s)),
     t_delete = \<lambda>w. app_call (DbEx DbUnavailable) (\<lambda>s.
       (Inr (length (filter w (rows (w_db s)))), s\<lparr>w_db := store (filter (\<lambda>r. \<not> w r) (rows (w_db s))) (w_db s)\<rparr>))\<rparr>"

definition unstamped :: "time \<Rightarrow> 'r \<Rightarrow> 'r" where
  "unstamped now r = r"

definition some_values :: "'a option list \<Rightarrow> 'a list" where
  "some_values xs = map the (filter (\<lambda>x. x \<noteq> None) xs)"

definition mem_app :: "app_world app_env" where
  "mem_app = \<lparr>
     a_user = mem_table d_users (\<lambda>x d. d\<lparr>d_users := x\<rparr>)
       (\<lambda>x. distinct (map us_id x) \<and> distinct (map us_email x) \<and> distinct (map us_displayName x))
       (\<lambda>now r. r\<lparr>us_createdAt := now, us_updatedAt := now\<rparr>) (\<lambda>now r. r\<lparr>us_updatedAt := now\<rparr>),
     a_eloRating = mem_table d_elo (\<lambda>x d. d\<lparr>d_elo := x\<rparr>) (\<lambda>x. distinct (map er_userId x))
       (\<lambda>now r. r\<lparr>er_updatedAt := now\<rparr>) (\<lambda>now r. r\<lparr>er_updatedAt := now\<rparr>),
     a_match = mem_table d_matches (\<lambda>x d. d\<lparr>d_matches := x\<rparr>) (\<lambda>x. distinct (map mt_id x)) unstamped unstamped,
     a_round = mem_table d_rounds (\<lambda>x d. d\<lparr>d_rounds := x\<rparr>)
       (\<lambda>x. distinct (map (\<lambda>r. (rw_matchId r, rw_roundNumber r)) x)) unstamped unstamped,
     a_eloHistory = mem_table d_history (\<lambda>x d. d\<lparr>d_history := x\<rparr>) (\<lambda>_. True)
       (\<lambda>now r. r\<lparr>eh_createdAt := now\<rparr>) unstamped,
     a_league = mem_table d_leagues (\<lambda>x d. d\<lparr>d_leagues := x\<rparr>)
       (\<lambda>x. distinct (map lg_id x) \<and> distinct (map lg_name x) \<and> distinct (map tier x)) unstamped unstamped,
     a_season = mem_table d_seasons (\<lambda>x d. d\<lparr>d_seasons := x\<rparr>) (\<lambda>x. distinct (map sn_id x))
       (\<lambda>now r. r\<lparr>sn_createdAt := now, sn_updatedAt := now\<rparr>) (\<lambda>now r. r\<lparr>sn_updatedAt := now\<rparr>),
     a_seasonStanding = mem_table d_standings (\<lambda>x d. d\<lparr>d_standings := x\<rparr>)
       (\<lambda>x. distinct (map (\<lambda>r. (sd_seasonId r, sd_userId r)) x)) unstamped unstamped,
     a_tournament = mem_table d_tournaments (\<lambda>x d. d\<lparr>d_tournaments := x\<rparr>) (\<lambda>x. distinct (map tn_id x))
       (\<lambda>now r. r\<lparr>tn_createdAt := now, tn_updatedAt := now\<rparr>) (\<lambda>now r. r\<lparr>tn_updatedAt := now\<rparr>),
     a_tournamentRegistration = mem_table d_registrations (\<lambda>x d. d\<lparr>d_registrations := x\<rparr>)
       (\<lambda>x. distinct (map (\<lambda>r. (rg_tournamentId r, rg_userId r)) x)) (\<lambda>now r. r\<lparr>rg_registeredAt := now\<rparr>) unstamped,
     a_tournamentMatch = mem_table d_tmatches (\<lambda>x d. d\<lparr>d_tmatches := x\<rparr>)
       (\<lambda>x. distinct (map tm_id x) \<and> distinct (some_values (map tm_matchId x))) unstamped unstamped,
     a_refreshToken = mem_table d_refreshTokens (\<lambda>x d. d\<lparr>d_refreshTokens := x\<rparr>)
       (\<lambda>x. distinct (map rt_id x) \<and> distinct (map rt_tokenHash x)) (\<lambda>now r. r\<lparr>rt_createdAt := now\<rparr>) unstamped,
     a_passwordResetToken = mem_table d_resetTokens (\<lambda>x d. d\<lparr>d_resetTokens := x\<rparr>)
       (\<lambda>x. distinct (map pr_id x) \<and> distinct (map pr_tokenHash x)) (\<lambda>now r. r\<lparr>pr_createdAt := now\<rparr>) unstamped,
     a_begin = app_call (DbEx DbUnavailable) (\<lambda>s. (Inr (), s\<lparr>w_saved := w_db s # w_saved s\<rparr>)),
     a_commit = (\<lambda>s. case app_call (DbEx DbUnavailable) (\<lambda>s. (Inr (), s)) s of
       (Inr u, s') \<Rightarrow> (Inr u, s'\<lparr>w_saved := tl (w_saved s')\<rparr>)
     | (Inl e, s') \<Rightarrow> (Inl e, s'\<lparr>w_db := hd (w_saved s'), w_saved := tl (w_saved s')\<rparr>)),
     a_rollback = (\<lambda>s. (Inr (), s\<lparr>w_db := hd (w_saved s), w_saved := tl (w_saved s)\<rparr>)),
     a_now = (\<lambda>s. (Inr (rd_now (w_keys s)), s)),
     a_set_nx = (\<lambda>k ttl t. app_call (CacheEx RedisUnavailable) (\<lambda>s. case do_set_nx k (Txt t) ttl (w_keys s) of
       (Inl e, d) \<Rightarrow> (Inl (CacheEx e), s\<lparr>w_keys := d\<rparr>) | (Inr b, d) \<Rightarrow> (Inr b, s\<lparr>w_keys := d\<rparr>))),
     a_compare_delete = (\<lambda>k t. app_call (CacheEx RedisUnavailable) (\<lambda>s. case compare_and_delete k t (w_keys s) of
       (Inl e, d) \<Rightarrow> (Inl (CacheEx e), s\<lparr>w_keys := d\<rparr>) | (Inr n, d) \<Rightarrow> (Inr n, s\<lparr>w_keys := d\<rparr>))),
     a_get = (\<lambda>k. app_call (CacheEx RedisUnavailable) (\<lambda>s. case do_get k (w_keys s) of
       (Inl e, d) \<Rightarrow> (Inl (CacheEx e), s\<lparr>w_keys := d\<rparr>) | (Inr v, d) \<Rightarrow> (Inr v, s\<lparr>w_keys := d\<rparr>))),
     a_setex = (\<lambda>k ttl v. app_call (CacheEx RedisUnavailable) (\<lambda>s.
       (Inr (), s\<lparr>w_keys := put k (RStr v) (expiry (w_keys s) ttl) (w_keys s)\<rparr>))),
     a_del = (\<lambda>k. app_call (CacheEx RedisUnavailable) (\<lambda>s. (Inr (), s\<lparr>w_keys := unset k (w_keys s)\<rparr>))),
     a_del_prefix = (\<lambda>p. app_call (CacheEx RedisUnavailable) (\<lambda>s. (Inr (), s\<lparr>w_keys := (w_keys s)
       \<lparr>rd_keys := (\<lambda>k. if take (length p) k = p then None else rd_keys (w_keys s) k)\<rparr>\<rparr>))),
     a_rpc = app_call (GrpcError 14 ''UNAVAILABLE'') (\<lambda>s. (Inr (), s)),
     a_sleep = (\<lambda>ms s. (Inr (), s\<lparr>w_keys := (w_keys s)\<lparr>rd_now := rd_now (w_keys s) + int ms\<rparr>\<rparr>)),
     a_publish = (\<lambda>ch m. app_call (CacheEx RedisUnavailable) (\<lambda>s. (Inr (), s\<lparr>w_published := w_published s @ [(ch, m)]\<rparr>))),
     a_add_job = (\<lambda>j. app_call QueueEx (\<lambda>s.
       if aj_jobId j \<noteq> None \<and> (\<exists>j' \<in> set (w_jobs s). aj_queue j' = aj_queue j \<and> aj_jobId j' = aj_jobId j)
       then (Inr (), s) else (Inr (), s\<lparr>w_jobs := w_jobs s @ [j]\<rparr>)))\<rparr>"

subsection \<open>The hypothesis on a deployment\<close>

definition table_ok :: "('s, 'r) table \<Rightarrow> (app_world, 'r) table \<Rightarrow> ('s \<Rightarrow> app_world) \<Rightarrow> bool" where
  "table_ok t t' view \<longleftrightarrow>
     (\<forall>w key n. sim view (t_find t w key n) (t_find t' w key n)) \<and>
     (\<forall>rows. sim view (t_create t rows) (t_create t' rows)) \<and>
     (\<forall>w f. sim view (t_update t w f) (t_update t' w f)) \<and>
     (\<forall>w. sim view (t_delete t w) (t_delete t' w))"

definition app_ok :: "'s app_env \<Rightarrow> ('s \<Rightarrow> app_world) \<Rightarrow> bool" where
  "app_ok env view \<longleftrightarrow>
     table_ok (a_user env) (a_user mem_app) view \<and> table_ok (a_eloRating env) (a_eloRating mem_app) view \<and>
     table_ok (a_match env) (a_match mem_app) view \<and> table_ok (a_round env) (a_round mem_app) view \<and>
     table_ok (a_eloHistory env) (a_eloHistory mem_app) view \<and> table_ok (a_league env) (a_league mem_app) view \<and>
     table_ok (a_season env) (a_season mem_app) view \<and>
     table_ok (a_seasonStanding env) (a_seasonStanding mem_app) view \<and>
     table_ok (a_tournament env) (a_tournament mem_app) view \<and>
     table_ok (a_tournamentRegistration env) (a_tournamentRegistration mem_app) view \<and>
     table_ok (a_tournamentMatch env) (a_tournamentMatch mem_app) view \<and>
     table_ok (a_refreshToken env) (a_refreshToken mem_app) view \<and>
     table_ok (a_passwordResetToken env) (a_passwordResetToken mem_app) view \<and>
     (\<forall>k. sim view (a_get env k) (a_get mem_app k)) \<and>
     (\<forall>k ttl v. sim view (a_setex env k ttl v) (a_setex mem_app k ttl v)) \<and>
     (\<forall>k. sim view (a_del env k) (a_del mem_app k)) \<and>
     (\<forall>k. sim view (a_del_prefix env k) (a_del_prefix mem_app k)) \<and> sim view (a_rpc env) (a_rpc mem_app) \<and>
     (\<forall>n. sim view (a_sleep env n) (a_sleep mem_app n)) \<and>
     sim view (a_begin env) (a_begin mem_app) \<and> sim view (a_commit env) (a_commit mem_app) \<and>
     sim view (a_rollback env) (a_rollback mem_app) \<and> sim view (a_now env) (a_now mem_app) \<and>
     (\<forall>k ttl t. sim view (a_set_nx env k ttl t) (a_set_nx mem_app k ttl t)) \<and>
     (\<forall>k t. sim view (a_compare_delete env k t) (a_compare_delete mem_app k t)) \<and>
     (\<forall>ch m. sim view (a_publish env ch m) (a_publish mem_app ch m)) \<and>
     (\<forall>j. sim view (a_add_job env j) (a_add_job mem_app j))"

lemma app_ok_mem: "app_ok mem_app (\<lambda>w. w)"
  by (simp add: app_ok_def table_ok_def sim_refl)

lemma sim_table [sim_rules]:
  assumes "table_ok t t' view"
  shows "sim view (t_find t w key n) (t_find t' w key n)" "sim view (t_update t w f) (t_update t' w f)"
    "sim view (t_delete t w) (t_delete t' w)" "sim view (findMany t w) (findMany t' w)"
    "sim view (findFirst t w key) (findFirst t' w key)" "sim view (findUnique t w) (findUnique t' w)"
    "sim view (countRows t w) (countRows t' w)" "sim view (createMany t rows) (createMany t' rows)"
    "sim view (updateMany t w f) (updateMany t' w f)"
  using assms unfolding table_ok_def findMany_def findFirst_def findUnique_def countRows_def createMany_def updateMany_def
  by (auto intro!: sim_bindS sim_ret)

lemma sim_updateRow [sim_rules]: "table_ok t t' view \<Longrightarrow> sim view (updateRow t w f) (updateRow t' w f)"
  unfolding updateRow_def by (intro sim_bindS sim_table) (auto intro: sim_raise sim_ret split: list.split)

lemma sim_upsertRow [sim_rules]: "table_ok t t' view \<Longrightarrow> sim view (upsertRow t w r) (upsertRow t' w r)"
  unfolding upsertRow_def by (intro sim_rules)

locale app_service =
  fixes env :: "'s app_env" and view :: "'s \<Rightarrow> app_world"
  assumes app: "app_ok env view"
begin

lemma tables_ok [sim_rules]:
  "table_ok (a_user env) (a_user mem_app) view" "table_ok (a_eloRating env) (a_eloRating mem_app) view"
  "table_ok (a_match env) (a_match mem_app) view" "table_ok (a_round env) (a_round mem_app) view"
  "table_ok (a_eloHistory env) (a_eloHistory mem_app) view" "table_ok (a_league env) (a_league mem_app) view"
  "table_ok (a_season env) (a_season mem_app) view" "table_ok (a_seasonStanding env) (a_seasonStanding mem_app) view"
  "table_ok (a_tournament env) (a_tournament mem_app) view"
  "table_ok (a_tournamentRegistration env) (a_tournamentRegistration mem_app) view"
  "table_ok (a_tournamentMatch env) (a_tournamentMatch mem_app) view"
  "table_ok (a_refreshToken env) (a_refreshToken mem_app) view"
  "table_ok (a_passwordResetToken env) (a_passwordResetToken mem_app) view"
  using app by (simp_all add: app_ok_def)

lemma sim_clients [sim_rules]:
  "sim view (a_now env) (a_now mem_app)" "sim view (a_set_nx env k ttl t) (a_set_nx mem_app k ttl t)"
  "sim view (a_compare_delete env k t) (a_compare_delete mem_app k t)"
  "sim view (a_get env k) (a_get mem_app k)" "sim view (a_setex env k ttl v) (a_setex mem_app k ttl v)"
  "sim view (a_del env k) (a_del mem_app k)" "sim view (a_del_prefix env k) (a_del_prefix mem_app k)"
  "sim view (a_rpc env) (a_rpc mem_app)" "sim view (a_sleep env n) (a_sleep mem_app n)"
  "sim view (a_publish env ch m) (a_publish mem_app ch m)" "sim view (a_add_job env j) (a_add_job mem_app j)"
  using app by (simp_all add: app_ok_def)

lemma sim_transaction [sim_rules]:
  assumes "sim view m m'"
  shows "sim view (transaction env m) (transaction mem_app m')"
proof -
  have "sim view (a_begin env) (a_begin mem_app)" "sim view (a_commit env) (a_commit mem_app)"
    "sim view (a_rollback env) (a_rollback mem_app)"
    using app by (simp_all add: app_ok_def)
  then show ?thesis unfolding transaction_def by (intro sim_rules assms)
qed

end

interpretation app_doc: app_service mem_app "\<lambda>w. w"
  by unfold_locales (rule app_ok_mem)

end
