(* ===== verification/Notifications.thy ===== *)
theory Notifications
  imports Database
begin

section \<open>apps/job-runner: notifications and locks\<close>

text \<open>
  What the jobs of the runner share: the queue of mails (\<open>queues/notifications-queue.service.ts\<close>), the
  cleaning of names before they go into a mail (\<open>sanitizeForTemplate\<close>, written three times in the
  code), the interpolation of a mail (\<open>notifications/template.service.ts\<close>), and the lock services
  (\<open>tournaments/generate-bracket-lock.service.ts\<close>, \<open>seasons/season-reset-lock.service.ts\<close>), which
  differ in the name of the key. The clients are connected; the random token of a lock is an argument.
\<close>

record JobRunnerConfig =
  jc_BULLMQ_PREFIX :: string
  jc_WORKER_ROLE :: string

subsection \<open>notifications-queue.service.ts\<close>

definition NOTIFICATIONS_QUEUE_NAME :: string where "NOTIFICATIONS_QUEUE_NAME = ''notifications''"
definition SEND_MAIL_JOB_NAME :: string where "SEND_MAIL_JOB_NAME = ''send-mail''"
definition SEND_MAIL_ATTEMPTS :: nat where "SEND_MAIL_ATTEMPTS = 3"

definition add_mail :: "'s app_env \<Rightarrow> mail \<Rightarrow> string option \<Rightarrow> ('s, app_exn, unit) eff" where
  "add_mail env payload jobId = a_add_job env \<lparr>aj_queue = NOTIFICATIONS_QUEUE_NAME, aj_name = SEND_MAIL_JOB_NAME,
     aj_data = SendMail payload, aj_jobId = jobId, aj_attempts = SEND_MAIL_ATTEMPTS\<rparr>"

record SeasonRewardMail =
  sr_to :: string
  sr_displayName :: string
  sr_seasonName :: string
  sr_rank :: string
  sr_leagueName :: string
  sr_finalRating :: string
  sr_delta :: string

definition enqueueSeasonRewardMail :: "'s app_env \<Rightarrow> SeasonRewardMail \<Rightarrow> ('s, app_exn, unit) eff" where
  "enqueueSeasonRewardMail env i = add_mail env
     \<lparr>ml_to = sr_to i, ml_template = ''season-reward'',
      ml_data = [(''displayName'', sr_displayName i), (''seasonName'', sr_seasonName i), (''rank'', sr_rank i),
        (''leagueName'', sr_leagueName i), (''finalRating'', sr_finalRating i), (''delta'', sr_delta i)]\<rparr> None"

definition enqueueTournamentStartedMail ::
  "'s app_env \<Rightarrow> string \<Rightarrow> string \<Rightarrow> string \<Rightarrow> string \<Rightarrow> string \<Rightarrow> ('s, app_exn, unit) eff" where
  "enqueueTournamentStartedMail env tournamentId userId to displayName tournamentName = add_mail env
     \<lparr>ml_to = to, ml_template = ''tournament-started'',
      ml_data = [(''displayName'', displayName), (''tournamentName'', tournamentName)]\<rparr>
     (Some (''tournament-started:'' @ tournamentId @ '':'' @ userId))"

definition enqueueTournamentCompletedMail ::
  "'s app_env \<Rightarrow> string \<Rightarrow> string \<Rightarrow> string \<Rightarrow> string \<Rightarrow> string \<Rightarrow> ('s, app_exn, unit) eff" where
  "enqueueTournamentCompletedMail env tournamentId userId to displayName tournamentName = add_mail env
     \<lparr>ml_to = to, ml_template = ''tournament-completed'',
      ml_data = [(''displayName'', displayName), (''tournamentName'', tournamentName)]\<rparr>
     (Some (''tournament-completed:'' @ tournamentId @ '':'' @ userId))"

definition enqueueTournamentMatchReadyMail ::
  "'s app_env \<Rightarrow> string \<Rightarrow> string \<Rightarrow> string \<Rightarrow> string \<Rightarrow> string \<Rightarrow> string \<Rightarrow> ('s, app_exn, unit) eff" where
  "enqueueTournamentMatchReadyMail env tmid userId to displayName opponentDisplayName tournamentName =
     add_mail env
     \<lparr>ml_to = to, ml_template = ''tournament-match-ready'',
      ml_data = [(''displayName'', displayName), (''opponentDisplayName'', opponentDisplayName),
        (''tournamentName'', tournamentName)]\<rparr>
     (Some (''tournament-match-ready:'' @ tmid @ '':'' @ userId))"

subsection \<open>Names in templates\<close>

text \<open>
  \<open>displayName.replace(/__[A-Z_]+__/g, "")\<close>: the longest match at the leftmost position is
  removed, then the search goes on behind it.
\<close>

definition placeholder_char :: "char \<Rightarrow> bool" where
  "placeholder_char c \<longleftrightarrow> c = CHR ''_'' \<or> of_char c \<in> {65..90::nat}"

definition placeholder_length :: "string \<Rightarrow> nat option" where
  "placeholder_length s =
     (if take 2 s = ''__''
      then find (\<lambda>n. 5 \<le> n \<and> drop (n - 2) (take n s) = ''__'') (rev [0..<Suc (length (takeWhile placeholder_char s))])
      else None)"

function sanitizeForTemplate :: "string \<Rightarrow> string" where
  "sanitizeForTemplate s =
     (case s of
        [] \<Rightarrow> []
      | c # cs \<Rightarrow> (case placeholder_length s of
          Some n \<Rightarrow> if n = 0 then c # sanitizeForTemplate cs else sanitizeForTemplate (drop n s)
        | None \<Rightarrow> c # sanitizeForTemplate cs))"
  by pat_completeness auto
termination by (relation "measure length") auto

declare sanitizeForTemplate.simps [simp del]

text \<open>
  \<open>content.replaceAll(placeholder, value)\<close>: JavaScript expands the dollar patterns of the value (\<open>$$\<close>,
  \<open>$&\<close>, and the texts before and after the match), so the text before the position is passed on.
  The placeholder of a key: \<open>displayName\<close> is \<open>__DISPLAY_NAME__\<close>.
\<close>

fun expand_value :: "string \<Rightarrow> string \<Rightarrow> string \<Rightarrow> string \<Rightarrow> string" where
  "expand_value before matched after (c # d # cs) =
     (if c \<noteq> CHR ''$'' then c # expand_value before matched after (d # cs)
      else if d = CHR ''$'' then CHR ''$'' # expand_value before matched after cs
      else if d = CHR ''&'' then matched @ expand_value before matched after cs
      else if d = CHR 0x60 then before @ expand_value before matched after cs
      else if d = CHR 0x27 then after @ expand_value before matched after cs
      else c # expand_value before matched after (d # cs))"
| "expand_value before matched after cs = cs"

function replace_from :: "string \<Rightarrow> string \<Rightarrow> string \<Rightarrow> string \<Rightarrow> string" where
  "replace_from before old value s =
     (if s = [] then []
      else if old \<noteq> [] \<and> take (length old) s = old
      then expand_value before old (drop (length old) s) value @ replace_from (before @ old) old value (drop (length old) s)
      else hd s # replace_from (before @ [hd s]) old value (tl s))"
  by pat_completeness auto
termination by (relation "measure (\<lambda>(before, old, value, s). length s)") (auto simp: neq_Nil_conv)

declare replace_from.simps [simp del]

definition replaceAll :: "string \<Rightarrow> string \<Rightarrow> string \<Rightarrow> string" where
  "replaceAll old value s = replace_from [] old value s"

definition upper :: "char \<Rightarrow> char" where
  "upper c = (if of_char c \<in> {97..122::nat} then char_of (of_char c - (32 :: nat)) else c)"

definition placeholder :: "string \<Rightarrow> string" where
  "placeholder key = ''__'' @ map upper (concat (map (\<lambda>c. if of_char c \<in> {65..90::nat} then [CHR ''_'', c] else [c]) key)) @ ''__''"

definition interpolate :: "string \<Rightarrow> (string \<times> string) list \<Rightarrow> string" where
  "interpolate source data = foldl (\<lambda>content kv. replaceAll (placeholder (fst kv)) (snd kv) content) source data"

subsection \<open>The locks of the job runner\<close>

definition GENERATE_BRACKET_LOCK_TTL_SECONDS :: nat where "GENERATE_BRACKET_LOCK_TTL_SECONDS = 600"
definition SEASON_RESET_LOCK_TTL_SECONDS :: nat where "SEASON_RESET_LOCK_TTL_SECONDS = 600"

definition generate_bracket_lockKey :: "JobRunnerConfig \<Rightarrow> string \<Rightarrow> string" where
  "generate_bracket_lockKey cfg tournamentId = jc_BULLMQ_PREFIX cfg @ '':lock:generate-bracket:'' @ tournamentId"

definition season_reset_lockKey :: "JobRunnerConfig \<Rightarrow> string \<Rightarrow> string" where
  "season_reset_lockKey cfg seasonId = jc_BULLMQ_PREFIX cfg @ '':lock:season-reset:'' @ seasonId"

definition lock_token :: "JobRunnerConfig \<Rightarrow> string \<Rightarrow> string" where
  "lock_token cfg uuid = jc_WORKER_ROLE cfg @ '':'' @ uuid"

definition acquire_lock :: "'s app_env \<Rightarrow> string \<Rightarrow> nat \<Rightarrow> string \<Rightarrow> ('s, app_exn, bool) eff" where
  "acquire_lock env key ttl token = a_set_nx env key ttl token"

definition release_lock :: "'s app_env \<Rightarrow> string \<Rightarrow> string \<Rightarrow> ('s, app_exn, unit) eff" where
  "release_lock env key token = thenS (a_compare_delete env key token) (ret ())"

subsection \<open>The handlers run as documented\<close>

context app_service
begin

lemma sim_notifications [sim_rules]:
  "sim view (add_mail env m i) (add_mail mem_app m i)"
  "sim view (enqueueSeasonRewardMail env sm) (enqueueSeasonRewardMail mem_app sm)"
  "sim view (enqueueTournamentStartedMail env t u to dn tn) (enqueueTournamentStartedMail mem_app t u to dn tn)"
  "sim view (enqueueTournamentCompletedMail env t u to dn tn) (enqueueTournamentCompletedMail mem_app t u to dn tn)"
  "sim view (enqueueTournamentMatchReadyMail env t u to dn od tn) (enqueueTournamentMatchReadyMail mem_app t u to dn od tn)"
  unfolding enqueueSeasonRewardMail_def enqueueTournamentStartedMail_def enqueueTournamentCompletedMail_def
    enqueueTournamentMatchReadyMail_def add_mail_def by (intro sim_rules)+

lemma sim_job_locks [sim_rules]:
  "sim view (acquire_lock env k ttl t) (acquire_lock mem_app k ttl t)"
  "sim view (release_lock env k t) (release_lock mem_app k t)"
  unfolding acquire_lock_def release_lock_def by (intro sim_rules)+

end

text \<open>A lock at a key of the runner's Redis obeys the contract of a lock, while the calls succeed.\<close>

definition job_lock_up :: "string \<Rightarrow> app_world \<Rightarrow> bool" where
  "job_lock_up k w \<longleftrightarrow> w_outages w = [] \<and> lock_key_ok k (w_keys w)"

lemma app_call_ok: "w_outages w = [] \<Longrightarrow> app_call e f w = f w"
  by (simp add: app_call_def)

lemma mem_app_locks:
  assumes "w_outages w = []"
  shows "acquire_lock mem_app k ttl t w = (if look (w_keys w) k = None
      then (Inr True, w\<lparr>w_keys := put k (RStr (Txt t)) (expiry (w_keys w) ttl) (w_keys w)\<rparr>) else (Inr False, w))"
    and "lock_key_ok k (w_keys w) \<Longrightarrow> release_lock mem_app k t w = (Inr (),
      if lock_owner k (w_keys w) = Some t then w\<lparr>w_keys := unset k (w_keys w)\<rparr> else w)"
  using assms
  by (simp_all add: acquire_lock_def release_lock_def mem_app_def app_call_ok do_set_nx_def eff_simps
      compare_and_delete_cases)

lemma job_lock:
  assumes "0 < ttl"
  shows "lock (acquire_lock mem_app k ttl) (release_lock mem_app k) (\<lambda>w. lock_owner k (w_keys w)) (job_lock_up k)"
proof
  fix w t
  assume w: "job_lock_up k w"
  then show "lock_owner k (w_keys w) = None \<Longrightarrow>
      \<exists>w'. acquire_lock mem_app k ttl t w = (Inr True, w') \<and> lock_owner k (w_keys w') = Some t \<and> job_lock_up k w'"
    using assms by (auto simp: job_lock_up_def mem_app_locks lock_key_ok_def lock_owner_def)
  from w show "lock_owner k (w_keys w) \<noteq> None \<Longrightarrow> acquire_lock mem_app k ttl t w = (Inr False, w)"
    by (auto simp: job_lock_up_def mem_app_locks lock_key_ok_def lock_owner_def)
  from w show "lock_owner k (w_keys w) = Some t \<Longrightarrow>
      \<exists>b w'. release_lock mem_app k t w = (Inr b, w') \<and> lock_owner k (w_keys w') = None \<and> job_lock_up k w'"
    by (auto simp: job_lock_up_def mem_app_locks)
  from w show "lock_owner k (w_keys w) \<noteq> Some t \<Longrightarrow> \<exists>b. release_lock mem_app k t w = (Inr b, w)"
    by (auto simp: job_lock_up_def mem_app_locks)
qed

interpretation bracket_lock: lock "acquire_lock mem_app (generate_bracket_lockKey cfg tid) GENERATE_BRACKET_LOCK_TTL_SECONDS"
  "release_lock mem_app (generate_bracket_lockKey cfg tid)"
  "\<lambda>w. lock_owner (generate_bracket_lockKey cfg tid) (w_keys w)" "job_lock_up (generate_bracket_lockKey cfg tid)" for cfg tid
  by (rule job_lock) (simp add: GENERATE_BRACKET_LOCK_TTL_SECONDS_def)

interpretation season_lock: lock "acquire_lock mem_app (season_reset_lockKey cfg sid) SEASON_RESET_LOCK_TTL_SECONDS"
  "release_lock mem_app (season_reset_lockKey cfg sid)"
  "\<lambda>w. lock_owner (season_reset_lockKey cfg sid) (w_keys w)" "job_lock_up (season_reset_lockKey cfg sid)" for cfg sid
  by (rule job_lock) (simp add: SEASON_RESET_LOCK_TTL_SECONDS_def)

end
