(* ===== verification/Tournament_Jobs.thy ===== *)
theory Tournament_Jobs
  imports Notifications
begin

section \<open>apps/job-runner: generating brackets and moving winners on\<close>

text \<open>
  \<open>tournaments/generate-bracket.service.ts\<close> with its processor, \<open>tournament-match-ready.service.ts\<close>
  and \<open>tournament-progression.service.ts\<close>. An \<open>include\<close> of related rows is the queries Prisma makes
  for it: the rows of the other table that the relation names, which exist by the foreign keys. The
  random ids are arguments. \<open>valid_uuid\<close> is the check of the schema library.
\<close>

subsection \<open>generate-bracket.service.ts\<close>

datatype GenerateBracketResult = Generated | AlreadyGenerated

text \<open>\<open>registrations: { include: { user } }\<close>\<close>

definition with_users :: "registration_row list \<Rightarrow> user_row list \<Rightarrow> (registration_row \<times> user_row) list" where
  "with_users regs users =
     List.map_filter (\<lambda>r. map_option (Pair r) (find (\<lambda>u. us_id u = rg_userId r) users)) regs"

definition registrations_of ::
  "'s app_env \<Rightarrow> string \<Rightarrow> ('s, app_exn, (registration_row \<times> user_row) list) eff" where
  "registrations_of env tid =
     bindS (findMany (a_tournamentRegistration env) (\<lambda>r. rg_tournamentId r = tid)) (\<lambda>regs.
     bindS (findMany (a_user env) (\<lambda>u. us_id u \<in> rg_userId ` set regs)) (\<lambda>users.
       ret (with_users regs users)))"

definition enqueueTournamentStartedNotifications ::
  "'s app_env \<Rightarrow> string \<Rightarrow> string \<Rightarrow> (registration_row \<times> user_row) list \<Rightarrow> ('s, app_exn, unit) eff" where
  "enqueueTournamentStartedNotifications env tid tname registrations =
     forS registrations (\<lambda>ru. enqueueTournamentStartedMail env tid (rg_userId (fst ru)) (us_email (snd ru))
       (sanitizeForTemplate (us_displayName (snd ru))) tname)"

definition players_of :: "(registration_row \<times> user_row) list \<Rightarrow> elo_row list \<Rightarrow> player list" where
  "players_of registrations ratings =
     map (\<lambda>ru. \<lparr>pl_id = rg_userId (fst ru), pl_rating = Fin (of_int (defaultRatingForUser
       (map_of (map (\<lambda>e. (er_userId e, er_rating e)) (rev ratings)) (rg_userId (fst ru)))))\<rparr>) registrations"

definition tmatch_of :: "string \<Rightarrow> BracketMatchDraft \<Rightarrow> tmatch_row" where
  "tmatch_of tid m = \<lparr>tm_id = bd_id m, tm_tournamentId = tid, tm_round = bd_round m,
     tm_positionIndex = bd_positionIndex m, tm_matchId = None, tm_slotAId = bd_slotAId m,
     tm_slotBId = bd_slotBId m, tm_nextMatchId = bd_nextMatchId m, tm_winnerSlot = bd_winnerSlot m\<rparr>"

text \<open>The transaction: the seeds of the registrations, then all matches.\<close>

definition store_bracket ::
  "'s app_env \<Rightarrow> string \<Rightarrow> seeded_player list \<Rightarrow> BuiltBracketStructure \<Rightarrow> ('s, app_exn, unit) eff" where
  "store_bracket env tid seededPlayers built = transaction env
     (thenS (forS seededPlayers (\<lambda>sp. thenS (updateRow (a_tournamentRegistration env)
            (\<lambda>r. rg_tournamentId r = tid \<and> rg_userId r = pl_id sp) (\<lambda>r. r\<lparr>rg_seed := Some (seed sp)\<rparr>)) (ret ())))
       (createMany (a_tournamentMatch env) (map (tmatch_of tid) (bb_matches built))))"

text \<open>What runs under the lock.\<close>

definition generate_locked ::
  "'s app_env \<Rightarrow> (nat \<Rightarrow> nat \<Rightarrow> string) \<Rightarrow> tournament_row \<Rightarrow> (registration_row \<times> user_row) list \<Rightarrow>
   ('s, app_exn, GenerateBracketResult) eff" where
  "generate_locked env uuid t registrations =
     bindS (countRows (a_tournamentMatch env) (\<lambda>m. tm_tournamentId m = tn_id t)) (\<lambda>matchesAfterLock.
       if matchesAfterLock > 0
       then thenS (enqueueTournamentStartedNotifications env (tn_id t) (tn_name t) registrations) (ret AlreadyGenerated)
       else if length registrations < 2 then raise (UnrecoverableError ''fewer than 2 registrations'')
       else if length registrations > tn_bracketSize t then raise (UnrecoverableError ''registrations exceed bracket size'')
       else bindS (findMany (a_eloRating env) (\<lambda>e. er_userId e \<in> (\<lambda>ru. rg_userId (fst ru)) ` set registrations)) (\<lambda>ratings.
         bindS (liftS (map_sum BracketFailure id (seedPlayers (players_of registrations ratings)))) (\<lambda>seededPlayers.
         bindS (liftS (map_sum BracketFailure id (generateFirstRound seededPlayers (Fin (of_nat (tn_bracketSize t))))))
           (\<lambda>firstRoundPairings.
             thenS (store_bracket env (tn_id t) seededPlayers
                 (buildBracketStructure uuid seededPlayers (tn_bracketSize t) firstRoundPairings))
               (thenS (enqueueTournamentStartedNotifications env (tn_id t) (tn_name t) registrations)
                 (ret Generated))))))"

definition processGenerateBracket ::
  "'s app_env \<Rightarrow> JobRunnerConfig \<Rightarrow> (nat \<Rightarrow> nat \<Rightarrow> string) \<Rightarrow> string \<Rightarrow> string \<Rightarrow> ('s, app_exn, GenerateBracketResult) eff" where
  "processGenerateBracket env cfg uuid lockUuid tid =
     bindS (findUnique (a_tournament env) (\<lambda>t. tn_id t = tid)) (\<lambda>found.
       case found of
         None \<Rightarrow> raise (UnrecoverableError ''tournament not found'')
       | Some t \<Rightarrow> bindS (registrations_of env tid) (\<lambda>registrations.
           if tn_status t \<noteq> TInProgress then raise (UnrecoverableError ''tournament is not in progress'')
           else bindS (countRows (a_tournamentMatch env) (\<lambda>m. tm_tournamentId m = tn_id t)) (\<lambda>existingMatches.
             if existingMatches > 0
             then thenS (enqueueTournamentStartedNotifications env (tn_id t) (tn_name t) registrations) (ret AlreadyGenerated)
             else let key = generate_bracket_lockKey cfg (tn_id t); token = lock_token cfg lockUuid in
               with_lock (acquire_lock env key GENERATE_BRACKET_LOCK_TTL_SECONDS token) (release_lock env key token)
                 (raise (JobError ''generate-bracket lock not acquired''))
                 (generate_locked env uuid t registrations))))"

text \<open>\<open>generate-bracket.processor.ts\<close>: the name of the job and its payload.\<close>

definition generateBracketProcessor ::
  "'s app_env \<Rightarrow> JobRunnerConfig \<Rightarrow> (string \<Rightarrow> bool) \<Rightarrow> (nat \<Rightarrow> nat \<Rightarrow> string) \<Rightarrow> string \<Rightarrow> app_job \<Rightarrow> ('s, app_exn, unit) eff" where
  "generateBracketProcessor env cfg valid_uuid uuid lockUuid job =
     (if aj_name job \<noteq> ''generate-bracket'' then raise (UnrecoverableError ''unsupported job name on tournaments'')
      else case aj_data job of
        GenerateBracket tid \<Rightarrow>
          if valid_uuid tid then thenS (processGenerateBracket env cfg uuid lockUuid tid) (ret ())
          else raise (UnrecoverableError ''invalid generate-bracket job payload'')
      | _ \<Rightarrow> raise (UnrecoverableError ''invalid generate-bracket job payload''))"

subsection \<open>tournament-match-ready.service.ts\<close>

record TournamentMatchReadyInput =
  mr_tournamentMatchId :: string
  mr_tournamentName :: string
  mr_slotA :: user_row
  mr_slotB :: user_row

definition notifyPlayersMatchReady :: "'s app_env \<Rightarrow> TournamentMatchReadyInput \<Rightarrow> ('s, app_exn, unit) eff" where
  "notifyPlayersMatchReady env i =
     (let a = mr_slotA i; b = mr_slotB i in
      thenS (allS
        [enqueueTournamentMatchReadyMail env (mr_tournamentMatchId i) (us_id a) (us_email a)
           (sanitizeForTemplate (us_displayName a)) (sanitizeForTemplate (us_displayName b)) (mr_tournamentName i),
         enqueueTournamentMatchReadyMail env (mr_tournamentMatchId i) (us_id b) (us_email b)
           (sanitizeForTemplate (us_displayName b)) (sanitizeForTemplate (us_displayName a)) (mr_tournamentName i)])
        (ret ()))"

subsection \<open>tournament-progression.service.ts\<close>

datatype TournamentProgressionResult =
  NotTournamentMatch | NoWinner | AlreadyAdvanced | Advanced | TournamentIsCompleted

record ProcessMatchEndedInput =
  pm_matchId :: string
  pm_winnerId :: "string option"
  pm_tournamentMatchId :: "string option"

text \<open>The match and, by its foreign key, its tournament.\<close>

definition with_tournament ::
  "'s app_env \<Rightarrow> tmatch_row option \<Rightarrow> ('s, app_exn, (tmatch_row \<times> tournament_row) option) eff" where
  "with_tournament env found =
     (case found of
        None \<Rightarrow> ret None
      | Some m \<Rightarrow> bindS (findUnique (a_tournament env) (\<lambda>t. tn_id t = tm_tournamentId m)) (\<lambda>t.
          ret (map_option (Pair m) t)))"

definition findTournamentMatch ::
  "'s app_env \<Rightarrow> ProcessMatchEndedInput \<Rightarrow> ('s, app_exn, (tmatch_row \<times> tournament_row) option) eff" where
  "findTournamentMatch env input =
     (let by_match = bindS (findFirst (a_tournamentMatch env) (\<lambda>m. tm_matchId m = Some (pm_matchId input)) (\<lambda>_. []))
            (with_tournament env)
      in if truthy (pm_tournamentMatchId input)
         then bindS (bindS (findUnique (a_tournamentMatch env) (\<lambda>m. Some (tm_id m) = pm_tournamentMatchId input))
                (with_tournament env)) (\<lambda>byId. case byId of Some r \<Rightarrow> ret (Some r) | None \<Rightarrow> by_match)
         else by_match)"

definition resolveWinnerSlot :: "tmatch_row \<Rightarrow> string \<Rightarrow> WinnerSlot option" where
  "resolveWinnerSlot m winner =
     (if tm_slotAId m = Some winner then Some Slot_a
      else if tm_slotBId m = Some winner then Some Slot_b else None)"

definition enqueueTournamentCompletedNotification ::
  "'s app_env \<Rightarrow> string \<Rightarrow> string \<Rightarrow> string \<Rightarrow> ('s, app_exn, unit) eff" where
  "enqueueTournamentCompletedNotification env tid tname winner =
     bindS (findUnique (a_user env) (\<lambda>u. us_id u = winner)) (\<lambda>user.
       case user of
         None \<Rightarrow> ret ()
       | Some u \<Rightarrow> enqueueTournamentCompletedMail env tid winner (us_email u)
           (sanitizeForTemplate (us_displayName u)) tname)"

definition completeTournament ::
  "'s app_env \<Rightarrow> tmatch_row \<Rightarrow> tournament_row \<Rightarrow> WinnerSlot \<Rightarrow> string \<Rightarrow> ('s, app_exn, TournamentProgressionResult) eff" where
  "completeTournament env m t slot winner =
     thenS (transaction env
         (thenS (updateRow (a_tournamentMatch env) (\<lambda>x. tm_id x = tm_id m) (\<lambda>x. x\<lparr>tm_winnerSlot := Some slot\<rparr>))
         (bindS (a_now env) (\<lambda>now.
            updateRow (a_tournament env) (\<lambda>x. tn_id x = tm_tournamentId m)
              (\<lambda>x. x\<lparr>tn_winnerId := Some winner, tn_status := TCompleted, tn_endedAt := Some now\<rparr>)))))
       (thenS (enqueueTournamentCompletedNotification env (tm_tournamentId m) (tn_name t) winner)
         (ret TournamentIsCompleted))"

fun apply_slot :: "slot_update \<Rightarrow> tmatch_row \<Rightarrow> tmatch_row" where
  "apply_slot (SetSlotA w) m = m\<lparr>tm_slotAId := Some w\<rparr>"
| "apply_slot (SetSlotB w) m = m\<lparr>tm_slotBId := Some w\<rparr>"

definition notifyReadyMatch :: "'s app_env \<Rightarrow> string \<Rightarrow> string \<Rightarrow> ('s, app_exn, unit) eff" where
  "notifyReadyMatch env tmid tname =
     bindS (findUnique (a_tournamentMatch env) (\<lambda>m. tm_id m = tmid)) (\<lambda>ready.
       case ready of
         None \<Rightarrow> ret ()
       | Some m \<Rightarrow>
           bindS (findUnique (a_user env) (\<lambda>u. Some (us_id u) = tm_slotAId m)) (\<lambda>slotA.
           bindS (findUnique (a_user env) (\<lambda>u. Some (us_id u) = tm_slotBId m)) (\<lambda>slotB.
             case slotA of None \<Rightarrow> ret () | Some a \<Rightarrow> (case slotB of None \<Rightarrow> ret () | Some b \<Rightarrow>
               notifyPlayersMatchReady env \<lparr>mr_tournamentMatchId = tm_id m, mr_tournamentName = tname,
                 mr_slotA = a, mr_slotB = b\<rparr>))))"

text \<open>The transaction that records the winner and fills a slot of the parent.\<close>

definition advance_body ::
  "'s app_env \<Rightarrow> tmatch_row \<Rightarrow> WinnerSlot \<Rightarrow> string \<Rightarrow> ('s, app_exn, string option) eff" where
  "advance_body env m slot winner =
     thenS (updateRow (a_tournamentMatch env) (\<lambda>x. tm_id x = tm_id m) (\<lambda>x. x\<lparr>tm_winnerSlot := Some slot\<rparr>))
       (bindS (findUnique (a_tournamentMatch env) (\<lambda>x. Some (tm_id x) = tm_nextMatchId m)) (\<lambda>parentMatch.
         case parentMatch of
           None \<Rightarrow> raise (JobError ''next tournament match not found'')
         | Some parent \<Rightarrow>
             (case resolveFeederTargetSlotUpdate (tm_positionIndex m) (tm_slotAId parent) (tm_slotBId parent) winner of
                None \<Rightarrow> ret None
              | Some su \<Rightarrow> bindS (updateRow (a_tournamentMatch env) (\<lambda>x. tm_id x = tm_id parent) (apply_slot su))
                  (\<lambda>updatedParent.
                    if \<not> truthy (tm_slotAId updatedParent) \<or> \<not> truthy (tm_slotBId updatedParent) \<or>
                       truthy (tm_matchId updatedParent) \<or> tm_winnerSlot updatedParent \<noteq> None
                    then ret None else ret (Some (tm_id updatedParent))))))"

definition advanceTournamentWinner ::
  "'s app_env \<Rightarrow> tmatch_row \<Rightarrow> tournament_row \<Rightarrow> WinnerSlot \<Rightarrow> string \<Rightarrow> ('s, app_exn, TournamentProgressionResult) eff" where
  "advanceTournamentWinner env m t slot winner =
     bindS (transaction env (advance_body env m slot winner)) (\<lambda>readyMatch.
       thenS (case readyMatch of
           Some r \<Rightarrow> if r = [] then ret () else notifyReadyMatch env r (tn_name t)
         | None \<Rightarrow> ret ())
         (ret Advanced))"

definition processMatchEnded ::
  "'s app_env \<Rightarrow> ProcessMatchEndedInput \<Rightarrow> ('s, app_exn, TournamentProgressionResult) eff" where
  "processMatchEnded env input =
     (if \<not> truthy (pm_winnerId input) then ret NoWinner
      else bindS (findTournamentMatch env input) (\<lambda>found.
        case found of
          None \<Rightarrow> ret NotTournamentMatch
        | Some mt \<Rightarrow>
            (let m = fst mt; t = snd mt; winner = the (pm_winnerId input) in
             if tm_winnerSlot m \<noteq> None then ret AlreadyAdvanced
             else case resolveWinnerSlot m winner of
               None \<Rightarrow> ret NotTournamentMatch
             | Some slot \<Rightarrow>
                 if \<not> truthy (tm_nextMatchId m) then completeTournament env m t slot winner
                 else advanceTournamentWinner env m t slot winner)))"

subsection \<open>The handlers run as documented\<close>

lemma sim_case_job_data:
  assumes "\<And>tid. sim view (f tid) (f' tid)"
  shows "sim view (case x of GenerateBracket tid \<Rightarrow> f tid | _ \<Rightarrow> raise e)
    (case x of GenerateBracket tid \<Rightarrow> f' tid | _ \<Rightarrow> raise e)"
  using assms by (cases x) (simp_all add: sim_raise)

context app_service
begin

lemma sim_generate_bracket [sim_rules]:
  "sim view (registrations_of env tid) (registrations_of mem_app tid)"
  "sim view (enqueueTournamentStartedNotifications env tid n regs) (enqueueTournamentStartedNotifications mem_app tid n regs)"
  "sim view (store_bracket env tid sp built) (store_bracket mem_app tid sp built)"
  unfolding registrations_of_def enqueueTournamentStartedNotifications_def store_bracket_def
  by (intro sim_rules)+

lemma sim_generate_locked [sim_rules]:
  "sim view (generate_locked env uuid t regs) (generate_locked mem_app uuid t regs)"
  unfolding generate_locked_def by (intro sim_rules)

lemma sim_processGenerateBracket [sim_rules]:
  "sim view (processGenerateBracket env cfg uuid lu tid) (processGenerateBracket mem_app cfg uuid lu tid)"
  unfolding processGenerateBracket_def Let_def by (intro sim_rules)

lemma sim_generateBracketProcessor [sim_rules]:
  "sim view (generateBracketProcessor env cfg vu uuid lu job) (generateBracketProcessor mem_app cfg vu uuid lu job)"
  unfolding generateBracketProcessor_def by (intro sim_rules sim_case_job_data)

lemma sim_progression [sim_rules]:
  "sim view (notifyPlayersMatchReady env i) (notifyPlayersMatchReady mem_app i)"
  "sim view (with_tournament env found) (with_tournament mem_app found)"
  "sim view (findTournamentMatch env input) (findTournamentMatch mem_app input)"
  "sim view (enqueueTournamentCompletedNotification env tid n w) (enqueueTournamentCompletedNotification mem_app tid n w)"
  unfolding notifyPlayersMatchReady_def with_tournament_def findTournamentMatch_def
    enqueueTournamentCompletedNotification_def Let_def by (intro sim_rules)+

lemma sim_advance [sim_rules]:
  "sim view (completeTournament env m t s w) (completeTournament mem_app m t s w)"
  "sim view (notifyReadyMatch env i n) (notifyReadyMatch mem_app i n)"
  "sim view (advance_body env m s w) (advance_body mem_app m s w)"
  "sim view (advanceTournamentWinner env m t s w) (advanceTournamentWinner mem_app m t s w)"
  unfolding completeTournament_def notifyReadyMatch_def advance_body_def advanceTournamentWinner_def
  by (intro sim_rules)+

lemma sim_processMatchEnded [sim_rules]: "sim view (processMatchEnded env input) (processMatchEnded mem_app input)"
  unfolding processMatchEnded_def Let_def by (intro sim_rules)

end

end
