(* ===== verification/Match_Persistence.thy ===== *)
theory Match_Persistence
  imports Tournament_Jobs
begin

section \<open>apps/job-runner: persisting the result of a match\<close>

text \<open>
  \<open>match-events/match-ended.types.ts\<close> and \<open>match-ended.processor.ts\<close>,
  \<open>persistence/match-persistence.service.ts\<close> and \<open>redis/redis-invalidation.service.ts\<close>: a job of
  the queue \<open>match-events\<close> is checked, the match, its rounds, the ratings and their history are
  written in one transaction, the leaderboard is invalidated and the tournament, if any, goes on.
\<close>

subsection \<open>The payload\<close>

record MatchEndedPayload =
  me_matchId :: string
  me_players :: "MatchPlayer \<times> MatchPlayer"
  me_rounds :: "ResolvedRound list"
  me_winner :: "string option"
  me_finalScore :: "nat \<times> nat"
  me_startedAt :: time
  me_tournamentMatchId :: "string option"

text \<open>\<open>matchEndedPayloadSchema\<close>, on values that already have the types of the fields.\<close>

definition match_ended_schema :: "(string \<Rightarrow> bool) \<Rightarrow> MatchEndedPayload \<Rightarrow> bool" where
  "match_ended_schema valid_uuid p \<longleftrightarrow>
     valid_uuid (me_matchId p) \<and>
     (case me_tournamentMatchId p of None \<Rightarrow> True | Some t \<Rightarrow> valid_uuid t) \<and>
     valid_uuid (mp_userId (fst (me_players p))) \<and> valid_uuid (mp_userId (snd (me_players p))) \<and>
     list_all (\<lambda>r. 0 < rr_roundNumber r) (me_rounds p) \<and>
     (case me_winner p of None \<Rightarrow> True | Some w \<Rightarrow> valid_uuid w) \<and>
     (me_winner p = None \<or> me_winner p = Some (mp_userId (fst (me_players p))) \<or>
      me_winner p = Some (mp_userId (snd (me_players p))))"

subsection \<open>match-persistence.service.ts\<close>

datatype MatchPersistenceResult = Created | AlreadyExists

definition DEFAULT_ELO_RATING :: int where "DEFAULT_ELO_RATING = 1000"
definition DEFAULT_GAMES_PLAYED :: int where "DEFAULT_GAMES_PLAYED = 0"

definition findOrCreateRating :: "'s app_env \<Rightarrow> string \<Rightarrow> ('s, app_exn, elo_row) eff" where
  "findOrCreateRating env userId = upsertRow (a_eloRating env) (\<lambda>e. er_userId e = userId)
     \<lparr>er_userId = userId, er_rating = DEFAULT_ELO_RATING, er_gamesPlayed = DEFAULT_GAMES_PLAYED, er_updatedAt = 0\<rparr>"

definition payload_outcome :: "MatchEndedPayload \<Rightarrow> string" where
  "payload_outcome p =
     (if me_winner p = Some (mp_userId (fst (me_players p))) then ''A''
      else if me_winner p = Some (mp_userId (snd (me_players p))) then ''B'' else ''DRAW'')"

definition getEndedAt :: "MatchEndedPayload \<Rightarrow> time \<Rightarrow> time" where
  "getEndedAt p now = (if me_rounds p = [] then now else rr_resolvedAt (last (me_rounds p)))"

definition match_of :: "MatchEndedPayload \<Rightarrow> time \<Rightarrow> match_row" where
  "match_of p now = \<lparr>mt_id = me_matchId p, mt_playerAId = mp_userId (fst (me_players p)),
     mt_playerBId = mp_userId (snd (me_players p)), mt_winnerId = me_winner p, mt_scoreA = fst (me_finalScore p),
     mt_scoreB = snd (me_finalScore p), mt_startedAt = me_startedAt p, mt_endedAt = Some (getEndedAt p now),
     mt_status = MatchEnded\<rparr>"

definition round_of :: "string \<Rightarrow> ResolvedRound \<Rightarrow> round_row" where
  "round_of mid r = \<lparr>rw_matchId = mid, rw_roundNumber = rr_roundNumber r, rw_moveA = rr_moveA r,
     rw_moveB = rr_moveB r, rw_commitA = None, rw_commitB = None, rw_nonceA = None,
     rw_nonceB = None, rw_winner = rr_winner r, rw_resolvedAt = rr_resolvedAt r\<rparr>"

definition history_of :: "string \<Rightarrow> string \<Rightarrow> int \<Rightarrow> int \<Rightarrow> int \<Rightarrow> history_row" where
  "history_of userId mid before after delta = \<lparr>eh_userId = userId, eh_matchId = mid, eh_ratingBefore = before,
     eh_ratingAfter = after, eh_delta = delta, eh_createdAt = 0\<rparr>"

definition rate_player :: "'s app_env \<Rightarrow> string \<Rightarrow> int \<Rightarrow> ('s, app_exn, unit) eff" where
  "rate_player env userId new = thenS (updateRow (a_eloRating env) (\<lambda>e. er_userId e = userId)
     (\<lambda>e. e\<lparr>er_rating := new, er_gamesPlayed := er_gamesPlayed e + 1\<rparr>)) (ret ())"

text \<open>A number in an \<open>Int\<close> column; the new ratings are integers, since the stored ones are.\<close>

definition int_column :: "real \<Rightarrow> int" where
  "int_column r = \<lfloor>r\<rfloor>"

text \<open>The link of the match to its tournament match, which must still be free.\<close>

definition link_tournament :: "'s app_env \<Rightarrow> MatchEndedPayload \<Rightarrow> ('s, app_exn, unit) eff" where
  "link_tournament env p =
     (if truthy (me_tournamentMatchId p)
      then bindS (updateMany (a_tournamentMatch env)
             (\<lambda>m. Some (tm_id m) = me_tournamentMatchId p \<and> tm_matchId m = None)
             (\<lambda>m. m\<lparr>tm_matchId := Some (me_matchId p)\<rparr>)) (\<lambda>linked.
           if linked = 0 then raise (JobError ''TournamentMatchLinkConflictError'') else ret ())
      else ret ())"

text \<open>The rows of one match: after both checks.\<close>

definition write_match :: "'s app_env \<Rightarrow> MatchEndedPayload \<Rightarrow> ('s, app_exn, MatchPersistenceResult) eff" where
  "write_match env p =
     (let a = mp_userId (fst (me_players p)); b = mp_userId (snd (me_players p)) in
      bindS (allS [findOrCreateRating env a, findOrCreateRating env b]) (\<lambda>ratings.
      let ra = ratings ! 0; rb = ratings ! 1 in
      bindS (liftS (map_sum EloFailure id (computeElo (Fin (of_int (er_rating ra))) (Fin (of_int (er_rating rb)))
          (payload_outcome p) (Fin (of_int (er_gamesPlayed ra))) (Fin (of_int (er_gamesPlayed rb)))))) (\<lambda>elo.
      bindS (a_now env) (\<lambda>now.
      thenS (createMany (a_match env) [match_of p now])
      (thenS (link_tournament env p)
      (thenS (forS (me_rounds p) (\<lambda>r. thenS (upsertRow (a_round env)
          (\<lambda>x. rw_matchId x = me_matchId p \<and> rw_roundNumber x = rr_roundNumber r) (round_of (me_matchId p) r)) (ret ())))
      (thenS (allS
        [rate_player env a (int_column (newRatingA elo)),
         rate_player env b (int_column (newRatingB elo)),
         createMany (a_eloHistory env)
           [history_of a (me_matchId p) (er_rating ra) (int_column (newRatingA elo)) (deltaA elo),
            history_of b (me_matchId p) (er_rating rb) (int_column (newRatingB elo)) (deltaB elo)]])
        (ret Created))))))))"

definition persist_body :: "'s app_env \<Rightarrow> MatchEndedPayload \<Rightarrow> ('s, app_exn, MatchPersistenceResult) eff" where
  "persist_body env p =
     bindS (findUnique (a_match env) (\<lambda>m. mt_id m = me_matchId p)) (\<lambda>existing.
       if existing \<noteq> None then ret AlreadyExists
       else bindS (if truthy (me_tournamentMatchId p)
              then findUnique (a_tournamentMatch env) (\<lambda>m. Some (tm_id m) = me_tournamentMatchId p)
              else ret None) (\<lambda>tournamentMatch.
            case tournamentMatch of
              None \<Rightarrow> write_match env p
            | Some m \<Rightarrow> if truthy (tm_matchId m) then ret AlreadyExists else write_match env p))"

definition isUniqueMatchConflict :: "app_exn \<Rightarrow> bool" where
  "isUniqueMatchConflict e \<longleftrightarrow> e = DbEx UniqueViolation"

definition persistMatchEnded :: "'s app_env \<Rightarrow> MatchEndedPayload \<Rightarrow> ('s, app_exn, MatchPersistenceResult) eff" where
  "persistMatchEnded env p = catchS (transaction env (persist_body env p))
     (\<lambda>e. if isUniqueMatchConflict e then ret AlreadyExists else raise e)"

subsection \<open>redis-invalidation.service.ts and match-ended.processor.ts\<close>

definition LEADERBOARD_INVALIDATE_CHANNEL :: string where
  "LEADERBOARD_INVALIDATE_CHANNEL = ''leaderboard:invalidate''"

definition invalidateLeaderboard :: "'s app_env \<Rightarrow> ('s, app_exn, unit) eff" where
  "invalidateLeaderboard env = a_publish env LEADERBOARD_INVALIDATE_CHANNEL ''*''"

text \<open>A job: its name, and its data if they have the types of the payload.\<close>

definition matchEndedProcessor ::
  "'s app_env \<Rightarrow> (string \<Rightarrow> bool) \<Rightarrow> string \<Rightarrow> MatchEndedPayload option \<Rightarrow> ('s, app_exn, unit) eff" where
  "matchEndedProcessor env valid_uuid name data =
     (if name \<noteq> ''match-ended'' then raise (UnrecoverableError ''unsupported job name on match-events'')
      else case data of
        None \<Rightarrow> raise (UnrecoverableError ''invalid match-ended job payload'')
      | Some p \<Rightarrow>
          if \<not> match_ended_schema valid_uuid p then raise (UnrecoverableError ''invalid match-ended job payload'')
          else bindS (persistMatchEnded env p) (\<lambda>persistenceStatus.
            thenS (if persistenceStatus = Created \<or> persistenceStatus = AlreadyExists
                then invalidateLeaderboard env else ret ())
              (thenS (processMatchEnded env \<lparr>pm_matchId = me_matchId p, pm_winnerId = me_winner p,
                  pm_tournamentMatchId = me_tournamentMatchId p\<rparr>) (ret ()))))"

context app_service
begin

lemma sim_persistence_parts [sim_rules]:
  "sim view (findOrCreateRating env u) (findOrCreateRating mem_app u)"
  "sim view (rate_player env u r) (rate_player mem_app u r)"
  "sim view (link_tournament env p) (link_tournament mem_app p)"
  "sim view (invalidateLeaderboard env) (invalidateLeaderboard mem_app)"
  unfolding findOrCreateRating_def rate_player_def link_tournament_def invalidateLeaderboard_def
  by (intro sim_rules)+

lemma sim_write_match [sim_rules]: "sim view (write_match env p) (write_match mem_app p)"
  unfolding write_match_def Let_def by (intro sim_rules)

lemma sim_persistMatchEnded [sim_rules]: "sim view (persistMatchEnded env p) (persistMatchEnded mem_app p)"
  unfolding persistMatchEnded_def persist_body_def by (intro sim_rules)

lemma sim_matchEndedProcessor [sim_rules]:
  "sim view (matchEndedProcessor env vu n d) (matchEndedProcessor mem_app vu n d)"
  unfolding matchEndedProcessor_def by (intro sim_rules)

end

end
