(* ===== verification/App_Runs.thy ===== *)
theory App_Runs
  imports Season_Reset
begin

section \<open>Runs of the job runner: calls that fail, and transactions\<close>

text \<open>
  What the theorems about jobs share. \<open>db_effect m\<close>: the effect \<open>m\<close> only touches the database, and
  unless a call fails it does what it does when no call fails. It is closed under the combinators, and
  a transaction that throws leaves the database as it was. So a job that is retried until it returns
  has the effect of one run without failures.
\<close>

named_theorems effect_rules \<open>introduction rules that prove an effect to be confined to the database\<close>

definition calm :: "app_world \<Rightarrow> app_world" where
  "calm w = w\<lparr>w_outages := []\<rparr>"

definition frame :: "app_world \<Rightarrow> app_world \<Rightarrow> bool" where
  "frame w w' \<longleftrightarrow> w_saved w' = w_saved w \<and> w_keys w' = w_keys w \<and> w_jobs w' = w_jobs w \<and>
     w_published w' = w_published w"

definition outage :: "app_exn \<Rightarrow> bool" where
  "outage e \<longleftrightarrow> e = DbEx DbUnavailable \<or> e = CacheEx RedisUnavailable \<or> e = QueueEx"

text \<open>\<open>undisturbed r w' c\<close>: the run that gave \<open>(r, w')\<close> was hit by an outage, or it agrees with \<open>c\<close>.\<close>

definition undisturbed :: "app_exn + 'a \<Rightarrow> app_world \<Rightarrow> (app_exn + 'a) \<times> app_world \<Rightarrow> bool" where
  "undisturbed r w' c \<longleftrightarrow> (\<exists>e. r = Inl e \<and> outage e) \<or>
     r = fst c \<and> ((\<exists>x. r = Inr x) \<longrightarrow> calm w' = snd c)"

definition db_effect :: "(app_world, app_exn, 'a) eff \<Rightarrow> bool" where
  "db_effect m \<longleftrightarrow> (\<forall>w. frame w (snd (m w)) \<and> w_outages (snd (m (calm w))) = [] \<and>
     undisturbed (fst (m w)) (snd (m w)) (m (calm w)))"

lemma calm_simps [simp]: "calm (calm w) = calm w" "w_outages (calm w) = []" "w_db (calm w) = w_db w"
  "w_saved (calm w) = w_saved w" "w_keys (calm w) = w_keys w" "w_jobs (calm w) = w_jobs w"
  by (simp_all add: calm_def)

lemma frame_refl [simp]: "frame w w" "frame w (calm w)" "frame w (w\<lparr>w_outages := os\<rparr>)" "frame w (w\<lparr>w_db := d\<rparr>)"
  by (simp_all add: frame_def calm_def)

lemma frame_trans: "frame w w' \<Longrightarrow> frame w' w'' \<Longrightarrow> frame w w''"
  by (simp add: frame_def)

lemma calm_idle: "w_outages w = [] \<Longrightarrow> calm w = w"
  by (simp add: calm_def)

lemma db_effectD:
  assumes "db_effect m"
  shows "frame w (snd (m w))" and "w_outages w = [] \<Longrightarrow> w_outages (snd (m w)) = []"
    and "fst (m w) = Inr x \<Longrightarrow> m (calm w) = (Inr x, calm (snd (m w)))"
    and "fst (m w) = Inl e \<Longrightarrow> outage e \<or> fst (m (calm w)) = Inl e"
proof -
  show "frame w (snd (m w))" using assms by (simp add: db_effect_def)
  show "w_outages (snd (m w)) = []" if "w_outages w = []"
    using assms calm_idle [OF that] unfolding db_effect_def by metis
  have u: "undisturbed (fst (m w)) (snd (m w)) (m (calm w))" using assms by (simp add: db_effect_def)
  show "m (calm w) = (Inr x, calm (snd (m w)))" if "fst (m w) = Inr x"
    using u that by (simp add: undisturbed_def prod_eq_iff)
  show "outage e \<or> fst (m (calm w)) = Inl e" if "fst (m w) = Inl e"
    using u that by (auto simp: undisturbed_def)
qed

lemma effect_ret [effect_rules]: "db_effect (ret a)"
  by (simp add: db_effect_def ret_def undisturbed_def)

lemma effect_raise [effect_rules]: "db_effect (raise e)"
  by (simp add: db_effect_def raise_def undisturbed_def)

lemma effect_liftS [effect_rules]: "db_effect (liftS r)"
  by (cases r) (simp_all add: liftS_def effect_ret effect_raise)

lemma effect_bindS [effect_rules]:
  assumes m: "db_effect m" and f: "\<And>a. db_effect (f a)"
  shows "db_effect (bindS m f)"
  unfolding db_effect_def
proof (intro allI conjI)
  fix w
  obtain r w1 where mw: "m w = (r, w1)" by fastforce
  obtain rc wc where mc: "m (calm w) = (rc, wc)" by fastforce
  have fw: "frame w w1" using db_effectD(1) [OF m, of w] mw by simp
  show "frame w (snd (bindS m f w))"
    using db_effectD(1) [OF f] frame_trans [OF fw] fw by (simp add: bindS_def mw split: sum.split)
  have oc: "w_outages wc = []" using db_effectD(2) [OF m, of "calm w"] mc by simp
  then show "w_outages (snd (bindS m f (calm w))) = []"
    using db_effectD(2) [OF f] by (simp add: bindS_def mc split: sum.split)
  show "undisturbed (fst (bindS m f w)) (snd (bindS m f w)) (bindS m f (calm w))"
  proof (cases r)
    case (Inl e)
    then show ?thesis
      using db_effectD(4) [OF m, of w e] by (auto simp: bindS_def mw mc undisturbed_def)
  next
    case (Inr a)
    then have "rc = Inr a" "wc = calm w1" using db_effectD(3) [OF m, of w a] mw mc by simp_all
    with Inr f [of a] show ?thesis by (auto simp: bindS_def mw mc db_effect_def)
  qed
qed

lemma effect_thenS [effect_rules]: "db_effect m \<Longrightarrow> db_effect k \<Longrightarrow> db_effect (thenS m k)"
  unfolding thenS_def by (rule effect_bindS)

lemma effect_allS_Nil [effect_rules]: "db_effect (allS [])"
  by (simp add: effect_ret)

lemma allS_Cons_result:
  "fst (allS (m # ms) w) = (case fst (m w) of Inl e \<Rightarrow> Inl e | Inr a \<Rightarrow>
     (case fst (allS ms (snd (m w))) of Inl e \<Rightarrow> Inl e | Inr as \<Rightarrow> Inr (a # as)))"
  "snd (allS (m # ms) w) = snd (allS ms (snd (m w)))"
  by (simp_all split: prod.split sum.split)

lemma effect_allS_Cons [effect_rules]:
  assumes m: "db_effect m" and ms: "db_effect (allS ms)"
  shows "db_effect (allS (m # ms))"
  unfolding db_effect_def
proof (intro allI conjI)
  fix w
  show "frame w (snd (allS (m # ms) w))"
    unfolding allS_Cons_result using db_effectD(1) [OF m] db_effectD(1) [OF ms] frame_trans by blast
  show "w_outages (snd (allS (m # ms) (calm w))) = []"
    unfolding allS_Cons_result using db_effectD(2) [OF m] db_effectD(2) [OF ms] by simp
  show "undisturbed (fst (allS (m # ms) w)) (snd (allS (m # ms) w)) (allS (m # ms) (calm w))"
  proof (cases "fst (m w)")
    case (Inl e)
    with db_effectD(4) [OF m Inl] show ?thesis
      unfolding undisturbed_def allS_Cons_result by auto
  next
    case (Inr a)
    have c: "m (calm w) = (Inr a, calm (snd (m w)))" by (rule db_effectD(3) [OF m Inr])
    show ?thesis
    proof (cases "fst (allS ms (snd (m w)))")
      case (Inl e)
      with db_effectD(4) [OF ms Inl] \<open>fst (m w) = Inr a\<close> c show ?thesis
        unfolding undisturbed_def allS_Cons_result by auto
    next
      case (Inr as)
      with db_effectD(3) [OF ms Inr] \<open>fst (m w) = Inr a\<close> c show ?thesis
        unfolding undisturbed_def allS_Cons_result by simp
    qed
  qed
qed

lemma effect_allS_map [effect_rules]: "(\<And>x. db_effect (f x)) \<Longrightarrow> db_effect (allS (map f xs))"
  by (induction xs) (simp_all add: effect_ret effect_allS_Cons del: allS.simps(2))

lemma effect_forS [effect_rules]: "(\<And>x. db_effect (f x)) \<Longrightarrow> db_effect (forS xs f)"
  by (induction xs) (auto intro: effect_ret effect_bindS)

lemma effect_if [effect_rules]: "(b \<Longrightarrow> db_effect m) \<Longrightarrow> (\<not> b \<Longrightarrow> db_effect k) \<Longrightarrow> db_effect (if b then m else k)"
  by simp

lemma effect_case_option [effect_rules]:
  "db_effect m \<Longrightarrow> (\<And>a. db_effect (f a)) \<Longrightarrow> db_effect (case x of None \<Rightarrow> m | Some a \<Rightarrow> f a)"
  by (cases x) simp_all

lemma effect_case_list [effect_rules]:
  "db_effect m \<Longrightarrow> (\<And>a as. db_effect (f a as)) \<Longrightarrow> db_effect (case x of [] \<Rightarrow> m | a # as \<Rightarrow> f a as)"
  by (cases x) simp_all

lemma effect_case_sum [effect_rules]:
  "(\<And>a. db_effect (f a)) \<Longrightarrow> (\<And>a. db_effect (g a)) \<Longrightarrow> db_effect (case x of Inl a \<Rightarrow> f a | Inr a \<Rightarrow> g a)"
  by (cases x) simp_all

lemma effect_app_call:
  assumes "\<And>w os. f (w\<lparr>w_outages := os\<rparr>) = (fst (f w), (snd (f w))\<lparr>w_outages := os\<rparr>)"
    and "\<And>w. frame w (snd (f w))" and "outage e"
  shows "db_effect (app_call e f)"
proof -
  have same: "w_outages (snd (f w)) = w_outages w" for w
    using assms(1) [of "w_outages w" w] by (metis app_world.select_convs(6) app_world.surjective app_world.update_convs(6) snd_conv)
  show ?thesis
    using assms(2,3) same
    by (auto simp: db_effect_def app_call_def calm_def undisturbed_def assms(1) frame_def split: list.split bool.split)
qed

subsection \<open>Tables and transactions\<close>

definition table_effects :: "(app_world, 'r) table \<Rightarrow> bool" where
  "table_effects t \<longleftrightarrow> (\<forall>w key n. db_effect (t_find t w key n)) \<and> (\<forall>rows. db_effect (t_create t rows)) \<and>
     (\<forall>w f. db_effect (t_update t w f)) \<and> (\<forall>w. db_effect (t_delete t w))"

lemma table_effects_mem: "table_effects (mem_table rows store unique stamp touch)"
  unfolding table_effects_def mem_table_def table.simps
  by (auto intro!: effect_app_call simp: Let_def outage_def frame_def cong: if_cong)

lemma tables_effects:
  "table_effects (a_user mem_app)" "table_effects (a_eloRating mem_app)" "table_effects (a_match mem_app)"
  "table_effects (a_round mem_app)" "table_effects (a_eloHistory mem_app)" "table_effects (a_league mem_app)"
  "table_effects (a_season mem_app)" "table_effects (a_seasonStanding mem_app)"
  "table_effects (a_tournament mem_app)" "table_effects (a_tournamentRegistration mem_app)"
  "table_effects (a_tournamentMatch mem_app)" "table_effects (a_refreshToken mem_app)"
  "table_effects (a_passwordResetToken mem_app)"
  by (simp_all add: mem_app_def table_effects_mem)

lemma effect_table:
  assumes "table_effects t"
  shows "db_effect (t_find t w key n)" "db_effect (findMany t w)" "db_effect (findFirst t w key)"
    "db_effect (findUnique t w)" "db_effect (countRows t w)" "db_effect (createMany t rows)"
    "db_effect (updateMany t w f)" "db_effect (t_delete t w)" "db_effect (updateRow t w f)" "db_effect (upsertRow t w new)"
  using assms
  unfolding table_effects_def findMany_def findFirst_def findUnique_def countRows_def createMany_def updateMany_def
    updateRow_def upsertRow_def
  by (auto intro!: effect_rules)

lemmas effect_tables [effect_rules] = tables_effects [THEN effect_table(1)] tables_effects [THEN effect_table(2)]
  tables_effects [THEN effect_table(3)] tables_effects [THEN effect_table(4)] tables_effects [THEN effect_table(5)]
  tables_effects [THEN effect_table(6)] tables_effects [THEN effect_table(7)] tables_effects [THEN effect_table(8)]
  tables_effects [THEN effect_table(9)] tables_effects [THEN effect_table(10)]

lemma effect_now [effect_rules]: "db_effect (a_now mem_app)"
  by (simp add: db_effect_def mem_app_def undisturbed_def)

text \<open>The world in which the body of a transaction starts.\<close>

definition opened :: "app_world \<Rightarrow> app_world" where
  "opened w = w\<lparr>w_outages := tl (w_outages w), w_saved := w_db w # w_saved w\<rparr>"

lemma begin_run: "a_begin mem_app w = (if w_outages w \<noteq> [] \<and> hd (w_outages w) then (Inl (DbEx DbUnavailable), w\<lparr>w_outages := tl (w_outages w)\<rparr>) else (Inr (), opened w))"
  by (cases "w_outages w") (simp_all add: mem_app_def app_call_def opened_def split: bool.split)

lemma commit_run: "a_commit mem_app w =
    (if w_outages w \<noteq> [] \<and> hd (w_outages w)
     then (Inl (DbEx DbUnavailable), w\<lparr>w_outages := tl (w_outages w), w_db := hd (w_saved w), w_saved := tl (w_saved w)\<rparr>)
     else (Inr (), w\<lparr>w_outages := tl (w_outages w), w_saved := tl (w_saved w)\<rparr>))"
  by (cases "w_outages w") (simp_all add: mem_app_def app_call_def split: bool.split)

lemma rollback_run: "a_rollback mem_app w = (Inr (), w\<lparr>w_db := hd (w_saved w), w_saved := tl (w_saved w)\<rparr>)"
  by (simp add: mem_app_def)

text \<open>A transaction that does not begin; one whose body throws; one whose body returns.\<close>

lemma transaction_refused: "w_outages w \<noteq> [] \<Longrightarrow> hd (w_outages w) \<Longrightarrow>
    transaction mem_app body w = (Inl (DbEx DbUnavailable), w\<lparr>w_outages := tl (w_outages w)\<rparr>)"
  by (simp add: transaction_def thenS_def bindS_def begin_run)

lemma transaction_throws:
  assumes "w_outages w = [] \<or> \<not> hd (w_outages w)" and "body (opened w) = (Inl e, s)" and "frame (opened w) s"
  shows "transaction mem_app body w = (Inl e, s\<lparr>w_db := w_db w, w_saved := w_saved w\<rparr>)"
  using assms
  by (auto simp: transaction_def thenS_def bindS_def begin_run catchS_def rollback_run raise_def frame_def opened_def)

lemma transaction_returns:
  assumes "w_outages w = [] \<or> \<not> hd (w_outages w)" and "body (opened w) = (Inr r, s)" and "frame (opened w) s"
  shows "transaction mem_app body w =
    (if w_outages s \<noteq> [] \<and> hd (w_outages s)
     then (Inl (DbEx DbUnavailable), s\<lparr>w_outages := tl (w_outages s), w_db := w_db w, w_saved := w_saved w\<rparr>)
     else (Inr r, s\<lparr>w_outages := tl (w_outages s), w_saved := w_saved w\<rparr>))"
  using assms
  by (auto simp: transaction_def thenS_def bindS_def begin_run catchS_def commit_run ret_def frame_def opened_def)

lemma opened_calm: "calm (opened w) = opened (calm w)"
  by (simp add: calm_def opened_def)

text \<open>A transaction is an effect on the database, and it has none when it throws.\<close>

lemma transaction_atomic:
  assumes body: "db_effect body" and throws: "fst (transaction mem_app body w) = Inl e"
  shows "w_db (snd (transaction mem_app body w)) = w_db w"
proof (cases "w_outages w \<noteq> [] \<and> hd (w_outages w)")
  case False
  obtain r s where run: "body (opened w) = (r, s)" by fastforce
  have f: "frame (opened w) s" using db_effectD(1) [OF body, of "opened w"] run by simp
  show ?thesis
    using False throws transaction_throws [OF _ _ f, of body] transaction_returns [OF _ _ f, of body] run
    by (cases r) (auto split: if_splits)
qed (simp add: transaction_refused)

lemma effect_transaction [effect_rules]:
  assumes body: "db_effect body"
  shows "db_effect (transaction mem_app body)"
  unfolding db_effect_def
proof (intro allI conjI)
  fix w
  obtain r s where run: "body (opened w) = (r, s)" by fastforce
  obtain rc sc where calm_run: "body (opened (calm w)) = (rc, sc)" by fastforce
  have f: "frame (opened w) s" using db_effectD(1) [OF body, of "opened w"] run by simp
  have fc: "frame (opened (calm w)) sc" using db_effectD(1) [OF body, of "opened (calm w)"] calm_run by simp
  have oc: "w_outages sc = []" using db_effectD(2) [OF body, of "opened (calm w)"] calm_run by (simp add: opened_def)
  note runs = transaction_refused [of w body] transaction_throws [OF _ _ f, of body]
    transaction_returns [OF _ _ f, of body] transaction_throws [OF _ _ fc, of body] transaction_returns [OF _ _ fc, of body]
  show "w_outages (snd (transaction mem_app body (calm w))) = []"
    using runs(4,5) calm_run oc by (cases rc) auto
  show "frame w (snd (transaction mem_app body w))"
  proof (cases "w_outages w \<noteq> [] \<and> hd (w_outages w)")
    case False
    then show ?thesis using runs(2,3) run f by (cases r) (simp_all add: frame_def opened_def)
  qed (simp add: runs(1))
  show "undisturbed (fst (transaction mem_app body w)) (snd (transaction mem_app body w)) (transaction mem_app body (calm w))"
  proof (cases "w_outages w \<noteq> [] \<and> hd (w_outages w)")
    case False
    show ?thesis
    proof (cases r)
      case (Inl e)
      then show ?thesis
        using False runs(2,4) run calm_run db_effectD(4) [OF body, of "opened w" e]
        by (auto simp: undisturbed_def opened_calm)
    next
      case (Inr x)
      then have "rc = Inr x" "sc = calm s"
        using db_effectD(3) [OF body, of "opened w" x] run calm_run by (simp_all add: opened_calm)
      with Inr False runs(3,5) run calm_run oc show ?thesis
        by (auto simp: undisturbed_def calm_def outage_def)
    qed
  qed (simp add: runs(1) undisturbed_def outage_def)
qed

text \<open>A handler that turns some exceptions of a clean effect, no outages, into a result.\<close>

lemma clean_error_world:
  assumes "db_effect m" and "w_db (snd (m w)) = w_db w"
  shows "calm (snd (m w)) = calm w"
  using assms db_effectD(1) [OF assms(1), of w] by (simp add: calm_def frame_def)

lemma effect_recover:
  assumes m: "db_effect m" and clean: "\<And>w e. fst (m w) = Inl e \<Longrightarrow> w_db (snd (m w)) = w_db w"
    and b: "\<And>e. b e \<Longrightarrow> \<not> outage e"
  shows "db_effect (catchS m (\<lambda>e. if b e then ret x else raise e))" (is "db_effect ?k")
  unfolding db_effect_def
proof (intro allI conjI)
  have k: "snd (?k w) = snd (m w)" for w
    by (cases "m w"; cases "fst (m w)") (simp_all add: catchS_def ret_def raise_def)
  fix w
  show "frame w (snd (?k w))" "w_outages (snd (?k (calm w))) = []"
    using db_effectD(1,2) [OF m] by (simp_all add: k)
  have kr: "fst (?k w) = (case fst (m w) of Inr a \<Rightarrow> Inr a | Inl e \<Rightarrow> if b e then Inr x else Inl e)" for w
    by (cases "m w"; cases "fst (m w)") (simp_all add: catchS_def ret_def raise_def)
  show "undisturbed (fst (?k w)) (snd (?k w)) (?k (calm w))"
  proof (cases "fst (m w)")
    case (Inr a)
    then show ?thesis
      using db_effectD(3) [OF m Inr] by (simp add: undisturbed_def kr k)
  next
    case (Inl e)
    show ?thesis
    proof (cases "outage e")
      case False
      have c: "fst (m (calm w)) = Inl e" using db_effectD(4) [OF m Inl] False by simp
      have "calm (snd (m w)) = snd (m (calm w))"
        using clean_error_world [OF m clean [OF Inl]] clean_error_world [OF m clean [OF c]]
          db_effectD(2) [OF m, of "calm w"] calm_idle [of "snd (m (calm w))"] by simp
      with Inl c show ?thesis by (simp add: undisturbed_def kr k)
    qed (use Inl b in \<open>auto simp: undisturbed_def kr\<close>)
  qed
qed

subsection \<open>Redelivered jobs\<close>

text \<open>
  A job that is delivered again until it returns, and that finds out whether it has been done: it changes
  the database only when it returns a \<open>fresh\<close> result, and after that never again.
\<close>

locale done_once =
  fixes job :: "(app_world, app_exn, 'a) eff" and fresh :: "'a \<Rightarrow> bool" and settled :: "db \<Rightarrow> bool"
  assumes effect: "db_effect job"
    and quiet: "\<lbrakk>\<And>x. fst (job w) = Inr x \<Longrightarrow> \<not> fresh x\<rbrakk> \<Longrightarrow> w_db (snd (job w)) = w_db w"
    and settles: "fst (job w) = Inr x \<Longrightarrow> fresh x \<Longrightarrow> settled (w_db (snd (job w)))"
    and stays: "settled (w_db w) \<Longrightarrow> fst (job w) = Inr x \<Longrightarrow> \<not> fresh x"
begin

definition did :: "app_world \<Rightarrow> bool" where
  "did w \<longleftrightarrow> (\<exists>x. fst (job w) = Inr x \<and> fresh x)"

lemma quiet_run: "\<not> did w \<Longrightarrow> w_db (snd (job w)) = w_db w"
  by (rule quiet) (auto simp: did_def)

lemma did_undisturbed: "did w \<Longrightarrow> w_db (snd (job w)) = w_db (snd (job (calm w)))"
  using db_effectD(3) [OF effect] by (auto simp: did_def)

lemma did_settles: "did w \<Longrightarrow> settled (w_db (snd (job w)))"
  using settles by (auto simp: did_def)

lemma settled_quiet:
  assumes "settled (w_db w)"
  shows "\<not> did w" and "w_db (snd (job w)) = w_db w"
proof -
  show "\<not> did w" using stays [OF assms] by (auto simp: did_def)
  then show "w_db (snd (job w)) = w_db w" by (rule quiet_run)
qed

text \<open>However often it is delivered: it was never done, or it was done by one delivery, undisturbed.\<close>

lemma redelivery:
  assumes "\<And>i. i < n \<Longrightarrow> w_db (s (Suc i)) = w_db (snd (job (s i)))"
  shows "(\<forall>i\<le>n. \<not> did (s i)) \<and> w_db (snd (job (s n))) = w_db (s 0) \<or>
    (\<exists>k\<le>n. did (s k) \<and> (\<forall>i\<le>n. did (s i) \<longrightarrow> i = k) \<and> w_db (s k) = w_db (s 0) \<and>
       w_db (snd (job (s n))) = w_db (snd (job (calm (s k)))) \<and> settled (w_db (snd (job (s n)))))"
  using assms
proof (induction n)
  case 0
  show ?case
  proof (cases "did (s 0)")
    case True
    with did_undisturbed [OF True] did_settles [OF True] show ?thesis by blast
  qed (use quiet_run [of "s 0"] in simp)
next
  case (Suc n)
  have chain: "w_db (s (Suc n)) = w_db (snd (job (s n)))" using Suc.prems by simp
  have IH: "(\<forall>i\<le>n. \<not> did (s i)) \<and> w_db (s (Suc n)) = w_db (s 0) \<or>
    (\<exists>k\<le>n. did (s k) \<and> (\<forall>i\<le>n. did (s i) \<longrightarrow> i = k) \<and> w_db (s k) = w_db (s 0) \<and>
       w_db (s (Suc n)) = w_db (snd (job (calm (s k)))) \<and> settled (w_db (s (Suc n))))"
    unfolding chain using Suc by simp
  then show ?case
  proof
    assume before: "(\<forall>i\<le>n. \<not> did (s i)) \<and> w_db (s (Suc n)) = w_db (s 0)"
    show ?thesis
    proof (cases "did (s (Suc n))")
      case True
      show ?thesis
      proof (rule disjI2, intro exI [of _ "Suc n"] conjI)
        show "\<forall>i\<le>Suc n. did (s i) \<longrightarrow> i = Suc n" using before le_SucE by blast
      qed (simp_all only: True before did_undisturbed [OF True, symmetric] did_settles [OF True])
    next
      case False
      with before have "\<forall>i\<le>Suc n. \<not> did (s i)" using le_SucE by blast
      with before quiet_run [OF False] show ?thesis by simp
    qed
  next
    assume "\<exists>k\<le>n. did (s k) \<and> (\<forall>i\<le>n. did (s i) \<longrightarrow> i = k) \<and> w_db (s k) = w_db (s 0) \<and>
       w_db (s (Suc n)) = w_db (snd (job (calm (s k)))) \<and> settled (w_db (s (Suc n)))"
    then obtain k where k: "k \<le> n" "did (s k)" "\<forall>i\<le>n. did (s i) \<longrightarrow> i = k" "w_db (s k) = w_db (s 0)"
      "w_db (s (Suc n)) = w_db (snd (job (calm (s k))))" "settled (w_db (s (Suc n)))" by blast
    note late = settled_quiet [OF k(6)]
    show ?thesis
    proof (rule disjI2, intro exI [of _ k] conjI)
      show "\<forall>i\<le>Suc n. did (s i) \<longrightarrow> i = k" using k(3) late(1) le_SucE by blast
      show "settled (w_db (snd (job (s (Suc n)))))" using k(6) by (simp only: late(2))
    qed (simp_all only: k(1-5) late(2) le_SucI)
  qed
qed

end

subsection \<open>Tables a job leaves alone\<close>

text \<open>\<open>steady P t\<close>: whatever is done to the table \<open>t\<close> keeps the property \<open>P\<close> of the database.\<close>

definition steady :: "(db \<Rightarrow> bool) \<Rightarrow> (app_world, 'r) table \<Rightarrow> bool" where
  "steady P t \<longleftrightarrow> (\<forall>w key n. preserves (\<lambda>s. P (w_db s)) (t_find t w key n)) \<and>
     (\<forall>rows. preserves (\<lambda>s. P (w_db s)) (t_create t rows)) \<and>
     (\<forall>w f. preserves (\<lambda>s. P (w_db s)) (t_update t w f)) \<and> (\<forall>w. preserves (\<lambda>s. P (w_db s)) (t_delete t w))"

lemma keeps_app_call:
  "(\<And>w. P (w_db w) \<Longrightarrow> P (w_db (snd (f w)))) \<Longrightarrow> preserves (\<lambda>s. P (w_db s)) (app_call e f)"
  by (simp add: keeps_def app_call_def split: list.split bool.split)

lemma steady_mem:
  assumes "\<And>x d. P d \<Longrightarrow> P (store x d)"
  shows "steady P (mem_table rows store unique stamp touch)"
  unfolding steady_def mem_table_def table.simps
  by (intro conjI allI keeps_app_call) (simp_all add: Let_def assms)

lemma keeps_table [keep_rules]:
  assumes "steady P t"
  shows "preserves (\<lambda>s. P (w_db s)) (t_find t w key n)" "preserves (\<lambda>s. P (w_db s)) (findMany t w)"
    "preserves (\<lambda>s. P (w_db s)) (findFirst t w key)" "preserves (\<lambda>s. P (w_db s)) (findUnique t w)"
    "preserves (\<lambda>s. P (w_db s)) (countRows t w)" "preserves (\<lambda>s. P (w_db s)) (createMany t new)"
    "preserves (\<lambda>s. P (w_db s)) (updateMany t w f)" "preserves (\<lambda>s. P (w_db s)) (updateRow t w f)"
    "preserves (\<lambda>s. P (w_db s)) (upsertRow t w r)"
  using assms
  unfolding steady_def findMany_def findFirst_def findUnique_def countRows_def createMany_def updateMany_def
    updateRow_def upsertRow_def
  by (auto intro!: keep_rules keeps_bindS [where R = "\<lambda>_. True"] split: list.split)

lemma keeps_reads [keep_rules]:
  "preserves (\<lambda>s. P (w_db s)) (t_find (mem_table rows store unique stamp touch) w key n)"
  unfolding mem_table_def table.simps by (intro keeps_app_call) simp

lemma keeps_db_clients [keep_rules]:
  "preserves (\<lambda>s. P (w_db s)) (a_now mem_app)"
  "preserves (\<lambda>s. P (w_db s)) (a_set_nx mem_app k ttl v)" "preserves (\<lambda>s. P (w_db s)) (a_compare_delete mem_app k v)"
  "preserves (\<lambda>s. P (w_db s)) (a_get mem_app k)" "preserves (\<lambda>s. P (w_db s)) (a_setex mem_app k ttl x)"
  "preserves (\<lambda>s. P (w_db s)) (a_del mem_app k)" "preserves (\<lambda>s. P (w_db s)) (a_del_prefix mem_app k)"
  "preserves (\<lambda>s. P (w_db s)) (a_rpc mem_app)" "preserves (\<lambda>s. P (w_db s)) (a_sleep mem_app n)"
  "preserves (\<lambda>s. P (w_db s)) (a_publish mem_app ch msg)" "preserves (\<lambda>s. P (w_db s)) (a_add_job mem_app j)"
  by (simp_all add: keeps_def mem_app_def app_call_def split: list.split bool.split prod.split sum.split)

subsection \<open>What a run that returns has read and written\<close>

text \<open>
  \<open>yields m Q\<close>: when \<open>m\<close> returns \<open>x\<close> and takes the database from \<open>d\<close> to \<open>d'\<close>, then \<open>Q d x d'\<close>;
  \<open>reads m\<close>: it never changes the database.
\<close>

definition yields :: "(app_world, app_exn, 'a) eff \<Rightarrow> (db \<Rightarrow> 'a \<Rightarrow> db \<Rightarrow> bool) \<Rightarrow> bool" where
  "yields m Q \<longleftrightarrow> (\<forall>w x. fst (m w) = Inr x \<longrightarrow> Q (w_db w) x (w_db (snd (m w))))"

definition reads :: "(app_world, app_exn, 'a) eff \<Rightarrow> bool" where
  "reads m \<longleftrightarrow> (\<forall>w. w_db (snd (m w)) = w_db w)"

lemma yieldsD: "yields m Q \<Longrightarrow> fst (m w) = Inr x \<Longrightarrow> Q (w_db w) x (w_db (snd (m w)))"
  by (simp add: yields_def)

lemma yields_ret: "(\<And>d. Q d a d) \<Longrightarrow> yields (ret a) Q"
  by (simp add: yields_def ret_def)

lemma yields_raise: "yields (raise e) Q"
  by (simp add: yields_def raise_def)

lemma yields_bindS:
  assumes "yields m R" and "\<And>a. yields (f a) (S a)" and "\<And>d a d' x d''. R d a d' \<Longrightarrow> S a d' x d'' \<Longrightarrow> Q d x d''"
  shows "yields (bindS m f) Q"
  unfolding yields_def
proof (intro allI impI)
  fix w x
  assume x: "fst (bindS m f w) = Inr x"
  then obtain a where a: "fst (m w) = Inr a" "bindS m f w = f a (snd (m w))"
    by (auto simp: bindS_def split: prod.splits sum.splits)
  from assms(3) [OF yieldsD [OF assms(1) a(1)]] yieldsD [OF assms(2)] x
  show "Q (w_db w) x (w_db (snd (bindS m f w)))" by (simp add: a(2))
qed

lemma yields_reads:
  assumes "reads m" and "\<And>a. yields (f a) Q"
  shows "yields (bindS m f) Q"
  by (rule yields_bindS [OF _ assms(2), of _ "\<lambda>d _ d'. d' = d"]) (use assms(1) in \<open>simp_all add: yields_def reads_def\<close>)

text \<open>When only the outcome matters.\<close>

lemma yields_last: "(\<And>a. yields (f a) (\<lambda>_. Q)) \<Longrightarrow> yields (bindS m f) (\<lambda>_. Q)"
  by (rule yields_bindS [of _ "\<lambda>_ _ _. True"]) (simp_all add: yields_def)

lemma yields_first:
  assumes "yields m (\<lambda>_ _. P)" and "preserves (\<lambda>s. P (w_db s)) k"
  shows "yields (thenS m k) (\<lambda>_ _. P)"
  unfolding thenS_def
  by (rule yields_bindS [OF assms(1), of _ "\<lambda>_ d _ d'. P d \<longrightarrow> P d'"])
    (use assms(2) in \<open>simp_all add: yields_def keeps_def\<close>)

lemma yields_then_last: "yields k (\<lambda>_. Q) \<Longrightarrow> yields (thenS m k) (\<lambda>_. Q)"
  unfolding thenS_def by (rule yields_last)

lemma yields_weaken: "yields m R \<Longrightarrow> (\<And>d x d'. R d x d' \<Longrightarrow> Q d x d') \<Longrightarrow> yields m Q"
  by (simp add: yields_def)

lemma yields_conj: "yields m R \<Longrightarrow> yields m S \<Longrightarrow> yields m (\<lambda>d x d'. R d x d' \<and> S d x d')"
  by (simp add: yields_def)

lemma yields_if: "(b \<Longrightarrow> yields m Q) \<Longrightarrow> (\<not> b \<Longrightarrow> yields k Q) \<Longrightarrow> yields (if b then m else k) Q"
  by simp

lemma yields_transaction:
  assumes effect: "db_effect body" and body: "yields body Q"
  shows "yields (transaction mem_app body) Q"
  unfolding yields_def
proof (intro allI impI)
  fix w x
  assume x: "fst (transaction mem_app body w) = Inr x"
  obtain r s where run: "body (opened w) = (r, s)" by fastforce
  have f: "frame (opened w) s" using db_effectD(1) [OF effect, of "opened w"] run by simp
  have started: "w_outages w = [] \<or> \<not> hd (w_outages w)" using x transaction_refused [of w body] by auto
  obtain y where r: "r = Inr y" using x transaction_throws [OF started _ f, of body] run by (cases r) auto
  with x transaction_returns [OF started _ f, of body] run
  have "y = x" "w_db (snd (transaction mem_app body w)) = w_db s" by (auto split: if_splits)
  with yieldsD [OF body, of "opened w"] run r show "Q (w_db w) x (w_db (snd (transaction mem_app body w)))"
    by (simp add: opened_def)
qed

lemma reads_mem_find: "reads (t_find (mem_table rows store unique stamp touch) q key n)"
  by (simp add: reads_def mem_table_def app_call_def split: list.split bool.split)

lemma insort_key_nil: "insort_key (\<lambda>_. [] :: int list) x xs = x # xs"
  by (cases xs) simp_all

lemma sort_key_nil [simp]: "sort_key (\<lambda>_. [] :: int list) xs = xs"
  by (induction xs) (simp_all add: insort_key_nil)

lemma mem_findUnique:
  "yields (findUnique (mem_table rows store unique stamp touch) q) (\<lambda>d r d'. d' = d \<and> r = find q (rows d))"
proof -
  have "limit (Some 1) (sort_key (\<lambda>_. [] :: int list) (filter q xs)) = (case find q xs of None \<Rightarrow> [] | Some r \<Rightarrow> [r])" for xs
    by (induction xs) (simp_all add: limit_def sort_key_nil)
  then show ?thesis
    by (auto simp: yields_def findUnique_def findFirst_def mem_table_def app_call_def bindS_def ret_def
      split: list.splits bool.splits option.splits)
qed

lemma find_match: "yields (findUnique (a_match mem_app) q) (\<lambda>d r d'. d' = d \<and> r = find q (d_matches d))"
  unfolding mem_app_def app_env.simps by (rule mem_findUnique)

lemma reads_table:
  assumes "\<And>key n. reads (t_find t q key n)"
  shows "reads (findMany t q)" "reads (findFirst t q key)" "reads (findUnique t q)" "reads (countRows t q)"
  using assms unfolding findMany_def findFirst_def findUnique_def countRows_def
  by (simp_all add: reads_def bindS_def ret_def split: prod.split sum.split, (metis snd_conv)+)

lemma reads_rows:
  "reads (t_find (a_user mem_app) q1 k1 n)" "reads (t_find (a_eloRating mem_app) q2 k2 n)"
  "reads (t_find (a_match mem_app) q3 k3 n)" "reads (t_find (a_round mem_app) q4 k4 n)"
  "reads (t_find (a_eloHistory mem_app) q5 k5 n)" "reads (t_find (a_league mem_app) q6 k6 n)"
  "reads (t_find (a_season mem_app) q7 k7 n)" "reads (t_find (a_seasonStanding mem_app) q8 k8 n)"
  "reads (t_find (a_tournament mem_app) q9 k9 n)" "reads (t_find (a_tournamentRegistration mem_app) q10 k10 n)"
  "reads (t_find (a_tournamentMatch mem_app) q11 k11 n)" "reads (t_find (a_refreshToken mem_app) q12 k12 n)"
  "reads (t_find (a_passwordResetToken mem_app) q13 k13 n)"
  unfolding mem_app_def app_env.simps by (rule reads_mem_find)+

lemma reads_ret: "reads (ret a)"
  by (simp add: reads_def ret_def)

lemma reads_if: "reads m \<Longrightarrow> reads k \<Longrightarrow> reads (if b then m else k)"
  by simp

lemma reads_now: "reads (a_now mem_app)"
  by (simp add: reads_def mem_app_def)

lemmas reads_rules = reads_rows reads_rows [THEN reads_table(1)] reads_rows [THEN reads_table(2)]
  reads_rows [THEN reads_table(3)] reads_rows [THEN reads_table(4)] reads_ret reads_if reads_now

subsection \<open>How a run changes the database, whatever its outcome\<close>

definition moves :: "(app_world, app_exn, 'a) eff \<Rightarrow> (db \<Rightarrow> db \<Rightarrow> bool) \<Rightarrow> bool" where
  "moves m R \<longleftrightarrow> (\<forall>w. R (w_db w) (w_db (snd (m w))))"

lemma movesD: "moves m R \<Longrightarrow> R (w_db w) (w_db (snd (m w)))"
  by (simp add: moves_def)

text \<open>An effect that keeps what \<open>f\<close> reads of the database, before and after one that does \<open>R\<close>.\<close>

lemma moves_keeping: "(\<And>c. preserves (\<lambda>w. f (w_db w) = c) m) \<Longrightarrow> moves m (\<lambda>d d'. f d' = f d)"
  by (simp add: moves_def keeps_def)

lemma moves_bind_last:
  assumes "moves m (\<lambda>d d'. f d' = f d)" and "\<And>a. moves (k a) R"
    and "\<And>d d'. f d' = f d \<Longrightarrow> R d d'" and "\<And>d d' d''. f d' = f d \<Longrightarrow> R d' d'' \<Longrightarrow> R d d''"
  shows "moves (bindS m k) R"
  unfolding moves_def
proof (intro allI)
  fix w
  show "R (w_db w) (w_db (snd (bindS m k w)))"
  proof (cases "m w")
    case (Pair r w1)
    have f: "f (w_db w1) = f (w_db w)" using movesD [OF assms(1), of w] Pair by simp
    show ?thesis
    proof (cases r)
      case (Inr a)
      with assms(4) [OF f movesD [OF assms(2)]] Pair show ?thesis by (simp add: bindS_def)
    qed (use assms(3) [OF f] Pair in \<open>simp add: bindS_def\<close>)
  qed
qed

lemma moves_bind_first:
  assumes "moves m R" and "\<And>a. moves (k a) (\<lambda>d d'. f d' = f d)"
    and "\<And>d d' d''. R d d' \<Longrightarrow> f d'' = f d' \<Longrightarrow> R d d''"
  shows "moves (bindS m k) R"
  unfolding moves_def
proof (intro allI)
  fix w
  show "R (w_db w) (w_db (snd (bindS m k w)))"
  proof (cases "m w")
    case (Pair r w1)
    have R: "R (w_db w) (w_db w1)" using movesD [OF assms(1), of w] Pair by simp
    show ?thesis
    proof (cases r)
      case (Inr a)
      with assms(3) [OF R movesD [OF assms(2)]] Pair show ?thesis by (simp add: bindS_def)
    qed (use R Pair in \<open>simp add: bindS_def\<close>)
  qed
qed

lemma moves_with_lock:
  assumes "\<And>P. preserves (\<lambda>w. P (w_db w)) a" and "\<And>P. preserves (\<lambda>w. P (w_db w)) r"
    and "\<And>P. preserves (\<lambda>w. P (w_db w)) b" and "moves m R" and "\<And>d. R d d"
  shows "moves (with_lock a r b m) R"
  unfolding moves_def
proof (intro allI)
  fix w
  have same: "w_db (snd (k w')) = w_db w'" if "\<And>P. preserves (\<lambda>w. P (w_db w)) k" for k :: "(app_world, app_exn, 'x) eff" and w'
    using that [of "\<lambda>d. d = w_db w'"] by (simp add: keeps_def)
  obtain ra wa where a: "a w = (ra, wa)" by fastforce
  have wa: "w_db wa = w_db w" using same [OF assms(1), of w] a by simp
  obtain rm wm where m: "m wa = (rm, wm)" by fastforce
  have R: "R (w_db w) (w_db wm)" using movesD [OF assms(4), of wa] m wa by simp
  have "w_db (snd (r wm)) = w_db wm" "w_db (snd (b wa)) = w_db w" using same [OF assms(2)] same [OF assms(3)] wa by simp_all
  with R assms(5) wa show "R (w_db w) (w_db (snd (with_lock a r b m w)))"
    by (cases "r wm"; cases "fst (r wm)") (auto simp: with_lock_def bindS_def finallyS_def a m split: sum.split)
qed

lemma keeps_job_locks [keep_rules]:
  "preserves (\<lambda>w. P (w_db w)) (acquire_lock mem_app k ttl t)" "preserves (\<lambda>w. P (w_db w)) (release_lock mem_app k t)"
  unfolding acquire_lock_def release_lock_def by (intro keep_rules; simp)+

lemma keeps_mails [keep_rules]:
  "preserves (\<lambda>w. P (w_db w)) (add_mail mem_app m i)" "preserves (\<lambda>w. P (w_db w)) (enqueueSeasonRewardMail mem_app sm)"
  "preserves (\<lambda>w. P (w_db w)) (enqueueTournamentStartedMail mem_app t u to dn tn)"
  "preserves (\<lambda>w. P (w_db w)) (enqueueTournamentCompletedMail mem_app t u to dn tn)"
  "preserves (\<lambda>w. P (w_db w)) (enqueueTournamentMatchReadyMail mem_app t u to dn od tn)"
  unfolding enqueueSeasonRewardMail_def enqueueTournamentStartedMail_def enqueueTournamentCompletedMail_def
    enqueueTournamentMatchReadyMail_def add_mail_def by (intro keep_rules)+

subsection \<open>Calls that do not fail\<close>

lemma calm_call [simp]: "w_outages w = [] \<Longrightarrow> app_call e f w = f w"
  by (simp add: app_call_def)

lemma mem_tables [simp]:
  "t_find (mem_table rows store unique stamp touch) q key n = app_call (DbEx DbUnavailable) (\<lambda>s.
     (Inr (limit n (sort_key key (filter q (rows (w_db s))))), s))"
  "t_create (mem_table rows store unique stamp touch) new = app_call (DbEx DbUnavailable) (\<lambda>s.
     let all = rows (w_db s) @ map (stamp (rd_now (w_keys s))) new in
     if unique all then (Inr (), s\<lparr>w_db := store all (w_db s)\<rparr>) else (Inl (DbEx UniqueViolation), s))"
  "t_update (mem_table rows store unique stamp touch) q f = app_call (DbEx DbUnavailable) (\<lambda>s.
     let g = touch (rd_now (w_keys s)) \<circ> f; all = map (\<lambda>r. if q r then g r else r) (rows (w_db s)) in
     if unique all then (Inr (map g (filter q (rows (w_db s)))), s\<lparr>w_db := store all (w_db s)\<rparr>)
     else (Inl (DbEx UniqueViolation), s))"
  by (simp_all add: mem_table_def)

lemma run_findUnique [simp]:
  "w_outages w = [] \<Longrightarrow> findUnique (mem_table rows store unique stamp touch) q w = (Inr (find q (rows (w_db w))), w)"
proof -
  have "limit (Some 1) (filter q xs) = (case find q xs of None \<Rightarrow> [] | Some r \<Rightarrow> [r])" for xs
    by (induction xs) (simp_all add: limit_def)
  then show "w_outages w = [] \<Longrightarrow> ?thesis"
    by (simp add: findUnique_def findFirst_def bindS_def ret_def split: option.split)
qed

lemma run_findMany [simp]:
  "w_outages w = [] \<Longrightarrow> findMany (mem_table rows store unique stamp touch) q w = (Inr (filter q (rows (w_db w))), w)"
  by (simp add: findMany_def limit_def)

lemma run_countRows [simp]:
  "w_outages w = [] \<Longrightarrow> countRows (mem_table rows store unique stamp touch) q w = (Inr (length (filter q (rows (w_db w)))), w)"
  by (simp add: countRows_def bindS_def ret_def)

lemma run_create:
  "w_outages w = [] \<Longrightarrow> unique (rows (w_db w) @ map (stamp (rd_now (w_keys w))) new) \<Longrightarrow>
   createMany (mem_table rows store unique stamp touch) new w =
     (Inr (), w\<lparr>w_db := store (rows (w_db w) @ map (stamp (rd_now (w_keys w))) new) (w_db w)\<rparr>)"
  by (simp add: createMany_def Let_def)

lemma run_upsert_found:
  "w_outages w = [] \<Longrightarrow> find q (rows (w_db w)) = Some r \<Longrightarrow>
   upsertRow (mem_table rows store unique stamp touch) q new w = (Inr r, w)"
  by (simp add: upsertRow_def bindS_def ret_def)

lemma run_upsert_new:
  "w_outages w = [] \<Longrightarrow> find q (rows (w_db w)) = None \<Longrightarrow>
   unique (rows (w_db w) @ [stamp (rd_now (w_keys w)) new]) \<Longrightarrow>
   upsertRow (mem_table rows store unique stamp touch) q new w =
     (Inr new, w\<lparr>w_db := store (rows (w_db w) @ [stamp (rd_now (w_keys w)) new]) (w_db w)\<rparr>)"
  by (simp add: upsertRow_def bindS_def thenS_def ret_def run_create)

lemma run_update:
  "w_outages w = [] \<Longrightarrow> filter q (rows (w_db w)) = r # rs \<Longrightarrow>
   unique (map (\<lambda>x. if q x then touch (rd_now (w_keys w)) (f x) else x) (rows (w_db w))) \<Longrightarrow>
   updateRow (mem_table rows store unique stamp touch) q f w =
     (Inr (touch (rd_now (w_keys w)) (f r)),
      w\<lparr>w_db := store (map (\<lambda>x. if q x then touch (rd_now (w_keys w)) (f x) else x) (rows (w_db w))) (w_db w)\<rparr>)"
  by (simp add: updateRow_def bindS_def ret_def Let_def o_def)

lemma run_now [simp]: "a_now mem_app w = (Inr (rd_now (w_keys w)), w)"
  by (simp add: mem_app_def)

lemma filter_unique_key: "distinct (map k xs) \<Longrightarrow> find (\<lambda>x. k x = v) xs = Some r \<Longrightarrow> filter (\<lambda>x. k x = v) xs = [r]"
proof (induction xs)
  case (Cons x xs)
  then show ?case by (auto simp: filter_empty_conv split: if_splits) (metis image_eqI)
qed simp

end
