(* ===== verification/App_Rules.thy ===== *)
theory App_Rules
  imports App_Runs
begin

section \<open>Rules for the calls of a table\<close>

text \<open>
  What each call of a table reads and writes when it returns, whatever failed before; how a handler that
  only throws, and a read before a write, compose; and the runs of calls that do not fail.
\<close>

subsection \<open>Calls that return\<close>

lemma yields_create:
  "yields (createMany (mem_table rows store unique stamp touch) new)
     (\<lambda>d _ d'. \<exists>now. unique (rows d @ map (stamp now) new) \<and> d' = store (rows d @ map (stamp now) new) d)"
  by (auto simp: yields_def createMany_def app_call_def Let_def split: list.splits bool.splits if_splits)

lemma yields_updateMany:
  "yields (updateMany (mem_table rows store unique stamp touch) q f)
     (\<lambda>d _ d'. \<exists>now. d' = store (map (\<lambda>r. if q r then (touch now \<circ> f) r else r) (rows d)) d)"
  unfolding updateMany_def
  by (rule yields_bindS [OF _ yields_ret [of "\<lambda>d _ d'. d' = d"]])
    (auto simp: yields_def app_call_def Let_def simp del: o_apply split: list.splits bool.splits if_splits)

lemma yields_findMany:
  "yields (findMany (mem_table rows store unique stamp touch) q) (\<lambda>d a d'. d' = d \<and> a = filter q (rows d))"
  by (auto simp: yields_def findMany_def limit_def app_call_def split: list.splits bool.splits)

lemma yields_countRows:
  "yields (countRows (mem_table rows store unique stamp touch) q) (\<lambda>d a d'. d' = d \<and> a = length (filter q (rows d)))"
  unfolding countRows_def
  by (rule yields_bindS [OF yields_findMany yields_ret [of "\<lambda>d b d'. d' = d \<and> b = length rs" for rs]]) auto

lemma yields_liftS: "(\<And>d x. r = Inr x \<Longrightarrow> Q d x d) \<Longrightarrow> yields (liftS r) Q"
  by (simp add: yields_def liftS_def ret_def raise_def split: sum.split)

lemma yields_keeping: "(\<And>c. preserves (\<lambda>w. f (w_db w) = c) m) \<Longrightarrow> yields m (\<lambda>d _ d'. f d' = f d)"
  by (simp add: yields_def keeps_def)

lemma unstamped_rows [simp]: "map (unstamped now) xs = xs"
  by (induction xs) (simp_all add: unstamped_def)

lemma app_call_Inr:
  assumes "app_call e f w = (Inr x, w')"
  shows "\<exists>os. f (w\<lparr>w_outages := os\<rparr>) = (Inr x, w')"
proof (cases "w_outages w")
  case Nil
  have same: "w\<lparr>w_outages := w_outages w\<rparr> = w" by simp
  have "app_call e f w = f w" using Nil by (simp add: app_call_def)
  with assms same show ?thesis by metis
qed (use assms in \<open>auto simp: app_call_def split: bool.splits\<close>)

lemma keeps_reading: "reads m \<Longrightarrow> preserves (\<lambda>w. P (w_db w)) m"
  by (simp add: reads_def keeps_def)

subsection \<open>Composition\<close>

text \<open>\<open>throws h\<close>: the handler of an exception never returns.\<close>

definition throws :: "('e \<Rightarrow> ('s, 'e, 'a) eff) \<Rightarrow> bool" where
  "throws h \<longleftrightarrow> (\<forall>e w x. fst (h e w) \<noteq> Inr x)"

lemma yields_catch: "yields m Q \<Longrightarrow> throws h \<Longrightarrow> yields (catchS m h) Q"
  by (auto simp: yields_def throws_def catchS_def split: prod.splits sum.splits) (metis fst_conv snd_conv)

lemma moves_bind_reads:
  assumes m: "yields m (\<lambda>d a d'. d' = d \<and> S d a)" "reads m" and k: "\<And>a. moves (k a) (\<lambda>d d'. S d a \<longrightarrow> R d d')" and R: "\<And>d. R d d"
  shows "moves (bindS m k) R"
  unfolding moves_def
proof
  fix w
  obtain r w1 where run: "m w = (r, w1)" by fastforce
  have same: "w_db w1 = w_db w" using m(2) run unfolding reads_def by (metis snd_conv)
  show "R (w_db w) (w_db (snd (bindS m k w)))"
  proof (cases r)
    case (Inr a)
    then have "S (w_db w) a" using yieldsD [OF m(1), of w a] run by simp
    with movesD [OF k, of w1 a] same Inr run show ?thesis by (simp add: bindS_def)
  qed (simp add: bindS_def run same R)
qed

subsection \<open>Calls that do not fail\<close>

lemma run_updateMany:
  "w_outages w = [] \<Longrightarrow> map (\<lambda>x. if q x then touch (rd_now (w_keys w)) (f x) else x) (rows (w_db w)) = new \<Longrightarrow> unique new \<Longrightarrow>
   updateMany (mem_table rows store unique stamp touch) q f w =
     (Inr (length (filter q (rows (w_db w)))), w\<lparr>w_db := store new (w_db w)\<rparr>)"
  by (simp add: updateMany_def bindS_apply ret_apply Let_def o_def)

end
