(* ===== verification/Persistence_Once.thy ===== *)
theory Persistence_Once
  imports App_Runs
begin

section \<open>The result of a match is recorded once\<close>

text \<open>
  \<open>persistMatchEnded\<close> as an instance of \<open>done_once\<close>: however often the queue delivers a \<open>match-ended\<close> job
  and whatever calls fail, the match is recorded, and the two ratings changed, at most once; and what
  one run without failures writes.
\<close>

definition recorded :: "string \<Rightarrow> db \<Rightarrow> bool" where
  "recorded i d \<longleftrightarrow> (\<exists>m \<in> set (d_matches d). mt_id m = i)"

lemma effect_write_match [effect_rules]: "db_effect (write_match mem_app p)"
  unfolding write_match_def Let_def findOrCreateRating_def link_tournament_def rate_player_def
  by (intro effect_rules)

lemma effect_persist_body: "db_effect (persist_body mem_app p)"
  unfolding persist_body_def by (intro effect_rules)

lemma effect_persistMatchEnded: "db_effect (persistMatchEnded mem_app p)"
  unfolding persistMatchEnded_def
  by (intro effect_recover effect_rules effect_persist_body transaction_atomic)
    (simp_all add: isUniqueMatchConflict_def outage_def)

text \<open>The tables the later writes leave alone.\<close>

lemma steady_recorded:
  "steady (recorded i) (a_eloRating mem_app)" "steady (recorded i) (a_round mem_app)"
  "steady (recorded i) (a_eloHistory mem_app)" "steady (recorded i) (a_tournamentMatch mem_app)"
  unfolding mem_app_def app_env.simps by (rule steady_mem, simp add: recorded_def)+

lemma create_records: "yields (createMany (a_match mem_app) [m]) (\<lambda>_ _. recorded (mt_id m))"
  by (simp add: yields_def createMany_def mem_app_def app_call_def recorded_def unstamped_def Let_def
      split: list.splits bool.splits if_splits)

lemma write_match_records: "yields (write_match mem_app p) (\<lambda>_ x d'. x = Created \<and> recorded (me_matchId p) d')"
proof (rule yields_conj)
  show "yields (write_match mem_app p) (\<lambda>_ x _. x = Created)"
    unfolding write_match_def Let_def by (intro yields_last yields_then_last yields_ret) simp
  have later: "yields (thenS (createMany (a_match mem_app) [match_of p now]) k) (\<lambda>_ _. recorded (me_matchId p))"
    if "preserves (\<lambda>s. recorded (me_matchId p) (w_db s)) k" for now and k :: "(app_world, app_exn, MatchPersistenceResult) eff"
    using yields_first [OF create_records [of "match_of p now"], of k] that by (simp add: match_of_def)
  show "yields (write_match mem_app p) (\<lambda>_ _. recorded (me_matchId p))"
    unfolding write_match_def Let_def
    by (intro yields_last later)
      (auto simp: link_tournament_def rate_player_def simp del: allS.simps
        intro!: keep_rules steady_recorded keeps_bindS [where R = "\<lambda>_. True"])
qed

text \<open>What a returning run has done, and found.\<close>

definition persisted :: "string \<Rightarrow> db \<Rightarrow> MatchPersistenceResult \<Rightarrow> db \<Rightarrow> bool" where
  "persisted i d x d' \<longleftrightarrow> x = AlreadyExists \<and> d' = d \<or> x = Created \<and> \<not> recorded i d \<and> recorded i d'"

lemma persist_body_yields: "yields (persist_body mem_app p) (persisted (me_matchId p))"
proof -
  define R where "R d x d' \<longleftrightarrow> x = AlreadyExists \<and> d' = d \<or> x = Created \<and> recorded (me_matchId p) d'" for d x d'
  have written: "yields (write_match mem_app p) R"
    by (rule yields_weaken [OF write_match_records]) (simp add: R_def)
  have exists: "yields (ret AlreadyExists) R" by (rule yields_ret) (simp add: R_def)
  have go_on: "yields (bindS (if c then findUnique (a_tournamentMatch mem_app) q else ret None)
      (\<lambda>tm. case tm of None \<Rightarrow> write_match mem_app p
         | Some m \<Rightarrow> if truthy (tm_matchId m) then ret AlreadyExists else write_match mem_app p)) R" for c q
    by (rule yields_reads) (auto intro: reads_rules written exists split: option.split)
  show ?thesis
    unfolding persist_body_def
  proof (rule yields_bindS [OF find_match, where S = "\<lambda>r d x d'. if r = None then R d x d' else x = AlreadyExists \<and> d' = d"])
    fix r :: "match_row option"
    show "yields (if r \<noteq> None then ret AlreadyExists
        else bindS (if truthy (me_tournamentMatchId p)
              then findUnique (a_tournamentMatch mem_app) (\<lambda>m. Some (tm_id m) = me_tournamentMatchId p)
              else ret None) (\<lambda>tournamentMatch.
            case tournamentMatch of
              None \<Rightarrow> write_match mem_app p
            | Some m \<Rightarrow> if truthy (tm_matchId m) then ret AlreadyExists else write_match mem_app p))
      (\<lambda>d x d'. if r = None then R d x d' else x = AlreadyExists \<and> d' = d)"
      by (cases r) (simp_all only: option.distinct simp_thms if_True if_False go_on, simp add: yields_ret)
  qed (auto simp: R_def persisted_def recorded_def find_None_iff split: if_splits)
qed

lemma persist_yields: "yields (persistMatchEnded mem_app p) (persisted (me_matchId p))"
  unfolding yields_def
proof (intro allI impI)
  fix w x
  assume x: "fst (persistMatchEnded mem_app p w) = Inr x"
  let ?t = "transaction mem_app (persist_body mem_app p)"
  have same: "snd (persistMatchEnded mem_app p w) = snd (?t w)"
    by (cases "?t w"; cases "fst (?t w)") (simp_all add: persistMatchEnded_def catchS_def ret_def raise_def)
  show "persisted (me_matchId p) (w_db w) x (w_db (snd (persistMatchEnded mem_app p w)))"
  proof (cases "fst (?t w)")
    case (Inl e)
    then have "x = AlreadyExists"
      using x by (cases "?t w") (auto simp: persistMatchEnded_def catchS_def ret_def raise_def split: if_splits)
    with transaction_atomic [OF effect_persist_body Inl] show ?thesis by (simp add: same persisted_def)
  next
    case (Inr y)
    then have "y = x"
      using x by (cases "?t w") (simp add: persistMatchEnded_def catchS_def)
    with yieldsD [OF yields_transaction [OF effect_persist_body persist_body_yields] Inr] show ?thesis by (simp add: same)
  qed
qed

lemma persist_throws: "fst (persistMatchEnded mem_app p w) = Inl e \<Longrightarrow> w_db (snd (persistMatchEnded mem_app p w)) = w_db w"
  using transaction_atomic [OF effect_persist_body, of p w]
  by (cases "transaction mem_app (persist_body mem_app p) w"; cases "fst (transaction mem_app (persist_body mem_app p) w)")
    (auto simp: persistMatchEnded_def catchS_def ret_def raise_def)

interpretation persisting: done_once "persistMatchEnded mem_app p" "\<lambda>x. x = Created" "recorded (me_matchId p)" for p
proof
  show "db_effect (persistMatchEnded mem_app p)" by (rule effect_persistMatchEnded)
  show "w_db (snd (persistMatchEnded mem_app p w)) = w_db w"
    if "\<And>x. fst (persistMatchEnded mem_app p w) = Inr x \<Longrightarrow> x \<noteq> Created" for w
  proof (cases "fst (persistMatchEnded mem_app p w)")
    case (Inr x)
    with that yieldsD [OF persist_yields Inr] show ?thesis by (auto simp: persisted_def)
  qed (rule persist_throws)
  show "recorded (me_matchId p) (w_db (snd (persistMatchEnded mem_app p w)))"
    if "fst (persistMatchEnded mem_app p w) = Inr x" "x = Created" for w x
    using yieldsD [OF persist_yields that(1)] that(2) by (auto simp: persisted_def)
  show "x \<noteq> Created" if "recorded (me_matchId p) (w_db w)" "fst (persistMatchEnded mem_app p w) = Inr x" for w x
    using yieldsD [OF persist_yields that(2)] that(1) by (auto simp: persisted_def)
qed

subsection \<open>One run without failures\<close>

lemma store_rounds:
  assumes "w_outages w = []"
    and "distinct (map (\<lambda>r. (rw_matchId r, rw_roundNumber r)) (d_rounds (w_db w) @ map (round_of i) rs))"
  shows "forS rs (\<lambda>r. thenS (upsertRow (a_round mem_app)
        (\<lambda>x. rw_matchId x = i \<and> rw_roundNumber x = rr_roundNumber r) (round_of i r)) (ret ())) w =
    (Inr (), w\<lparr>w_db := (w_db w)\<lparr>d_rounds := d_rounds (w_db w) @ map (round_of i) rs\<rparr>\<rparr>)"
  using assms
proof (induction rs arbitrary: w)
  case (Cons r rs)
  let ?w = "w\<lparr>w_db := (w_db w)\<lparr>d_rounds := d_rounds (w_db w) @ [round_of i r]\<rparr>\<rparr>"
  have none: "find (\<lambda>x. rw_matchId x = i \<and> rw_roundNumber x = rr_roundNumber r) (d_rounds (w_db w)) = None"
    using Cons.prems(2) by (auto simp: find_None_iff round_of_def image_iff)
  have "upsertRow (a_round mem_app) (\<lambda>x. rw_matchId x = i \<and> rw_roundNumber x = rr_roundNumber r) (round_of i r) w
      = (Inr (round_of i r), ?w)"
    unfolding mem_app_def app_env.simps
    by (subst run_upsert_new) (use Cons.prems none in \<open>auto simp: unstamped_def\<close>)
  moreover have "distinct (map (\<lambda>r. (rw_matchId r, rw_roundNumber r)) (d_rounds (w_db ?w) @ map (round_of i) rs))"
    using Cons.prems(2) by simp
  ultimately show ?case
    using Cons.IH [of ?w] Cons.prems(1) by (simp add: bindS_def thenS_def ret_def)
qed (simp add: ret_def)

definition rated :: "string \<Rightarrow> int \<Rightarrow> time \<Rightarrow> elo_row \<Rightarrow> elo_row" where
  "rated u new now e = (if er_userId e = u
     then e\<lparr>er_rating := new, er_gamesPlayed := er_gamesPlayed e + 1, er_updatedAt := now\<rparr> else e)"

lemma rated_user [simp]: "er_userId (rated u new now e) = er_userId e"
  by (simp add: rated_def)

lemma rate_player_run:
  assumes "w_outages w = []" and "distinct (map er_userId (d_elo (w_db w)))" and "u \<in> er_userId ` set (d_elo (w_db w))"
  shows "rate_player mem_app u new w =
    (Inr (), w\<lparr>w_db := (w_db w)\<lparr>d_elo := map (rated u new (rd_now (w_keys w))) (d_elo (w_db w))\<rparr>\<rparr>)"
proof -
  have rated: "(\<lambda>x. if er_userId x = u
      then er_updatedAt_update (\<lambda>_. rd_now (w_keys w)) (x\<lparr>er_rating := new, er_gamesPlayed := er_gamesPlayed x + 1\<rparr>) else x)
    = rated u new (rd_now (w_keys w))" by (simp add: rated_def fun_eq_iff)
  obtain r rs where "filter (\<lambda>e. er_userId e = u) (d_elo (w_db w)) = r # rs"
    using assms(3) by (cases "filter (\<lambda>e. er_userId e = u) (d_elo (w_db w))") (auto simp: filter_empty_conv)
  from run_update [OF assms(1), where rows = d_elo, OF this, where unique = "\<lambda>x. distinct (map er_userId x)" and f = "\<lambda>e. e\<lparr>er_rating := new, er_gamesPlayed := er_gamesPlayed e + 1\<rparr>"
      and touch = "\<lambda>now. er_updatedAt_update (\<lambda>_. now)"] assms(2)
  show ?thesis
    by (simp add: rate_player_def mem_app_def thenS_def bindS_def ret_def rated comp_def)
qed

text \<open>The database after the match: its row, its rounds, both ratings, two rows of history.\<close>

definition match_written :: "MatchEndedPayload \<Rightarrow> time \<Rightarrow> elo_row \<Rightarrow> elo_row \<Rightarrow> EloResult \<Rightarrow> db \<Rightarrow> db" where
  "match_written p now ra rb elo d =
     (let a = mp_userId (fst (me_players p)); b = mp_userId (snd (me_players p)) in
      d\<lparr>d_matches := d_matches d @ [match_of p now],
        d_rounds := d_rounds d @ map (round_of (me_matchId p)) (me_rounds p),
        d_elo := map (rated b (int_column (newRatingB elo)) now \<circ> rated a (int_column (newRatingA elo)) now) (d_elo d),
        d_history := d_history d @
          [(history_of a (me_matchId p) (er_rating ra) (int_column (newRatingA elo)) (deltaA elo))\<lparr>eh_createdAt := now\<rparr>,
           (history_of b (me_matchId p) (er_rating rb) (int_column (newRatingB elo)) (deltaB elo))\<lparr>eh_createdAt := now\<rparr>]\<rparr>)"

text \<open>What the database must hold for a match between two rated players, outside tournaments, to be new.\<close>

definition persistable :: "MatchEndedPayload \<Rightarrow> elo_row \<Rightarrow> elo_row \<Rightarrow> db \<Rightarrow> bool" where
  "persistable p ra rb d \<longleftrightarrow>
     \<not> recorded (me_matchId p) d \<and> distinct (map mt_id (d_matches d)) \<and> me_tournamentMatchId p = None \<and>
     distinct (map er_userId (d_elo d)) \<and>
     find (\<lambda>e. er_userId e = mp_userId (fst (me_players p))) (d_elo d) = Some ra \<and>
     find (\<lambda>e. er_userId e = mp_userId (snd (me_players p))) (d_elo d) = Some rb \<and>
     distinct (map (\<lambda>r. (rw_matchId r, rw_roundNumber r)) (d_rounds d @ map (round_of (me_matchId p)) (me_rounds p)))"

definition elo_of :: "MatchEndedPayload \<Rightarrow> elo_row \<Rightarrow> elo_row \<Rightarrow> EloErrorCode + EloResult" where
  "elo_of p ra rb = computeElo (Fin (of_int (er_rating ra))) (Fin (of_int (er_rating rb))) (payload_outcome p)
     (Fin (of_int (er_gamesPlayed ra))) (Fin (of_int (er_gamesPlayed rb)))"

lemma create_match_run:
  "w_outages w = [] \<Longrightarrow> distinct (map mt_id (d_matches (w_db w) @ [m])) \<Longrightarrow>
   createMany (a_match mem_app) [m] w = (Inr (), w\<lparr>w_db := (w_db w)\<lparr>d_matches := d_matches (w_db w) @ [m]\<rparr>\<rparr>)"
  unfolding mem_app_def app_env.simps by (subst run_create) (simp_all add: unstamped_def)

lemma create_history_run:
  "w_outages w = [] \<Longrightarrow> createMany (a_eloHistory mem_app) hs w =
    (Inr (), w\<lparr>w_db := (w_db w)\<lparr>d_history := d_history (w_db w) @ map (\<lambda>h. h\<lparr>eh_createdAt := rd_now (w_keys w)\<rparr>) hs\<rparr>\<rparr>)"
  unfolding mem_app_def app_env.simps by (subst run_create) simp_all

lemma find_rating_run:
  "w_outages w = [] \<Longrightarrow> find (\<lambda>e. er_userId e = u) (d_elo (w_db w)) = Some r \<Longrightarrow>
   findOrCreateRating mem_app u w = (Inr r, w)"
  unfolding findOrCreateRating_def mem_app_def app_env.simps by (rule run_upsert_found)

lemma find_user: "find (\<lambda>e. er_userId e = u) es = Some r \<Longrightarrow> u \<in> er_userId ` set es"
  by (auto simp: find_Some_iff)

lemma rated_users [simp]: "map er_userId (map (rated u n t) es) = map er_userId es"
  by simp

lemma write_match_run:
  assumes w: "w_outages w = []" and p: "persistable p ra rb (w_db w)" and elo: "elo_of p ra rb = Inr elo"
  shows "write_match mem_app p w = (Inr Created, w\<lparr>w_db := match_written p (rd_now (w_keys w)) ra rb elo (w_db w)\<rparr>)"
proof -
  let ?a = "mp_userId (fst (me_players p))" and ?b = "mp_userId (snd (me_players p))" and ?d = "w_db w"
  let ?now = "rd_now (w_keys w)"
  let ?ea = "map (rated ?a (int_column (newRatingA elo)) ?now) (d_elo ?d)"
  have ids: "distinct (map mt_id (d_matches ?d @ [match_of p ?now]))"
    using p by (auto simp: persistable_def recorded_def match_of_def)
  have users: "distinct (map er_userId (d_elo ?d))" "?a \<in> er_userId ` set (d_elo ?d)" "?b \<in> er_userId ` set (d_elo ?d)"
    using p find_user by (auto simp: persistable_def)
  then have users': "distinct (map er_userId ?ea)" "?b \<in> er_userId ` set ?ea" by (simp_all add: comp_def image_image)
  note finds = find_rating_run [OF w, of ?a ra] find_rating_run [OF w, of ?b rb]
  show ?thesis
    using p elo w users users' ids
    by (simp add: write_match_def Let_def bindS_apply thenS_apply ret_apply liftS_apply finds elo_of_def persistable_def
        create_match_run link_tournament_def store_rounds rate_player_run create_history_run match_written_def comp_def)
qed

lemma persist_calm_run:
  assumes w: "w_outages w = []" and p: "persistable p ra rb (w_db w)" and elo: "elo_of p ra rb = Inr elo"
  shows "persistMatchEnded mem_app p w = (Inr Created, w\<lparr>w_db := match_written p (rd_now (w_keys w)) ra rb elo (w_db w)\<rparr>)"
proof -
  have o: "w_outages (opened w) = []" "w_db (opened w) = w_db w" "w_keys (opened w) = w_keys w"
    using w by (simp_all add: opened_def)
  have none: "find (\<lambda>m. mt_id m = me_matchId p) (d_matches (w_db w)) = None"
    using p by (auto simp: find_None_iff persistable_def recorded_def)
  have "persist_body mem_app p (opened w) = write_match mem_app p (opened w)"
    using o none p by (simp add: persist_body_def bindS_apply ret_apply mem_app_def persistable_def)
  also have "\<dots> = (Inr Created, (opened w)\<lparr>w_db := match_written p (rd_now (w_keys w)) ra rb elo (w_db w)\<rparr>)"
    using write_match_run [OF o(1), of p ra rb elo] p elo o by simp
  finally have "transaction mem_app (persist_body mem_app p) w =
      (Inr Created, w\<lparr>w_db := match_written p (rd_now (w_keys w)) ra rb elo (w_db w)\<rparr>)"
    using w by (subst transaction_returns [OF _ _]) (auto simp: frame_def opened_def)
  then show ?thesis by (simp add: persistMatchEnded_def catchS_def)
qed

subsection \<open>Properties\<close>

definition ended_demo :: MatchEndedPayload where
  "ended_demo = \<lparr>me_matchId = ''m'', me_players = (\<lparr>mp_userId = ''a'', mp_displayName = ''A'', mp_rating = 1000\<rparr>,
     \<lparr>mp_userId = ''b'', mp_displayName = ''B'', mp_rating = 1000\<rparr>), me_rounds = [], me_winner = Some ''a'',
     me_finalScore = (2, 0), me_startedAt = 0, me_tournamentMatchId = None\<rparr>"

definition empty_db :: db where
  "empty_db = \<lparr>d_users = [], d_elo = [], d_matches = [], d_rounds = [], d_history = [], d_leagues = [], d_seasons = [],
     d_standings = [], d_tournaments = [], d_registrations = [], d_tmatches = [], d_refreshTokens = [], d_resetTokens = []\<rparr>"

definition elo_demo :: "string \<Rightarrow> elo_row" where
  "elo_demo u = \<lparr>er_userId = u, er_rating = 1000, er_gamesPlayed = 3, er_updatedAt = 0\<rparr>"

definition persist_demo :: "bool list \<Rightarrow> app_world" where
  "persist_demo os = \<lparr>w_db = empty_db\<lparr>d_elo := [elo_demo ''a'', elo_demo ''b'']\<rparr>, w_saved = [],
     w_keys = \<lparr>rd_now = 7, rd_keys = \<lambda>_. None\<rparr>, w_jobs = [], w_published = [], w_outages = os\<rparr>"

text \<open>
  C25. Whatever database calls fail, and however often the queue delivers the same \<open>match-ended\<close> job
  (the database is not written by others in between): either no delivery returned \<open>created\<close> and the
  database is as it was, or exactly one did, and the database is the one a single run of it without any
  failure leaves: no rating is changed twice and none is changed without its match.
\<close>

theorem persist_exactly_once:
  assumes "app_ok env view"
    and "\<And>i. i < n \<Longrightarrow> w_db (view (s (Suc i))) = w_db (view (snd (persistMatchEnded env p (s i))))"
  shows "(\<forall>i\<le>n. fst (persistMatchEnded env p (s i)) \<noteq> Inr Created) \<and>
      w_db (view (snd (persistMatchEnded env p (s n)))) = w_db (view (s 0)) \<or>
    (\<exists>k\<le>n. fst (persistMatchEnded env p (s k)) = Inr Created \<and>
      (\<forall>i\<le>n. fst (persistMatchEnded env p (s i)) = Inr Created \<longrightarrow> i = k) \<and>
      w_db (view (s k)) = w_db (view (s 0)) \<and>
      w_db (view (snd (persistMatchEnded env p (s n)))) = w_db (snd (persistMatchEnded mem_app p (calm (view (s k))))) \<and>
      recorded (me_matchId p) (w_db (view (snd (persistMatchEnded env p (s n))))))"
proof -
  have "app_service env view" by unfold_locales (rule assms(1))
  then have sim: "sim view (persistMatchEnded env p) (persistMatchEnded mem_app p)" by (rule app_service.sim_persistMatchEnded)
  note run = sim_result [OF sim] sim_state [OF sim]
  show ?thesis
    using persisting.redelivery [of n "\<lambda>i. view (s i)" p] assms(2) unfolding persisting.did_def run by simp
qed

theorem persist_exactly_once_witness:
  "fst (persistMatchEnded mem_app ended_demo (persist_demo [True])) = Inl (DbEx DbUnavailable) \<and>
   recorded ''m'' (w_db (snd (persistMatchEnded mem_app ended_demo (persist_demo []))))"
proof -
  let ?s = "\<lambda>i::nat. persist_demo (if i = 0 then [True] else [])"
  have fails: "persistMatchEnded mem_app ended_demo (persist_demo [True]) = (Inl (DbEx DbUnavailable), persist_demo [])"
    by (simp add: persistMatchEnded_def catchS_def transaction_refused persist_demo_def isUniqueMatchConflict_def raise_def)
  have p: "persistable ended_demo (elo_demo ''a'') (elo_demo ''b'') (w_db (persist_demo []))"
    by (simp add: persistable_def persist_demo_def ended_demo_def elo_demo_def empty_db_def recorded_def)
  have "valid_args (Fin 1000) (Fin 1000) ''A'' (Fin 3) (Fin 3)" by (simp add: valid_args_def)
  then obtain elo where "elo_of ended_demo (elo_demo ''a'') (elo_demo ''b'') = Inr elo"
    using computeElo_valid by (fastforce simp: elo_of_def elo_demo_def payload_outcome_def ended_demo_def)
  from persist_calm_run [OF _ p this]
  have "fst (persistMatchEnded mem_app ended_demo (persist_demo [])) = Inr Created" by (simp add: persist_demo_def)
  moreover have "w_db (?s (Suc i)) = w_db (snd (persistMatchEnded mem_app ended_demo (?s i)))" if "i < 1" for i
    using that fails by (simp add: persist_demo_def)
  from persist_exactly_once [of mem_app "\<lambda>w. w" 1 ?s ended_demo, OF app_ok_mem this] calculation
  show ?thesis using fails by (auto simp: ended_demo_def)
qed



end
