(* ===== verification/Season_Props.thy ===== *)
theory Season_Props
  imports App_Runs "HOL-Library.Multiset"
begin

section \<open>A season is archived and its ratings reset once\<close>

text \<open>
  \<open>season_view\<close> reads from the database what a reset changes: the ratings and the final standings,
  without their reward mark. Every part of \<open>processSeasonReset\<close> but the transaction keeps it.
\<close>

definition standing_key :: "standing_row \<Rightarrow> string \<times> string \<times> int \<times> string \<times> nat" where
  "standing_key d = (sd_seasonId d, sd_userId d, sd_finalRating d, sd_finalLeagueId d, sd_rank d)"

definition rating_key :: "elo_row \<Rightarrow> string \<times> int \<times> int" where
  "rating_key e = (er_userId e, er_rating e, er_gamesPlayed e)"

definition season_view :: "db \<Rightarrow> elo_row list \<times> (string \<times> string \<times> int \<times> string \<times> nat) list" where
  "season_view d = (d_elo d, map standing_key (d_standings d))"

definition archived :: "string \<Rightarrow> db \<Rightarrow> bool" where
  "archived sid d \<longleftrightarrow> (\<exists>x \<in> set (d_standings d). sd_seasonId x = sid)"

definition soft_reset :: "elo_row \<Rightarrow> string \<times> int \<times> int" where
  "soft_reset e = (er_userId e, softResetRating (of_int (er_rating e)), 0)"

definition by_rank :: "elo_row list \<Rightarrow> elo_row list" where
  "by_rank es = sort_key (\<lambda>e. [- er_rating e, - er_gamesPlayed e]) es"

text \<open>The season \<open>sid\<close> is archived: a standing for each rating, and every rating pulled towards 1000.\<close>

definition season_archived :: "string \<Rightarrow> db \<Rightarrow> db \<Rightarrow> bool" where
  "season_archived sid d d' \<longleftrightarrow>
     (\<exists>leagues ss. standings_from sid leagues 0 (by_rank (d_elo d)) = Inr ss \<and> ss \<noteq> [] \<and>
        map standing_key (d_standings d') = map standing_key (d_standings d) @ map standing_key ss) \<and>
     map rating_key (d_elo d') = map soft_reset (d_elo d)"

lemma archived_view: "season_view d' = season_view d \<Longrightarrow> archived sid d' = archived sid d"
proof -
  have "archived sid d \<longleftrightarrow> sid \<in> fst ` set (map standing_key (d_standings d))" for d
    by (auto simp: archived_def standing_key_def image_iff)
  then show "season_view d' = season_view d \<Longrightarrow> ?thesis" by (simp only: season_view_def prod.inject)
qed

subsection \<open>The loop that pulls the ratings\<close>

definition pull :: "elo_row \<Rightarrow> string \<times> int \<times> int \<Rightarrow> string \<times> int \<times> int" where
  "pull e x = (if fst x = er_userId e then (fst x, softResetRating (of_int (er_rating e)), 0) else x)"

lemma fst_pull [simp]: "fst (fold pull es x) = fst x"
  by (induction es arbitrary: x) (simp_all add: pull_def)

lemma fold_pull_absent: "fst x \<notin> er_userId ` set es \<Longrightarrow> fold pull es x = x"
  by (induction es arbitrary: x) (simp_all add: pull_def)

lemma fold_pull: "distinct (map er_userId es) \<Longrightarrow> e \<in> set es \<Longrightarrow> fold pull es (rating_key e) = soft_reset e"
proof (induction es)
  case (Cons e' es)
  show ?case
  proof (cases "e = e'")
    case True
    have first: "pull e (rating_key e) = soft_reset e" by (simp add: pull_def soft_reset_def rating_key_def)
    have "fold pull es (soft_reset e) = soft_reset e"
      using Cons.prems True by (intro fold_pull_absent) (simp add: soft_reset_def)
    with True first show ?thesis by simp
  next
    case False
    then have "e \<in> set es" using Cons.prems by simp
    then have "er_userId e \<noteq> er_userId e'" using Cons.prems by (metis distinct.simps(2) image_eqI list.set_map list.simps(9))
    with \<open>e \<in> set es\<close> Cons show ?thesis by (simp add: pull_def rating_key_def)
  qed
qed simp

lemma map_pull: "map (fold pull es) (map (pull e) xs) = map (fold pull (e # es)) xs"
  by simp

lemma update_rating: "yields (updateRow (a_eloRating mem_app) q f)
    (\<lambda>d _ d'. \<exists>now. d' = d\<lparr>d_elo := map (\<lambda>x. if q x then (f x)\<lparr>er_updatedAt := now\<rparr> else x) (d_elo d)\<rparr>)"
  unfolding yields_def
proof (intro allI impI)
  fix w x
  assume "fst (updateRow (a_eloRating mem_app) q f w) = Inr x"
  then show "\<exists>now. w_db (snd (updateRow (a_eloRating mem_app) q f w)) =
      (w_db w)\<lparr>d_elo := map (\<lambda>x. if q x then (f x)\<lparr>er_updatedAt := now\<rparr> else x) (d_elo (w_db w))\<rparr>"
    by (intro exI [of _ "rd_now (w_keys w)"])
      (auto simp: updateRow_def mem_app_def app_call_def bindS_def ret_def raise_def Let_def o_def
        split: list.splits bool.splits if_splits prod.splits)
qed

definition pull_row :: "elo_row \<Rightarrow> (app_world, app_exn, unit) eff" where
  "pull_row e = thenS (updateRow (a_eloRating mem_app) (\<lambda>x. er_userId x = er_userId e)
     (\<lambda>x. x\<lparr>er_rating := softResetRating (of_int (er_rating e)), er_gamesPlayed := 0\<rparr>)) (ret ())"

definition pulled :: "elo_row list \<Rightarrow> db \<Rightarrow> unit \<Rightarrow> db \<Rightarrow> bool" where
  "pulled es d u d' \<longleftrightarrow> map rating_key (d_elo d') = map (fold pull es) (map rating_key (d_elo d)) \<and>
     d_standings d' = d_standings d"

lemma yields_pull_row: "yields (pull_row e) (pulled [e])"
  unfolding pull_row_def thenS_def
  by (rule yields_bindS [OF update_rating, where S = "\<lambda>_ d _ d'. d' = d"], rule yields_ret)
    (auto simp: pulled_def pull_def rating_key_def)

lemma yields_pull_rows: "yields (forS es pull_row) (pulled es)"
proof (induction es)
  case Nil
  show ?case by (simp add: yields_ret pulled_def)
next
  case (Cons e es)
  show ?case unfolding forS.simps
    by (rule yields_bindS [OF yields_pull_row Cons.IH]) (auto simp: pulled_def)
qed

subsection \<open>The transaction\<close>

lemma map_unstamped [simp]: "map (unstamped now) xs = xs"
  by (simp add: unstamped_def map_idI)

lemma create_standings: "yields (createMany (a_seasonStanding mem_app) ss)
    (\<lambda>d _ d'. d' = d\<lparr>d_standings := d_standings d @ ss\<rparr>)"
  by (simp add: yields_def createMany_def mem_app_def app_call_def Let_def
      split: list.splits bool.splits if_splits)

lemma by_rank_users: "set (by_rank es) = set es" "distinct (map er_userId es) \<Longrightarrow> distinct (map er_userId (by_rank es))"
  by (simp_all add: by_rank_def distinct_map)

lemma find_ratings: "yields (t_find (a_eloRating mem_app) (\<lambda>_. True) (\<lambda>e. [- er_rating e, - er_gamesPlayed e]) None)
    (\<lambda>d es d'. d' = d \<and> es = by_rank (d_elo d))"
  by (auto simp: yields_def mem_app_def app_call_def limit_def by_rank_def split: list.splits bool.splits)

lemma standings_from_length: "standings_from sid ls i es = Inr ss \<Longrightarrow> length ss = length es"
  by (induction es arbitrary: i ss) (auto split: sum.splits)

text \<open>What the transaction does, if it commits: nothing when there are no ratings.\<close>

definition archive_body :: "string \<Rightarrow> league_row list \<Rightarrow> (app_world, app_exn, unit) eff" where
  "archive_body sid leagues =
     bindS (t_find (a_eloRating mem_app) (\<lambda>_. True) (\<lambda>e. [- er_rating e, - er_gamesPlayed e]) None) (\<lambda>ratings.
       thenS (if length ratings > 0
           then bindS (liftS (map_sum LeagueFailure id (standings_from sid leagues 0 ratings)))
             (createMany (a_seasonStanding mem_app))
           else ret ())
         (forS ratings pull_row))"

lemma archive_eq: "archiveStandingsAndSoftReset mem_app season =
    bindS (t_find (a_league mem_app) (\<lambda>_. True) (\<lambda>l. [tier l]) None)
      (\<lambda>leagues. transaction mem_app (archive_body (sn_id season) leagues))"
  by (simp add: archiveStandingsAndSoftReset_def archive_body_def pull_row_def [abs_def])

lemma effect_archive_body: "db_effect (archive_body sid leagues)"
  unfolding archive_body_def pull_row_def by (intro effect_rules)

lemma yields_lift: "(\<And>a d. r = Inr a \<Longrightarrow> Q d a d) \<Longrightarrow> yields (liftS r) Q"
  by (simp add: yields_def liftS_apply split: sum.splits)

lemma map_sum_Inr [simp]: "map_sum f id r = Inr a \<longleftrightarrow> r = Inr a"
  by (cases r) simp_all

lemma archive_body_yields: "yields (archive_body sid leagues)
    (\<lambda>d _ d'. distinct (map er_userId (d_elo d)) \<longrightarrow> season_view d' = season_view d \<or> season_archived sid d d')"
proof -
  define S where "S es d d' \<longleftrightarrow> (if es = [] then d_standings d' = d_standings d
      else \<exists>ss. standings_from sid leagues 0 es = Inr ss \<and> d_standings d' = d_standings d @ ss) \<and> d_elo d' = d_elo d"
    for es and d d' :: db
  have create: "yields (if length es > 0
           then bindS (liftS (map_sum LeagueFailure id (standings_from sid leagues 0 es)))
             (createMany (a_seasonStanding mem_app))
           else ret ()) (\<lambda>d _ d'. S es d d')" for es
  proof (rule yields_if)
    show "yields (bindS (liftS (map_sum LeagueFailure id (standings_from sid leagues 0 es)))
             (createMany (a_seasonStanding mem_app))) (\<lambda>d _ d'. S es d d')" if "0 < length es"
      by (rule yields_bindS [OF yields_lift [where Q = "\<lambda>d ss d'. d' = d \<and> standings_from sid leagues 0 es = Inr ss"] create_standings])
        (use that in \<open>auto simp: S_def\<close>)
  qed (auto simp: S_def intro: yields_ret)
  have rest: "yields (thenS (if length es > 0
           then bindS (liftS (map_sum LeagueFailure id (standings_from sid leagues 0 es)))
             (createMany (a_seasonStanding mem_app))
           else ret ()) (forS es pull_row))
     (\<lambda>d _ d'. \<exists>d1. S es d d1 \<and> pulled es d1 () d')" for es
    unfolding thenS_def by (rule yields_bindS [OF create yields_pull_rows]) auto
  show ?thesis
    unfolding archive_body_def
  proof (rule yields_bindS [OF find_ratings rest])
    fix d a d1 x d2
    assume a: "d1 = d \<and> a = by_rank (d_elo d)" and "\<exists>d3. S a d1 d3 \<and> pulled a d3 () d2"
    then obtain d3 where S: "S a d d3" and p: "pulled a d3 () d2" by auto
    show "distinct (map er_userId (d_elo d)) \<longrightarrow> season_view d2 = season_view d \<or> season_archived sid d d2"
    proof
      assume dist: "distinct (map er_userId (d_elo d))"
      have elo: "map rating_key (d_elo d2) = map soft_reset (d_elo d)"
        using p S a fold_pull [OF by_rank_users(2) [OF dist]] by (simp add: pulled_def S_def by_rank_users(1))
      show "season_view d2 = season_view d \<or> season_archived sid d d2"
      proof (cases "d_elo d = []")
        case True
        with elo S p a show ?thesis by (simp add: season_view_def S_def pulled_def by_rank_def)
      next
        case False
        then have ne: "a \<noteq> []" using a by_rank_users(1) by (metis set_empty)
        with S obtain ss where ss: "standings_from sid leagues 0 a = Inr ss" "d_standings d3 = d_standings d @ ss"
          by (auto simp: S_def)
        then have "ss \<noteq> []" using standings_from_length [OF ss(1)] ne by auto
        with ss elo p a show ?thesis by (auto simp: season_archived_def pulled_def)
      qed
    qed
  qed
qed

subsection \<open>Everything else keeps what a reset changes\<close>

abbreviation keeps_season :: "(app_world, app_exn, 'a) eff \<Rightarrow> bool" where
  "keeps_season m \<equiv> (\<forall>c. preserves (\<lambda>w. season_view (w_db w) = c) m)"

lemma steady_season: "steady (\<lambda>d. season_view d = c) (a_season mem_app)"
  unfolding mem_app_def app_env.simps by (rule steady_mem) (simp add: season_view_def)

lemma keeps_finds [keep_rules]:
  "preserves (\<lambda>w. P (w_db w)) (t_find (a_seasonStanding mem_app) q1 k1 n)"
  "preserves (\<lambda>w. P (w_db w)) (t_find (a_user mem_app) q2 k2 n)"
  "preserves (\<lambda>w. P (w_db w)) (t_find (a_league mem_app) q3 k3 n)"
  "preserves (\<lambda>w. P (w_db w)) (t_find (a_eloHistory mem_app) q4 k4 n)"
  using reads_rows unfolding reads_def keeps_def by metis+

lemma keeps_find_first [keep_rules]:
  "preserves (\<lambda>w. P (w_db w)) (findMany (a_seasonStanding mem_app) q1)"
  "preserves (\<lambda>w. P (w_db w)) (findMany (a_user mem_app) q2)"
  "preserves (\<lambda>w. P (w_db w)) (findMany (a_league mem_app) q3)"
  "preserves (\<lambda>w. P (w_db w)) (findFirst (a_eloHistory mem_app) q4 k4)"
  unfolding findMany_def findFirst_def
  by (intro keep_rules keeps_bindS [where R = "\<lambda>_. True"]; simp)+

lemma keeps_mark: "preserves (\<lambda>w. season_view (w_db w) = c)
    (updateRow (a_seasonStanding mem_app) q (\<lambda>x. x\<lparr>sd_rewardsDistributed := True\<rparr>))"
proof -
  have same: "standing_key (if q r then r\<lparr>sd_rewardsDistributed := True\<rparr> else r) = standing_key r" for r
    by (simp add: standing_key_def)
  have "preserves (\<lambda>w. season_view (w_db w) = c) (t_update (a_seasonStanding mem_app) q (\<lambda>x. x\<lparr>sd_rewardsDistributed := True\<rparr>))"
    unfolding mem_app_def app_env.simps mem_tables
    by (rule keeps_app_call [where P = "\<lambda>d. season_view d = c"])
      (use same in \<open>simp add: season_view_def Let_def o_def unstamped_def\<close>)
  then show ?thesis
    unfolding updateRow_def by (auto intro!: keeps_bindS [where R = "\<lambda>_. True"] keep_rules split: list.split)
qed

lemma keeps_activate: "preserves (\<lambda>w. season_view (w_db w) = c) (activateNextSeasonIfNeeded mem_app)"
  unfolding activateNextSeasonIfNeeded_def
  by (auto intro!: keep_rules steady_season keeps_bindS [where R = "\<lambda>_. True"])

lemma keeps_reward: "preserves (\<lambda>w. season_view (w_db w) = c) (reward_standing mem_app season row)"
  unfolding reward_standing_def computeDelta_def
  by (auto intro!: keep_rules keeps_mark keeps_bindS [where R = "\<lambda>_. True"] split: prod.split)

lemma keeps_batch: "preserves (\<lambda>w. season_view (w_db w) = c) (reward_batch mem_app sid)"
  unfolding reward_batch_def by (intro keep_rules keeps_bindS [where R = "\<lambda>_. True"]; simp)

lemma keeps_reward_loop: "preserves (\<lambda>w. season_view (w_db w) = c) (reward_loop n mem_app season)"
proof (induction n)
  case (Suc n)
  show ?case unfolding reward_loop.simps
    by (auto intro!: keep_rules keeps_reward keeps_batch Suc.IH keeps_bindS [where R = "\<lambda>_. True"])
qed (simp add: reward_loop.simps keeps_raise)

lemma keeps_mails_pending: "preserves (\<lambda>w. season_view (w_db w) = c) (enqueuePendingRewardMails n mem_app sid)"
  unfolding enqueuePendingRewardMails_def
  by (auto intro!: keep_rules steady_season keeps_reward_loop keeps_bindS [where R = "\<lambda>_. True"] split: option.split)

lemma keeps_resolve: "preserves (\<lambda>w. season_view (w_db w) = c) (resolveSeason mem_app i)"
  unfolding resolveSeason_def
  by (auto intro!: keep_rules steady_season keeps_bindS [where R = "\<lambda>_. True"] split: option.split)

subsection \<open>The whole job\<close>

definition reset_effect :: "db \<Rightarrow> db \<Rightarrow> bool" where
  "reset_effect d d' \<longleftrightarrow> (distinct (map er_userId (d_elo d)) \<longrightarrow>
     season_view d' = season_view d \<or> (\<exists>sid. \<not> archived sid d \<and> season_archived sid d d'))"

lemma reset_effect_view:
  "season_view d' = season_view d \<Longrightarrow> reset_effect d d'"
  "season_view d' = season_view d \<Longrightarrow> reset_effect d' d'' \<Longrightarrow> reset_effect d d''"
  "reset_effect d d' \<Longrightarrow> season_view d'' = season_view d' \<Longrightarrow> reset_effect d d''"
  using archived_view [of d' d] by (auto simp: reset_effect_def season_view_def season_archived_def)

lemma archive_moves: "moves (archiveStandingsAndSoftReset mem_app season)
    (\<lambda>d d'. distinct (map er_userId (d_elo d)) \<longrightarrow> season_view d' = season_view d \<or> season_archived (sn_id season) d d')"
  unfolding archive_eq
proof (rule moves_bind_last [where f = "\<lambda>d. d"])
  show "moves (t_find (a_league mem_app) (\<lambda>_. True) (\<lambda>l. [tier l]) None) (\<lambda>d d'. d' = d)"
    by (rule moves_keeping) (intro keep_rules)
  show "moves (transaction mem_app (archive_body (sn_id season) leagues))
      (\<lambda>d d'. distinct (map er_userId (d_elo d)) \<longrightarrow> season_view d' = season_view d \<or> season_archived (sn_id season) d d')" for leagues
    unfolding moves_def
  proof
    fix w
    let ?t = "transaction mem_app (archive_body (sn_id season) leagues) w"
    show "distinct (map er_userId (d_elo (w_db w))) \<longrightarrow> season_view (w_db (snd ?t)) = season_view (w_db w) \<or>
        season_archived (sn_id season) (w_db w) (w_db (snd ?t))"
    proof (cases "fst ?t")
      case (Inl e)
      then show ?thesis using transaction_atomic [OF effect_archive_body Inl] by simp
    next
      case (Inr u)
      from yieldsD [OF yields_transaction [OF effect_archive_body archive_body_yields] this] show ?thesis .
    qed
  qed
qed simp_all

lemma reset_locked_moves: "moves (reset_locked fuel mem_app season) reset_effect"
  unfolding moves_def
proof
  fix w
  let ?rest = "\<lambda>x. thenS (activateNextSeasonIfNeeded mem_app) (thenS (enqueuePendingRewardMails fuel mem_app (sn_id season)) (ret x))"
  have rest: "moves (?rest x) (\<lambda>d d'. season_view d' = season_view d)" for x :: SeasonResetResult
    by (rule moves_keeping) (auto intro!: keep_rules keeps_activate keeps_mails_pending)
  obtain r w1 where count: "countRows (a_seasonStanding mem_app) (\<lambda>d. sd_seasonId d = sn_id season) w = (r, w1)" by fastforce
  have db: "w_db w1 = w_db w" and found: "\<And>n. r = Inr n \<Longrightarrow> n = length (filter (\<lambda>d. sd_seasonId d = sn_id season) (d_standings (w_db w)))"
    using count by (auto simp: countRows_def findMany_def mem_app_def app_call_def bindS_def ret_def limit_def
        split: list.splits bool.splits)
  show "reset_effect (w_db w) (w_db (snd (reset_locked fuel mem_app season w)))"
  proof (cases r)
    case (Inr n)
    show ?thesis
    proof (cases "n = 0")
      case True
      then have fresh: "\<not> archived (sn_id season) (w_db w)" using found [OF Inr] by (auto simp: archived_def filter_empty_conv)
      have "moves (thenS (archiveStandingsAndSoftReset mem_app season) (?rest Processed))
          (\<lambda>d d'. distinct (map er_userId (d_elo d)) \<longrightarrow> season_view d' = season_view d \<or> season_archived (sn_id season) d d')"
        unfolding thenS_def [of "archiveStandingsAndSoftReset mem_app season"]
        by (rule moves_bind_first [OF archive_moves rest]) (auto simp: season_archived_def season_view_def)
      from movesD [OF this, of w1] fresh show ?thesis
        by (auto simp: reset_locked_def bindS_def count Inr True db reset_effect_def)
    next
      case False
      then show ?thesis
        using movesD [OF rest, of AlreadyProcessed w1] by (simp add: reset_locked_def bindS_def count Inr db reset_effect_def)
    qed
  qed (use db in \<open>simp add: reset_locked_def bindS_def count reset_effect_def\<close>)
qed

lemma processSeasonReset_moves: "moves (processSeasonReset fuel mem_app cfg u i) reset_effect"
  unfolding processSeasonReset_def
proof (rule moves_bind_last [where f = season_view])
  show "moves (resolveSeason mem_app i) (\<lambda>d d'. season_view d' = season_view d)"
    by (rule moves_keeping) (rule keeps_resolve)
  have quiet: "moves (ret x) reset_effect" "moves (raise e) reset_effect" for x :: SeasonResetResult and e
    by (simp_all add: moves_def ret_def raise_def reset_effect_def)
  show "moves (case found of None \<Rightarrow> ret Noop | Some season \<Rightarrow>
        if sn_status season \<noteq> SeasonClosed then raise (UnrecoverableError ''season is not closed'')
        else let key = season_reset_lockKey cfg (sn_id season); token = lock_token cfg u in
          with_lock (acquire_lock mem_app key SEASON_RESET_LOCK_TTL_SECONDS token) (release_lock mem_app key token)
            (raise (JobError ''season reset lock not acquired'')) (reset_locked fuel mem_app season)) reset_effect" for found
    by (cases found)
      (auto simp: quiet Let_def reset_effect_def intro!: moves_with_lock keep_rules reset_locked_moves)
qed (use reset_effect_view in blast)+

subsection \<open>The loop over the reward mails, without failures\<close>

definition standing_id :: "standing_row \<Rightarrow> string \<times> string" where
  "standing_id x = (sd_seasonId x, sd_userId x)"

definition is_pending :: "string \<Rightarrow> standing_row \<Rightarrow> bool" where
  "is_pending sid x \<longleftrightarrow> sd_seasonId x = sid \<and> \<not> sd_rewardsDistributed x"

definition pending :: "string \<Rightarrow> db \<Rightarrow> standing_row list" where
  "pending sid d = filter (is_pending sid) (d_standings d)"

definition mark :: "(string \<times> string) set \<Rightarrow> standing_row \<Rightarrow> standing_row" where
  "mark K x = (if standing_id x \<in> K then x\<lparr>sd_rewardsDistributed := True\<rparr> else x)"

definition user_of :: "db \<Rightarrow> standing_row \<Rightarrow> user_row option" where
  "user_of d x = find (\<lambda>u. us_id u = sd_userId x) (d_users d)"

definition league_of :: "db \<Rightarrow> standing_row \<Rightarrow> league_row option" where
  "league_of d x = find (\<lambda>l. lg_id l = sd_finalLeagueId x) (d_leagues d)"

text \<open>The unique key of the standings, and their foreign keys.\<close>

definition rewardable :: "string \<Rightarrow> db \<Rightarrow> bool" where
  "rewardable sid d \<longleftrightarrow> distinct (map standing_id (d_standings d)) \<and>
     (\<forall>x \<in> set (pending sid d). user_of d x \<noteq> None \<and> league_of d x \<noteq> None)"

fun mail_to :: "app_job_data \<Rightarrow> string" where
  "mail_to (SendMail m) = ml_to m"
| "mail_to _ = []"

definition marked :: "(string \<times> string) set \<Rightarrow> db \<Rightarrow> db" where
  "marked K d = d\<lparr>d_standings := map (mark K) (d_standings d)\<rparr>"

lemma mark_id [simp]: "standing_id (mark K x) = standing_id x" "sd_seasonId (mark K x) = sd_seasonId x"
  by (simp_all add: mark_def standing_id_def)

lemma mark_mark: "mark K (mark K' x) = mark (K \<union> K') x"
  by (simp add: mark_def standing_id_def)

lemma marked_marked: "marked K (marked K' d) = marked (K \<union> K') d"
  by (simp add: marked_def mark_mark comp_def)

lemma find_filter: "(\<And>x. P x \<Longrightarrow> Q x) \<Longrightarrow> find P (filter Q xs) = find P xs"
  by (induction xs) auto

lemma pending_marked: "pending sid (marked K d) = filter (\<lambda>x. standing_id x \<notin> K) (pending sid d)"
proof -
  have "is_pending sid (mark K x) \<longleftrightarrow> is_pending sid x \<and> standing_id x \<notin> K" for x
    by (simp add: is_pending_def mark_def)
  moreover have "mark K x = x" if "standing_id x \<notin> K" for x using that by (simp add: mark_def)
  ultimately show ?thesis
    by (simp add: pending_def marked_def filter_map comp_def conj_commute) (auto intro!: map_idI)
qed

text \<open>One standing: one mail to its player, and its mark.\<close>

lemma compute_delta_run: "w_outages w = [] \<Longrightarrow> \<exists>n. computeDelta mem_app v r t w = (Inr n, w)"
  by (simp add: computeDelta_def findFirst_def mem_app_def bindS_def ret_def split: list.split)

lemma add_job_run: "w_outages w = [] \<Longrightarrow>
    add_mail mem_app m None w = (Inr (), w\<lparr>w_jobs := w_jobs w @ [\<lparr>aj_queue = NOTIFICATIONS_QUEUE_NAME,
      aj_name = SEND_MAIL_JOB_NAME, aj_data = SendMail m, aj_jobId = None, aj_attempts = SEND_MAIL_ATTEMPTS\<rparr>]\<rparr>)"
  by (simp add: add_mail_def mem_app_def)

lemma mark_run:
  assumes w: "w_outages w = []" and dist: "distinct (map standing_id (d_standings (w_db w)))"
    and x: "standing_id x \<in> standing_id ` set (d_standings (w_db w))"
  shows "\<exists>r. updateRow (a_seasonStanding mem_app) (\<lambda>y. sd_seasonId y = sd_seasonId x \<and> sd_userId y = sd_userId x)
      (\<lambda>y. y\<lparr>sd_rewardsDistributed := True\<rparr>) w = (Inr r, w\<lparr>w_db := marked {standing_id x} (w_db w)\<rparr>)"
proof -
  let ?q = "\<lambda>y. sd_seasonId y = sd_seasonId x \<and> sd_userId y = sd_userId x"
  have row: "(if ?q y then unstamped t (y\<lparr>sd_rewardsDistributed := True\<rparr>) else y) = mark {standing_id x} y" for y t
    by (auto simp: mark_def standing_id_def unstamped_def)
  obtain r rs where f: "filter ?q (d_standings (w_db w)) = r # rs"
    using x by (cases "filter ?q (d_standings (w_db w))") (auto simp: filter_empty_conv standing_id_def)
  have key: "map (\<lambda>r. (sd_seasonId r, sd_userId r)) xs = map standing_id xs" for xs
    by (simp add: standing_id_def)
  show ?thesis
    unfolding mem_app_def app_env.simps
    by (subst run_update [OF w, where rows = d_standings, OF f]) (use dist in \<open>simp_all add: row key marked_def comp_def\<close>)
qed

lemma reward_standing_run:
  assumes w: "w_outages w = []" and dist: "distinct (map standing_id (d_standings (w_db w)))"
    and x: "standing_id x \<in> standing_id ` set (d_standings (w_db w))"
  shows "\<exists>j. reward_standing mem_app season (x, u, l) w =
    (Inr (), w\<lparr>w_db := marked {standing_id x} (w_db w), w_jobs := w_jobs w @ [j]\<rparr>) \<and> mail_to (aj_data j) = us_email u"
proof -
  obtain n where n: "computeDelta mem_app (sd_userId x) (sd_finalRating x) (sn_startedAt season) w = (Inr n, w)"
    using compute_delta_run [OF w] by blast
  let ?m = "\<lparr>ml_to = us_email u, ml_template = ''season-reward'',
      ml_data = [(''displayName'', sanitizeForTemplate (us_displayName u)), (''seasonName'', sn_name season),
        (''rank'', show_nat (sd_rank x)), (''leagueName'', lg_name l), (''finalRating'', show_int (sd_finalRating x)),
        (''delta'', formatDelta n)]\<rparr>"
  let ?j = "\<lparr>aj_queue = NOTIFICATIONS_QUEUE_NAME, aj_name = SEND_MAIL_JOB_NAME, aj_data = SendMail ?m,
      aj_jobId = None, aj_attempts = SEND_MAIL_ATTEMPTS\<rparr>"
  let ?w = "w\<lparr>w_jobs := w_jobs w @ [?j]\<rparr>"
  have mail: "add_mail mem_app ?m None w = (Inr (), ?w)" by (rule add_job_run [OF w])
  obtain r where "updateRow (a_seasonStanding mem_app) (\<lambda>y. sd_seasonId y = sd_seasonId x \<and> sd_userId y = sd_userId x)
      (\<lambda>y. y\<lparr>sd_rewardsDistributed := True\<rparr>) ?w = (Inr r, ?w\<lparr>w_db := marked {standing_id x} (w_db ?w)\<rparr>)"
    using mark_run [of ?w x] w dist x by auto
  then show ?thesis
    using n mail by (intro exI [of _ ?j])
      (simp add: reward_standing_def bindS_def thenS_def ret_def enqueueSeasonRewardMail_def)
qed

text \<open>A batch: one mail each, in order, and their marks.\<close>

lemma reward_rows_run:
  assumes "w_outages w = []" and "distinct (map standing_id (d_standings (w_db w)))"
    and "\<forall>r \<in> set rows. standing_id (fst r) \<in> standing_id ` set (d_standings (w_db w))"
  shows "\<exists>js. forS rows (reward_standing mem_app season) w =
    (Inr (), w\<lparr>w_db := marked (standing_id ` fst ` set rows) (w_db w), w_jobs := w_jobs w @ js\<rparr>) \<and>
    map (\<lambda>j. mail_to (aj_data j)) js = map (\<lambda>r. us_email (fst (snd r))) rows"
  using assms
proof (induction rows arbitrary: w)
  case Nil
  have "mark {} = (\<lambda>x. x)" by (simp add: mark_def fun_eq_iff)
  then show ?case by (simp add: ret_def marked_def)
next
  case (Cons row rows)
  obtain x u l where row: "row = (x, u, l)" by (cases row)
  obtain j where j: "reward_standing mem_app season (x, u, l) w =
    (Inr (), w\<lparr>w_db := marked {standing_id x} (w_db w), w_jobs := w_jobs w @ [j]\<rparr>)" "mail_to (aj_data j) = us_email u"
    using reward_standing_run [of w x season u l] Cons.prems row by auto
  let ?w = "w\<lparr>w_db := marked {standing_id x} (w_db w), w_jobs := w_jobs w @ [j]\<rparr>"
  have ids: "map standing_id (d_standings (marked K d)) = map standing_id (d_standings d)" for K d
    by (simp add: marked_def)
  have "standing_id ` set (d_standings (w_db ?w)) = standing_id ` set (d_standings (w_db w))"
    by (simp add: marked_def image_image)
  with Cons.IH [of ?w] Cons.prems ids obtain js where js: "forS rows (reward_standing mem_app season) ?w =
    (Inr (), ?w\<lparr>w_db := marked (standing_id ` fst ` set rows) (w_db ?w), w_jobs := w_jobs ?w @ js\<rparr>)"
    "map (\<lambda>j. mail_to (aj_data j)) js = map (\<lambda>r. us_email (fst (snd r))) rows"
    by auto
  then show ?case
    using j by (intro exI [of _ "j # js"]) (simp add: bindS_def row marked_marked)
qed

lemma find_known: "find P xs = Some y \<Longrightarrow> (\<And>x. P x \<Longrightarrow> Q x) \<Longrightarrow> find P (filter Q xs) = Some y"
  by (simp add: find_filter)

lemma joined_rows:
  assumes "\<forall>x \<in> set ds. user_of d x \<noteq> None \<and> league_of d x \<noteq> None"
    and "\<And>x. x \<in> set ds \<Longrightarrow> sd_userId x \<in> U \<and> sd_finalLeagueId x \<in> L"
  shows "with_user_and_league ds (filter (\<lambda>u. us_id u \<in> U) (d_users d)) (filter (\<lambda>l. lg_id l \<in> L) (d_leagues d)) =
    map (\<lambda>x. (x, the (user_of d x), the (league_of d x))) ds"
  using assms
proof (induction ds)
  case (Cons x ds)
  have "find (\<lambda>u. us_id u = sd_userId x) (filter (\<lambda>u. us_id u \<in> U) (d_users d)) = user_of d x"
    "find (\<lambda>l. lg_id l = sd_finalLeagueId x) (filter (\<lambda>l. lg_id l \<in> L) (d_leagues d)) = league_of d x"
    using Cons.prems(2) [of x] unfolding user_of_def league_of_def by (auto intro!: find_filter)
  with Cons show ?case by (auto simp: with_user_and_league_def map_filter_simps)
qed (simp add: with_user_and_league_def map_filter_simps)

definition next_batch :: "string \<Rightarrow> db \<Rightarrow> standing_row list" where
  "next_batch sid d = take MAIL_BATCH_SIZE (sort_key (\<lambda>x. [int (sd_rank x)]) (pending sid d))"

lemma next_batch_pending: "set (next_batch sid d) \<subseteq> set (pending sid d)"
  unfolding next_batch_def using set_take_subset by fastforce

lemma reward_batch_run:
  assumes w: "w_outages w = []" and r: "rewardable sid (w_db w)"
  shows "reward_batch mem_app sid w = (Inr (map (\<lambda>x. (x, the (user_of (w_db w) x), the (league_of (w_db w) x)))
    (next_batch sid (w_db w))), w)"
proof -
  let ?ds = "next_batch sid (w_db w)"
  have ds: "t_find (a_seasonStanding mem_app) (\<lambda>d. sd_seasonId d = sid \<and> \<not> sd_rewardsDistributed d)
      (\<lambda>d. [int (sd_rank d)]) (Some MAIL_BATCH_SIZE) w = (Inr ?ds, w)"
    using w by (simp add: mem_app_def next_batch_def pending_def is_pending_def [abs_def] limit_def)
  have "with_user_and_league ?ds (filter (\<lambda>u. us_id u \<in> sd_userId ` set ?ds) (d_users (w_db w)))
      (filter (\<lambda>l. lg_id l \<in> sd_finalLeagueId ` set ?ds) (d_leagues (w_db w)))
    = map (\<lambda>x. (x, the (user_of (w_db w) x), the (league_of (w_db w) x))) ?ds"
    by (rule joined_rows) (use r next_batch_pending [of sid "w_db w"] in \<open>auto simp: rewardable_def\<close>)
  with w show ?thesis
    unfolding reward_batch_def by (simp add: bindS_def ret_def ds) (simp add: mem_app_def)
qed

lemma mset_sort_split:
  "mset (map f (take n (sort_key k xs))) + mset (map f (drop n (sort_key k xs))) = mset (map f xs)"
  by (metis append_take_drop_id map_append mset_append mset_map mset_sort)

lemma length_next_batch: "length (next_batch sid d) = min MAIL_BATCH_SIZE (length (pending sid d))"
  by (simp add: next_batch_def min.commute)

text \<open>What is left after a batch.\<close>

lemma pending_after:
  assumes "distinct (map standing_id (d_standings d))"
  shows "mset (pending sid (marked (standing_id ` set (next_batch sid d)) d)) =
    mset (pending sid d) - mset (next_batch sid d)"
proof -
  let ?b = "next_batch sid d" and ?p = "pending sid d"
  have p: "distinct (map standing_id ?p)" using assms by (simp add: pending_def distinct_map_filter)
  have "filter (\<lambda>x. standing_id x \<notin> standing_id ` set ?b) ?p = filter (\<lambda>x. x \<notin> set ?b) ?p"
    using p next_batch_pending [of sid d] by (intro filter_cong) (auto simp: distinct_map dest: inj_onD)
  moreover have dist: "distinct ?p" "distinct ?b" using p by (auto simp: distinct_map next_batch_def)
  moreover have "set (filter (\<lambda>x. x \<notin> set ?b) ?p) = set ?p - set ?b" by auto
  ultimately have "mset (pending sid (marked (standing_id ` set ?b) d)) = mset_set (set ?p - set ?b)"
    by (metis distinct_filter mset_set_set pending_marked)
  also have "\<dots> = mset ?p - mset ?b"
    using dist next_batch_pending [of sid d] by (simp add: mset_set_Diff mset_set_set)
  finally show ?thesis .
qed

lemma rewardable_marked: "rewardable sid d \<Longrightarrow> rewardable sid (marked K d)"
  by (auto simp: rewardable_def pending_marked) (simp_all add: marked_def user_of_def league_of_def comp_def)

text \<open>The address a standing is mailed to.\<close>

definition address :: "db \<Rightarrow> standing_row \<Rightarrow> string" where
  "address d x = us_email (the (user_of d x))"

lemma address_marked [simp]: "address (marked K d) = address d"
  by (simp add: address_def user_of_def marked_def fun_eq_iff)

lemma mark_pending: "map (mark (standing_id ` set (pending sid d))) xs =
    map (\<lambda>x. if standing_id x \<in> standing_id ` set (pending sid d) then x\<lparr>sd_rewardsDistributed := True\<rparr> else x) xs"
  by (simp add: mark_def)

lemma reward_loop_run:
  assumes "w_outages w = []" and "rewardable sid (w_db w)" and "sn_id season = sid"
    and "length (pending sid (w_db w)) < MAIL_BATCH_SIZE * n"
  shows "\<exists>js. reward_loop n mem_app season w =
      (Inr (), w\<lparr>w_db := marked (standing_id ` set (pending sid (w_db w))) (w_db w), w_jobs := w_jobs w @ js\<rparr>) \<and>
    mset (map (\<lambda>j. mail_to (aj_data j)) js) = mset (map (address (w_db w)) (pending sid (w_db w)))"
  using assms
proof (induction n arbitrary: w)
  case (Suc n)
  let ?d = "w_db w" and ?b = "next_batch sid (w_db w)" and ?p = "pending sid (w_db w)"
  let ?rows = "map (\<lambda>x. (x, the (user_of ?d x), the (league_of ?d x))) ?b"
  have batch: "reward_batch mem_app (sn_id season) w = (Inr ?rows, w)"
    using reward_batch_run [OF Suc.prems(1,2)] Suc.prems(3) by simp
  have "\<forall>r \<in> set ?rows. standing_id (fst r) \<in> standing_id ` set (d_standings ?d)"
    using next_batch_pending [of sid ?d] by (auto simp: pending_def)
  with Suc.prems(1,2) obtain js where js: "forS ?rows (reward_standing mem_app season) w =
      (Inr (), w\<lparr>w_db := marked (standing_id ` set ?b) ?d, w_jobs := w_jobs w @ js\<rparr>)"
    "map (\<lambda>j. mail_to (aj_data j)) js = map (address ?d) ?b"
    using reward_rows_run [of w ?rows season] by (auto simp: rewardable_def image_image address_def comp_def)
  let ?w = "w\<lparr>w_db := marked (standing_id ` set ?b) ?d, w_jobs := w_jobs w @ js\<rparr>"
  show ?case
  proof (cases "length ?b < MAIL_BATCH_SIZE")
    case True
    then have all: "mset ?b = mset ?p" by (simp add: next_batch_def)
    then have "set ?b = set ?p" by (rule mset_eq_setD)
    moreover have "mset (map (address ?d) ?b) = mset (map (address ?d) ?p)" using all by simp
    moreover have "?b = [] \<Longrightarrow> ?p = []" using all by simp
    moreover have "mark {} = (\<lambda>x. x)" by (simp add: mark_def fun_eq_iff)
    ultimately show ?thesis
    proof (cases "?b = []")
      case True
      with \<open>?b = [] \<Longrightarrow> ?p = []\<close> \<open>mark {} = (\<lambda>x. x)\<close> batch show ?thesis
        by (intro exI [of _ "[]"]) (simp add: reward_loop.simps(2) bindS_apply ret_apply marked_def)
    next
      case False
      with \<open>set ?b = set ?p\<close> \<open>mset (map (address ?d) ?b) = mset (map (address ?d) ?p)\<close> js batch True show ?thesis
        by (intro exI [of _ js]) (simp add: reward_loop.simps(2) bindS_apply thenS_apply ret_apply)
    qed
  next
    case False
    have len: "length ?b = MAIL_BATCH_SIZE" using False by (simp add: length_next_batch)
    have rest: "mset (pending sid (w_db ?w)) = mset ?p - mset ?b"
      using pending_after [of ?d sid] Suc.prems(2) by (simp add: rewardable_def)
    have sub: "mset ?b + (mset ?p - mset ?b) = mset ?p"
      using mset_sort_split [of "\<lambda>x. x" MAIL_BATCH_SIZE "\<lambda>x. [int (sd_rank x)]" ?p]
      by (simp add: next_batch_def) (metis add_diff_cancel_left')
    then have "length ?b + size (mset ?p - mset ?b) = length ?p" by (metis size_mset size_union)
    then have less: "length (pending sid (w_db ?w)) < MAIL_BATCH_SIZE * n"
      using arg_cong [OF rest, of size] len Suc.prems(4) by simp
    obtain js' where js': "reward_loop n mem_app season ?w =
        (Inr (), ?w\<lparr>w_db := marked (standing_id ` set (pending sid (w_db ?w))) (w_db ?w), w_jobs := w_jobs ?w @ js'\<rparr>)"
      "mset (map (\<lambda>j. mail_to (aj_data j)) js') = mset (map (address ?d) (pending sid (w_db ?w)))"
      using Suc.IH [of ?w] Suc.prems(1-3) less rewardable_marked [OF Suc.prems(2)] by auto
    have sets: "set ?b \<union> set (pending sid (w_db ?w)) = set ?p"
      using arg_cong [OF sub, of set_mset] arg_cong [OF rest, of set_mset] by simp
    have mails: "mset (map (\<lambda>j. mail_to (aj_data j)) (js @ js')) = mset (map (address ?d) ?p)"
      using js(2) js'(2) arg_cong [OF sub, of "image_mset (address ?d)"] rest by (simp add: mset_map)
    have "?b \<noteq> []" using len by (auto simp: MAIL_BATCH_SIZE_def)
    then show ?thesis
      using js batch False js' len mails
      by (intro exI [of _ "js @ js'"])
        (simp add: reward_loop.simps(2) bindS_apply thenS_apply ret_apply marked_marked MAIL_BATCH_SIZE_def
          image_Un [symmetric] sets [simplified] Un_commute)
  qed
qed simp

subsection \<open>Properties\<close>

definition season_demo :: "SeasonStatus \<Rightarrow> season_row" where
  "season_demo st = \<lparr>sn_id = ''s'', sn_name = ''Winter'', sn_startedAt = 0, sn_endsAt = None, sn_status = st,
     sn_createdAt = 0, sn_updatedAt = 0\<rparr>"

definition standing_demo :: "string \<Rightarrow> nat \<Rightarrow> standing_row" where
  "standing_demo u r = \<lparr>sd_seasonId = ''s'', sd_userId = u, sd_finalRating = 1200, sd_finalLeagueId = ''l'', sd_rank = r,
     sd_rewardsDistributed = False\<rparr>"

definition reward_demo :: app_world where
  "reward_demo = \<lparr>w_db = \<lparr>
     d_users = [\<lparr>us_id = ''a'', us_email = ''a@x'', us_displayName = ''A'', us_passwordHash = ''h'', us_role = RolePlayer,
       us_createdAt = 0, us_updatedAt = 0\<rparr>], d_elo = [], d_matches = [], d_rounds = [], d_history = [],
     d_leagues = [\<lparr>lg_name = ''Bronze'', tier = 0, minRating = Fin 0, maxRating = None, lg_id = ''l''\<rparr>],
     d_seasons = [season_demo SeasonClosed], d_standings = [standing_demo ''a'' 1], d_tournaments = [],
     d_registrations = [], d_tmatches = [], d_refreshTokens = [], d_resetTokens = []\<rparr>,
     w_saved = [], w_keys = \<lparr>rd_now = 7, rd_keys = \<lambda>_. None\<rparr>, w_jobs = [], w_published = [], w_outages = []\<rparr>"

lemma standings_from_season: "standings_from sid ls i es = Inr ss \<Longrightarrow> x \<in> set ss \<Longrightarrow> sd_seasonId x = sid"
  by (induction es arbitrary: i ss) (auto split: sum.splits)

lemma archived_after:
  assumes "season_archived sid d d'"
  shows "archived sid d'"
proof -
  from assms obtain ls ss where ss: "standings_from sid ls 0 (by_rank (d_elo d)) = Inr ss" "ss \<noteq> []"
    "map standing_key (d_standings d') = map standing_key (d_standings d) @ map standing_key ss"
    by (auto simp: season_archived_def)
  have "standing_key (hd ss) \<in> standing_key ` set (d_standings d')"
    using arg_cong [OF ss(3), of set] ss(2) by simp
  then obtain x where "x \<in> set (d_standings d')" "standing_key x = standing_key (hd ss)" by auto
  with standings_from_season [OF ss(1), of "hd ss"] ss(2) show ?thesis
    by (auto simp: archived_def standing_key_def)
qed

definition reset_demo :: app_world where
  "reset_demo = reward_demo\<lparr>w_db := (w_db reward_demo)\<lparr>d_elo := [\<lparr>er_userId = ''a'', er_rating = 1200, er_gamesPlayed = 9, er_updatedAt = 0\<rparr>],
     d_standings := []\<rparr>, w_outages := [False, False, False, True]\<rparr>"

text \<open>
  C27. Whatever fails during a season reset, and however it ends: either no rating and no final standing
  has changed, or a season that had no standings has been archived whole, with one standing for each rating
  in the order of the ranking, and every rating has been pulled towards 1000 and its games reset. As an
  archived season has standings, its ratings are never pulled again for it.
\<close>

theorem season_reset_once:
  assumes "app_ok env view" and "distinct (map er_userId (d_elo (w_db (view s))))"
  shows "season_view (w_db (view (snd (processSeasonReset fuel env cfg u i s)))) = season_view (w_db (view s)) \<or>
    (\<exists>sid. \<not> archived sid (w_db (view s)) \<and> archived sid (w_db (view (snd (processSeasonReset fuel env cfg u i s)))) \<and>
      season_archived sid (w_db (view s)) (w_db (view (snd (processSeasonReset fuel env cfg u i s)))))"
proof -
  have "app_service env view" by unfold_locales (rule assms(1))
  from sim_state [OF app_service.sim_processSeasonReset [OF this], of fuel cfg u i s]
  have run: "view (snd (processSeasonReset fuel env cfg u i s)) = snd (processSeasonReset fuel mem_app cfg u i (view s))" .
  have "archived sid d'" if "season_archived sid d d'" for sid d d'
    by (rule archived_after [OF that])
  with movesD [OF processSeasonReset_moves, of "view s" fuel cfg u i] assms(2) show ?thesis
    unfolding run reset_effect_def by blast
qed

theorem season_reset_once_witness:
  "let d = w_db reset_demo; d' = w_db (snd (processSeasonReset 3 mem_app \<lparr>jc_BULLMQ_PREFIX = ''b'', jc_WORKER_ROLE = ''w''\<rparr> ''u'' (Some ''s'') reset_demo))
   in season_view d' = season_view d \<or> (\<exists>sid. archived sid d' \<and> map rating_key (d_elo d') = [(''a'', 1150, 0)])"
proof -
  have dist: "distinct (map er_userId (d_elo (w_db reset_demo)))" by (simp add: reset_demo_def)
  have "map soft_reset (d_elo (w_db reset_demo)) = [(''a'', 1150, 0)]"
    by (simp add: reset_demo_def soft_reset_def softResetRating_int [of 1200, simplified])
  with season_reset_once [OF app_ok_mem dist] show ?thesis
    unfolding Let_def season_archived_def by metis
qed

text \<open>
  C28. The loop over the reward mails ends: with more than n/200 rounds for n standings whose mail is still
  to be sent, a run without failures marks each of them, and queues one mail to each of their players.
\<close>

theorem rewards_mailed:
  assumes "app_ok env view" and "w_outages (view s) = []" and "rewardable (sn_id season) (w_db (view s))"
    and "length (pending (sn_id season) (w_db (view s))) < MAIL_BATCH_SIZE * fuel"
  shows "fst (reward_loop fuel env season s) = Inr () \<and>
    pending (sn_id season) (w_db (view (snd (reward_loop fuel env season s)))) = [] \<and>
    (\<exists>js. w_jobs (view (snd (reward_loop fuel env season s))) = w_jobs (view s) @ js \<and>
      mset (map (\<lambda>j. mail_to (aj_data j)) js) =
      mset (map (address (w_db (view s))) (pending (sn_id season) (w_db (view s)))))"
proof -
  have "app_service env view" by unfold_locales (rule assms(1))
  note sim = app_service.sim_reward_loop [OF this, of fuel season]
  show ?thesis
    using reward_loop_run [OF assms(2,3) refl assms(4)] sim_result [OF sim, of s] sim_state [OF sim, of s]
    by (auto simp: pending_marked filter_empty_conv)
qed

theorem rewards_mailed_witness:
  "fst (reward_loop 1 mem_app (season_demo SeasonClosed) reward_demo) = Inr () \<and>
   (\<exists>j. w_jobs (snd (reward_loop 1 mem_app (season_demo SeasonClosed) reward_demo)) = [j] \<and> mail_to (aj_data j) = ''a@x'')"
proof -
  have p: "pending ''s'' (w_db reward_demo) = [standing_demo ''a'' 1]"
    by (simp add: pending_def is_pending_def reward_demo_def standing_demo_def)
  have r: "rewardable ''s'' (w_db reward_demo)"
    by (simp add: rewardable_def p user_of_def league_of_def) (simp add: reward_demo_def standing_demo_def)
  have a: "address (w_db reward_demo) (standing_demo ''a'' 1) = ''a@x''"
    by (simp add: address_def user_of_def reward_demo_def standing_demo_def)
  have s: "sn_id (season_demo SeasonClosed) = ''s''" by (simp add: season_demo_def)
  have o: "w_outages reward_demo = []" "w_jobs reward_demo = []" by (simp_all add: reward_demo_def)
  have "length (pending ''s'' (w_db reward_demo)) < MAIL_BATCH_SIZE * 1" by (simp add: p MAIL_BATCH_SIZE_def)
  note run = rewards_mailed [of mem_app "\<lambda>w. w" reward_demo "season_demo SeasonClosed" 1, unfolded s, OF app_ok_mem o(1) r this]
  then obtain js where js: "w_jobs (snd (reward_loop 1 mem_app (season_demo SeasonClosed) reward_demo)) = js"
    "mset (map (\<lambda>j. mail_to (aj_data j)) js) = mset [''a@x'']"
    using o(2) by (auto simp only: p a append_Nil list.map)
  then have "map (\<lambda>j. mail_to (aj_data j)) js = [''a@x'']" by (simp only: mset_single_iff mset.simps add_0 empty_neutral)
  with run js(1) show ?thesis by (auto simp: map_eq_Cons_conv)
qed

end
