(* ===== verification/User_Service.thy ===== *)
theory User_Service
  imports Database
begin

section \<open>apps/user-service: accounts, profiles and the leaderboard\<close>

text \<open>
  \<open>users/users.service.ts\<close>, its gRPC controller, and the gRPC client of the auth service and of the api
  (\<open>user-service/user.service.ts\<close>, the same in both but for the methods it offers). The password library
  (argon2), the hash of node:crypto and the JWT library are the parameter \<open>crypto\<close>; \<open>crypto_ok\<close> states
  what the code relies on. Page and limit are positive, as the controllers of the api check. An \<open>include\<close> of
  a rating is a second query; every rating has its user, by the foreign key.
\<close>

subsection \<open>The libraries\<close>

record AccessTokenPayload =
  ap_sub :: string
  ap_role :: string
  ap_jti :: string
  ap_displayName :: string

record crypto =
  cr_sha256 :: "string \<Rightarrow> string"
  cr_argon2_hash :: "string \<Rightarrow> string \<Rightarrow> string"
  cr_argon2_verify :: "string \<Rightarrow> string \<Rightarrow> bool option"
  cr_jwt_sign :: "AccessTokenPayload \<Rightarrow> time \<Rightarrow> string"
  cr_jwt_decode :: "string \<Rightarrow> (AccessTokenPayload \<times> time) option"

text \<open>
  A hash (with its salt) verifies against its own password and no other; it is not empty; \<open>None\<close> is a
  malformed hash. Different texts have different digests. A signed token, which is not blank, decodes to its
  claims.
\<close>

definition crypto_ok :: "crypto \<Rightarrow> bool" where
  "crypto_ok c \<longleftrightarrow>
     (\<forall>salt p q. cr_argon2_verify c (cr_argon2_hash c salt p) q = Some (p = q)) \<and>
     inj (cr_sha256 c) \<and>
     (\<forall>p e. cr_jwt_decode c (cr_jwt_sign c p e) = Some (p, e) \<and> trim (cr_jwt_sign c p e) \<noteq> [])"

subsection \<open>users.service.ts\<close>

record UserRecord =
  ur_id :: string
  ur_email :: string
  ur_displayName :: string
  ur_role :: string
  ur_createdAt :: time

record CurrentUserProfile = UserRecord +
  cp_rating :: int
  cp_gamesPlayed :: int
  cp_league :: league_summary

record PublicUserProfile =
  pp_id :: string
  pp_displayName :: string
  pp_rating :: int
  pp_gamesPlayed :: int
  pp_league :: league_summary
  pp_winRate :: real
  pp_createdAt :: time

record AdminUserSummary = UserRecord +
  au_rating :: int
  au_gamesPlayed :: int

record CompetitionStats =
  cs_rating :: int
  cs_gamesPlayed :: int
  cs_rank :: nat

definition mapRole :: "UserRole \<Rightarrow> string" where
  "mapRole role = (if role = RoleAdmin then ''admin'' else ''player'')"

definition toUserRecord :: "user_row \<Rightarrow> UserRecord" where
  "toUserRecord u = \<lparr>ur_id = us_id u, ur_email = us_email u, ur_displayName = us_displayName u,
     ur_role = mapRole (us_role u), ur_createdAt = us_createdAt u\<rparr>"

definition us_findByEmail :: "'s app_env \<Rightarrow> string \<Rightarrow> ('s, app_exn, UserRecord option) eff" where
  "us_findByEmail env email = bindS (findUnique (a_user env) (\<lambda>u. us_email u = email)) (\<lambda>user. ret (map_option toUserRecord user))"

definition us_findById :: "'s app_env \<Rightarrow> string \<Rightarrow> ('s, app_exn, UserRecord option) eff" where
  "us_findById env i = bindS (findUnique (a_user env) (\<lambda>u. us_id u = i)) (\<lambda>user. ret (map_option toUserRecord user))"

text \<open>\<open>findUnique({ where: { id }, include: { eloRating: true } })\<close>, and the exception when there is none.\<close>

definition user_with_rating :: "'s app_env \<Rightarrow> string \<Rightarrow> ('s, app_exn, user_row \<times> elo_row option) eff" where
  "user_with_rating env userId =
     bindS (findUnique (a_user env) (\<lambda>u. us_id u = userId)) (\<lambda>user.
       case user of
         None \<Rightarrow> raise (HttpError 404 ''USER_NOT_FOUND'')
       | Some u \<Rightarrow> bindS (findUnique (a_eloRating env) (\<lambda>e. er_userId e = userId)) (\<lambda>e. ret (u, e)))"

definition rating_or_default :: "elo_row option \<Rightarrow> int" where
  "rating_or_default e = (case e of None \<Rightarrow> 1000 | Some r \<Rightarrow> er_rating r)"

definition games_or_default :: "elo_row option \<Rightarrow> int" where
  "games_or_default e = (case e of None \<Rightarrow> 0 | Some r \<Rightarrow> er_gamesPlayed r)"

definition us_getRating :: "'s app_env \<Rightarrow> string \<Rightarrow> ('s, app_exn, int \<times> int) eff" where
  "us_getRating env userId = bindS (user_with_rating env userId) (\<lambda>ue.
     ret (rating_or_default (snd ue), games_or_default (snd ue)))"

definition league_for :: "int \<Rightarrow> ('s, app_exn, league_summary) eff" where
  "league_for rating = liftS (map_sum LeagueFailure id (getLeagueSummaryForRating (Fin (of_int rating))))"

definition us_getCurrentProfile :: "'s app_env \<Rightarrow> string \<Rightarrow> ('s, app_exn, CurrentUserProfile) eff" where
  "us_getCurrentProfile env userId = bindS (user_with_rating env userId) (\<lambda>ue.
     let u = fst ue; rating = rating_or_default (snd ue) in
     bindS (league_for rating) (\<lambda>league.
       ret \<lparr>ur_id = us_id u, ur_email = us_email u, ur_displayName = us_displayName u, ur_role = mapRole (us_role u),
         ur_createdAt = us_createdAt u, cp_rating = rating, cp_gamesPlayed = games_or_default (snd ue), cp_league = league\<rparr>))"

text \<open>The query in SQL; the error of a table that does not exist yet is not modelled.\<close>

definition countWins :: "'s app_env \<Rightarrow> string \<Rightarrow> ('s, app_exn, nat) eff" where
  "countWins env userId = countRows (a_match env) (\<lambda>m. mt_winnerId m = Some userId)"

definition calculateWinRate :: "nat \<Rightarrow> int \<Rightarrow> real" where
  "calculateWinRate wins gamesPlayed =
     (if gamesPlayed = 0 then 0 else of_int (math_round (of_nat wins / of_int gamesPlayed * 100)) / 100)"

definition us_getPublicProfile :: "'s app_env \<Rightarrow> string \<Rightarrow> ('s, app_exn, PublicUserProfile) eff" where
  "us_getPublicProfile env userId = bindS (user_with_rating env userId) (\<lambda>ue.
     let u = fst ue; gamesPlayed = games_or_default (snd ue); rating = rating_or_default (snd ue) in
     bindS (if gamesPlayed = 0 then ret 0 else countWins env userId) (\<lambda>wins.
     bindS (league_for rating) (\<lambda>league.
       ret \<lparr>pp_id = us_id u, pp_displayName = us_displayName u, pp_rating = rating, pp_gamesPlayed = gamesPlayed,
         pp_league = league, pp_winRate = calculateWinRate wins gamesPlayed, pp_createdAt = us_createdAt u\<rparr>)))"

text \<open>\<open>skip\<close> and \<open>take\<close> of a query.\<close>

definition find_page :: "('s, 'r) table \<Rightarrow> ('r \<Rightarrow> bool) \<Rightarrow> ('r \<Rightarrow> int list) \<Rightarrow> nat \<Rightarrow> nat \<Rightarrow> ('s, app_exn, 'r list) eff" where
  "find_page t w key skip n = bindS (t_find t w key (Some (skip + n))) (\<lambda>rows. ret (drop skip rows))"

definition listUsers :: "'s app_env \<Rightarrow> nat \<Rightarrow> nat \<Rightarrow> ('s, app_exn, AdminUserSummary list \<times> nat) eff" where
  "listUsers env page lmt = transaction env
     (bindS (find_page (a_user env) (\<lambda>_. True) (\<lambda>u. [- us_createdAt u]) ((page - 1) * lmt) lmt) (\<lambda>rows.
      bindS (findMany (a_eloRating env) (\<lambda>e. er_userId e \<in> us_id ` set rows)) (\<lambda>ratings.
      bindS (countRows (a_user env) (\<lambda>_. True)) (\<lambda>total.
        ret (map (\<lambda>u. let e = find (\<lambda>e. er_userId e = us_id u) ratings in
          \<lparr>ur_id = us_id u, ur_email = us_email u, ur_displayName = us_displayName u, ur_role = mapRole (us_role u),
            ur_createdAt = us_createdAt u, au_rating = rating_or_default e, au_gamesPlayed = games_or_default e\<rparr>) rows, total)))))"

text \<open>\<open>toRatingWhere\<close>\<close>

definition toRatingWhere :: "league option \<Rightarrow> elo_row \<Rightarrow> bool" where
  "toRatingWhere league e = (case league of None \<Rightarrow> True
     | Some l \<Rightarrow> js_le (minRating l) (Fin (of_int (er_rating e))) \<and>
         (case maxRating l of None \<Rightarrow> True | Some m \<Rightarrow> js_le (Fin (of_int (er_rating e))) m))"

definition board_order :: "elo_row \<Rightarrow> int list" where
  "board_order e = [- er_rating e, - er_gamesPlayed e]"

text \<open>\<open>rows.map((row, index) => ...)\<close>: the league of a row may throw.\<close>

fun board_items :: "league option \<Rightarrow> user_row list \<Rightarrow> nat \<Rightarrow> elo_row list \<Rightarrow> LeagueErrorCode + LeaderboardItem list" where
  "board_items league users i [] = Inr []"
| "board_items league users i (e # es) =
     (case find (\<lambda>u. us_id u = er_userId e) users of
        None \<Rightarrow> board_items league users i es
      | Some u \<Rightarrow>
         (case (case league of Some l \<Rightarrow> Inr (toLeagueSummary l) | None \<Rightarrow> getLeagueSummaryForRating (Fin (of_int (er_rating e)))) of
            Inl x \<Rightarrow> Inl x
          | Inr s \<Rightarrow> (case board_items league users (Suc i) es of
              Inl x \<Rightarrow> Inl x
            | Inr items \<Rightarrow> Inr (\<lparr>lb_rank = i + 1, lb_userId = us_id u, lb_displayName = us_displayName u,
                lb_rating = er_rating e, lb_gamesPlayed = er_gamesPlayed e, lb_league = s\<rparr> # items))))"

definition us_listLeaderboard :: "'s app_env \<Rightarrow> nat \<Rightarrow> string option \<Rightarrow> ('s, app_exn, LeaderboardItem list) eff" where
  "us_listLeaderboard env lmt leagueName =
     (let league = (if truthy leagueName then getReferenceLeagueByName (the leagueName) else None) in
      bindS (t_find (a_eloRating env) (toRatingWhere league) board_order (Some lmt)) (\<lambda>rows.
      bindS (findMany (a_user env) (\<lambda>u. us_id u \<in> er_userId ` set rows)) (\<lambda>users.
        liftS (map_sum LeagueFailure id (board_items league users 0 rows)))))"

definition us_getCompetitionStats :: "'s app_env \<Rightarrow> string \<Rightarrow> ('s, app_exn, CompetitionStats) eff" where
  "us_getCompetitionStats env userId = bindS (us_getRating env userId) (\<lambda>r.
     bindS (countRows (a_eloRating env) (\<lambda>e. er_rating e > fst r \<or> er_rating e = fst r \<and> er_gamesPlayed e > snd r)) (\<lambda>ahead.
       ret \<lparr>cs_rating = fst r, cs_gamesPlayed = snd r, cs_rank = ahead + 1\<rparr>))"

text \<open>For an unknown address a dummy hash is verified, for its time only.\<close>

definition us_verifyPassword :: "'s app_env \<Rightarrow> crypto \<Rightarrow> string \<Rightarrow> string \<Rightarrow> ('s, app_exn, (string \<times> string \<times> string) option) eff" where
  "us_verifyPassword env c email plaintextPassword =
     bindS (findUnique (a_user env) (\<lambda>u. us_email u = email)) (\<lambda>user.
       case user of
         None \<Rightarrow> ret None
       | Some u \<Rightarrow> (case cr_argon2_verify c (us_passwordHash u) plaintextPassword of
           None \<Rightarrow> raise ArgonError
         | Some valid \<Rightarrow> if \<not> valid then ret None else ret (Some (us_id u, us_displayName u, mapRole (us_role u)))))"

text \<open>The user and its rating, in one transaction; the random id is an argument.\<close>

definition us_createUser :: "'s app_env \<Rightarrow> string \<Rightarrow> string \<Rightarrow> string \<Rightarrow> string \<Rightarrow> ('s, app_exn, UserRecord) eff" where
  "us_createUser env newId email passwordHash displayName = transaction env
     (bindS (a_now env) (\<lambda>now.
       let created = \<lparr>us_id = newId, us_email = email, us_displayName = displayName, us_passwordHash = passwordHash,
         us_role = RolePlayer, us_createdAt = now, us_updatedAt = now\<rparr> in
       thenS (createMany (a_user env) [created])
         (thenS (createMany (a_eloRating env) [\<lparr>er_userId = newId, er_rating = 1000, er_gamesPlayed = 0, er_updatedAt = 0\<rparr>])
           (ret (toUserRecord created)))))"

definition us_updatePassword :: "'s app_env \<Rightarrow> string \<Rightarrow> string \<Rightarrow> ('s, app_exn, unit) eff" where
  "us_updatePassword env userId passwordHash =
     thenS (updateRow (a_user env) (\<lambda>u. us_id u = userId) (\<lambda>u. u\<lparr>us_passwordHash := passwordHash\<rparr>)) (ret ())"

definition isNotFoundError :: "app_exn \<Rightarrow> bool" where
  "isNotFoundError e \<longleftrightarrow> (case e of HttpError n _ \<Rightarrow> n = 404 | DbEx x \<Rightarrow> x = RecordNotFound | _ \<Rightarrow> False)"

definition isUniqueConstraintError :: "app_exn \<Rightarrow> bool" where
  "isUniqueConstraintError e \<longleftrightarrow> e = DbEx UniqueViolation"

subsection \<open>users-grpc.controller.ts\<close>

text \<open>An exception that is no \<open>RpcException\<close> leaves the server as code 2 (UNKNOWN).\<close>

definition grpc_boundary :: "('s, app_exn, 'a) eff \<Rightarrow> ('s, app_exn, 'a) eff" where
  "grpc_boundary m = catchS m (\<lambda>e. case e of GrpcError c t \<Rightarrow> raise e | _ \<Rightarrow> raise (GrpcError 2 ''Internal server error''))"

definition not_found_as_rpc :: "('s, app_exn, 'a) eff \<Rightarrow> ('s, app_exn, 'a) eff" where
  "not_found_as_rpc m = catchS m (\<lambda>e. if isNotFoundError e then raise (GrpcError 5 ''USER_NOT_FOUND'') else raise e)"

definition users_createUser :: "'s app_env \<Rightarrow> string \<Rightarrow> string \<Rightarrow> string \<Rightarrow> string \<Rightarrow> ('s, app_exn, UserRecord) eff" where
  "users_createUser env newId email passwordHash displayName =
     catchS (us_createUser env newId email passwordHash displayName)
       (\<lambda>e. if isUniqueConstraintError e then raise (GrpcError 6 ''USER_EXISTS'') else raise e)"

definition users_updatePassword :: "'s app_env \<Rightarrow> string \<Rightarrow> string \<Rightarrow> ('s, app_exn, unit) eff" where
  "users_updatePassword env userId passwordHash = not_found_as_rpc (us_updatePassword env userId passwordHash)"

definition users_getCurrentProfile :: "'s app_env \<Rightarrow> string \<Rightarrow> ('s, app_exn, CurrentUserProfile) eff" where
  "users_getCurrentProfile env userId = not_found_as_rpc (us_getCurrentProfile env userId)"

definition users_getPublicProfile :: "'s app_env \<Rightarrow> string \<Rightarrow> ('s, app_exn, PublicUserProfile) eff" where
  "users_getPublicProfile env userId = not_found_as_rpc (us_getPublicProfile env userId)"

definition users_getRating :: "'s app_env \<Rightarrow> string \<Rightarrow> ('s, app_exn, int \<times> int) eff" where
  "users_getRating env userId = not_found_as_rpc (us_getRating env userId)"

definition users_getCompetitionStats :: "'s app_env \<Rightarrow> string \<Rightarrow> ('s, app_exn, CompetitionStats) eff" where
  "users_getCompetitionStats env userId = not_found_as_rpc (us_getCompetitionStats env userId)"

subsection \<open>The gRPC client\<close>

text \<open>\<open>call\<close>: the codes 5 and 6 are passed on, everything else is an unavailable service.\<close>

definition call_users :: "'s app_env \<Rightarrow> ('s, app_exn, 'a) eff \<Rightarrow> ('s, app_exn, 'a) eff" where
  "call_users env m = catchS (thenS (a_rpc env) (grpc_boundary m))
     (\<lambda>e. case e of
        GrpcError c t \<Rightarrow> if c = 5 \<or> c = 6 then raise e else raise (HttpError 503 ''User service unavailable'')
      | _ \<Rightarrow> raise (HttpError 503 ''User service unavailable''))"

definition toUserRecordOrNull :: "UserRecord option \<Rightarrow> app_exn + UserRecord option" where
  "toUserRecordOrNull response = (case response of
     None \<Rightarrow> Inr None
   | Some u \<Rightarrow> if ur_id u = [] \<or> ur_email u = [] \<or> ur_displayName u = [] \<or> ur_role u = []
       then Inl (HttpError 503 ''User service returned an incomplete user'') else Inr (Some u))"

definition findByEmail :: "'s app_env \<Rightarrow> string \<Rightarrow> ('s, app_exn, UserRecord option) eff" where
  "findByEmail env email = bindS (call_users env (us_findByEmail env email)) (\<lambda>r. liftS (toUserRecordOrNull r))"

definition findById :: "'s app_env \<Rightarrow> string \<Rightarrow> ('s, app_exn, UserRecord option) eff" where
  "findById env i = bindS (call_users env (us_findById env i)) (\<lambda>r. liftS (toUserRecordOrNull r))"

definition createUser :: "'s app_env \<Rightarrow> string \<Rightarrow> string \<Rightarrow> string \<Rightarrow> string \<Rightarrow> ('s, app_exn, UserRecord) eff" where
  "createUser env newId email passwordHash displayName =
     bindS (call_users env (users_createUser env newId email passwordHash displayName)) (\<lambda>r.
     bindS (liftS (toUserRecordOrNull (Some r))) (\<lambda>user.
       case user of None \<Rightarrow> raise (HttpError 503 ''User service returned an empty user'') | Some u \<Rightarrow> ret u))"

definition updatePassword :: "'s app_env \<Rightarrow> string \<Rightarrow> string \<Rightarrow> ('s, app_exn, unit) eff" where
  "updatePassword env userId passwordHash = call_users env (users_updatePassword env userId passwordHash)"

definition verifyPassword :: "'s app_env \<Rightarrow> crypto \<Rightarrow> string \<Rightarrow> string \<Rightarrow> ('s, app_exn, (string \<times> string \<times> string) option) eff" where
  "verifyPassword env c email plaintextPassword =
     bindS (call_users env (us_verifyPassword env c email plaintextPassword)) (\<lambda>r.
       ret (case r of None \<Rightarrow> None
         | Some (i, dn, role) \<Rightarrow> if i = [] \<or> dn = [] \<or> role = [] then None else Some (i, dn, role)))"

definition client_isUniqueConstraintError :: "app_exn \<Rightarrow> bool" where
  "client_isUniqueConstraintError e \<longleftrightarrow> (case e of GrpcError c _ \<Rightarrow> c = 6 | _ \<Rightarrow> False)"

definition client_not_found :: "('s, app_exn, 'a) eff \<Rightarrow> ('s, app_exn, 'a) eff" where
  "client_not_found m = catchS m (\<lambda>e. case e of
     GrpcError c t \<Rightarrow> if c = 5 then raise (HttpError 404 ''USER_NOT_FOUND'') else raise e | _ \<Rightarrow> raise e)"

definition client_getRating :: "'s app_env \<Rightarrow> string \<Rightarrow> ('s, app_exn, int \<times> int) eff" where
  "client_getRating env userId = call_users env (users_getRating env userId)"

definition client_listUsers :: "'s app_env \<Rightarrow> nat \<Rightarrow> nat \<Rightarrow> ('s, app_exn, AdminUserSummary list \<times> nat) eff" where
  "client_listUsers env page lmt = call_users env (listUsers env page lmt)"

definition getCurrentProfile :: "'s app_env \<Rightarrow> string \<Rightarrow> ('s, app_exn, CurrentUserProfile) eff" where
  "getCurrentProfile env userId = client_not_found (call_users env (users_getCurrentProfile env userId))"

definition getPublicProfile :: "'s app_env \<Rightarrow> string \<Rightarrow> ('s, app_exn, PublicUserProfile) eff" where
  "getPublicProfile env userId = client_not_found (call_users env (users_getPublicProfile env userId))"

definition listLeaderboard :: "'s app_env \<Rightarrow> nat \<Rightarrow> string option \<Rightarrow> ('s, app_exn, LeaderboardItem list) eff" where
  "listLeaderboard env lmt leagueName = call_users env (us_listLeaderboard env lmt leagueName)"

definition getCompetitionStats :: "'s app_env \<Rightarrow> string \<Rightarrow> ('s, app_exn, CompetitionStats) eff" where
  "getCompetitionStats env userId = call_users env (users_getCompetitionStats env userId)"

end
