(* ===== verification/Auth_Service.thy ===== *)
theory Auth_Service
  imports User_Service Notifications Game_Auth
begin

section \<open>apps/auth-service: accounts, tokens and sessions\<close>

text \<open>
  \<open>auth/auth.service.ts\<close>, \<open>auth/token.service.ts\<close>, \<open>redis/redis.service.ts\<close>,
  \<open>grpc/auth-verification.service.ts\<close> and the gRPC controller. The service keeps the refresh tokens and
  the password-reset tokens in the database, by their hash, and the revoked access tokens in Redis; the users
  belong to the user service, which it calls over gRPC (\<open>User_Service\<close>). Random texts (\<open>fresh\<close>: a token, a
  jti, the id of a row, a salt) are arguments. A mail sent with \<open>void ... catch\<close> is sent at once, and its
  failure is dropped. The JWT library compares the expiry, in seconds, with the clock.
\<close>

record JwtConfig =
  jw_accessTtlSeconds :: nat
  jw_refreshTtlSeconds :: nat

record fresh =
  fr_token :: string
  fr_jti :: string
  fr_rowId :: string
  fr_userId :: string
  fr_salt :: string

record SafeUser =
  su_id :: string
  su_email :: string
  su_displayName :: string
  su_role :: string

definition REFRESH_ROTATION_CACHE_SECONDS :: nat where "REFRESH_ROTATION_CACHE_SECONDS = 30"
definition REFRESH_ROTATION_LOCK_SECONDS :: nat where "REFRESH_ROTATION_LOCK_SECONDS = 10"
definition REFRESH_ROTATION_WAIT_ATTEMPTS :: nat where "REFRESH_ROTATION_WAIT_ATTEMPTS = 10"
definition REFRESH_ROTATION_WAIT_MS :: nat where "REFRESH_ROTATION_WAIT_MS = 25"
definition PASSWORD_RESET_TTL_MS :: int where "PASSWORD_RESET_TTL_MS = 60 * 60 * 1000"

abbreviation Unauthorized :: app_exn where
  "Unauthorized \<equiv> HttpError 401 ''Unauthorized''"

abbreviation Conflict :: app_exn where
  "Conflict \<equiv> HttpError 409 ''Unable to complete registration''"

subsection \<open>token.service.ts\<close>

definition issueAccessToken :: "'s app_env \<Rightarrow> crypto \<Rightarrow> JwtConfig \<Rightarrow> fresh \<Rightarrow> string \<Rightarrow> string \<Rightarrow> string \<Rightarrow> ('s, app_exn, string) eff" where
  "issueAccessToken env c cfg fr userId role displayName = bindS (a_now env) (\<lambda>now.
     ret (cr_jwt_sign c \<lparr>ap_sub = userId, ap_role = role, ap_jti = fr_jti fr, ap_displayName = displayName\<rparr>
       (now div 1000 + int (jw_accessTtlSeconds cfg))))"

definition getRefreshExpiresAt :: "'s app_env \<Rightarrow> JwtConfig \<Rightarrow> ('s, app_exn, time) eff" where
  "getRefreshExpiresAt env cfg = bindS (a_now env) (\<lambda>now. ret (now + int (jw_refreshTtlSeconds cfg) * 1000))"

definition hashToken :: "crypto \<Rightarrow> string \<Rightarrow> string" where
  "hashToken c token = cr_sha256 c token"

text \<open>The row of a new refresh token.\<close>

definition createRefreshToken :: "'s app_env \<Rightarrow> crypto \<Rightarrow> JwtConfig \<Rightarrow> fresh \<Rightarrow> string \<Rightarrow> ('s, app_exn, unit) eff" where
  "createRefreshToken env c cfg fr userId = bindS (getRefreshExpiresAt env cfg) (\<lambda>expiresAt.
     createMany (a_refreshToken env) [\<lparr>rt_id = fr_rowId fr, rt_userId = userId, rt_tokenHash = hashToken c (fr_token fr),
       rt_expiresAt = expiresAt, rt_revokedAt = None, rt_createdAt = 0\<rparr>])"

subsection \<open>redis.service.ts\<close>

definition auth_blacklistKey :: "string \<Rightarrow> string" where
  "auth_blacklistKey jti = ''blacklist:jwt:'' @ jti"

definition auth_revokeAccessToken :: "'s app_env \<Rightarrow> string \<Rightarrow> nat \<Rightarrow> ('s, app_exn, unit) eff" where
  "auth_revokeAccessToken env jti ttlSeconds = a_setex env (auth_blacklistKey jti) ttlSeconds (Txt ''1'')"

definition auth_isAccessTokenRevoked :: "'s app_env \<Rightarrow> string \<Rightarrow> ('s, app_exn, bool) eff" where
  "auth_isAccessTokenRevoked env jti = bindS (a_get env (auth_blacklistKey jti)) (\<lambda>v. ret (v = Some (Txt ''1'')))"

subsection \<open>notifications-queue.service.ts\<close>

definition enqueueWelcomeMail :: "'s app_env \<Rightarrow> string \<Rightarrow> string \<Rightarrow> ('s, app_exn, unit) eff" where
  "enqueueWelcomeMail env to displayName = add_mail env
     \<lparr>ml_to = to, ml_template = ''welcome'', ml_data = [(''displayName'', displayName)]\<rparr> None"

definition enqueuePasswordResetMail :: "'s app_env \<Rightarrow> string \<Rightarrow> string \<Rightarrow> ('s, app_exn, unit) eff" where
  "enqueuePasswordResetMail env to resetUrl = add_mail env
     \<lparr>ml_to = to, ml_template = ''reset-password'', ml_data = [(''resetUrl'', resetUrl)]\<rparr> None"

subsection \<open>auth.service.ts\<close>

definition toSafeUser :: "UserRecord \<Rightarrow> SafeUser" where
  "toSafeUser u = \<lparr>su_id = ur_id u, su_email = ur_email u, su_displayName = ur_displayName u, su_role = ur_role u\<rparr>"

definition revokeAllRefreshTokens :: "'s app_env \<Rightarrow> string \<Rightarrow> ('s, app_exn, unit) eff" where
  "revokeAllRefreshTokens env userId = bindS (a_now env) (\<lambda>now.
     thenS (updateMany (a_refreshToken env) (\<lambda>t. rt_userId t = userId \<and> rt_revokedAt t = None)
       (\<lambda>t. t\<lparr>rt_revokedAt := Some now\<rparr>)) (ret ()))"

definition issueTokensForUser ::
  "'s app_env \<Rightarrow> crypto \<Rightarrow> JwtConfig \<Rightarrow> fresh \<Rightarrow> string \<Rightarrow> SafeUser \<Rightarrow> ('s, app_exn, SafeUser \<times> AuthTokens) eff" where
  "issueTokensForUser env c cfg fr userId user =
     bindS (issueAccessToken env c cfg fr userId (su_role user) (su_displayName user)) (\<lambda>accessToken.
     thenS (createRefreshToken env c cfg fr userId)
       (ret (user, \<lparr>at_access = accessToken, at_refresh = fr_token fr\<rparr>)))"

text \<open>The \<open>try\<close> covers the creation of the user; the tokens are returned as a promise it does not await.\<close>

definition register ::
  "'s app_env \<Rightarrow> crypto \<Rightarrow> JwtConfig \<Rightarrow> fresh \<Rightarrow> string \<Rightarrow> string \<Rightarrow> string \<Rightarrow> ('s, app_exn, SafeUser \<times> AuthTokens) eff" where
  "register env c cfg fr address password displayName =
     (let email = toLowerCase address in
      bindS (findByEmail env email) (\<lambda>existing.
        if existing \<noteq> None then raise Conflict
        else bindS (catchS (createUser env (fr_userId fr) email (cr_argon2_hash c (fr_salt fr) password) displayName)
            (\<lambda>e. if client_isUniqueConstraintError e then raise Conflict else raise e)) (\<lambda>user.
          thenS (catchS (enqueueWelcomeMail env email displayName)
              (\<lambda>_. ret ()))
            (issueTokensForUser env c cfg fr (ur_id user) (toSafeUser user)))))"

definition login ::
  "'s app_env \<Rightarrow> crypto \<Rightarrow> JwtConfig \<Rightarrow> fresh \<Rightarrow> string \<Rightarrow> string \<Rightarrow> ('s, app_exn, SafeUser \<times> AuthTokens) eff" where
  "login env c cfg fr address password =
     bindS (verifyPassword env c (toLowerCase address) password) (\<lambda>verified.
       case verified of
         None \<Rightarrow> raise (HttpError 401 ''Invalid credentials'')
       | Some (userId, displayName, role) \<Rightarrow> issueTokensForUser env c cfg fr userId
           \<lparr>su_id = userId, su_email = toLowerCase address, su_displayName = displayName, su_role = role\<rparr>)"

definition refreshRotationCacheKey :: "string \<Rightarrow> string" where
  "refreshRotationCacheKey tokenHash = ''refresh:rotation:'' @ tokenHash"

definition refreshRotationLockKey :: "string \<Rightarrow> string" where
  "refreshRotationLockKey tokenHash = ''refresh:lock:'' @ tokenHash"

definition getCachedRotation :: "'s app_env \<Rightarrow> string \<Rightarrow> ('s, app_exn, AuthTokens option) eff" where
  "getCachedRotation env cacheKey = bindS (a_get env cacheKey) (\<lambda>cached.
     case cached of
       Some (Json (TokensJson t)) \<Rightarrow> ret (Some t)
     | v \<Rightarrow> if truthy_stored v then raise (JobError ''invalid JSON'') else ret None)"

fun wait_cached :: "nat \<Rightarrow> 's app_env \<Rightarrow> string \<Rightarrow> ('s, app_exn, AuthTokens option) eff" where
  "wait_cached 0 env cacheKey = ret None"
| "wait_cached (Suc n) env cacheKey = bindS (getCachedRotation env cacheKey) (\<lambda>cached.
     case cached of
       Some t \<Rightarrow> ret (Some t)
     | None \<Rightarrow> thenS (a_sleep env REFRESH_ROTATION_WAIT_MS) (wait_cached n env cacheKey))"

definition waitForCachedRotation :: "'s app_env \<Rightarrow> string \<Rightarrow> ('s, app_exn, AuthTokens option) eff" where
  "waitForCachedRotation env cacheKey = wait_cached REFRESH_ROTATION_WAIT_ATTEMPTS env cacheKey"

definition cacheRotation :: "'s app_env \<Rightarrow> string \<Rightarrow> AuthTokens \<Rightarrow> ('s, app_exn, unit) eff" where
  "cacheRotation env cacheKey tokens = a_setex env cacheKey REFRESH_ROTATION_CACHE_SECONDS (Json (TokensJson tokens))"

text \<open>The transaction: the old token is revoked, if it still can be, and the new one created.\<close>

definition rotate_body :: "'s app_env \<Rightarrow> crypto \<Rightarrow> JwtConfig \<Rightarrow> fresh \<Rightarrow> refresh_row \<Rightarrow> ('s, app_exn, unit) eff" where
  "rotate_body env c cfg fr stored = bindS (a_now env) (\<lambda>now.
     bindS (updateMany (a_refreshToken env)
         (\<lambda>t. rt_id t = rt_id stored \<and> rt_revokedAt t = None \<and> rt_expiresAt t > now)
         (\<lambda>t. t\<lparr>rt_revokedAt := Some now\<rparr>)) (\<lambda>revoked.
       if revoked = 0 then raise Unauthorized else createRefreshToken env c cfg fr (rt_userId stored)))"

definition rotate :: "'s app_env \<Rightarrow> crypto \<Rightarrow> JwtConfig \<Rightarrow> fresh \<Rightarrow> refresh_row \<Rightarrow> ('s, app_exn, unit) eff" where
  "rotate env c cfg fr stored = transaction env (rotate_body env c cfg fr stored)"

definition refresh_locked ::
  "'s app_env \<Rightarrow> crypto \<Rightarrow> JwtConfig \<Rightarrow> fresh \<Rightarrow> refresh_row \<Rightarrow> SafeUser \<Rightarrow> string \<Rightarrow> ('s, app_exn, AuthTokens) eff" where
  "refresh_locked env c cfg fr stored safeUser cacheKey =
     catchS (thenS (rotate env c cfg fr stored)
         (bindS (issueAccessToken env c cfg fr (rt_userId stored) (su_role safeUser) (su_displayName safeUser)) (\<lambda>accessToken.
            let tokens = \<lparr>at_access = accessToken, at_refresh = fr_token fr\<rparr> in
            thenS (cacheRotation env cacheKey tokens) (ret tokens))))
       (\<lambda>e. if e = Unauthorized
          then bindS (waitForCachedRotation env cacheKey) (\<lambda>racedTokens.
            case racedTokens of Some t \<Rightarrow> ret t | None \<Rightarrow> raise e)
          else raise e)"

definition refresh :: "'s app_env \<Rightarrow> crypto \<Rightarrow> JwtConfig \<Rightarrow> fresh \<Rightarrow> string \<Rightarrow> ('s, app_exn, AuthTokens) eff" where
  "refresh env c cfg fr refreshToken =
     (let tokenHash = hashToken c refreshToken; cacheKey = refreshRotationCacheKey tokenHash;
          lockKey = refreshRotationLockKey tokenHash in
      bindS (findUnique (a_refreshToken env) (\<lambda>t. rt_tokenHash t = tokenHash)) (\<lambda>found.
        case found of
          None \<Rightarrow> raise Unauthorized
        | Some stored \<Rightarrow>
            if rt_revokedAt stored \<noteq> None
            then thenS (revokeAllRefreshTokens env (rt_userId stored)) (raise Unauthorized)
            else bindS (a_now env) (\<lambda>now.
              if rt_expiresAt stored \<le> now then raise Unauthorized
              else bindS (findById env (rt_userId stored)) (\<lambda>user.
                case user of
                  None \<Rightarrow> raise Unauthorized
                | Some u \<Rightarrow> with_lock (a_set_nx env lockKey REFRESH_ROTATION_LOCK_SECONDS ''1'') (a_del env lockKey)
                    (bindS (waitForCachedRotation env cacheKey) (\<lambda>racedTokens.
                      case racedTokens of Some t \<Rightarrow> ret t | None \<Rightarrow> raise Unauthorized))
                    (refresh_locked env c cfg fr stored (toSafeUser u) cacheKey)))))"

text \<open>\<open>encodeURIComponent\<close> on ASCII texts, and \<open>replace(/\/+$/, "")\<close>.\<close>

definition unreserved :: "char \<Rightarrow> bool" where
  "unreserved ch \<longleftrightarrow> (let n = of_char ch :: nat in 48 \<le> n \<and> n \<le> 57 \<or> 65 \<le> n \<and> n \<le> 90 \<or> 97 \<le> n \<and> n \<le> 122 \<or>
     n \<in> {33, 39, 40, 41, 42, 45, 46, 95, 126})"

definition hex_digit :: "nat \<Rightarrow> char" where
  "hex_digit n = (if n < 10 then char_of (48 + n) else char_of (55 + n))"

definition encodeURIComponent :: "string \<Rightarrow> string" where
  "encodeURIComponent s = concat (map (\<lambda>ch. if unreserved ch then [ch]
     else [CHR ''%'', hex_digit (of_char ch div 16), hex_digit (of_char ch mod 16)]) s)"

definition buildPasswordResetUrl :: "string \<Rightarrow> string \<Rightarrow> string" where
  "buildPasswordResetUrl frontendUrl token =
     rev (dropWhile (\<lambda>ch. ch = CHR ''/'') (rev frontendUrl)) @ ''/reset-password?token='' @ encodeURIComponent token"

definition requestPasswordReset :: "'s app_env \<Rightarrow> crypto \<Rightarrow> string \<Rightarrow> fresh \<Rightarrow> string \<Rightarrow> ('s, app_exn, unit) eff" where
  "requestPasswordReset env c frontendUrl fr address =
     (let normalizedEmail = toLowerCase address in
      bindS (findByEmail env normalizedEmail) (\<lambda>found.
        case found of
          None \<Rightarrow> ret ()
        | Some user \<Rightarrow> bindS (a_now env) (\<lambda>now.
            thenS (updateMany (a_passwordResetToken env) (\<lambda>t. pr_userId t = ur_id user \<and> pr_usedAt t = None)
                (\<lambda>t. t\<lparr>pr_usedAt := Some now\<rparr>))
              (thenS (createMany (a_passwordResetToken env) [\<lparr>pr_id = fr_rowId fr, pr_userId = ur_id user,
                  pr_tokenHash = hashToken c (fr_token fr), pr_expiresAt = now + PASSWORD_RESET_TTL_MS, pr_usedAt = None,
                  pr_createdAt = 0\<rparr>])
                (catchS (enqueuePasswordResetMail env normalizedEmail (buildPasswordResetUrl frontendUrl (fr_token fr)))
                  (\<lambda>_. catchS (thenS (t_delete (a_passwordResetToken env) (\<lambda>t. pr_id t = fr_rowId fr)) (ret ())) (\<lambda>_. ret ())))))))"

text \<open>The transaction of \<open>resetPassword\<close>: the token is used up, the refresh tokens revoked.\<close>

definition consume_reset :: "'s app_env \<Rightarrow> reset_row \<Rightarrow> ('s, app_exn, unit) eff" where
  "consume_reset env stored = transaction env
     (bindS (a_now env) (\<lambda>now.
      bindS (updateMany (a_passwordResetToken env)
          (\<lambda>t. pr_id t = pr_id stored \<and> pr_usedAt t = None \<and> pr_expiresAt t > now)
          (\<lambda>t. t\<lparr>pr_usedAt := Some now\<rparr>)) (\<lambda>consumed.
        if consumed = 0 then raise Unauthorized
        else revokeAllRefreshTokens env (pr_userId stored))))"

definition resetPassword :: "'s app_env \<Rightarrow> crypto \<Rightarrow> fresh \<Rightarrow> string \<Rightarrow> string \<Rightarrow> ('s, app_exn, unit) eff" where
  "resetPassword env c fr token newPassword =
     bindS (findUnique (a_passwordResetToken env) (\<lambda>t. pr_tokenHash t = hashToken c token)) (\<lambda>found.
       case found of
         None \<Rightarrow> raise Unauthorized
       | Some stored \<Rightarrow>
           if pr_usedAt stored \<noteq> None then raise Unauthorized
           else bindS (a_now env) (\<lambda>now.
             if pr_expiresAt stored \<le> now then raise Unauthorized
             else thenS (consume_reset env stored)
               (updatePassword env (pr_userId stored) (cr_argon2_hash c (fr_salt fr) newPassword))))"

definition logout :: "'s app_env \<Rightarrow> string \<Rightarrow> string \<Rightarrow> time \<Rightarrow> ('s, app_exn, unit) eff" where
  "logout env userId jti expiresAt =
     bindS (a_now env) (\<lambda>now.
       let ttlSeconds = - ((now - expiresAt) div 1000) in
       if ttlSeconds \<le> 0 then raise Unauthorized
       else thenS (auth_revokeAccessToken env jti (nat ttlSeconds)) (revokeAllRefreshTokens env userId))"

subsection \<open>auth-verification.service.ts\<close>

record AuthVerdict = VerifyTokenResponse +
  av_email :: "string option"

definition refused :: "VerifyTokenReason \<Rightarrow> AuthVerdict" where
  "refused r = \<lparr>vt_valid = False, vt_userId = None, vt_role = None, vt_displayName = None, vt_reason = Some r,
     vt_jti = None, av_email = None\<rparr>"

definition verifySession :: "'s app_env \<Rightarrow> string \<Rightarrow> string \<Rightarrow> ('s, app_exn, AuthVerdict) eff" where
  "verifySession env jti userId =
     bindS (catchS (bindS (auth_isAccessTokenRevoked env jti) (\<lambda>b. ret (Some b))) (\<lambda>_. ret None)) (\<lambda>revoked.
       case revoked of
         None \<Rightarrow> ret (refused R_UNAVAILABLE)
       | Some True \<Rightarrow> ret (refused R_REVOKED)
       | Some False \<Rightarrow> bindS (findById env userId) (\<lambda>user.
           case user of
             None \<Rightarrow> ret (refused R_INVALID)
           | Some u \<Rightarrow> ret \<lparr>vt_valid = True, vt_userId = Some userId, vt_role = Some (ur_role u),
               vt_displayName = Some (ur_displayName u), vt_reason = None, vt_jti = Some jti, av_email = Some (ur_email u)\<rparr>))"

text \<open>\<open>verifyToken\<close>: the token first, then as \<open>verifySession\<close>, which repeats the rest of it.\<close>

definition auth_verifyToken :: "'s app_env \<Rightarrow> crypto \<Rightarrow> string \<Rightarrow> ('s, app_exn, AuthVerdict) eff" where
  "auth_verifyToken env c token =
     (if trim token = [] then ret (refused R_INVALID)
      else bindS (a_now env) (\<lambda>now.
        case cr_jwt_decode c token of
          None \<Rightarrow> ret (refused R_INVALID)
        | Some (p, e) \<Rightarrow>
            if e \<le> now div 1000 then ret (refused R_EXPIRED)
            else if ap_sub p = [] \<or> ap_jti p = [] \<or> ap_displayName p = [] then ret (refused R_INVALID)
            else verifySession env (ap_jti p) (ap_sub p)))"

subsection \<open>auth-grpc.controller.ts\<close>

definition toRpcException :: "app_exn \<Rightarrow> app_exn" where
  "toRpcException e = (case e of
     HttpError n _ \<Rightarrow>
       if n = 409 then GrpcError 6 ''CONFLICT''
       else if n = 401 then GrpcError 16 ''UNAUTHORIZED''
       else if n = 503 then GrpcError 14 ''UNAVAILABLE'' else GrpcError 13 ''INTERNAL''
   | _ \<Rightarrow> GrpcError 13 ''INTERNAL'')"

definition as_rpc :: "('s, app_exn, 'a) eff \<Rightarrow> ('s, app_exn, 'a) eff" where
  "as_rpc m = catchS m (\<lambda>e. raise (toRpcException e))"

definition auth_register ::
  "'s app_env \<Rightarrow> crypto \<Rightarrow> JwtConfig \<Rightarrow> fresh \<Rightarrow> string \<Rightarrow> string \<Rightarrow> string \<Rightarrow> ('s, app_exn, SafeUser \<times> AuthTokens) eff" where
  "auth_register env c cfg fr email password displayName = as_rpc (register env c cfg fr email password displayName)"

definition auth_login ::
  "'s app_env \<Rightarrow> crypto \<Rightarrow> JwtConfig \<Rightarrow> fresh \<Rightarrow> string \<Rightarrow> string \<Rightarrow> ('s, app_exn, SafeUser \<times> AuthTokens) eff" where
  "auth_login env c cfg fr email password = as_rpc (login env c cfg fr email password)"

definition auth_refresh :: "'s app_env \<Rightarrow> crypto \<Rightarrow> JwtConfig \<Rightarrow> fresh \<Rightarrow> string \<Rightarrow> ('s, app_exn, AuthTokens) eff" where
  "auth_refresh env c cfg fr refreshToken = as_rpc (refresh env c cfg fr refreshToken)"

definition auth_logout :: "'s app_env \<Rightarrow> string \<Rightarrow> string \<Rightarrow> time \<Rightarrow> ('s, app_exn, unit) eff" where
  "auth_logout env userId jti expiresAt = as_rpc (logout env userId jti expiresAt)"

definition auth_requestPasswordReset :: "'s app_env \<Rightarrow> crypto \<Rightarrow> string \<Rightarrow> fresh \<Rightarrow> string \<Rightarrow> ('s, app_exn, unit) eff" where
  "auth_requestPasswordReset env c frontendUrl fr email = as_rpc (requestPasswordReset env c frontendUrl fr email)"

definition auth_resetPassword :: "'s app_env \<Rightarrow> crypto \<Rightarrow> fresh \<Rightarrow> string \<Rightarrow> string \<Rightarrow> ('s, app_exn, unit) eff" where
  "auth_resetPassword env c fr token newPassword = as_rpc (resetPassword env c fr token newPassword)"

definition reason_text :: "VerifyTokenReason \<Rightarrow> string" where
  "reason_text r = (case r of R_INVALID \<Rightarrow> ''INVALID'' | R_EXPIRED \<Rightarrow> ''EXPIRED'' | R_REVOKED \<Rightarrow> ''REVOKED''
     | R_UNAVAILABLE \<Rightarrow> ''UNAVAILABLE'')"

text \<open>The answer on the wire: absent fields are empty texts. The game service does not read the address.\<close>

definition or_empty :: "string option \<Rightarrow> string option" where
  "or_empty v = Some (case v of None \<Rightarrow> [] | Some t \<Rightarrow> t)"

definition wire_verdict :: "AuthVerdict \<Rightarrow> AuthGrpcResponse" where
  "wire_verdict v = \<lparr>ag_valid = vt_valid v, ag_userId = or_empty (vt_userId v), ag_role = or_empty (vt_role v),
     ag_displayName = or_empty (vt_displayName v), ag_reason = or_empty (map_option reason_text (vt_reason v)),
     ag_jti = or_empty (vt_jti v)\<rparr>"

subsection \<open>The handlers run as documented\<close>

lemma sim_case_cached:
  assumes "\<And>t. sim view (f t) (f' t)" and "\<And>v. sim view (g v) (g' v)"
  shows "sim view (case x of Some (Json (TokensJson t)) \<Rightarrow> f t | v \<Rightarrow> g v)
    (case x of Some (Json (TokensJson t)) \<Rightarrow> f' t | v \<Rightarrow> g' v)"
  using assms by (auto split: option.split stored.split app_json.split)

lemma sim_case_grpc [sim_rules]:
  assumes "\<And>c t. sim view (f c t) (f' c t)" and "sim view k k'"
  shows "sim view (case e of GrpcError c t \<Rightarrow> f c t | _ \<Rightarrow> k) (case e of GrpcError c t \<Rightarrow> f' c t | _ \<Rightarrow> k')"
  using assms by (cases e) simp_all

lemma sim_case_bool [sim_rules]:
  "(x \<Longrightarrow> sim view m m') \<Longrightarrow> (\<not> x \<Longrightarrow> sim view k k') \<Longrightarrow>
   sim view (case x of True \<Rightarrow> m | False \<Rightarrow> k) (case x of True \<Rightarrow> m' | False \<Rightarrow> k')"
  by (cases x) simp_all

lemma sim_case_json [sim_rules]:
  "(\<And>t. sim view (f t) (f' t)) \<Longrightarrow> (\<And>l. sim view (g l) (g' l)) \<Longrightarrow>
   sim view (case j of TokensJson t \<Rightarrow> f t | LeaderboardJson l \<Rightarrow> g l)
     (case j of TokensJson t \<Rightarrow> f' t | LeaderboardJson l \<Rightarrow> g' l)"
  by (cases j) simp_all

context app_service
begin

lemma sim_call_users [sim_rules]: "sim view m m' \<Longrightarrow> sim view (call_users env m) (call_users mem_app m')"
  unfolding call_users_def grpc_boundary_def by (intro sim_rules)

lemma sim_users [sim_rules]:
  "sim view (us_findByEmail env em) (us_findByEmail mem_app em)" "sim view (us_findById env i) (us_findById mem_app i)"
  "sim view (user_with_rating env i) (user_with_rating mem_app i)"
  "sim view (us_verifyPassword env c em pw) (us_verifyPassword mem_app c em pw)"
  "sim view (us_createUser env i em h dn) (us_createUser mem_app i em h dn)"
  "sim view (us_updatePassword env i h) (us_updatePassword mem_app i h)"
  unfolding us_findByEmail_def us_findById_def user_with_rating_def us_verifyPassword_def us_createUser_def
    us_updatePassword_def Let_def by (intro sim_rules)+

lemma sim_user_client [sim_rules]:
  "sim view (findByEmail env em) (findByEmail mem_app em)" "sim view (findById env i) (findById mem_app i)"
  "sim view (verifyPassword env c em pw) (verifyPassword mem_app c em pw)"
  "sim view (createUser env i em h dn) (createUser mem_app i em h dn)"
  "sim view (updatePassword env i h) (updatePassword mem_app i h)"
  unfolding findByEmail_def findById_def verifyPassword_def createUser_def updatePassword_def users_createUser_def
    users_updatePassword_def not_found_as_rpc_def by (intro sim_rules)+

lemma sim_tokens [sim_rules]:
  "sim view (issueTokensForUser env c cfg fr i u) (issueTokensForUser mem_app c cfg fr i u)"
  "sim view (issueAccessToken env c cfg fr i r d) (issueAccessToken mem_app c cfg fr i r d)"
  "sim view (createRefreshToken env c cfg fr i) (createRefreshToken mem_app c cfg fr i)"
  "sim view (revokeAllRefreshTokens env i) (revokeAllRefreshTokens mem_app i)"
  unfolding issueTokensForUser_def issueAccessToken_def createRefreshToken_def getRefreshExpiresAt_def
    revokeAllRefreshTokens_def by (intro sim_rules)+

lemma sim_wait [sim_rules]: "sim view (waitForCachedRotation env k) (waitForCachedRotation mem_app k)"
proof -
  have "sim view (wait_cached n env k) (wait_cached n mem_app k)" for n
    by (induction n) (auto simp: getCachedRotation_def intro!: sim_rules sim_case_cached)
  then show ?thesis unfolding waitForCachedRotation_def .
qed

lemma sim_auth [sim_rules]:
  "sim view (register env c cfg fr em pw dn) (register mem_app c cfg fr em pw dn)"
  "sim view (login env c cfg fr em pw) (login mem_app c cfg fr em pw)"
  "sim view (refresh env c cfg fr t) (refresh mem_app c cfg fr t)"
  "sim view (resetPassword env c fr t pw) (resetPassword mem_app c fr t pw)"
  "sim view (logout env i j t') (logout mem_app i j t')"
  unfolding register_def login_def refresh_def refresh_locked_def rotate_def rotate_body_def cacheRotation_def resetPassword_def
    consume_reset_def enqueueWelcomeMail_def logout_def auth_revokeAccessToken_def Let_def by (intro sim_rules)+

lemma sim_verification [sim_rules]:
  "sim view (verifySession env j i) (verifySession mem_app j i)"
  "sim view (auth_verifyToken env c t) (auth_verifyToken mem_app c t)"
  unfolding auth_verifyToken_def verifySession_def auth_isAccessTokenRevoked_def by (intro sim_rules)+

end

end
