(* ===== verification/User_Props.thy ===== *)
theory User_Props
  imports User_Service App_Rules
begin

section \<open>The user service: runs of its calls, and the ranks it reports\<close>

text \<open>
  What the theorems about accounts share: calls of the user service over gRPC, and their runs when no call
  fails. Then the two ways a rank is computed agree: the position on the leaderboard and the number of
  players ahead.
\<close>

subsection \<open>Calls of the user service\<close>

lemma throws_user_calls:
  "throws (\<lambda>e. case e of GrpcError c t \<Rightarrow> raise e | _ \<Rightarrow> raise (GrpcError 2 ''Internal server error''))"
  "throws (\<lambda>e. case e of GrpcError c t \<Rightarrow> if c = 5 \<or> c = 6 then raise e else raise (HttpError 503 ''User service unavailable'')
     | _ \<Rightarrow> raise (HttpError 503 ''User service unavailable''))"
  "throws (\<lambda>e. if p e then raise (f e) else raise e)"
  by (auto simp: throws_def raise_def split: app_exn.split)

lemma reads_rpc: "reads (a_rpc mem_app)"
  by (simp add: reads_def mem_app_def app_call_def split: list.split bool.split)

lemma yields_call_users: "yields m Q \<Longrightarrow> yields (call_users mem_app m) Q"
  unfolding call_users_def grpc_boundary_def thenS_def
  by (intro yields_catch yields_reads reads_rpc throws_user_calls)

subsection \<open>Calm runs\<close>

lemma run_rpc [simp]: "w_outages w = [] \<Longrightarrow> a_rpc mem_app w = (Inr (), w)"
  by (simp add: mem_app_def)

lemma run_call_users: "w_outages w = [] \<Longrightarrow> m w = (Inr x, w') \<Longrightarrow> call_users mem_app m w = (Inr x, w')"
  by (simp add: call_users_def grpc_boundary_def catchS_def thenS_def bindS_def)

lemma run_find_user [simp]: "w_outages w = [] \<Longrightarrow> findUnique (a_user mem_app) q w = (Inr (find q (d_users (w_db w))), w)"
  unfolding mem_app_def app_env.simps by (rule run_findUnique)

lemma run_findById:
  "w_outages w = [] \<Longrightarrow> findById mem_app i w =
     (toUserRecordOrNull (map_option toUserRecord (find (\<lambda>u. us_id u = i) (d_users (w_db w)))), w)"
  by (simp add: findById_def us_findById_def bindS_apply run_call_users ret_apply liftS_apply split: sum.split)

subsection \<open>Positions in a sorted list\<close>

lemma sorted_below:
  assumes "sorted (map k xs)" and "i < length xs"
  shows "length (filter (\<lambda>x. k x < k (xs ! i)) xs) \<le> i"
proof -
  have "{j. j < length xs \<and> k (xs ! j) < k (xs ! i)} \<subseteq> {..<i}"
  proof
    fix j assume "j \<in> {j. j < length xs \<and> k (xs ! j) < k (xs ! i)}"
    then have j: "j < length xs" "k (xs ! j) < k (xs ! i)" by simp_all
    have "\<not> i \<le> j"
      using sorted_nth_mono [OF assms(1), of i j] j by (auto simp: not_le [symmetric])
    then show "j \<in> {..<i}" by simp
  qed
  then show ?thesis
    unfolding length_filter_conv_card using card_mono [of "{..<i}"] by fastforce
qed

lemma sorted_upto:
  assumes "sorted (map k xs)" and "i < length xs"
  shows "i < length (filter (\<lambda>x. k x \<le> k (xs ! i)) xs)"
proof -
  have "{..i} \<subseteq> {j. j < length xs \<and> k (xs ! j) \<le> k (xs ! i)}"
    using sorted_nth_mono [OF assms(1)] assms(2) by auto
  from card_mono [OF _ this] have "Suc i \<le> card {j. j < length xs \<and> k (xs ! j) \<le> k (xs ! i)}" by simp
  then show ?thesis by (simp add: length_filter_conv_card)
qed

lemma length_filter_sort: "length (filter q (sort_key k xs)) = length (filter q xs)"
  by (metis filter_sort length_sort)

subsection \<open>The leaderboard\<close>

lemma board_order_less:
  "board_order x < board_order e \<longleftrightarrow> er_rating x > er_rating e \<or> er_rating x = er_rating e \<and> er_gamesPlayed x > er_gamesPlayed e"
  by (auto simp: board_order_def)

lemma board_order_le:
  "board_order x \<le> board_order e \<longleftrightarrow> er_rating x > er_rating e \<or> er_rating x = er_rating e \<and> er_gamesPlayed x \<ge> er_gamesPlayed e"
  by (auto simp: board_order_def)

lemma board_items_nth:
  "board_items league users n es = Inr items \<Longrightarrow> (\<And>e. e \<in> set es \<Longrightarrow> \<exists>u. find (\<lambda>u. us_id u = er_userId e) users = Some u) \<Longrightarrow>
   item \<in> set items \<Longrightarrow> \<exists>i<length es. lb_rank item = n + i + 1 \<and> lb_userId item = er_userId (es ! i) \<and>
     lb_rating item = er_rating (es ! i) \<and> lb_gamesPlayed item = er_gamesPlayed (es ! i)"
proof (induction es arbitrary: n items)
  case (Cons e es)
  obtain u where u: "find (\<lambda>u. us_id u = er_userId e) users = Some u" using Cons.prems(2) [of e] by auto
  then have id: "us_id u = er_userId e" by (auto simp: find_Some_iff)
  obtain lg rest where r: "board_items league users (Suc n) es = Inr rest"
    "items = \<lparr>lb_rank = n + 1, lb_userId = us_id u, lb_displayName = us_displayName u, lb_rating = er_rating e,
       lb_gamesPlayed = er_gamesPlayed e, lb_league = lg\<rparr> # rest"
    using Cons.prems(1) u by (auto split: sum.splits)
  show ?case
  proof (cases "item \<in> set rest")
    case True
    then obtain i where "i < length es" "lb_rank item = Suc n + i + 1" "lb_userId item = er_userId (es ! i)"
      "lb_rating item = er_rating (es ! i)" "lb_gamesPlayed item = er_gamesPlayed (es ! i)"
      using Cons.IH [OF r(1)] Cons.prems(2) by auto
    then show ?thesis by (intro exI [of _ "Suc i"]) simp
  next
    case False
    then show ?thesis using r(2) Cons.prems(3) id by (intro exI [of _ 0]) simp
  qed
qed simp

context app_service
begin

lemma sim_ranks [sim_rules]:
  "sim view (us_getRating env i) (us_getRating mem_app i)"
  "sim view (us_getCompetitionStats env i) (us_getCompetitionStats mem_app i)"
  "sim view (us_listLeaderboard env n l) (us_listLeaderboard mem_app n l)"
  unfolding us_getRating_def us_getCompetitionStats_def us_listLeaderboard_def user_with_rating_def Let_def
  by (intro sim_rules)+

end

definition board :: "db \<Rightarrow> elo_row list" where
  "board d = sort_key board_order (d_elo d)"

lemma board_run:
  assumes "w_outages w = []"
  shows "us_listLeaderboard mem_app n None w = (map_sum LeagueFailure id
    (board_items None (filter (\<lambda>u. us_id u \<in> er_userId ` set (take n (board (w_db w)))) (d_users (w_db w))) 0 (take n (board (w_db w)))), w)"
proof -
  have "t_find (a_eloRating mem_app) (toRatingWhere None) board_order (Some n) w = (Inr (take n (board (w_db w))), w)"
    using assms by (simp add: mem_app_def limit_def board_def toRatingWhere_def)
  moreover have "findMany (a_user mem_app) q w = (Inr (filter q (d_users (w_db w))), w)" for q
    unfolding mem_app_def app_env.simps by (rule run_findMany [OF assms])
  ultimately show ?thesis
    by (simp add: us_listLeaderboard_def Let_def bindS_apply liftS_apply split: sum.split)
qed

lemma stats_run:
  assumes w: "w_outages w = []" and "find (\<lambda>u. us_id u = i) (d_users (w_db w)) = Some u"
    and "find (\<lambda>e. er_userId e = i) (d_elo (w_db w)) = Some e"
  shows "us_getCompetitionStats mem_app i w = (Inr \<lparr>cs_rating = er_rating e, cs_gamesPlayed = er_gamesPlayed e,
    cs_rank = length (filter (\<lambda>x. board_order x < board_order e) (d_elo (w_db w))) + 1\<rparr>, w)"
proof -
  have elo: "findUnique (a_eloRating mem_app) q w = (Inr (find q (d_elo (w_db w))), w)"
    "countRows (a_eloRating mem_app) q w = (Inr (length (filter q (d_elo (w_db w)))), w)" for q
    unfolding mem_app_def app_env.simps by (rule run_findUnique [OF w] run_countRows [OF w])+
  show ?thesis
    by (simp add: us_getCompetitionStats_def us_getRating_def user_with_rating_def bindS_apply ret_apply w elo assms
      rating_or_default_def games_or_default_def board_order_less)
qed

text \<open>
  C32. The rank of the competition stats is the rank on the leaderboard, up to ties: for every line of the
  leaderboard the stats of its player show the same rating and games, a rank that is not behind the line's,
  and ahead of it by less than the number of players with just this rating and number of games. So the two
  are equal for a player without a tie.
\<close>

theorem leaderboard_rank_agrees:
  assumes "app_ok env view" and "w_outages (view s) = []"
    and "distinct (map us_id (d_users (w_db (view s))))" and "distinct (map er_userId (d_elo (w_db (view s))))"
    and "er_userId ` set (d_elo (w_db (view s))) \<subseteq> us_id ` set (d_users (w_db (view s)))"
    and "fst (us_listLeaderboard env n None s) = Inr items" and "item \<in> set items"
  shows "\<exists>st :: CompetitionStats. fst (us_getCompetitionStats env (lb_userId item) s) = Inr st \<and>
    cs_rating st = lb_rating item \<and> cs_gamesPlayed st = lb_gamesPlayed item \<and> cs_rank st \<le> lb_rank item \<and>
    lb_rank item < cs_rank st + length (filter (\<lambda>e. er_rating e = lb_rating item \<and> er_gamesPlayed e = lb_gamesPlayed item)
      (d_elo (w_db (view s))))"
proof -
  let ?d = "w_db (view s)" let ?b = "board ?d"
  have service: "app_service env view" by unfold_locales (rule assms(1))
  have elo: "set ?b = set (d_elo ?d)" by (simp add: board_def)
  have items: "board_items None (filter (\<lambda>u. us_id u \<in> er_userId ` set (take n ?b)) (d_users ?d)) 0 (take n ?b) = Inr items"
    using assms(6) unfolding sim_result [OF app_service.sim_ranks(3) [OF service]] board_run [OF assms(2)]
    by (auto simp: map_sum_def split: sum.splits)
  have found: "\<exists>u. find (\<lambda>u. us_id u = er_userId e) (filter (\<lambda>u. us_id u \<in> er_userId ` set (take n ?b)) (d_users ?d)) = Some u"
    if "e \<in> set (take n ?b)" for e
  proof -
    have "er_userId e \<in> us_id ` set (d_users ?d)" using that assms(5) elo in_set_takeD by fastforce
    with that have "find (\<lambda>u. us_id u = er_userId e) (filter (\<lambda>u. us_id u \<in> er_userId ` set (take n ?b)) (d_users ?d)) \<noteq> None"
      by (auto simp: find_None_iff) (metis image_eqI)
    then show ?thesis by auto
  qed
  from board_items_nth [OF items found assms(7)] obtain i where i: "i < length ?b" "lb_rank item = i + 1"
    "lb_userId item = er_userId (?b ! i)" "lb_rating item = er_rating (?b ! i)" "lb_gamesPlayed item = er_gamesPlayed (?b ! i)"
    by auto
  let ?e = "?b ! i"
  have mem: "?e \<in> set (d_elo ?d)" using i(1) elo nth_mem by metis
  have e: "find (\<lambda>e. er_userId e = er_userId ?e) (d_elo ?d) = Some ?e" using find_distinct_key [OF assms(4)] mem by simp
  obtain u where u: "find (\<lambda>u. us_id u = er_userId ?e) (d_users ?d) = Some u"
    using find_distinct_key [OF assms(3)] mem assms(5) by (fastforce simp: subset_iff image_iff)
  have sorted: "sorted (map board_order ?b)" by (simp add: board_def)
  let ?ahead = "filter (\<lambda>x. board_order x < board_order ?e) (d_elo ?d)"
  let ?ties = "filter (\<lambda>x. er_rating x = er_rating ?e \<and> er_gamesPlayed x = er_gamesPlayed ?e) (d_elo ?d)"
  have "length ?ahead \<le> i"
    using sorted_below [OF sorted i(1)] by (simp add: board_def length_filter_sort)
  moreover have "i < length (filter (\<lambda>x. board_order x \<le> board_order ?e) (d_elo ?d))"
    using sorted_upto [OF sorted i(1)] by (simp add: board_def length_filter_sort)
  moreover have "length (filter (\<lambda>x. board_order x \<le> board_order ?e) xs) =
      length (filter (\<lambda>x. board_order x < board_order ?e) xs) +
      length (filter (\<lambda>x. er_rating x = er_rating ?e \<and> er_gamesPlayed x = er_gamesPlayed ?e) xs)" for xs
    by (induction xs) (auto simp: board_order_less board_order_le)
  ultimately show ?thesis
    unfolding sim_result [OF app_service.sim_ranks(2) [OF service]] i stats_run [OF assms(2) u e] by simp
qed

definition rated_demo :: "(string \<times> int) list \<Rightarrow> app_world" where
  "rated_demo rs = \<lparr>w_db = \<lparr>d_users = map (\<lambda>(i, r). \<lparr>us_id = i, us_email = i @ ''@x'', us_displayName = i, us_passwordHash = ''h'',
       us_role = RolePlayer, us_createdAt = 0, us_updatedAt = 0\<rparr>) rs,
     d_elo = map (\<lambda>(i, r). \<lparr>er_userId = i, er_rating = r, er_gamesPlayed = 2, er_updatedAt = 0\<rparr>) rs, d_matches = [], d_rounds = [],
     d_history = [], d_leagues = [], d_seasons = [], d_standings = [], d_tournaments = [], d_registrations = [], d_tmatches = [],
     d_refreshTokens = [], d_resetTokens = []\<rparr>, w_saved = [], w_keys = \<lparr>rd_now = 0, rd_keys = \<lambda>_. None\<rparr>, w_jobs = [],
     w_published = [], w_outages = []\<rparr>"

theorem leaderboard_rank_agrees_witness:
  "\<exists>item st. fst (us_listLeaderboard mem_app 2 None (rated_demo [(''a'', 900), (''b'', 1300)])) = Inr [fst st, item] \<and>
     lb_userId item = ''a'' \<and> lb_rank item = 2 \<and>
     fst (us_getCompetitionStats mem_app ''a'' (rated_demo [(''a'', 900), (''b'', 1300)])) = Inr (snd st) \<and> cs_rank (snd st) = 2"
proof -
  let ?w = "rated_demo [(''a'', 900), (''b'', 1300)]"
  have leagues: "getLeagueSummaryForRating (Fin 900) = Inr \<lparr>ls_name = ''Bronze'', ls_tier = 1\<rparr>"
    "getLeagueSummaryForRating (Fin 1300) = Inr \<lparr>ls_name = ''Gold'', ls_tier = 3\<rparr>"
    by (simp_all add: getLeagueSummaryForRating_def getLeagueForRating_def assertRating_def assertNonEmptyLeagues_def REFERENCE_LEAGUES_def
      assertLeagueConfig_def in_league_def toLeagueSummary_def)
  let ?i = "\<lambda>r i rt l. \<lparr>lb_rank = r, lb_userId = i, lb_displayName = i, lb_rating = rt, lb_gamesPlayed = 2, lb_league = l\<rparr>"
  let ?b = "?i 1 ''b'' 1300 \<lparr>ls_name = ''Gold'', ls_tier = 3\<rparr>" and ?a = "?i 2 ''a'' 900 \<lparr>ls_name = ''Bronze'', ls_tier = 1\<rparr>"
  have o: "w_outages ?w = []" by (simp add: rated_demo_def)
  have items: "fst (us_listLeaderboard mem_app 2 None ?w) = Inr [?b, ?a]"
    unfolding board_run [OF o] by (simp add: rated_demo_def board_def board_order_def leagues)
  have "distinct (map us_id (d_users (w_db ?w)))" "distinct (map er_userId (d_elo (w_db ?w)))"
    "er_userId ` set (d_elo (w_db ?w)) \<subseteq> us_id ` set (d_users (w_db ?w))" by (simp_all add: rated_demo_def)
  from leaderboard_rank_agrees [OF app_ok_mem o this items, of ?a] obtain st :: CompetitionStats where
    st: "fst (us_getCompetitionStats mem_app ''a'' ?w) = Inr st" "cs_rank st \<le> 2"
      "2 < cs_rank st + length (filter (\<lambda>e. er_rating e = 900 \<and> er_gamesPlayed e = 2) (d_elo (w_db ?w)))"
    by auto
  moreover have "length (filter (\<lambda>e. er_rating e = 900 \<and> er_gamesPlayed e = 2) (d_elo (w_db ?w))) = 1" by (simp add: rated_demo_def)
  ultimately have "cs_rank st = 2" by simp
  with st(1) items show ?thesis by (intro exI [of _ ?a] exI [of _ "(?b, st)"]) simp
qed

end
