(* ===== verification/Auth_Props.thy ===== *)
theory Auth_Props
  imports Auth_Service User_Props
begin

section \<open>Accounts and sessions: what the auth service guarantees\<close>

text \<open>
  Registration and login fit together, whatever the case of the address and whatever happens to other
  accounts in between; after a logout neither the access token nor a refresh token of the user is accepted;
  a refresh token is good for one rotation, and presenting it again revokes every session of its user.
\<close>

lemma run_find_token [simp]:
  "w_outages w = [] \<Longrightarrow> findUnique (a_refreshToken mem_app) q w = (Inr (find q (d_refreshTokens (w_db w))), w)"
  unfolding mem_app_def app_env.simps by (rule run_findUnique)

subsection \<open>Registration\<close>

text \<open>The account a registration leaves behind.\<close>

definition account :: "fresh \<Rightarrow> crypto \<Rightarrow> string \<Rightarrow> string \<Rightarrow> string \<Rightarrow> user_row list \<Rightarrow> bool" where
  "account fr c em pw dn us \<longleftrightarrow> distinct (map us_id us) \<and> distinct (map us_email us) \<and>
     (\<exists>u\<in>set us. us_id u = fr_userId fr \<and> us_email u = toLowerCase em \<and> us_displayName u = dn \<and>
        us_passwordHash u = cr_argon2_hash c (fr_salt fr) pw \<and> us_role u = RolePlayer)"

definition safe_user :: "fresh \<Rightarrow> string \<Rightarrow> string \<Rightarrow> SafeUser" where
  "safe_user fr em dn = \<lparr>su_id = fr_userId fr, su_email = toLowerCase em, su_displayName = dn, su_role = ''player''\<rparr>"

definition created :: "fresh \<Rightarrow> crypto \<Rightarrow> string \<Rightarrow> string \<Rightarrow> string \<Rightarrow> UserRecord \<Rightarrow> db \<Rightarrow> bool" where
  "created fr c em pw dn r d \<longleftrightarrow> account fr c em pw dn (d_users d) \<and> toSafeUser r = safe_user fr em dn \<and> ur_id r = fr_userId fr"

lemma yields_user_row:
  "yields (createMany (a_user mem_app) [\<lparr>us_id = fr_userId fr, us_email = toLowerCase em, us_displayName = dn,
      us_passwordHash = cr_argon2_hash c (fr_salt fr) pw, us_role = RolePlayer, us_createdAt = t, us_updatedAt = t\<rparr>])
     (\<lambda>_ _ d'. account fr c em pw dn (d_users d'))"
  unfolding mem_app_def app_env.simps
  by (rule yields_weaken [OF yields_create]) (auto simp: account_def)

lemma steady_account:
  "steady (\<lambda>d. account fr c em pw dn (d_users d)) (a_eloRating mem_app)"
  "steady (\<lambda>d. account fr c em pw dn (d_users d)) (a_refreshToken mem_app)"
  unfolding mem_app_def app_env.simps by (rule steady_mem, simp)+

lemma yields_us_createUser:
  "yields (us_createUser mem_app (fr_userId fr) (toLowerCase em) (cr_argon2_hash c (fr_salt fr) pw) dn)
     (\<lambda>_ r d'. created fr c em pw dn r d')"
proof -
  have result: "toSafeUser (toUserRecord \<lparr>us_id = fr_userId fr, us_email = toLowerCase em, us_displayName = dn,
      us_passwordHash = h, us_role = RolePlayer, us_createdAt = t, us_updatedAt = t\<rparr>) = safe_user fr em dn"
    "ur_id (toUserRecord \<lparr>us_id = fr_userId fr, us_email = toLowerCase em, us_displayName = dn,
      us_passwordHash = h, us_role = RolePlayer, us_createdAt = t, us_updatedAt = t\<rparr>) = fr_userId fr" for h t
    by (simp_all add: toSafeUser_def toUserRecord_def safe_user_def mapRole_def)
  show ?thesis
    unfolding us_createUser_def Let_def
    apply (rule yields_transaction)
     apply (intro effect_rules)
    apply (rule yields_reads [OF reads_now])
    apply (simp only: thenS_def)
    apply (rule yields_bindS [OF yields_user_row [of fr em dn c pw]])
     apply (rule yields_bindS [of _ "\<lambda>d _ d'. d_users d' = d_users d" _ _
          "\<lambda>d r d'. d_users d' = d_users d \<and> toSafeUser r = safe_user fr em dn \<and> ur_id r = fr_userId fr"])
      apply (simp add: mem_app_def, rule yields_weaken [OF yields_create], auto)[1]
     apply (rule yields_ret [of "\<lambda>d r d'. d' = d \<and> toSafeUser r = safe_user fr em dn \<and> ur_id r = fr_userId fr"])
      apply (simp add: result)
     apply (erule conjE, simp (no_asm_simp))
    apply (auto simp: created_def)
    done
qed

lemma keeps_issue [keep_rules]:
  "preserves (\<lambda>w. account fr' c' em pw dn (d_users (w_db w))) (issueTokensForUser mem_app c cfg fr i u)"
  unfolding issueTokensForUser_def issueAccessToken_def createRefreshToken_def getRefreshExpiresAt_def
  by (intro keep_rules keeps_table(6) steady_account keeps_bindS [where R = "\<lambda>_. True"])

lemma yields_issue:
  "yields (issueTokensForUser mem_app c cfg fr i u) (\<lambda>d r d'. fst r = u \<and> d_users d' = d_users d)"
proof -
  have "steady (\<lambda>d. d_users d = x) (a_refreshToken mem_app)" for x
    unfolding mem_app_def app_env.simps by (rule steady_mem) simp
  then have "preserves (\<lambda>w. d_users (w_db w) = x) (issueTokensForUser mem_app c cfg fr i u)" for x
    unfolding issueTokensForUser_def issueAccessToken_def createRefreshToken_def getRefreshExpiresAt_def
    by (intro keep_rules keeps_bindS [where R = "\<lambda>_. True"]) simp_all
  then have "yields (issueTokensForUser mem_app c cfg fr i u) (\<lambda>d _ d'. d_users d' = d_users d)"
    by (simp add: yields_def keeps_def)
  moreover have "yields (issueTokensForUser mem_app c cfg fr i u) (\<lambda>_ r _. fst r = u)"
    unfolding issueTokensForUser_def
    by (intro yields_last yields_then_last yields_ret) simp
  ultimately show ?thesis by (auto intro: yields_weaken [OF yields_conj])
qed

lemma keeps_case_exn [keep_rules]:
  "(\<And>c t. keeps P (f c t) Q) \<Longrightarrow> keeps P k Q \<Longrightarrow> keeps P (case e of GrpcError c t \<Rightarrow> f c t | _ \<Rightarrow> k) Q"
  by (cases e) simp_all

lemma keeps_call_users [keep_rules]:
  "preserves (\<lambda>w. P (w_db w)) m \<Longrightarrow> preserves (\<lambda>w. P (w_db w)) (call_users mem_app m)"
  unfolding call_users_def grpc_boundary_def by (intro keep_rules)

lemma reads_user_queries: "reads (findByEmail mem_app em)"
proof -
  have "preserves (\<lambda>w. w_db w = x) (findByEmail mem_app em)" for x
    unfolding findByEmail_def us_findByEmail_def
    by (intro keep_rules keeps_bindS [where R = "\<lambda>_. True"] keeps_reading reads_rules)
  then show ?thesis by (simp add: reads_def keeps_def)
qed

lemma yields_complete_user:
  "yields (bindS (liftS (toUserRecordOrNull (Some r))) (\<lambda>user. case user of None \<Rightarrow> raise e | Some u \<Rightarrow> ret u))
     (\<lambda>d u d'. d' = d \<and> u = r \<and> ur_id r \<noteq> [] \<and> ur_displayName r \<noteq> [])"
  by (simp add: toUserRecordOrNull_def yields_def bindS_def liftS_def ret_def raise_def)

lemma reads_welcome: "reads (catchS (enqueueWelcomeMail mem_app em dn) (\<lambda>_. ret ()))"
proof -
  have "preserves (\<lambda>w. w_db w = x) (catchS (enqueueWelcomeMail mem_app em dn) (\<lambda>_. ret ()))" for x
    unfolding enqueueWelcomeMail_def by (intro keep_rules) simp_all
  then show ?thesis by (simp add: reads_def keeps_def)
qed

lemma yields_register:
  "yields (register mem_app c cfg fr em pw dn)
     (\<lambda>_ r d'. account fr c em pw dn (d_users d') \<and> fst r = safe_user fr em dn \<and> fr_userId fr \<noteq> [] \<and> dn \<noteq> [])"
proof -
  have user: "yields (createUser mem_app (fr_userId fr) (toLowerCase em) (cr_argon2_hash c (fr_salt fr) pw) dn)
      (\<lambda>_ r d'. created fr c em pw dn r d' \<and> fr_userId fr \<noteq> [] \<and> dn \<noteq> [])"
    unfolding createUser_def users_createUser_def
    by (rule yields_bindS [OF yields_call_users [OF yields_catch [OF yields_us_createUser throws_user_calls(3)]] yields_complete_user])
      (auto simp: created_def safe_user_def toSafeUser_def)
  show ?thesis
    unfolding register_def Let_def thenS_def
    by (intro yields_reads [OF reads_user_queries] yields_if yields_raise
        yields_bindS [OF yields_catch [OF user throws_user_calls(3)] yields_reads [OF reads_welcome yields_issue]])
      (auto simp: created_def)
qed

subsection \<open>Login\<close>

text \<open>The row of a new refresh token, and that its texts are new.\<close>

definition token_row :: "crypto \<Rightarrow> JwtConfig \<Rightarrow> fresh \<Rightarrow> string \<Rightarrow> time \<Rightarrow> refresh_row" where
  "token_row c cfg fr i now = \<lparr>rt_id = fr_rowId fr, rt_userId = i, rt_tokenHash = hashToken c (fr_token fr),
     rt_expiresAt = now + int (jw_refreshTtlSeconds cfg) * 1000, rt_revokedAt = None, rt_createdAt = now\<rparr>"

definition unused :: "crypto \<Rightarrow> fresh \<Rightarrow> refresh_row list \<Rightarrow> bool" where
  "unused c fr ts \<longleftrightarrow> distinct (map rt_id ts) \<and> distinct (map rt_tokenHash ts) \<and> fr_rowId fr \<notin> rt_id ` set ts \<and>
     hashToken c (fr_token fr) \<notin> rt_tokenHash ` set ts"

definition access_token :: "crypto \<Rightarrow> JwtConfig \<Rightarrow> fresh \<Rightarrow> string \<Rightarrow> string \<Rightarrow> string \<Rightarrow> time \<Rightarrow> string" where
  "access_token c cfg fr i role dn now = cr_jwt_sign c \<lparr>ap_sub = i, ap_role = role, ap_jti = fr_jti fr, ap_displayName = dn\<rparr>
     (now div 1000 + int (jw_accessTtlSeconds cfg))"

lemma run_new_token:
  "w_outages w = [] \<Longrightarrow> unused c fr (d_refreshTokens (w_db w)) \<Longrightarrow>
   createMany (a_refreshToken mem_app) [token_row c cfg fr i now\<lparr>rt_createdAt := 0\<rparr>] w =
     (Inr (), w\<lparr>w_db := (w_db w)\<lparr>d_refreshTokens := d_refreshTokens (w_db w) @
       [token_row c cfg fr i now\<lparr>rt_createdAt := rd_now (w_keys w)\<rparr>]\<rparr>\<rparr>)"
  unfolding mem_app_def app_env.simps
  by (subst run_create) (auto simp: unused_def token_row_def)

lemma run_createRefreshToken:
  assumes "w_outages w = []" and "unused c fr (d_refreshTokens (w_db w))"
  shows "createRefreshToken mem_app c cfg fr i w =
     (Inr (), w\<lparr>w_db := (w_db w)\<lparr>d_refreshTokens := d_refreshTokens (w_db w) @ [token_row c cfg fr i (rd_now (w_keys w))]\<rparr>\<rparr>)"
proof -
  have row: "token_row c cfg fr i now\<lparr>rt_createdAt := 0\<rparr> = \<lparr>rt_id = fr_rowId fr, rt_userId = i, rt_tokenHash = hashToken c (fr_token fr),
      rt_expiresAt = now + int (jw_refreshTtlSeconds cfg) * 1000, rt_revokedAt = None, rt_createdAt = 0\<rparr>"
    "token_row c cfg fr i now\<lparr>rt_createdAt := now\<rparr> = token_row c cfg fr i now" for now
    by (simp_all add: token_row_def)
  show ?thesis
    using run_new_token [OF assms, of cfg i "rd_now (w_keys w)"]
    by (simp only: createRefreshToken_def getRefreshExpiresAt_def bindS_apply ret_apply run_now row prod.case sum.case)
qed

lemma run_issue:
  "w_outages w = [] \<Longrightarrow> unused c fr (d_refreshTokens (w_db w)) \<Longrightarrow>
   issueTokensForUser mem_app c cfg fr i u w =
     (Inr (u, \<lparr>at_access = access_token c cfg fr i (su_role u) (su_displayName u) (rd_now (w_keys w)), at_refresh = fr_token fr\<rparr>),
      w\<lparr>w_db := (w_db w)\<lparr>d_refreshTokens := d_refreshTokens (w_db w) @ [token_row c cfg fr i (rd_now (w_keys w))]\<rparr>\<rparr>)"
  by (simp add: issueTokensForUser_def issueAccessToken_def access_token_def bindS_apply thenS_apply ret_apply
    run_createRefreshToken)

lemma account_find:
  assumes "account fr c em pw dn us" and "toLowerCase em' = toLowerCase em"
  obtains u where "find (\<lambda>u. us_email u = toLowerCase em') us = Some u" "us_id u = fr_userId fr" "us_displayName u = dn"
    "us_passwordHash u = cr_argon2_hash c (fr_salt fr) pw" "us_role u = RolePlayer"
proof -
  from assms(1) obtain u where u: "u \<in> set us" "us_id u = fr_userId fr" "us_email u = toLowerCase em" "us_displayName u = dn"
    "us_passwordHash u = cr_argon2_hash c (fr_salt fr) pw" "us_role u = RolePlayer"
    by (auto simp: account_def)
  moreover from assms(1) have "distinct (map us_email us)" by (simp add: account_def)
  ultimately show thesis using that [of u] find_distinct_key [of us_email us "toLowerCase em" u] by (simp add: assms(2))
qed

lemma login_run:
  assumes w: "w_outages w = []" and acc: "account fr c em pw dn (d_users (w_db w))" and c: "crypto_ok c"
    and em: "toLowerCase em' = toLowerCase em" and ne: "fr_userId fr \<noteq> []" "dn \<noteq> []"
    and new: "unused c fr' (d_refreshTokens (w_db w))"
  shows "fst (login mem_app c cfg fr' em' q w) =
    (if q = pw then Inr (safe_user fr em dn, \<lparr>at_access = access_token c cfg fr' (fr_userId fr) ''player'' dn (rd_now (w_keys w)),
       at_refresh = fr_token fr'\<rparr>)
     else Inl (HttpError 401 ''Invalid credentials''))"
proof -
  obtain u where u: "find (\<lambda>u. us_email u = toLowerCase em') (d_users (w_db w)) = Some u" "us_id u = fr_userId fr"
    "us_displayName u = dn" "us_passwordHash u = cr_argon2_hash c (fr_salt fr) pw" "us_role u = RolePlayer"
    by (rule account_find [OF acc em])
  have v: "cr_argon2_verify c (us_passwordHash u) q = Some (pw = q)" using c u(4) by (simp add: crypto_ok_def)
  have "us_verifyPassword mem_app c (toLowerCase em') q w =
      (Inr (if q = pw then Some (fr_userId fr, dn, ''player'') else None), w)"
    using w u v by (auto simp: us_verifyPassword_def bindS_apply ret_apply mapRole_def)
  from run_call_users [where m = "us_verifyPassword mem_app c (toLowerCase em') q", OF w this] ne
  have "verifyPassword mem_app c (toLowerCase em') q w = (Inr (if q = pw then Some (fr_userId fr, dn, ''player'') else None), w)"
    by (simp add: verifyPassword_def bindS_apply ret_apply)
  then show ?thesis
    by (simp add: login_def bindS_apply raise_apply run_issue [OF w new] safe_user_def em)
qed

subsection \<open>A crypto library that satisfies the hypothesis\<close>

text \<open>Fields written as escaped texts, one after the other.\<close>

definition wire_text :: "string \<Rightarrow> string" where
  "wire_text s = concat (map (\<lambda>ch. [CHR ''+'', ch]) s) @ [CHR ''.'']"

fun read_text :: "string \<Rightarrow> (string \<times> string) option" where
  "read_text [] = None"
| "read_text (x # xs) = (if x = CHR ''.'' then Some ([], xs)
     else (case xs of [] \<Rightarrow> None | ch # ys \<Rightarrow> map_option (\<lambda>(s, r). (ch # s, r)) (read_text ys)))"

lemma read_wire_text [simp]: "read_text (wire_text s @ r) = Some (s, r)"
  by (induction s) (simp_all add: wire_text_def)

definition plain_decode :: "string \<Rightarrow> (AccessTokenPayload \<times> time) option" where
  "plain_decode t =
     Option.bind (read_text t) (\<lambda>(u, t1). Option.bind (read_text t1) (\<lambda>(r, t2). Option.bind (read_text t2) (\<lambda>(j, t3).
     Option.bind (read_text t3) (\<lambda>(dn, t4). map_option (\<lambda>e. (\<lparr>ap_sub = u, ap_role = r, ap_jti = j, ap_displayName = dn\<rparr>, e)) (parse_int t4)))))"

definition plain_crypto :: crypto where
  "plain_crypto = \<lparr>cr_sha256 = \<lambda>t. t, cr_argon2_hash = \<lambda>salt p. p, cr_argon2_verify = \<lambda>h p. Some (h = p),
     cr_jwt_sign = \<lambda>p e. wire_text (ap_sub p) @ wire_text (ap_role p) @ wire_text (ap_jti p) @ wire_text (ap_displayName p) @ show_int e,
     cr_jwt_decode = plain_decode\<rparr>"

lemma trim_visible: "\<not> is_space x \<Longrightarrow> trim (x # xs) \<noteq> []"
  by (simp add: trim_def)

lemma plain_crypto_ok: "crypto_ok plain_crypto"
proof -
  have "trim (wire_text s @ r) \<noteq> []" for s r
    by (cases s) (simp_all add: wire_text_def trim_visible is_space_def)
  then show ?thesis by (simp add: crypto_ok_def plain_crypto_def plain_decode_def inj_def)
qed

definition fresh_demo :: "string \<Rightarrow> fresh" where
  "fresh_demo n = \<lparr>fr_token = ''token'' @ n, fr_jti = ''jti'' @ n, fr_rowId = ''row'' @ n, fr_userId = ''user'' @ n, fr_salt = ''salt''\<rparr>"

definition jwt_demo :: JwtConfig where
  "jwt_demo = \<lparr>jw_accessTtlSeconds = 900, jw_refreshTtlSeconds = 604800\<rparr>"

definition auth_demo :: "user_row list \<Rightarrow> refresh_row list \<Rightarrow> app_world" where
  "auth_demo us ts = \<lparr>w_db = \<lparr>d_users = us, d_elo = [], d_matches = [], d_rounds = [], d_history = [], d_leagues = [],
     d_seasons = [], d_standings = [], d_tournaments = [], d_registrations = [], d_tmatches = [], d_refreshTokens = ts,
     d_resetTokens = []\<rparr>, w_saved = [], w_keys = \<lparr>rd_now = 5000, rd_keys = \<lambda>_. None\<rparr>, w_jobs = [], w_published = [], w_outages = []\<rparr>"

subsection \<open>Registration and login\<close>

text \<open>
  C29. After a registration that returned, whatever calls failed during it, and while the table of users is
  as it left it: a login with the same address, in any case, and the same password returns the same user and
  a pair of tokens; with any other password it is refused.
\<close>

theorem login_after_register:
  assumes "app_ok env view" and "crypto_ok c"
    and "fst (register env c cfg fr em pw dn s) = Inr (user, tokens)"
    and "d_users (w_db (view s1)) = d_users (w_db (view (snd (register env c cfg fr em pw dn s))))"
    and "w_outages (view s1) = []" and "toLowerCase em1 = toLowerCase em"
    and "unused c fr1 (d_refreshTokens (w_db (view s1)))"
  shows "fst (login env c cfg fr1 em1 q s1) =
    (if q = pw then Inr (user, \<lparr>at_access = access_token c cfg fr1 (su_id user) (su_role user) (su_displayName user)
        (rd_now (w_keys (view s1))), at_refresh = fr_token fr1\<rparr>)
     else Inl (HttpError 401 ''Invalid credentials''))"
proof -
  have service: "app_service env view" by unfold_locales (rule assms(1))
  note reg = app_service.sim_auth(1) [OF service, of c cfg fr em pw dn]
  note log = app_service.sim_auth(2) [OF service, of c cfg fr1 em1 q]
  have "fst (register mem_app c cfg fr em pw dn (view s)) = Inr (user, tokens)"
    using assms(3) sim_result [OF reg] by simp
  from yieldsD [OF yields_register this]
  have acc: "account fr c em pw dn (d_users (w_db (view s1)))" "user = safe_user fr em dn" "fr_userId fr \<noteq> []" "dn \<noteq> []"
    using assms(4) sim_state [OF reg] by simp_all
  show ?thesis
    unfolding sim_result [OF log] login_run [OF assms(5) acc(1) assms(2,6) acc(3,4) assms(7)]
    by (simp add: acc(2) safe_user_def)
qed

lemma toLowerCase_Nil [simp]: "toLowerCase t = [] \<longleftrightarrow> t = []"
  by (simp add: toLowerCase_def)

lemma register_demo:
  "fst (register mem_app plain_crypto jwt_demo (fresh_demo ''1'') ''A@x'' ''pw'' ''A'' (auth_demo [] [])) =
     Inr (safe_user (fresh_demo ''1'') ''A@x'' ''A'',
       \<lparr>at_access = access_token plain_crypto jwt_demo (fresh_demo ''1'') ''user1'' ''player'' ''A'' 5000, at_refresh = ''token1''\<rparr>)"
  "d_users (w_db (snd (register mem_app plain_crypto jwt_demo (fresh_demo ''1'') ''A@x'' ''pw'' ''A'' (auth_demo [] [])))) =
     [\<lparr>us_id = ''user1'', us_email = toLowerCase ''A@x'', us_displayName = ''A'', us_passwordHash = ''pw'', us_role = RolePlayer,
       us_createdAt = 5000, us_updatedAt = 5000\<rparr>]"
  "d_refreshTokens (w_db (snd (register mem_app plain_crypto jwt_demo (fresh_demo ''1'') ''A@x'' ''pw'' ''A'' (auth_demo [] [])))) =
     [token_row plain_crypto jwt_demo (fresh_demo ''1'') ''user1'' 5000]"
  "w_outages (snd (register mem_app plain_crypto jwt_demo (fresh_demo ''1'') ''A@x'' ''pw'' ''A'' (auth_demo [] []))) = []"
  by (simp_all add: register_def findByEmail_def createUser_def users_createUser_def us_createUser_def call_users_def grpc_boundary_def
     us_findByEmail_def toUserRecordOrNull_def toUserRecord_def toSafeUser_def safe_user_def mapRole_def enqueueWelcomeMail_def
     add_mail_def issueTokensForUser_def issueAccessToken_def access_token_def createRefreshToken_def getRefreshExpiresAt_def
     transaction_def findUnique_def findFirst_def createMany_def eff_simps mem_app_def limit_def Let_def
     auth_demo_def fresh_demo_def jwt_demo_def hashToken_def plain_crypto_def token_row_def)

theorem login_after_register_witness:
  "\<exists>s. fst (login mem_app plain_crypto jwt_demo (fresh_demo ''2'') ''a@X'' ''pw'' s) =
      Inr (safe_user (fresh_demo ''1'') ''A@x'' ''A'', \<lparr>at_access = access_token plain_crypto jwt_demo (fresh_demo ''2'') ''user1'' ''player'' ''A''
        (rd_now (w_keys s)), at_refresh = ''token2''\<rparr>) \<and>
    fst (login mem_app plain_crypto jwt_demo (fresh_demo ''2'') ''a@X'' ''pW'' s) = Inl (HttpError 401 ''Invalid credentials'')"
proof -
  have case_insensitive: "toLowerCase ''a@X'' = toLowerCase ''A@x''" by code_simp
  have new: "unused plain_crypto (fresh_demo ''2'') [token_row plain_crypto jwt_demo (fresh_demo ''1'') ''user1'' 5000]"
    by (simp add: unused_def token_row_def fresh_demo_def hashToken_def plain_crypto_def)
  let ?s = "snd (register mem_app plain_crypto jwt_demo (fresh_demo ''1'') ''A@x'' ''pw'' ''A'' (auth_demo [] []))"
  have log: "fst (login mem_app plain_crypto jwt_demo (fresh_demo ''2'') ''a@X'' q ?s) =
    (if q = ''pw'' then Inr (safe_user (fresh_demo ''1'') ''A@x'' ''A'', \<lparr>at_access = access_token plain_crypto jwt_demo (fresh_demo ''2'') ''user1'' ''player'' ''A''
        (rd_now (w_keys ?s)), at_refresh = ''token2''\<rparr>) else Inl (HttpError 401 ''Invalid credentials''))" for q
    using login_after_register [where env = mem_app and view = "\<lambda>w. w" and ?s1.0 = ?s and ?em1.0 = "''a@X''" and ?fr1.0 = "fresh_demo ''2''" and q = q,
      OF app_ok_mem plain_crypto_ok register_demo(1) refl register_demo(4) case_insensitive] new
    by (simp add: register_demo(3), simp add: safe_user_def fresh_demo_def)
  show ?thesis by (rule exI [of _ ?s]) (simp add: log)
qed

subsection \<open>Verification of access tokens\<close>

lemma run_get:
  "w_outages w = [] \<Longrightarrow> fst (a_get mem_app k w) = (case look (w_keys w) k of None \<Rightarrow> Inr None | Some (RStr t) \<Rightarrow> Inr (Some t)
     | _ \<Rightarrow> Inl (CacheEx RedisWrongType)) \<and> snd (a_get mem_app k w) = w"
  by (simp add: mem_app_def do_get_def split: option.split rvalue.split)

lemma verify_revoked:
  assumes w: "w_outages w = []" and t: "cr_jwt_decode c t = Some (p, e)" "trim t \<noteq> []"
    and p: "ap_sub p \<noteq> []" "ap_jti p \<noteq> []" "ap_displayName p \<noteq> []"
    and b: "\<not> e \<le> rd_now (w_keys w) div 1000 \<Longrightarrow> look (w_keys w) (auth_blacklistKey (ap_jti p)) = Some (RStr (Txt ''1''))"
  shows "fst (auth_verifyToken mem_app c t w) = Inr (refused (if e \<le> rd_now (w_keys w) div 1000 then R_EXPIRED else R_REVOKED))"
proof (cases "e \<le> rd_now (w_keys w) div 1000")
  case True
  then show ?thesis using t by (simp add: auth_verifyToken_def bindS_apply ret_apply)
next
  case False
  have "a_get mem_app (auth_blacklistKey (ap_jti p)) w = (Inr (Some (Txt ''1'')), w)"
    using run_get [OF w, of "auth_blacklistKey (ap_jti p)"] b [OF False] by (simp add: prod_eq_iff)
  then show ?thesis
    using False t p
    by (simp add: auth_verifyToken_def verifySession_def auth_isAccessTokenRevoked_def bindS_apply catchS_apply ret_apply)
qed

subsection \<open>Logout\<close>

lemma yields_revoke:
  "yields (updateMany (a_refreshToken mem_app) q f) (\<lambda>d _ d'. d_refreshTokens d' = map (\<lambda>r. if q r then f r else r) (d_refreshTokens d))"
  unfolding mem_app_def app_env.simps
  by (rule yields_weaken [OF yields_updateMany]) (auto simp: unstamped_def)

lemma yields_revokeAll:
  "yields (revokeAllRefreshTokens mem_app i) (\<lambda>_ _ d'. \<forall>r\<in>set (d_refreshTokens d'). rt_userId r = i \<longrightarrow> rt_revokedAt r \<noteq> None)"
  unfolding revokeAllRefreshTokens_def
proof (rule yields_reads [OF reads_now], rule yields_first)
  fix now
  show "yields (updateMany (a_refreshToken mem_app) (\<lambda>t. rt_userId t = i \<and> rt_revokedAt t = None) (\<lambda>t. t\<lparr>rt_revokedAt := Some now\<rparr>))
      (\<lambda>_ _ d'. \<forall>r\<in>set (d_refreshTokens d'). rt_userId r = i \<longrightarrow> rt_revokedAt r \<noteq> None)"
    by (rule yields_weaken [OF yields_revoke]) (simp only: set_map ball_simps, simp)
qed (simp add: keeps_ret)

text \<open>What a logout that returned has done.\<close>

lemma logout_effect:
  assumes "fst (logout mem_app i j t w) = Inr ()"
  shows "rd_keys (w_keys (snd (logout mem_app i j t w))) (auth_blacklistKey j) =
      Some (RStr (Txt ''1''), Some (rd_now (w_keys w) + 1000 * (- ((rd_now (w_keys w) - t) div 1000))))"
    and "\<And>r. r \<in> set (d_refreshTokens (w_db (snd (logout mem_app i j t w)))) \<Longrightarrow> rt_userId r = i \<Longrightarrow> rt_revokedAt r \<noteq> None"
proof -
  let ?ttl = "- ((rd_now (w_keys w) - t) div 1000)"
  obtain r1 ws where r1: "auth_revokeAccessToken mem_app j (nat ?ttl) w = (r1, ws)" by fastforce
  obtain r2 wl where r2: "logout mem_app i j t w = (r2, wl)" by fastforce
  have ws: "r1 = Inr ()" "revokeAllRefreshTokens mem_app i ws = (Inr (), wl)" "0 < ?ttl"
    using assms r2 by (cases r1; auto simp: logout_def bindS_apply thenS_apply raise_apply Let_def r1 split: if_splits)+
  have "a_setex mem_app (auth_blacklistKey j) (nat ?ttl) (Txt ''1'') w = (Inr (), ws)"
    using r1 ws(1) by (simp add: auth_revokeAccessToken_def)
  then have "\<exists>os. ws = w\<lparr>w_outages := os, w_keys := put (auth_blacklistKey j) (RStr (Txt ''1'')) (expiry (w_keys w) (nat ?ttl)) (w_keys w)\<rparr>"
    unfolding mem_app_def app_env.simps by (drule_tac app_call_Inr) auto
  then have k: "rd_keys (w_keys ws) (auth_blacklistKey j) = Some (RStr (Txt ''1''), Some (rd_now (w_keys w) + 1000 * ?ttl))"
    using ws(3) by (auto simp: put_def expiry_def)
  have "db_effect (revokeAllRefreshTokens mem_app i)"
    unfolding revokeAllRefreshTokens_def by (intro effect_rules)
  from db_effectD(1) [OF this, of ws] k ws(2) r2
  show "rd_keys (w_keys (snd (logout mem_app i j t w))) (auth_blacklistKey j) = Some (RStr (Txt ''1''), Some (rd_now (w_keys w) + 1000 * ?ttl))"
    by (simp add: frame_def)
  show "rt_revokedAt r \<noteq> None" if "r \<in> set (d_refreshTokens (w_db (snd (logout mem_app i j t w))))" "rt_userId r = i" for r
    using yieldsD [OF yields_revokeAll, of i ws "()"] ws(2) r2 that by simp
qed

subsection \<open>Rotation\<close>

definition revoke_when :: "(refresh_row \<Rightarrow> bool) \<Rightarrow> time \<Rightarrow> refresh_row list \<Rightarrow> refresh_row list" where
  "revoke_when q now ts = map (\<lambda>r. if q r then r\<lparr>rt_revokedAt := Some now\<rparr> else r) ts"

lemma revoke_when_keys [simp]:
  "map rt_id (revoke_when q now ts) = map rt_id ts" "map rt_tokenHash (revoke_when q now ts) = map rt_tokenHash ts"
  by (simp_all add: revoke_when_def o_def if_distrib [of rt_id] if_distrib [of rt_tokenHash] cong: if_cong)

lemma revoke_when_key_sets [simp]:
  "rt_id ` set (revoke_when q now ts) = rt_id ` set ts" "rt_tokenHash ` set (revoke_when q now ts) = rt_tokenHash ` set ts"
  using revoke_when_keys [of q now ts] by (metis set_map)+

lemma run_revoke:
  assumes "w_outages w = []" and "distinct (map rt_id (d_refreshTokens (w_db w)))" "distinct (map rt_tokenHash (d_refreshTokens (w_db w)))"
  shows "updateMany (a_refreshToken mem_app) q (\<lambda>r. r\<lparr>rt_revokedAt := Some now\<rparr>) w =
    (Inr (length (filter q (d_refreshTokens (w_db w)))),
     w\<lparr>w_db := (w_db w)\<lparr>d_refreshTokens := revoke_when q now (d_refreshTokens (w_db w))\<rparr>\<rparr>)"
  unfolding mem_app_def app_env.simps
  by (rule run_updateMany, rule assms(1), simp add: revoke_when_def unstamped_def, simp add: assms(2,3))

lemma refresh_revoked:
  assumes w: "w_outages w = []" and d: "distinct (map rt_id (d_refreshTokens (w_db w)))" "distinct (map rt_tokenHash (d_refreshTokens (w_db w)))"
    and r: "find (\<lambda>r. rt_tokenHash r = hashToken c t) (d_refreshTokens (w_db w)) = Some r" "rt_revokedAt r \<noteq> None"
  shows "refresh mem_app c cfg fr t w = (Inl Unauthorized, w\<lparr>w_db := (w_db w)\<lparr>d_refreshTokens :=
    revoke_when (\<lambda>x. rt_userId x = rt_userId r \<and> rt_revokedAt x = None) (rd_now (w_keys w)) (d_refreshTokens (w_db w))\<rparr>\<rparr>)"
  using r by (auto simp: refresh_def Let_def bindS_apply thenS_apply ret_apply raise_apply w revokeAllRefreshTokens_def run_revoke [OF w d])

text \<open>
  C30. After a logout that returned, and however much time has passed: while Redis keeps the entry it
  wrote, no access token with the logged-out identifier that expires when the logout was told is accepted,
  it is reported as expired or as revoked, with no gap between the two; and every refresh token the user
  had is refused.
\<close>

theorem logout_final:
  assumes "app_ok env view" and "fst (logout env i (ap_jti p) (1000 * e) s) = Inr ()"
    and "cr_jwt_decode c t = Some (p, e)" and "trim t \<noteq> []"
    and "ap_sub p \<noteq> []" and "ap_jti p \<noteq> []" and "ap_displayName p \<noteq> []" and "w_outages (view s2) = []"
    and "rd_keys (w_keys (view s2)) (auth_blacklistKey (ap_jti p)) =
      rd_keys (w_keys (view (snd (logout env i (ap_jti p) (1000 * e) s)))) (auth_blacklistKey (ap_jti p))"
    and "d_refreshTokens (w_db (view s2)) = d_refreshTokens (w_db (view (snd (logout env i (ap_jti p) (1000 * e) s))))"
    and "distinct (map rt_id (d_refreshTokens (w_db (view s2))))" and "distinct (map rt_tokenHash (d_refreshTokens (w_db (view s2))))"
    and "find (\<lambda>r. rt_tokenHash r = hashToken c rt) (d_refreshTokens (w_db (view s2))) = Some r" and "rt_userId r = i"
  shows "fst (auth_verifyToken env c t s2) = Inr (refused (if e \<le> rd_now (w_keys (view s2)) div 1000 then R_EXPIRED else R_REVOKED)) \<and>
    fst (refresh env c cfg fr rt s2) = Inl Unauthorized"
proof
  have service: "app_service env view" by unfold_locales (rule assms(1))
  note out = app_service.sim_auth(5) [OF service, of i "ap_jti p" "1000 * e"]
  have returned: "fst (logout mem_app i (ap_jti p) (1000 * e) (view s)) = Inr ()" using assms(2) sim_result [OF out] by simp
  have black: "rd_keys (w_keys (view s2)) (auth_blacklistKey (ap_jti p)) =
      Some (RStr (Txt ''1''), Some (rd_now (w_keys (view s)) + 1000 * (- ((rd_now (w_keys (view s)) - 1000 * e) div 1000))))"
    using assms(9) logout_effect(1) [OF returned] sim_state [OF out] by simp
  have "look (w_keys (view s2)) (auth_blacklistKey (ap_jti p)) = Some (RStr (Txt ''1''))" if "\<not> e \<le> rd_now (w_keys (view s2)) div 1000"
    using black that by (simp add: look_def expired_def)
  then show "fst (auth_verifyToken env c t s2) = Inr (refused (if e \<le> rd_now (w_keys (view s2)) div 1000 then R_EXPIRED else R_REVOKED))"
    unfolding sim_result [OF app_service.sim_verification(2) [OF service]]
    by (rule verify_revoked [OF assms(8,3-7)])
  have "r \<in> set (d_refreshTokens (w_db (view s2)))" using assms(13) by (auto simp: find_Some_iff)
  then have "rt_revokedAt r \<noteq> None"
    using logout_effect(2) [OF returned, of r] assms(10,14) sim_state [OF out] by simp
  from refresh_revoked [OF assms(8,11-13) this]
  show "fst (refresh env c cfg fr rt s2) = Inl Unauthorized"
    unfolding sim_result [OF app_service.sim_auth(3) [OF service]] by simp
qed

definition payload_demo :: AccessTokenPayload where
  "payload_demo = \<lparr>ap_sub = ''u'', ap_role = ''player'', ap_jti = ''j'', ap_displayName = ''U''\<rparr>"

definition row_demo :: refresh_row where
  "row_demo = token_row plain_crypto jwt_demo (fresh_demo ''1'') ''u'' 4000"

definition user_demo :: user_row where
  "user_demo = \<lparr>us_id = ''u'', us_email = ''u@x'', us_displayName = ''U'', us_passwordHash = ''pw'', us_role = RolePlayer,
     us_createdAt = 0, us_updatedAt = 0\<rparr>"

lemma logout_demo:
  "fst (logout mem_app ''u'' ''j'' 100000 (auth_demo [] [row_demo])) = Inr ()"
  "w_outages (snd (logout mem_app ''u'' ''j'' 100000 (auth_demo [] [row_demo]))) = []"
  "rd_now (w_keys (snd (logout mem_app ''u'' ''j'' 100000 (auth_demo [] [row_demo])))) = 5000"
  "d_refreshTokens (w_db (snd (logout mem_app ''u'' ''j'' 100000 (auth_demo [] [row_demo])))) = [row_demo\<lparr>rt_revokedAt := Some 5000\<rparr>]"
  by (simp_all add: logout_def auth_revokeAccessToken_def revokeAllRefreshTokens_def updateMany_def eff_simps mem_app_def Let_def
    unstamped_def auth_demo_def row_demo_def token_row_def)

theorem logout_final_witness:
  "\<exists>s. fst (auth_verifyToken mem_app plain_crypto (cr_jwt_sign plain_crypto payload_demo 100) s) = Inr (refused R_REVOKED) \<and>
     fst (refresh mem_app plain_crypto jwt_demo (fresh_demo ''2'') ''token1'' s) = Inl Unauthorized"
proof -
  let ?s = "snd (logout mem_app ''u'' ''j'' 100000 (auth_demo [] [row_demo]))"
  have p: "ap_jti payload_demo = ''j''" "ap_sub payload_demo \<noteq> []" "ap_displayName payload_demo \<noteq> []" by (simp_all add: payload_demo_def)
  have row: "find (\<lambda>r. rt_tokenHash r = hashToken plain_crypto ''token1'') (d_refreshTokens (w_db ?s)) = Some (row_demo\<lparr>rt_revokedAt := Some 5000\<rparr>)"
    "rt_userId (row_demo\<lparr>rt_revokedAt := Some 5000\<rparr>) = ''u''"
    unfolding logout_demo(4) by (simp_all add: row_demo_def token_row_def fresh_demo_def hashToken_def)
  show ?thesis
    using logout_final [where env = mem_app and view = "\<lambda>w. w" and i = "''u''" and p = payload_demo and e = 100 and s = "auth_demo [] [row_demo]"
        and ?s2.0 = ?s and c = plain_crypto and t = "cr_jwt_sign plain_crypto payload_demo 100" and rt = "''token1''" and cfg = jwt_demo
        and fr = "fresh_demo ''2''", OF app_ok_mem _ _ _ p(2) _ p(3) logout_demo(2) _ _ _ _ row] plain_crypto_ok
    by (intro exI [of _ ?s]) (simp add: logout_demo p crypto_ok_def)
qed

text \<open>Rotation of a valid token while nobody holds its lock.\<close>

lemma run_rotate:
  assumes w: "w_outages w = []" and new: "unused c fr (d_refreshTokens (w_db w))"
    and old: "old \<in> set (d_refreshTokens (w_db w))" "rt_revokedAt old = None" "rd_now (w_keys w) < rt_expiresAt old"
  shows "rotate mem_app c cfg fr old w = (Inr (), w\<lparr>w_db := (w_db w)\<lparr>d_refreshTokens :=
    revoke_when (\<lambda>r. rt_id r = rt_id old) (rd_now (w_keys w)) (d_refreshTokens (w_db w)) @ [token_row c cfg fr (rt_userId old) (rd_now (w_keys w))]\<rparr>\<rparr>)"
proof -
  let ?ts = "d_refreshTokens (w_db w)" and ?now = "rd_now (w_keys w)"
  let ?q = "\<lambda>r. rt_id r = rt_id old \<and> rt_revokedAt r = None \<and> rt_expiresAt r > ?now"
  have d: "distinct (map rt_id ?ts)" "distinct (map rt_tokenHash ?ts)" using new by (simp_all add: unused_def)
  have same: "r = old" if "r \<in> set ?ts" "rt_id r = rt_id old" for r
    using d(1) old(1) that by (simp add: distinct_map inj_on_def)
  have count: "length (filter ?q ?ts) \<noteq> 0" using old by (auto simp: filter_empty_conv)
  have iff: "?q r \<longleftrightarrow> rt_id r = rt_id old" if "r \<in> set ?ts" for r
    using same [OF that] old(2,3) by auto
  have revoked: "revoke_when ?q ?now ?ts = revoke_when (\<lambda>r. rt_id r = rt_id old) ?now ?ts"
    unfolding revoke_when_def by (rule map_cong [OF refl]) (simp only: iff)
  have new': "unused c fr (revoke_when ?q ?now ?ts)" using new by (simp add: unused_def)
  have "rotate_body mem_app c cfg fr old (opened w) = (Inr (), (opened w)\<lparr>w_db := (w_db w)\<lparr>d_refreshTokens :=
      revoke_when ?q ?now ?ts @ [token_row c cfg fr (rt_userId old) ?now]\<rparr>\<rparr>)"
    using count run_revoke [of "opened w" ?q ?now] w d new'
    by (simp add: rotate_body_def bindS_apply opened_def run_createRefreshToken)
  then show ?thesis
    unfolding rotate_def revoked by (subst transaction_returns) (auto simp: w opened_def frame_def)
qed

text \<open>The texts of a session that is refreshed.\<close>

definition refreshed :: "crypto \<Rightarrow> JwtConfig \<Rightarrow> fresh \<Rightarrow> user_row \<Rightarrow> time \<Rightarrow> AuthTokens" where
  "refreshed c cfg fr u now = \<lparr>at_access = access_token c cfg fr (us_id u) (mapRole (us_role u)) (us_displayName u) now, at_refresh = fr_token fr\<rparr>"

definition rotated :: "crypto \<Rightarrow> JwtConfig \<Rightarrow> fresh \<Rightarrow> refresh_row \<Rightarrow> time \<Rightarrow> refresh_row list \<Rightarrow> refresh_row list" where
  "rotated c cfg fr old now ts = revoke_when (\<lambda>r. rt_id r = rt_id old) now ts @ [token_row c cfg fr (rt_userId old) now]"

lemma refresh_run:
  assumes w: "w_outages w = []" and new: "unused c fr (d_refreshTokens (w_db w))"
    and old: "find (\<lambda>r. rt_tokenHash r = hashToken c t) (d_refreshTokens (w_db w)) = Some old" "rt_revokedAt old = None"
      "rd_now (w_keys w) < rt_expiresAt old"
    and u: "find (\<lambda>u. us_id u = rt_userId old) (d_users (w_db w)) = Some u" "us_id u \<noteq> []" "us_email u \<noteq> []" "us_displayName u \<noteq> []"
    and free: "look (w_keys w) (refreshRotationLockKey (hashToken c t)) = None"
  shows "fst (refresh mem_app c cfg fr t w) = Inr (refreshed c cfg fr u (rd_now (w_keys w)))"
    and "w_db (snd (refresh mem_app c cfg fr t w)) =
      (w_db w)\<lparr>d_refreshTokens := rotated c cfg fr old (rd_now (w_keys w)) (d_refreshTokens (w_db w))\<rparr>"
    and "w_outages (snd (refresh mem_app c cfg fr t w)) = []"
proof -
  have mem: "old \<in> set (d_refreshTokens (w_db w))" using old(1) by (auto simp: find_Some_iff)
  have i: "us_id u = rt_userId old" using u(1) by (auto simp: find_Some_iff)
  have user: "toUserRecordOrNull (Some (toUserRecord u)) = Inr (Some (toUserRecord u))"
    using u(2-4) by (simp add: toUserRecordOrNull_def toUserRecord_def mapRole_def)
  let ?lock = "refreshRotationLockKey (hashToken c t)"
  let ?w = "w\<lparr>w_keys := put ?lock (RStr (Txt ''1'')) (expiry (w_keys w) REFRESH_ROTATION_LOCK_SECONDS) (w_keys w)\<rparr>"
  have lock: "a_set_nx mem_app ?lock REFRESH_ROTATION_LOCK_SECONDS ''1'' w = (Inr True, ?w)"
    using free by (simp add: mem_app_def w do_set_nx_def)
  have rot: "rotate mem_app c cfg fr old ?w = (Inr (), ?w\<lparr>w_db := (w_db w)\<lparr>d_refreshTokens := rotated c cfg fr old (rd_now (w_keys w)) (d_refreshTokens (w_db w))\<rparr>\<rparr>)"
    using run_rotate [of ?w c fr old cfg] w new mem old by (simp add: rotated_def)
  note run = bindS_apply thenS_apply ret_apply catchS_apply finallyS_apply with_lock_def
  have found: "refresh mem_app c cfg fr t w = finallyS (refresh_locked mem_app c cfg fr old (toSafeUser (toUserRecord u))
      (refreshRotationCacheKey (hashToken c t))) (a_del mem_app ?lock) ?w"
    using old(3) by (simp add: refresh_def Let_def run w old(1,2) run_findById u(1) user lock not_le)
  have setex: "a_setex mem_app k n v x = (Inr (), x\<lparr>w_keys := put k (RStr v) (expiry (w_keys x) n) (w_keys x)\<rparr>)"
    "a_del mem_app k x = (Inr (), x\<lparr>w_keys := unset k (w_keys x)\<rparr>)" if "w_outages x = []" for k n v x
    using that by (simp_all add: mem_app_def)
  show "fst (refresh mem_app c cfg fr t w) = Inr (refreshed c cfg fr u (rd_now (w_keys w)))"
    "w_db (snd (refresh mem_app c cfg fr t w)) =
      (w_db w)\<lparr>d_refreshTokens := rotated c cfg fr old (rd_now (w_keys w)) (d_refreshTokens (w_db w))\<rparr>"
    "w_outages (snd (refresh mem_app c cfg fr t w)) = []"
    unfolding found
    by (simp_all add: refresh_locked_def Let_def run rot issueAccessToken_def cacheRotation_def setex w refreshed_def access_token_def
      toSafeUser_def toUserRecord_def i)
qed

text \<open>
  C31. A refresh token that is valid is good for one rotation: the refresh returns a new pair of tokens,
  revokes the old token and stores the new one. Presenting the old token again, while the tokens are as the
  rotation left them, is refused and revokes every refresh token of the user, the new one included.
\<close>

theorem refresh_rotates_once:
  assumes "app_ok env view" and "w_outages (view s) = []" and "unused c fr (d_refreshTokens (w_db (view s)))"
    and "find (\<lambda>r. rt_tokenHash r = hashToken c t) (d_refreshTokens (w_db (view s))) = Some old" and "rt_revokedAt old = None"
    and "rd_now (w_keys (view s)) < rt_expiresAt old"
    and "find (\<lambda>u. us_id u = rt_userId old) (d_users (w_db (view s))) = Some u" and "us_id u \<noteq> []" and "us_email u \<noteq> []"
    and "us_displayName u \<noteq> []" and "look (w_keys (view s)) (refreshRotationLockKey (hashToken c t)) = None"
    and "w_outages (view s2) = []"
    and "d_refreshTokens (w_db (view s2)) = d_refreshTokens (w_db (view (snd (refresh env c cfg fr t s))))"
  shows "fst (refresh env c cfg fr t s) = Inr (refreshed c cfg fr u (rd_now (w_keys (view s)))) \<and>
    d_refreshTokens (w_db (view (snd (refresh env c cfg fr t s)))) =
      rotated c cfg fr old (rd_now (w_keys (view s))) (d_refreshTokens (w_db (view s))) \<and>
    fst (refresh env c cfg fr2 t s2) = Inl Unauthorized \<and>
    (\<forall>r \<in> set (d_refreshTokens (w_db (view (snd (refresh env c cfg fr2 t s2))))). rt_userId r = rt_userId old \<longrightarrow> rt_revokedAt r \<noteq> None)"
proof -
  have service: "app_service env view" by unfold_locales (rule assms(1))
  note sim = app_service.sim_auth(3) [OF service, of c cfg _ t]
  let ?now = "rd_now (w_keys (view s))" and ?ts = "d_refreshTokens (w_db (view s))" and ?new = "d_refreshTokens (w_db (view s2))"
  note first = refresh_run [OF assms(2-11), of cfg]
  have new: "?new = rotated c cfg fr old ?now ?ts" using first(2) sim_state [OF sim, of fr s] assms(13) by simp
  have mem: "old \<in> set ?ts" "rt_tokenHash old = hashToken c t" using assms(4) by (auto simp: find_Some_iff)
  have d: "distinct (map rt_id ?new)" "distinct (map rt_tokenHash ?new)"
    using assms(3) by (auto simp: new rotated_def unused_def token_row_def)
  have "old\<lparr>rt_revokedAt := Some ?now\<rparr> \<in> set ?new" using mem(1) by (force simp: new rotated_def revoke_when_def)
  then have again: "find (\<lambda>r. rt_tokenHash r = hashToken c t) ?new = Some (old\<lparr>rt_revokedAt := Some ?now\<rparr>)"
    using mem(2) find_distinct_key [OF d(2)] by simp
  have second: "refresh mem_app c cfg fr2 t (view s2) = (Inl Unauthorized, (view s2)\<lparr>w_db := (w_db (view s2))\<lparr>d_refreshTokens :=
      revoke_when (\<lambda>x. rt_userId x = rt_userId old \<and> rt_revokedAt x = None) (rd_now (w_keys (view s2))) ?new\<rparr>\<rparr>)"
    using refresh_revoked [OF assms(12) d again, of cfg fr2] by simp
  have "rt_revokedAt r \<noteq> None" if "r \<in> set (revoke_when (\<lambda>x. rt_userId x = rt_userId old \<and> rt_revokedAt x = None) n ?new)" "rt_userId r = rt_userId old" for r n
    using that by (auto simp: revoke_when_def split: if_splits)
  then show ?thesis
    using first(1) second sim_result [OF sim, of fr s] sim_result [OF sim, of fr2 s2] sim_state [OF sim, of fr2 s2] assms(13) new
    by simp
qed

theorem refresh_rotates_once_witness:
  "fst (refresh mem_app plain_crypto jwt_demo (fresh_demo ''2'') ''token1'' (auth_demo [user_demo] [row_demo])) =
     Inr (refreshed plain_crypto jwt_demo (fresh_demo ''2'') user_demo 5000) \<and>
   fst (refresh mem_app plain_crypto jwt_demo (fresh_demo ''3'') ''token1''
     (snd (refresh mem_app plain_crypto jwt_demo (fresh_demo ''2'') ''token1'' (auth_demo [user_demo] [row_demo])))) = Inl Unauthorized"
proof -
  let ?s = "auth_demo [user_demo] [row_demo]"
  have a: "w_outages ?s = []" "d_refreshTokens (w_db ?s) = [row_demo]" "d_users (w_db ?s) = [user_demo]" "rd_now (w_keys ?s) = 5000"
    "look (w_keys ?s) k = None" for k by (simp_all add: auth_demo_def look_def)
  have r: "find (\<lambda>r. rt_tokenHash r = hashToken plain_crypto ''token1'') [row_demo] = Some row_demo" "rt_revokedAt row_demo = None"
    "5000 < rt_expiresAt row_demo" "unused plain_crypto (fresh_demo ''2'') [row_demo]" "rt_userId row_demo = ''u''"
    by (simp_all add: row_demo_def token_row_def fresh_demo_def hashToken_def jwt_demo_def unused_def plain_crypto_def)
  have u: "find (\<lambda>u. us_id u = ''u'') [user_demo] = Some user_demo" "us_id user_demo \<noteq> []" "us_email user_demo \<noteq> []" "us_displayName user_demo \<noteq> []"
    by (simp_all add: user_demo_def)
  have o: "w_outages (snd (refresh mem_app plain_crypto jwt_demo (fresh_demo ''2'') ''token1'' ?s)) = []"
    by (rule refresh_run(3)) (simp_all only: a r u simp_thms, simp_all only: r u simp_thms, (rule u)+)
  show ?thesis
    using refresh_rotates_once [where env = mem_app and view = "\<lambda>w. w" and s = ?s and c = plain_crypto and fr = "fresh_demo ''2''" and t = "''token1''"
        and cfg = jwt_demo and ?fr2.0 = "fresh_demo ''3''" and old = row_demo and u = user_demo, OF app_ok_mem a(1) _ _ r(2) _ _ u(2-4) a(5) o refl]
    by (simp only: a r u simp_thms)
qed

end
