(* ===== verification/Result_Pipeline.thy ===== *)
theory Result_Pipeline
  imports Match_Play Persistence_Once
begin

section \<open>From the game service to the database\<close>

text \<open>
  The result of a match crosses from the game service (\<open>match-ended-publisher.service.ts\<close>) to the job
  runner (\<open>match-ended.processor.ts\<close>) as the JSON of a job. The two services declare the payload apart;
  here the declarations meet: what the one sends, the other accepts.
\<close>

text \<open>The fields of the payload the job runner reads.\<close>

definition received :: "ended_payload \<Rightarrow> MatchEndedPayload" where
  "received e = \<lparr>me_matchId = ep_matchId e, me_players = ep_players e, me_rounds = ep_rounds e, me_winner = ep_winner e,
     me_finalScore = ep_finalScore e, me_startedAt = ep_startedAt e, me_tournamentMatchId = ep_tournamentMatchId e\<rparr>"

lemma numbered_rounds: "numbered rs \<Longrightarrow> distinct (map rr_roundNumber rs) \<and> (\<forall>r\<in>set rs. 0 < rr_roundNumber r)"
proof
  assume n: "numbered rs"
  then show "distinct (map rr_roundNumber rs)" by (simp add: numbered_def)
  have "rr_roundNumber ` set rs = {1..<Suc (length rs)}"
    using n unfolding numbered_def by (metis set_map set_upt)
  then show "\<forall>r\<in>set rs. 0 < rr_roundNumber r" by fastforce
qed

lemma ended_rounds:
  assumes "match_inv st" and "status st = ENDED"
  shows "numbered (rounds_of st)" and "winnerId st = None \<or> winnerId st = uid st LabelA \<or> winnerId st = uid st LabelB"
proof -
  have e: "ended_inv st" using assms by (auto simp: match_inv_def waiting_inv_def)
  then show "winnerId st = None \<or> winnerId st = uid st LabelA \<or> winnerId st = uid st LabelB"
    by (auto simp: ended_inv_def split: option.splits MatchEndReason.splits if_splits)
  show "numbered (rounds_of st)"
    using e by (auto simp: ended_inv_def open_inv_def score_inv_def intro!: numbered_snoc
      split: option.splits MatchEndReason.splits)
qed


definition forfeited_demo :: MatchState where
  "forfeited_demo = fst (disconnect_mutator ''a'' (buildInitialState \<lparr>mp_userId = ''a'', mp_displayName = ''A'', mp_rating = 1000\<rparr>
     \<lparr>mp_userId = ''b'', mp_displayName = ''B'', mp_rating = 1000\<rparr> ''m'' 0 None))"


end
