(* ===== verification/Tournament_Props.thy ===== *)
theory Tournament_Props
  imports App_Rules
begin

section \<open>The bracket of a tournament is generated once, as a whole\<close>

text \<open>
  A \<open>generate-bracket\<close> job may fail at any call, be retried and be delivered twice. Whatever happens, the
  matches of a tournament appear all at once, and only when it has none.
\<close>

subsection \<open>The tables\<close>

lemma find_tournament: "yields (findUnique (a_tournament mem_app) q) (\<lambda>d r d'. d' = d \<and> r = find q (d_tournaments d))"
  unfolding mem_app_def app_env.simps by (rule mem_findUnique)

lemma find_registrations:
  "yields (findMany (a_tournamentRegistration mem_app) q) (\<lambda>d r d'. d' = d \<and> r = filter q (d_registrations d))"
  unfolding mem_app_def app_env.simps by (rule yields_findMany)

lemma find_players: "yields (findMany (a_user mem_app) q) (\<lambda>d r d'. d' = d \<and> r = filter q (d_users d))"
  unfolding mem_app_def app_env.simps by (rule yields_findMany)

lemma find_elos: "yields (findMany (a_eloRating mem_app) q) (\<lambda>d r d'. d' = d \<and> r = filter q (d_elo d))"
  unfolding mem_app_def app_env.simps by (rule yields_findMany)

lemma count_matches:
  "yields (countRows (a_tournamentMatch mem_app) q) (\<lambda>d n d'. d' = d \<and> n = length (filter q (d_tmatches d)))"
  unfolding mem_app_def app_env.simps by (rule yields_countRows)

lemma create_matches:
  "yields (createMany (a_tournamentMatch mem_app) ms) (\<lambda>d _ d'. d_tmatches d' = d_tmatches d @ ms)"
  unfolding mem_app_def app_env.simps by (rule yields_weaken [OF yields_create]) auto

subsection \<open>What a generation may do\<close>

text \<open>The players of a tournament and the bracket the code builds for them.\<close>

definition registered :: "string \<Rightarrow> db \<Rightarrow> (registration_row \<times> user_row) list" where
  "registered tid d = (let regs = filter (\<lambda>r. rg_tournamentId r = tid) (d_registrations d) in
     with_users regs (filter (\<lambda>u. us_id u \<in> rg_userId ` set regs) (d_users d)))"

definition bracket_rows :: "(nat \<Rightarrow> nat \<Rightarrow> string) \<Rightarrow> tournament_row \<Rightarrow> db \<Rightarrow> tmatch_row list \<Rightarrow> bool" where
  "bracket_rows uuid t d rows \<longleftrightarrow> (let regs = registered (tn_id t) d in
     2 \<le> length regs \<and> length regs \<le> tn_bracketSize t \<and>
     (\<exists>sp ps. seedPlayers (players_of regs (filter (\<lambda>e. er_userId e \<in> (\<lambda>ru. rg_userId (fst ru)) ` set regs) (d_elo d))) = Inr sp \<and>
        generateFirstRound sp (Fin (of_nat (tn_bracketSize t))) = Inr ps \<and>
        rows = map (tmatch_of (tn_id t)) (bb_matches (buildBracketStructure uuid sp (tn_bracketSize t) ps))))"

definition same_brackets :: "db \<Rightarrow> db \<Rightarrow> bool" where
  "same_brackets d d' \<longleftrightarrow> (d_tmatches d', d_registrations d') = (d_tmatches d, d_registrations d)"

definition bracket_added :: "(nat \<Rightarrow> nat \<Rightarrow> string) \<Rightarrow> tournament_row \<Rightarrow> db \<Rightarrow> db \<Rightarrow> bool" where
  "bracket_added uuid t d d' \<longleftrightarrow> (\<forall>m\<in>set (d_tmatches d). tm_tournamentId m \<noteq> tn_id t) \<and>
     (\<exists>rows. bracket_rows uuid t d rows \<and> d_tmatches d' = d_tmatches d @ rows)"

definition generation :: "(nat \<Rightarrow> nat \<Rightarrow> string) \<Rightarrow> tournament_row \<Rightarrow> db \<Rightarrow> db \<Rightarrow> bool" where
  "generation uuid t d d' \<longleftrightarrow> same_brackets d d' \<or> bracket_added uuid t d d'"

subsection \<open>The transaction\<close>

definition store_body :: "string \<Rightarrow> seeded_player list \<Rightarrow> BuiltBracketStructure \<Rightarrow> (app_world, app_exn, unit) eff" where
  "store_body tid sps built = thenS (forS sps (\<lambda>sp. thenS (updateRow (a_tournamentRegistration mem_app)
       (\<lambda>r. rg_tournamentId r = tid \<and> rg_userId r = pl_id sp) (\<lambda>r. r\<lparr>rg_seed := Some (seed sp)\<rparr>)) (ret ())))
     (createMany (a_tournamentMatch mem_app) (map (tmatch_of tid) (bb_matches built)))"

lemma store_bracket_eq: "store_bracket mem_app tid sps built = transaction mem_app (store_body tid sps built)"
  by (simp add: store_bracket_def store_body_def)

lemma effect_store_body: "db_effect (store_body tid sps built)"
  unfolding store_body_def by (intro effect_rules)

lemma yields_store_body:
  "yields (store_body tid sps built) (\<lambda>d _ d'. d_tmatches d' = d_tmatches d @ map (tmatch_of tid) (bb_matches built))"
proof -
  have "steady (\<lambda>d. d_tmatches d = c) (a_tournamentRegistration mem_app)" for c
    unfolding mem_app_def app_env.simps by (rule steady_mem) simp
  then have "yields (forS sps (\<lambda>sp. thenS (updateRow (a_tournamentRegistration mem_app)
       (\<lambda>r. rg_tournamentId r = tid \<and> rg_userId r = pl_id sp) (\<lambda>r. r\<lparr>rg_seed := Some (seed sp)\<rparr>)) (ret ())))
     (\<lambda>d _ d'. d_tmatches d' = d_tmatches d)"
    by (intro yields_keeping keep_rules) simp_all
  then show ?thesis
    unfolding store_body_def thenS_def [of "forS sps _"] by (rule yields_bindS [OF _ create_matches]) simp
qed

lemma store_moves:
  "moves (store_bracket mem_app tid sps built)
     (\<lambda>d d'. same_brackets d d' \<or> d_tmatches d' = d_tmatches d @ map (tmatch_of tid) (bb_matches built))"
  unfolding moves_def store_bracket_eq
proof
  fix w
  let ?t = "transaction mem_app (store_body tid sps built) w"
  show "same_brackets (w_db w) (w_db (snd ?t)) \<or>
      d_tmatches (w_db (snd ?t)) = d_tmatches (w_db w) @ map (tmatch_of tid) (bb_matches built)"
  proof (cases "fst ?t")
    case (Inl e)
    then show ?thesis using transaction_atomic [OF effect_store_body Inl] by (simp add: same_brackets_def)
  next
    case (Inr u)
    from yieldsD [OF yields_transaction [OF effect_store_body yields_store_body] this] show ?thesis ..
  qed
qed

subsection \<open>The job\<close>

lemma keeps_started [keep_rules]:
  "preserves (\<lambda>w. P (w_db w)) (enqueueTournamentStartedNotifications mem_app tid n regs)"
  unfolding enqueueTournamentStartedNotifications_def by (intro keep_rules)

lemma moves_quiet: "(\<And>P. preserves (\<lambda>w. P (w_db w)) m) \<Longrightarrow> (\<And>d. R d d) \<Longrightarrow> moves m R"
  using keepsD [where s = w for w] by (simp add: moves_def keeps_def) metis

lemma generation_refl: "generation uuid t d d"
  by (simp add: generation_def same_brackets_def)

lemma moves_started:
  "moves (thenS (enqueueTournamentStartedNotifications mem_app tid n regs) (ret x)) (\<lambda>d d'. P d \<longrightarrow> generation uuid t d d')"
  by (rule moves_quiet) (simp_all add: generation_refl keeps_thenS keeps_started keeps_ret)

lemma reads_lift: "reads (liftS r)"
  by (simp add: reads_def liftS_def ret_def raise_def split: sum.split)

lemma lifted: "map_sum f id r = Inr a \<longleftrightarrow> r = Inr a"
  by (cases r) simp_all

lemma moves_raise: "(\<And>d. R d d) \<Longrightarrow> moves (raise e) R"
  by (simp add: moves_def raise_def)

lemma moves_then_quiet:
  assumes "moves m R" and "\<And>P. preserves (\<lambda>w. P (w_db w)) k"
  shows "moves (thenS m k) R"
  unfolding thenS_def
  by (rule moves_bind_first [where f = "\<lambda>d. d", OF assms(1) moves_keeping]) (use assms(2) in auto)

lemma generate_locked_moves:
  "moves (generate_locked mem_app uuid t regs) (\<lambda>d d'. regs = registered (tn_id t) d \<longrightarrow> generation uuid t d d')"
  (is "moves _ ?R")
proof -
  have refl: "?R d d" for d by (simp add: generation_refl)
  let ?elos = "\<lambda>d. filter (\<lambda>e. er_userId e \<in> (\<lambda>ru. rg_userId (fst ru)) ` set regs) (d_elo d)"
  let ?none = "\<lambda>d. \<forall>m\<in>set (d_tmatches d). tm_tournamentId m \<noteq> tn_id t"
  have store: "moves (thenS (store_bracket mem_app (tn_id t) sp (buildBracketStructure uuid sp (tn_bracketSize t) ps))
      (thenS (enqueueTournamentStartedNotifications mem_app (tn_id t) (tn_name t) regs) (ret Generated)))
      (\<lambda>d d'. generateFirstRound sp (Fin (of_nat (tn_bracketSize t))) = Inr ps \<longrightarrow>
         seedPlayers (players_of regs ratings) = Inr sp \<longrightarrow> ratings = ?elos d \<longrightarrow> ?none d \<and> 2 \<le> length regs \<and>
         length regs \<le> tn_bracketSize t \<longrightarrow> ?R d d')" for sp ps ratings
  proof (rule moves_then_quiet)
    show "moves (store_bracket mem_app (tn_id t) sp (buildBracketStructure uuid sp (tn_bracketSize t) ps))
      (\<lambda>d d'. generateFirstRound sp (Fin (of_nat (tn_bracketSize t))) = Inr ps \<longrightarrow>
         seedPlayers (players_of regs ratings) = Inr sp \<longrightarrow> ratings = ?elos d \<longrightarrow> ?none d \<and> 2 \<le> length regs \<and>
         length regs \<le> tn_bracketSize t \<longrightarrow> ?R d d')"
      using store_moves [of "tn_id t" sp "buildBracketStructure uuid sp (tn_bracketSize t) ps"]
      unfolding moves_def generation_def bracket_added_def bracket_rows_def Let_def by blast
  qed (simp add: keeps_thenS keeps_started keeps_ret)
  have pairs: "moves (bindS (liftS (map_sum BracketFailure id (generateFirstRound sp (Fin (of_nat (tn_bracketSize t))))))
      (\<lambda>ps. thenS (store_bracket mem_app (tn_id t) sp (buildBracketStructure uuid sp (tn_bracketSize t) ps))
        (thenS (enqueueTournamentStartedNotifications mem_app (tn_id t) (tn_name t) regs) (ret Generated))))
      (\<lambda>d d'. seedPlayers (players_of regs ratings) = Inr sp \<longrightarrow> ratings = ?elos d \<longrightarrow> ?none d \<and> 2 \<le> length regs \<and>
         length regs \<le> tn_bracketSize t \<longrightarrow> ?R d d')" for sp ratings
    by (rule moves_bind_reads [OF _ reads_lift store]) (auto intro!: yields_liftS simp: lifted generation_refl)
  have seeds: "moves (bindS (liftS (map_sum BracketFailure id (seedPlayers (players_of regs ratings))))
      (\<lambda>sp. bindS (liftS (map_sum BracketFailure id (generateFirstRound sp (Fin (of_nat (tn_bracketSize t))))))
        (\<lambda>ps. thenS (store_bracket mem_app (tn_id t) sp (buildBracketStructure uuid sp (tn_bracketSize t) ps))
          (thenS (enqueueTournamentStartedNotifications mem_app (tn_id t) (tn_name t) regs) (ret Generated)))))
      (\<lambda>d d'. ratings = ?elos d \<longrightarrow> ?none d \<and> 2 \<le> length regs \<and> length regs \<le> tn_bracketSize t \<longrightarrow> ?R d d')" for ratings
    by (rule moves_bind_reads [OF _ reads_lift pairs]) (auto intro!: yields_liftS simp: lifted generation_refl)
  have build: "moves (bindS (findMany (a_eloRating mem_app) (\<lambda>e. er_userId e \<in> (\<lambda>ru. rg_userId (fst ru)) ` set regs)) (\<lambda>ratings.
      bindS (liftS (map_sum BracketFailure id (seedPlayers (players_of regs ratings))))
      (\<lambda>sp. bindS (liftS (map_sum BracketFailure id (generateFirstRound sp (Fin (of_nat (tn_bracketSize t))))))
        (\<lambda>ps. thenS (store_bracket mem_app (tn_id t) sp (buildBracketStructure uuid sp (tn_bracketSize t) ps))
          (thenS (enqueueTournamentStartedNotifications mem_app (tn_id t) (tn_name t) regs) (ret Generated))))))
      (\<lambda>d d'. ?none d \<and> 2 \<le> length regs \<and> length regs \<le> tn_bracketSize t \<longrightarrow> ?R d d')"
    by (rule moves_bind_reads [OF find_elos reads_table(1) [OF reads_rows(2)] seeds]) (simp add: generation_refl)
  show ?thesis
    unfolding generate_locked_def
  proof (rule moves_bind_reads [OF count_matches reads_table(4) [OF reads_rows(11)]])
    fix n
    show "moves (if n > 0
        then thenS (enqueueTournamentStartedNotifications mem_app (tn_id t) (tn_name t) regs) (ret AlreadyGenerated)
        else if length regs < 2 then raise (UnrecoverableError ''fewer than 2 registrations'')
        else if length regs > tn_bracketSize t then raise (UnrecoverableError ''registrations exceed bracket size'')
        else bindS (findMany (a_eloRating mem_app) (\<lambda>e. er_userId e \<in> (\<lambda>ru. rg_userId (fst ru)) ` set regs)) (\<lambda>ratings.
          bindS (liftS (map_sum BracketFailure id (seedPlayers (players_of regs ratings))))
          (\<lambda>sp. bindS (liftS (map_sum BracketFailure id (generateFirstRound sp (Fin (of_nat (tn_bracketSize t))))))
            (\<lambda>ps. thenS (store_bracket mem_app (tn_id t) sp (buildBracketStructure uuid sp (tn_bracketSize t) ps))
              (thenS (enqueueTournamentStartedNotifications mem_app (tn_id t) (tn_name t) regs) (ret Generated))))))
      (\<lambda>d d'. n = length (filter (\<lambda>m. tm_tournamentId m = tn_id t) (d_tmatches d)) \<longrightarrow> ?R d d')"
    proof (cases "n > 0 \<or> length regs < 2 \<or> length regs > tn_bracketSize t")
      case True
      then show ?thesis
        using moves_started [of "tn_id t" "tn_name t" regs AlreadyGenerated "\<lambda>_. True" uuid t]
          moves_raise [of "generation uuid t"] generation_refl by (auto simp: moves_def)
    next
      case False
      then show ?thesis using build by (auto simp: moves_def filter_empty_conv)
    qed
  qed (rule refl)
qed

lemma registrations_read:
  "yields (registrations_of mem_app tid) (\<lambda>d rs d'. d' = d \<and> rs = registered tid d)"
  unfolding registrations_of_def
proof (rule yields_bindS [OF find_registrations])
  show "yields (bindS (findMany (a_user mem_app) (\<lambda>u. us_id u \<in> rg_userId ` set regs)) (\<lambda>users. ret (with_users regs users)))
      (\<lambda>d rs d'. d' = d \<and> rs = with_users regs (filter (\<lambda>u. us_id u \<in> rg_userId ` set regs) (d_users d)))" for regs
    by (rule yields_bindS [OF find_players yields_ret [of "\<lambda>d b d'. d' = d \<and> b = with_users regs us" for us]]) auto
qed (simp add: registered_def Let_def del: set_filter)

lemma reads_registrations: "reads (registrations_of mem_app tid)"
proof -
  have "preserves (\<lambda>w. w_db w = x) (registrations_of mem_app tid)" for x
    unfolding registrations_of_def
    by (intro keep_rules keeps_bindS [where R = "\<lambda>_. True"] keeps_reading reads_rules; simp)
  then show ?thesis by (simp add: reads_def keeps_def)
qed

definition generation_of :: "(nat \<Rightarrow> nat \<Rightarrow> string) \<Rightarrow> string \<Rightarrow> db \<Rightarrow> db \<Rightarrow> bool" where
  "generation_of uuid tid d d' \<longleftrightarrow> same_brackets d d' \<or>
     (\<exists>t. find (\<lambda>t. tn_id t = tid) (d_tournaments d) = Some t \<and> tn_status t = TInProgress \<and> bracket_added uuid t d d')"

lemma moves_generate:
  "moves (processGenerateBracket mem_app cfg uuid lockUuid tid) (generation_of uuid tid)"
  unfolding processGenerateBracket_def
proof (rule moves_bind_reads [OF find_tournament reads_table(3) [OF reads_rows(9)]])
  have refl: "generation_of uuid tid d d" for d by (simp add: generation_of_def same_brackets_def)
  show "generation_of uuid tid d d" for d by (rule refl)
  fix found
  show "moves (case found of None \<Rightarrow> raise (UnrecoverableError ''tournament not found'')
       | Some t \<Rightarrow> bindS (registrations_of mem_app tid) (\<lambda>registrations.
           if tn_status t \<noteq> TInProgress then raise (UnrecoverableError ''tournament is not in progress'')
           else bindS (countRows (a_tournamentMatch mem_app) (\<lambda>m. tm_tournamentId m = tn_id t)) (\<lambda>existingMatches.
             if existingMatches > 0
             then thenS (enqueueTournamentStartedNotifications mem_app (tn_id t) (tn_name t) registrations) (ret AlreadyGenerated)
             else let key = generate_bracket_lockKey cfg (tn_id t); token = lock_token cfg lockUuid in
               with_lock (acquire_lock mem_app key GENERATE_BRACKET_LOCK_TTL_SECONDS token) (release_lock mem_app key token)
                 (raise (JobError ''generate-bracket lock not acquired''))
                 (generate_locked mem_app uuid t registrations))))
     (\<lambda>d d'. found = find (\<lambda>t. tn_id t = tid) (d_tournaments d) \<longrightarrow> generation_of uuid tid d d')"
  proof (cases found)
    case (Some t)
    have whole: "generation uuid t d d' \<Longrightarrow> tn_status t = TInProgress \<Longrightarrow> Some t = find (\<lambda>t. tn_id t = tid) (d_tournaments d) \<Longrightarrow>
        generation_of uuid tid d d'" for d d'
      by (auto simp: generation_def generation_of_def)
    have id: "tn_id t = tid" if "Some t = find (\<lambda>t. tn_id t = tid) (d_tournaments d)" for d
      using that [symmetric] by (auto simp: find_Some_iff)
    have locked: "moves (with_lock (acquire_lock mem_app k n tok) (release_lock mem_app k tok)
        (raise (JobError ''generate-bracket lock not acquired'')) (generate_locked mem_app uuid t regs))
        (\<lambda>d d'. regs = registered (tn_id t) d \<longrightarrow> generation uuid t d d')" for regs k n tok
      by (rule moves_with_lock [OF _ _ _ generate_locked_moves]) (simp_all add: keeps_job_locks keeps_raise generation_refl)
    have count: "moves (bindS (countRows (a_tournamentMatch mem_app) (\<lambda>m. tm_tournamentId m = tn_id t)) (\<lambda>existingMatches.
        if existingMatches > 0
        then thenS (enqueueTournamentStartedNotifications mem_app (tn_id t) (tn_name t) regs) (ret AlreadyGenerated)
        else with_lock (acquire_lock mem_app k n tok) (release_lock mem_app k tok)
          (raise (JobError ''generate-bracket lock not acquired'')) (generate_locked mem_app uuid t regs)))
        (\<lambda>d d'. regs = registered (tn_id t) d \<longrightarrow> generation uuid t d d')" for regs k n tok
      by (rule moves_bind_reads [OF count_matches reads_table(4) [OF reads_rows(11)]])
        (use locked [of k n tok regs] moves_started [of "tn_id t" "tn_name t" regs AlreadyGenerated "\<lambda>_. True" uuid t]
          in \<open>auto simp: moves_def generation_refl\<close>)
    let ?k = "generate_bracket_lockKey cfg (tn_id t)" and ?tok = "lock_token cfg lockUuid"
    show ?thesis
      unfolding Some option.case Let_def
    proof (rule moves_bind_reads [OF registrations_read reads_registrations])
      fix regs
      show "moves (if tn_status t \<noteq> TInProgress then raise (UnrecoverableError ''tournament is not in progress'')
          else bindS (countRows (a_tournamentMatch mem_app) (\<lambda>m. tm_tournamentId m = tn_id t)) (\<lambda>existingMatches.
            if existingMatches > 0
            then thenS (enqueueTournamentStartedNotifications mem_app (tn_id t) (tn_name t) regs) (ret AlreadyGenerated)
            else with_lock (acquire_lock mem_app ?k GENERATE_BRACKET_LOCK_TTL_SECONDS ?tok) (release_lock mem_app ?k ?tok)
                (raise (JobError ''generate-bracket lock not acquired'')) (generate_locked mem_app uuid t regs)))
        (\<lambda>d d'. regs = registered tid d \<longrightarrow> Some t = find (\<lambda>t. tn_id t = tid) (d_tournaments d) \<longrightarrow> generation_of uuid tid d d')"
        (is "moves (if _ then _ else ?go) _")
      proof (cases "tn_status t = TInProgress")
        case True
        show ?thesis
          unfolding moves_def
        proof (intro allI impI)
          fix w :: app_world assume r: "regs = registered tid (w_db w)" and t: "Some t = find (\<lambda>t. tn_id t = tid) (d_tournaments (w_db w))"
          have "regs = registered (tn_id t) (w_db w)" using r id [OF t] by simp
          with movesD [OF count, of regs w ?k GENERATE_BRACKET_LOCK_TTL_SECONDS ?tok]
          have "generation uuid t (w_db w) (w_db (snd (?go w)))" by blast
          from whole [OF this True t] True
          show "generation_of uuid tid (w_db w) (w_db (snd ((if tn_status t \<noteq> TInProgress
              then raise (UnrecoverableError ''tournament is not in progress'') else ?go) w)))" by simp
        qed
      qed (simp add: moves_raise refl)
    qed (simp add: refl)
  qed (simp add: moves_raise refl)
qed

text \<open>
  C34. Whatever fails during the generation of a bracket, and however it ends: the matches and the
  registrations of all tournaments are as before, or a tournament in progress that had no match got its whole
  bracket, as it is built from its two or more players, and no other match has changed. So a job that is
  retried or delivered twice never adds a second bracket.
\<close>

theorem bracket_generated_once:
  assumes "app_ok env view"
  shows "same_brackets (w_db (view s)) (w_db (view (snd (processGenerateBracket env cfg uuid lockUuid tid s)))) \<or>
    (\<exists>t rows. find (\<lambda>t. tn_id t = tid) (d_tournaments (w_db (view s))) = Some t \<and> tn_status t = TInProgress \<and>
      (\<forall>m\<in>set (d_tmatches (w_db (view s))). tm_tournamentId m \<noteq> tid) \<and> bracket_rows uuid t (w_db (view s)) rows \<and>
      d_tmatches (w_db (view (snd (processGenerateBracket env cfg uuid lockUuid tid s)))) = d_tmatches (w_db (view s)) @ rows)"
proof -
  have "app_service env view" by unfold_locales (rule assms)
  note sim = sim_state [OF app_service.sim_processGenerateBracket [OF this], of cfg uuid lockUuid tid s]
  have "tn_id t = tid" if "find (\<lambda>t. tn_id t = tid) (d_tournaments (w_db (view s))) = Some t" for t
    using that by (auto simp: find_Some_iff)
  with movesD [OF moves_generate, of uuid tid "view s" cfg lockUuid] show ?thesis
    unfolding sim generation_of_def bracket_added_def by metis
qed

definition bracket_demo :: app_world where
  "bracket_demo = \<lparr>w_db = \<lparr>d_users = [], d_elo = [], d_matches = [], d_rounds = [], d_history = [], d_leagues = [], d_seasons = [],
     d_standings = [],
     d_tournaments = [\<lparr>tn_id = ''t'', tn_name = ''Cup'', tn_format = SingleElim, tn_bracketSize = 2, tn_registrationOpensAt = 0,
       tn_startsAt = 1, tn_endedAt = None, tn_status = TInProgress, tn_winnerId = None, tn_createdAt = 0, tn_updatedAt = 0\<rparr>],
     d_registrations = [],
     d_tmatches = [\<lparr>tm_id = ''tm'', tm_tournamentId = ''t'', tm_round = 1, tm_positionIndex = 0, tm_matchId = None, tm_slotAId = Some ''a'',
       tm_slotBId = Some ''b'', tm_nextMatchId = None, tm_winnerSlot = None\<rparr>],
     d_refreshTokens = [], d_resetTokens = []\<rparr>, w_saved = [], w_keys = \<lparr>rd_now = 2, rd_keys = \<lambda>_. None\<rparr>, w_jobs = [],
     w_published = [], w_outages = []\<rparr>"

theorem bracket_generated_once_witness:
  "map tm_id (d_tmatches (w_db (snd (processGenerateBracket mem_app \<lparr>jc_BULLMQ_PREFIX = ''chifoumi'', jc_WORKER_ROLE = ''all''\<rparr> (\<lambda>r i. show_nat r @ show_nat i) ''lock'' ''t'' bracket_demo)))) = [''tm'']"
  using bracket_generated_once [OF app_ok_mem, of bracket_demo "\<lparr>jc_BULLMQ_PREFIX = ''chifoumi'', jc_WORKER_ROLE = ''all''\<rparr>" "\<lambda>r i. show_nat r @ show_nat i" "''lock''" "''t''"]
  by (auto simp: same_brackets_def) (simp_all add: bracket_demo_def)

end
