(* ===== verification/Api_Tournaments.thy ===== *)
theory Api_Tournaments
  imports App_Rules User_Service
begin

section \<open>apps/api: tournaments\<close>

text \<open>
  \<open>tournaments/tournaments.service.ts\<close> and \<open>queues/tournaments-queue.service.ts\<close>. The random id of a new
  tournament is an argument. \<open>SELECT ... FOR UPDATE\<close> is a query: the transactions of registrations are
  serialised by the lock it takes, and the model runs them one after the other. \<open>Promise.all\<close> makes all its
  calls, in their order. The order of display names (\<open>localeCompare\<close>) is a parameter.
\<close>

subsection \<open>Promise.all of two calls\<close>

definition bothS :: "('s, 'e, 'a) eff \<Rightarrow> ('s, 'e, 'b) eff \<Rightarrow> ('s, 'e, 'a \<times> 'b) eff" where
  "bothS m k s = (case m s of (r, s') \<Rightarrow> (case k s' of (q, s'') \<Rightarrow>
     (case r of Inl e \<Rightarrow> Inl e | Inr a \<Rightarrow> (case q of Inl e \<Rightarrow> Inl e | Inr b \<Rightarrow> Inr (a, b)), s'')))"

lemma sim_bothS [sim_rules]:
  assumes "sim view m m'" and "sim view k k'"
  shows "sim view (bothS m k) (bothS m' k')"
  unfolding sim_def
proof
  fix s
  obtain r s1 where m: "m s = (r, s1)" by fastforce
  obtain q s2 where k: "k s1 = (q, s2)" by fastforce
  show "bothS m' k' (view s) = (fst (bothS m k s), view (snd (bothS m k s)))"
    using simD [OF assms(1), of s] simD [OF assms(2), of s1] by (simp add: bothS_def m k)
qed

lemma keeps_bothS [keep_rules]: "preserves P m \<Longrightarrow> preserves P k \<Longrightarrow> preserves P (bothS m k)"
  by (fastforce simp: keeps_def bothS_def split: prod.split)

subsection \<open>tournaments-queue.service.ts\<close>

definition enqueueGenerateBracket :: "'s app_env \<Rightarrow> string \<Rightarrow> ('s, app_exn, unit) eff" where
  "enqueueGenerateBracket env tournamentId = a_add_job env
     \<lparr>aj_queue = ''tournaments'', aj_name = ''generate-bracket'', aj_data = GenerateBracket tournamentId, aj_jobId = None, aj_attempts = 3\<rparr>"

subsection \<open>tournaments.service.ts: reading\<close>

record TournamentListItemDto =
  tl_id :: string
  tl_name :: string
  tl_format :: TournamentFormat
  tl_bracketSize :: nat
  tl_status :: TournamentStatus
  tl_registrationsCount :: nat
  tl_startsAt :: time

record TournamentRegistrationDto =
  td_userId :: string
  td_displayName :: string
  td_seed :: "nat option"

record BracketSlotDto =
  bs_userId :: string
  bs_displayName :: string

record BracketMatchDto =
  bm_id :: string
  bm_matchId :: "string option"
  bm_slotA :: "BracketSlotDto option"
  bm_slotB :: "BracketSlotDto option"
  bm_scoreA :: "nat option"
  bm_scoreB :: "nat option"
  bm_winnerSlot :: "WinnerSlot option"

type_synonym BracketRoundDto = "nat \<times> BracketMatchDto list"

record TournamentDetailDto = TournamentListItemDto +
  tl_registrationOpensAt :: time
  tl_endedAt :: "time option"
  tl_registrations :: "TournamentRegistrationDto list"
  tl_bracket :: "BracketRoundDto list"

text \<open>The order of a text column.\<close>

definition text_key :: "string \<Rightarrow> int list" where
  "text_key s = map (\<lambda>ch. int (of_char ch)) s"

text \<open>\<open>Array.prototype.sort\<close>, stable, by a comparison.\<close>

fun insert_by :: "('a \<Rightarrow> 'a \<Rightarrow> int) \<Rightarrow> 'a \<Rightarrow> 'a list \<Rightarrow> 'a list" where
  "insert_by cmp x [] = [x]"
| "insert_by cmp x (y # ys) = (if cmp x y \<le> 0 then x # y # ys else y # insert_by cmp x ys)"

definition sort_by :: "('a \<Rightarrow> 'a \<Rightarrow> int) \<Rightarrow> 'a list \<Rightarrow> 'a list" where
  "sort_by cmp xs = foldr (insert_by cmp) xs []"

definition toListItem :: "tournament_row \<Rightarrow> nat \<Rightarrow> TournamentListItemDto" where
  "toListItem t n = \<lparr>tl_id = tn_id t, tl_name = tn_name t, tl_format = tn_format t, tl_bracketSize = tn_bracketSize t,
     tl_status = tn_status t, tl_registrationsCount = n, tl_startsAt = tn_startsAt t\<rparr>"

text \<open>The query of the list counts the registrations of each tournament.\<close>

fun with_counts :: "'s app_env \<Rightarrow> tournament_row list \<Rightarrow> ('s, app_exn, TournamentListItemDto list) eff" where
  "with_counts env [] = ret []"
| "with_counts env (t # ts) =
     bindS (countRows (a_tournamentRegistration env) (\<lambda>r. rg_tournamentId r = tn_id t)) (\<lambda>n.
     bindS (with_counts env ts) (\<lambda>rest. ret (toListItem t n # rest)))"

definition listTournaments ::
  "'s app_env \<Rightarrow> TournamentStatus option \<Rightarrow> nat option \<Rightarrow> nat option \<Rightarrow> ('s, app_exn, TournamentListItemDto list \<times> nat \<times> nat \<times> nat) eff" where
  "listTournaments env queryStatus queryPage queryLimit =
     (let q = (\<lambda>t. queryStatus = None \<or> queryStatus = Some (tn_status t));
          page = (case queryPage of None \<Rightarrow> 1 | Some p \<Rightarrow> p); lmt = (case queryLimit of None \<Rightarrow> 20 | Some l \<Rightarrow> l) in
      bindS (bothS
          (bindS (find_page (a_tournament env) q (\<lambda>t. tn_startsAt t # text_key (tn_id t)) ((page - 1) * lmt) lmt) (with_counts env))
          (countRows (a_tournament env) q)) (\<lambda>r.
        ret (fst r, page, lmt, snd r)))"

definition compare_registrations ::
  "(string \<Rightarrow> string \<Rightarrow> int) \<Rightarrow> registration_row \<times> user_row \<Rightarrow> registration_row \<times> user_row \<Rightarrow> int" where
  "compare_registrations localeCompare left right =
     (case (rg_seed (fst left), rg_seed (fst right)) of
        (None, None) \<Rightarrow> localeCompare (us_displayName (snd left)) (us_displayName (snd right))
      | (None, Some _) \<Rightarrow> 1
      | (Some _, None) \<Rightarrow> -1
      | (Some a, Some b) \<Rightarrow> int a - int b)"

definition toRegistrations ::
  "(string \<Rightarrow> string \<Rightarrow> int) \<Rightarrow> (registration_row \<times> user_row) list \<Rightarrow> TournamentRegistrationDto list" where
  "toRegistrations localeCompare registrations =
     map (\<lambda>ru. \<lparr>td_userId = rg_userId (fst ru), td_displayName = us_displayName (snd ru), td_seed = rg_seed (fst ru)\<rparr>)
       (sort_by (compare_registrations localeCompare) registrations)"

definition toSlot :: "user_row list \<Rightarrow> string option \<Rightarrow> BracketSlotDto option" where
  "toSlot users slot = (case slot of None \<Rightarrow> None | Some i \<Rightarrow>
     map_option (\<lambda>u. \<lparr>bs_userId = us_id u, bs_displayName = us_displayName u\<rparr>) (find (\<lambda>u. us_id u = i) users))"

definition toBracketMatch :: "user_row list \<Rightarrow> match_row list \<Rightarrow> tmatch_row \<Rightarrow> BracketMatchDto" where
  "toBracketMatch users matches m =
     (let played = find (\<lambda>x. Some (mt_id x) = tm_matchId m) matches in
      \<lparr>bm_id = tm_id m, bm_matchId = tm_matchId m, bm_slotA = toSlot users (tm_slotAId m), bm_slotB = toSlot users (tm_slotBId m),
       bm_scoreA = map_option mt_scoreA played, bm_scoreB = map_option mt_scoreB played, bm_winnerSlot = tm_winnerSlot m\<rparr>)"

text \<open>The map from rounds to matches, in the order of insertion.\<close>

fun round_push :: "nat \<Rightarrow> 'a \<Rightarrow> (nat \<times> 'a list) list \<Rightarrow> (nat \<times> 'a list) list" where
  "round_push r m [] = [(r, [m])]"
| "round_push r m ((r', ms) # rest) = (if r' = r then (r', ms @ [m]) # rest else (r', ms) # round_push r m rest)"

definition toBracket :: "user_row list \<Rightarrow> match_row list \<Rightarrow> tmatch_row list \<Rightarrow> BracketRoundDto list" where
  "toBracket users played matches =
     sort_by (\<lambda>l r. int (fst l) - int (fst r))
       (fold (\<lambda>m rounds. round_push (tm_round m) (toBracketMatch users played m) rounds) matches [])"

definition getTournamentDetail ::
  "'s app_env \<Rightarrow> (string \<Rightarrow> string \<Rightarrow> int) \<Rightarrow> string \<Rightarrow> ('s, app_exn, TournamentDetailDto) eff" where
  "getTournamentDetail env localeCompare tournamentId =
     bindS (findUnique (a_tournament env) (\<lambda>t. tn_id t = tournamentId)) (\<lambda>found.
       case found of
         None \<Rightarrow> raise (HttpError 404 ''TOURNAMENT_NOT_FOUND'')
       | Some t \<Rightarrow>
           bindS (registrations_of env tournamentId) (\<lambda>registrations.
           bindS (t_find (a_tournamentMatch env) (\<lambda>m. tm_tournamentId m = tournamentId)
               (\<lambda>m. int (tm_round m) # text_key (tm_id m)) None) (\<lambda>matches.
           bindS (findMany (a_user env) (\<lambda>u. Some (us_id u) \<in> tm_slotAId ` set matches \<union> tm_slotBId ` set matches)) (\<lambda>users.
           bindS (findMany (a_match env) (\<lambda>x. Some (mt_id x) \<in> tm_matchId ` set matches)) (\<lambda>played.
             ret \<lparr>tl_id = tn_id t, tl_name = tn_name t, tl_format = tn_format t, tl_bracketSize = tn_bracketSize t,
               tl_status = tn_status t, tl_registrationsCount = length registrations, tl_startsAt = tn_startsAt t,
               tl_registrationOpensAt = tn_registrationOpensAt t, tl_endedAt = tn_endedAt t,
               tl_registrations = toRegistrations localeCompare registrations, tl_bracket = toBracket users played matches\<rparr>)))))"

subsection \<open>tournaments.service.ts: the life of a tournament\<close>

definition createTournament ::
  "'s app_env \<Rightarrow> string \<Rightarrow> string \<Rightarrow> TournamentFormat \<Rightarrow> nat \<Rightarrow> time \<Rightarrow> time \<Rightarrow> ('s, app_exn, unit) eff" where
  "createTournament env newId name format bracketSize registrationOpensAt startsAt =
     (if startsAt < registrationOpensAt then raise (HttpError 400 ''INVALID_TOURNAMENT_SCHEDULE'')
      else createMany (a_tournament env) [\<lparr>tn_id = newId, tn_name = name, tn_format = format, tn_bracketSize = bracketSize,
        tn_registrationOpensAt = registrationOpensAt, tn_startsAt = startsAt, tn_endedAt = None, tn_status = TUpcoming,
        tn_winnerId = None, tn_createdAt = 0, tn_updatedAt = 0\<rparr>])"

definition requireTournament :: "'s app_env \<Rightarrow> string \<Rightarrow> ('s, app_exn, tournament_row) eff" where
  "requireTournament env tournamentId =
     bindS (findUnique (a_tournament env) (\<lambda>t. tn_id t = tournamentId)) (\<lambda>found.
       case found of None \<Rightarrow> raise (HttpError 404 ''TOURNAMENT_NOT_FOUND'') | Some t \<Rightarrow> ret t)"

definition requireOpenableTournament :: "'s app_env \<Rightarrow> string \<Rightarrow> ('s, app_exn, tournament_row) eff" where
  "requireOpenableTournament env tournamentId =
     bindS (requireTournament env tournamentId) (\<lambda>t.
       if tn_status t = TRegistrationOpen then raise (HttpError 409 ''TOURNAMENT_ALREADY_OPEN'')
       else if tn_status t \<noteq> TUpcoming then raise (HttpError 409 ''TOURNAMENT_NOT_UPCOMING'')
       else ret t)"

definition requireStartableTournament :: "'s app_env \<Rightarrow> string \<Rightarrow> ('s, app_exn, tournament_row) eff" where
  "requireStartableTournament env tournamentId =
     bindS (requireTournament env tournamentId) (\<lambda>t.
       if tn_status t = TInProgress \<or> tn_status t = TCompleted then raise (HttpError 409 ''TOURNAMENT_ALREADY_STARTED'')
       else if tn_status t \<noteq> TRegistrationOpen then raise (HttpError 409 ''TOURNAMENT_NOT_REGISTRATION_OPEN'')
       else ret t)"

definition move_status :: "'s app_env \<Rightarrow> string \<Rightarrow> TournamentStatus \<Rightarrow> TournamentStatus \<Rightarrow> ('s, app_exn, nat) eff" where
  "move_status env tid old new = updateMany (a_tournament env) (\<lambda>t. tn_id t = tid \<and> tn_status t = old) (\<lambda>t. t\<lparr>tn_status := new\<rparr>)"

definition openRegistration :: "'s app_env \<Rightarrow> string \<Rightarrow> ('s, app_exn, tournament_row) eff" where
  "openRegistration env tournamentId =
     bindS (requireOpenableTournament env tournamentId) (\<lambda>t.
     bindS (move_status env (tn_id t) TUpcoming TRegistrationOpen) (\<lambda>openResult.
       if openResult = 0
       then thenS (requireOpenableTournament env tournamentId) (raise (HttpError 409 ''TOURNAMENT_NOT_UPCOMING''))
       else requireTournament env (tn_id t)))"

definition startTournament :: "'s app_env \<Rightarrow> string \<Rightarrow> ('s, app_exn, tournament_row) eff" where
  "startTournament env tournamentId =
     bindS (requireStartableTournament env tournamentId) (\<lambda>t.
     bindS (countRows (a_tournamentRegistration env) (\<lambda>r. rg_tournamentId r = tn_id t)) (\<lambda>registrationCount.
       if registrationCount < 2 then raise (HttpError 409 ''NOT_ENOUGH_PLAYERS'')
       else bindS (move_status env (tn_id t) TRegistrationOpen TInProgress) (\<lambda>startResult.
         if startResult = 0
         then thenS (requireStartableTournament env tournamentId) (raise (HttpError 409 ''TOURNAMENT_NOT_REGISTRATION_OPEN''))
         else thenS (catchS (enqueueGenerateBracket env (tn_id t))
             (\<lambda>e. thenS (move_status env (tn_id t) TInProgress TRegistrationOpen) (raise e)))
           (requireTournament env (tn_id t)))))"

subsection \<open>tournaments.service.ts: registrations\<close>

definition assertRegistrationSlotAvailable :: "'s app_env \<Rightarrow> string \<Rightarrow> ('s, app_exn, tournament_row) eff" where
  "assertRegistrationSlotAvailable env tournamentId =
     bindS (findMany (a_tournament env) (\<lambda>t. tn_id t = tournamentId)) (\<lambda>lockedRows.
       if lockedRows = [] then raise (HttpError 404 ''TOURNAMENT_NOT_FOUND'')
       else bindS (requireTournament env tournamentId) (\<lambda>t.
         if tn_status t \<noteq> TRegistrationOpen then raise (HttpError 409 ''REGISTRATION_CLOSED'')
         else bindS (countRows (a_tournamentRegistration env) (\<lambda>r. rg_tournamentId r = tournamentId)) (\<lambda>registrationCount.
           if registrationCount \<ge> tn_bracketSize t then raise (HttpError 409 ''TOURNAMENT_FULL'')
           else ret t)))"

definition register_body :: "'s app_env \<Rightarrow> string \<Rightarrow> string \<Rightarrow> ('s, app_exn, unit) eff" where
  "register_body env tournamentId userId =
     thenS (assertRegistrationSlotAvailable env tournamentId)
       (createMany (a_tournamentRegistration env)
         [\<lparr>rg_tournamentId = tournamentId, rg_userId = userId, rg_seed = None, rg_registeredAt = 0\<rparr>])"

definition registerPlayer :: "'s app_env \<Rightarrow> string \<Rightarrow> string \<Rightarrow> ('s, app_exn, unit) eff" where
  "registerPlayer env tournamentId userId =
     catchS (transaction env (register_body env tournamentId userId))
       (\<lambda>e. if (case e of HttpError n _ \<Rightarrow> n = 404 \<or> n = 409 | _ \<Rightarrow> False) then raise e
         else if e = DbEx UniqueViolation then raise (HttpError 409 ''ALREADY_REGISTERED'')
         else raise e)"

definition unregisterPlayer :: "'s app_env \<Rightarrow> string \<Rightarrow> string \<Rightarrow> ('s, app_exn, unit) eff" where
  "unregisterPlayer env tournamentId userId =
     bindS (requireTournament env tournamentId) (\<lambda>t.
       if tn_status t \<noteq> TRegistrationOpen then raise (HttpError 409 ''REGISTRATION_CLOSED'')
       else thenS (t_delete (a_tournamentRegistration env)
           (\<lambda>r. rg_tournamentId r = tournamentId \<and> rg_userId r = userId)) (ret ()))"

subsection \<open>The handlers run as documented\<close>

context app_service
begin

lemma sim_find_page [sim_rules]: "table_ok t t' view \<Longrightarrow> sim view (find_page t q key i n) (find_page t' q key i n)"
  unfolding find_page_def by (intro sim_rules)

lemma sim_with_counts [sim_rules]: "sim view (with_counts env ts) (with_counts mem_app ts)"
  by (induction ts) (auto intro!: sim_rules)

lemma sim_tournament_reads [sim_rules]:
  "sim view (listTournaments env st p l) (listTournaments mem_app st p l)"
  "sim view (getTournamentDetail env cmp tid) (getTournamentDetail mem_app cmp tid)"
  unfolding listTournaments_def getTournamentDetail_def Let_def by (intro sim_rules)+

lemma sim_tournament_guards [sim_rules]:
  "sim view (requireTournament env tid) (requireTournament mem_app tid)"
  "sim view (requireOpenableTournament env tid) (requireOpenableTournament mem_app tid)"
  "sim view (requireStartableTournament env tid) (requireStartableTournament mem_app tid)"
  "sim view (assertRegistrationSlotAvailable env tid) (assertRegistrationSlotAvailable mem_app tid)"
  "sim view (enqueueGenerateBracket env tid) (enqueueGenerateBracket mem_app tid)"
  "sim view (move_status env tid a b) (move_status mem_app tid a b)"
  unfolding requireTournament_def requireOpenableTournament_def requireStartableTournament_def
    assertRegistrationSlotAvailable_def enqueueGenerateBracket_def move_status_def by (intro sim_rules)+

lemma sim_tournament_steps [sim_rules]:
  "sim view (createTournament env i n f b o' s') (createTournament mem_app i n f b o' s')"
  "sim view (openRegistration env tid) (openRegistration mem_app tid)"
  "sim view (startTournament env tid) (startTournament mem_app tid)"
  "sim view (registerPlayer env tid u) (registerPlayer mem_app tid u)"
  "sim view (unregisterPlayer env tid u) (unregisterPlayer mem_app tid u)"
  unfolding createTournament_def openRegistration_def startTournament_def registerPlayer_def register_body_def
    unregisterPlayer_def by (intro sim_rules)+

end

end
