(* ===== verification/Api_Tournament_Props.thy ===== *)
theory Api_Tournament_Props
  imports Api_Tournaments Tournament_Props
begin

section \<open>Registrations: never more than the bracket holds, and only while it is open\<close>

text \<open>
  The operations of the tournaments service as steps of a transition system on the database, and what
  every sequence of them keeps: each registration belongs to a tournament, no tournament has more
  registrations than its bracket has places, and the registrations of a tournament only change while it is
  open for registration.
\<close>

subsection \<open>The invariant and the effect of a step\<close>

definition entries :: "string \<Rightarrow> db \<Rightarrow> registration_row list" where
  "entries tid d = filter (\<lambda>r. rg_tournamentId r = tid) (d_registrations d)"

definition capacity_ok :: "db \<Rightarrow> bool" where
  "capacity_ok d \<longleftrightarrow> distinct (map tn_id (d_tournaments d)) \<and>
     (\<forall>r\<in>set (d_registrations d). rg_tournamentId r \<in> tn_id ` set (d_tournaments d)) \<and>
     (\<forall>t\<in>set (d_tournaments d). length (entries (tn_id t) d) \<le> tn_bracketSize t)"

definition open_for :: "string \<Rightarrow> db \<Rightarrow> bool" where
  "open_for tid d \<longleftrightarrow> (\<exists>t\<in>set (d_tournaments d). tn_id t = tid \<and> tn_status t = TRegistrationOpen)"

definition orderly :: "db \<Rightarrow> db \<Rightarrow> bool" where
  "orderly d d' \<longleftrightarrow> (capacity_ok d \<longrightarrow> capacity_ok d') \<and> (\<forall>tid. \<not> open_for tid d \<longrightarrow> entries tid d' = entries tid d)"

lemma orderly_refl: "orderly d d"
  by (simp add: orderly_def)

text \<open>What the invariant reads of a database.\<close>

definition places :: "db \<Rightarrow> (string \<times> nat) list \<times> registration_row list" where
  "places d = (map (\<lambda>t. (tn_id t, tn_bracketSize t)) (d_tournaments d), d_registrations d)"

lemma capacity_places:
  assumes "places d' = places d"
  shows "capacity_ok d' = capacity_ok d" and "entries tid d' = entries tid d"
proof -
  have r: "d_registrations d' = d_registrations d" and t: "map (\<lambda>t. (tn_id t, tn_bracketSize t)) (d_tournaments d') =
      map (\<lambda>t. (tn_id t, tn_bracketSize t)) (d_tournaments d)" using assms by (simp_all add: places_def)
  have ids: "map tn_id (d_tournaments d') = map tn_id (d_tournaments d)"
    using arg_cong [OF t, of "map fst"] unfolding map_map o_def fst_conv .
  show "entries tid d' = entries tid d" for tid by (simp add: entries_def r)
  have cap: "capacity_ok d \<longleftrightarrow> distinct (map tn_id (d_tournaments d)) \<and>
     (\<forall>r\<in>set (d_registrations d). rg_tournamentId r \<in> set (map tn_id (d_tournaments d))) \<and>
     (\<forall>p\<in>set (map (\<lambda>t. (tn_id t, tn_bracketSize t)) (d_tournaments d)).
        length (filter (\<lambda>r. rg_tournamentId r = fst p) (d_registrations d)) \<le> snd p)" for d
    by (simp add: capacity_ok_def entries_def)
  show "capacity_ok d' = capacity_ok d" unfolding cap [of d] cap [of d'] r t ids by (rule refl)
qed

lemma orderly_places: "places d' = places d \<Longrightarrow> orderly d d'"
  using capacity_places [of d' d] by (simp add: orderly_def)

subsection \<open>The operations\<close>

lemma keeps_move_status: "preserves (\<lambda>w. places (w_db w) = c) (move_status mem_app tid a b)"
proof -
  have same: "(tn_id x, tn_bracketSize x) = (tn_id r, tn_bracketSize r)"
    if "x = (if q r then (\<lambda>r. r\<lparr>tn_updatedAt := now\<rparr>) (r\<lparr>tn_status := b\<rparr>) else r)" for x r q now
    using that by simp
  have "preserves (\<lambda>w. places (w_db w) = c) (t_update (a_tournament mem_app) q (\<lambda>t. t\<lparr>tn_status := b\<rparr>))" for q
    unfolding mem_app_def app_env.simps mem_tables
    by (rule keeps_app_call [where P = "\<lambda>d. places d = c"])
      (auto simp: places_def Let_def o_def if_distrib cong: if_cong)
  then show ?thesis
    unfolding move_status_def updateMany_def by (auto intro!: keeps_bindS [where R = "\<lambda>_. True"] keep_rules)
qed

lemma keeps_finds_places [keep_rules]:
  "preserves (\<lambda>w. P (w_db w)) (findUnique (a_tournament mem_app) q1)"
  "preserves (\<lambda>w. P (w_db w)) (findMany (a_tournament mem_app) q2)"
  "preserves (\<lambda>w. P (w_db w)) (countRows (a_tournamentRegistration mem_app) q3)"
  by (intro keeps_reading reads_rules)+

lemma keeps_lifecycle:
  "preserves (\<lambda>w. places (w_db w) = c) (openRegistration mem_app tid)"
  "preserves (\<lambda>w. places (w_db w) = c) (startTournament mem_app tid)"
  unfolding openRegistration_def startTournament_def requireOpenableTournament_def requireStartableTournament_def
    requireTournament_def enqueueGenerateBracket_def
  by (auto intro!: keep_rules keeps_move_status keeps_bindS [where R = "\<lambda>_. True"] split: option.split)

lemma moves_lifecycle: "moves (openRegistration mem_app tid) orderly" "moves (startTournament mem_app tid) orderly"
  using moves_keeping [where f = places, OF keeps_lifecycle(1)] moves_keeping [where f = places, OF keeps_lifecycle(2)]
  by (simp_all add: moves_def orderly_places)

lemma create_moves: "moves (createTournament mem_app i n f b o' s) orderly"
proof -
  have "orderly d d'" if new: "distinct (map tn_id (d_tournaments d @ [t]))" and d': "d' = d\<lparr>d_tournaments := d_tournaments d @ [t]\<rparr>" for d d' t
  proof -
    have "capacity_ok d'" if c: "capacity_ok d"
    proof -
      have "entries (tn_id t) d = []"
        using c new unfolding capacity_ok_def entries_def filter_empty_conv by simp metis
      with c new show ?thesis by (auto simp: capacity_ok_def entries_def d')
    qed
    then show ?thesis by (simp add: orderly_def entries_def d')
  qed
  then show ?thesis
    unfolding createTournament_def moves_def createMany_def mem_app_def app_env.simps mem_tables app_call_def Let_def
    by (auto simp: raise_def orderly_refl split: list.split bool.split)
qed

lemma yields_require: "yields (requireTournament mem_app tid) (\<lambda>d t d'. d' = d \<and> t \<in> set (d_tournaments d) \<and> tn_id t = tid)"
proof -
  have "yields (case x of None \<Rightarrow> raise (HttpError 404 ''TOURNAMENT_NOT_FOUND'') | Some t \<Rightarrow> ret t) (\<lambda>d t d'. d' = d \<and> x = Some t)" for x
    by (cases x) (simp_all add: yields_raise yields_ret)
  from yields_bindS [OF find_tournament this] show ?thesis
    unfolding requireTournament_def by (rule yields_weaken) (auto simp: find_Some_iff dest!: sym [of "Some _"])
qed

definition slot_free :: "string \<Rightarrow> db \<Rightarrow> bool" where
  "slot_free tid d \<longleftrightarrow> (\<exists>t\<in>set (d_tournaments d). tn_id t = tid \<and> tn_status t = TRegistrationOpen \<and>
     length (entries tid d) < tn_bracketSize t)"

lemma count_entries:
  "yields (countRows (a_tournamentRegistration mem_app) (\<lambda>r. rg_tournamentId r = tid)) (\<lambda>d n d'. d' = d \<and> n = length (entries tid d))"
  unfolding mem_app_def app_env.simps entries_def by (rule yields_countRows)

lemma yields_slot: "yields (assertRegistrationSlotAvailable mem_app tid) (\<lambda>d _ d'. d' = d \<and> slot_free tid d)"
proof -
  have count: "yields (bindS (countRows (a_tournamentRegistration mem_app) (\<lambda>r. rg_tournamentId r = tid)) (\<lambda>n.
      if n \<ge> tn_bracketSize t then raise (HttpError 409 ''TOURNAMENT_FULL'') else ret t))
      (\<lambda>d _ d'. d' = d \<and> length (entries tid d) < tn_bracketSize t)" for t
  proof (rule yields_bindS [OF count_entries])
    show "yields (if n \<ge> tn_bracketSize t then raise (HttpError 409 ''TOURNAMENT_FULL'') else ret t)
        (\<lambda>d _ d'. d' = d \<and> n < tn_bracketSize t)" for n
      by (intro yields_if yields_raise yields_ret) simp
  qed simp
  have "yields (bindS (requireTournament mem_app tid) (\<lambda>t.
      if tn_status t \<noteq> TRegistrationOpen then raise (HttpError 409 ''REGISTRATION_CLOSED'')
      else bindS (countRows (a_tournamentRegistration mem_app) (\<lambda>r. rg_tournamentId r = tid)) (\<lambda>n.
        if n \<ge> tn_bracketSize t then raise (HttpError 409 ''TOURNAMENT_FULL'') else ret t)))
      (\<lambda>d _ d'. d' = d \<and> slot_free tid d)"
  proof (rule yields_bindS [OF yields_require])
    show "yields (if tn_status t \<noteq> TRegistrationOpen then raise (HttpError 409 ''REGISTRATION_CLOSED'')
        else bindS (countRows (a_tournamentRegistration mem_app) (\<lambda>r. rg_tournamentId r = tid)) (\<lambda>n.
          if n \<ge> tn_bracketSize t then raise (HttpError 409 ''TOURNAMENT_FULL'') else ret t))
        (\<lambda>d _ d'. d' = d \<and> length (entries tid d) < tn_bracketSize t \<and> tn_status t = TRegistrationOpen)" for t
      by (cases "tn_status t = TRegistrationOpen") (simp_all add: yields_raise count)
  qed (auto simp: slot_free_def)
  then show ?thesis
    unfolding assertRegistrationSlotAvailable_def
    by (intro yields_reads [OF reads_table(1) [OF reads_rows(9)]] yields_if yields_raise)
qed

lemma yields_entry:
  "yields (createMany (a_tournamentRegistration mem_app) [r]) (\<lambda>d _ d'. \<exists>now. d' = d\<lparr>d_registrations := d_registrations d @ [r\<lparr>rg_registeredAt := now\<rparr>]\<rparr>)"
  unfolding mem_app_def app_env.simps by (rule yields_weaken [OF yields_create]) auto

lemma orderly_entry:
  assumes "slot_free tid d" and d': "d' = d\<lparr>d_registrations := d_registrations d @ [r]\<rparr>" and r: "rg_tournamentId r = tid"
  shows "orderly d d'"
proof -
  have other: "entries i d' = (if i = tid then entries i d @ [r] else entries i d)" for i by (simp add: entries_def d' r)
  obtain t where t: "t \<in> set (d_tournaments d)" "tn_id t = tid" "tn_status t = TRegistrationOpen" "length (entries tid d) < tn_bracketSize t"
    using assms(1) by (auto simp: slot_free_def)
  have same: "x = t" if "capacity_ok d" "x \<in> set (d_tournaments d)" "tn_id x = tid" for x
    using that t(1,2) by (auto simp: capacity_ok_def distinct_map inj_on_def)
  have "capacity_ok d'" if c: "capacity_ok d"
    unfolding capacity_ok_def
  proof (intro conjI ballI)
    fix x assume x: "x \<in> set (d_tournaments d')"
    show "length (entries (tn_id x) d') \<le> tn_bracketSize x"
    proof -
      have x': "x \<in> set (d_tournaments d)" using x by (simp add: d')
      show ?thesis using x' c same [OF c x'] t(4) by (auto simp: other capacity_ok_def)
    qed
  qed (use c t(1,2) r in \<open>auto simp: capacity_ok_def d'\<close>)
  moreover have "open_for tid d" using t by (auto simp: open_for_def)
  ultimately show ?thesis by (auto simp: orderly_def other)
qed

lemma register_moves: "moves (registerPlayer mem_app tid u) orderly"
  unfolding moves_def
proof
  fix w
  have effect: "db_effect (register_body mem_app tid u)"
    unfolding register_body_def assertRegistrationSlotAvailable_def requireTournament_def by (intro effect_rules)
  have body: "yields (register_body mem_app tid u) (\<lambda>d _ d'. orderly d d')"
    unfolding register_body_def thenS_def by (rule yields_bindS [OF yields_slot yields_entry]) (auto intro!: orderly_entry)
  let ?t = "transaction mem_app (register_body mem_app tid u) w"
  have "orderly (w_db w) (w_db (snd ?t))"
  proof (cases "fst ?t")
    case (Inl e)
    then show ?thesis using transaction_atomic [OF effect Inl] by (simp add: orderly_refl)
  qed (rule yieldsD [OF yields_transaction [OF effect body]])
  moreover have "w_db (snd (registerPlayer mem_app tid u w)) = w_db (snd ?t)"
    by (cases ?t; cases "fst ?t") (auto simp: registerPlayer_def catchS_def raise_def split: app_exn.split)
  ultimately show "orderly (w_db w) (w_db (snd (registerPlayer mem_app tid u w)))" by simp
qed

lemma unregister_moves: "moves (unregisterPlayer mem_app tid u) orderly"
proof -
  have "orderly d (d\<lparr>d_registrations := filter (\<lambda>r. \<not> (rg_tournamentId r = tid \<and> rg_userId r = u)) (d_registrations d)\<rparr>)"
    (is "orderly d ?d'") if "open_for tid d" for d
  proof -
    have sub: "entries i ?d' = filter (\<lambda>r. \<not> (rg_tournamentId r = tid \<and> rg_userId r = u)) (entries i d)" for i
      by (simp add: entries_def conj_commute)
    have "entries i ?d' = entries i d" if "i \<noteq> tid" for i
      unfolding entries_def by (simp, rule filter_cong [OF refl]) (use that in auto)
    then have "entries i ?d' = entries i d" if "\<not> open_for i d" for i using that \<open>open_for tid d\<close> by metis
    moreover have le: "length (entries i ?d') \<le> length (entries i d)" for i unfolding sub by (rule length_filter_le)
    have "capacity_ok ?d'" if c: "capacity_ok d"
      unfolding capacity_ok_def
    proof (intro conjI ballI)
      fix t assume "t \<in> set (d_tournaments ?d')"
      with c have "length (entries (tn_id t) d) \<le> tn_bracketSize t" by (simp add: capacity_ok_def)
      with le show "length (entries (tn_id t) ?d') \<le> tn_bracketSize t" by (rule order_trans)
    qed (use c in \<open>auto simp: capacity_ok_def\<close>)
    ultimately show ?thesis by (simp add: orderly_def)
  qed
  then have delete: "moves (t_delete (a_tournamentRegistration mem_app) (\<lambda>r. rg_tournamentId r = tid \<and> rg_userId r = u))
      (\<lambda>d d'. open_for tid d \<longrightarrow> orderly d d')"
    by (auto simp: moves_def mem_app_def mem_table_def app_call_def orderly_refl split: list.split bool.split)
  have "moves (thenS (t_delete (a_tournamentRegistration mem_app) (\<lambda>r. rg_tournamentId r = tid \<and> rg_userId r = u)) (ret ()))
      (\<lambda>d d'. open_for tid d \<longrightarrow> orderly d d')"
    by (rule moves_then_quiet [OF delete]) (simp add: keeps_ret)
  then have rest: "moves (if tn_status t \<noteq> TRegistrationOpen then raise (HttpError 409 ''REGISTRATION_CLOSED'')
        else thenS (t_delete (a_tournamentRegistration mem_app) (\<lambda>r. rg_tournamentId r = tid \<and> rg_userId r = u)) (ret ()))
      (\<lambda>d d'. t \<in> set (d_tournaments d) \<and> tn_id t = tid \<longrightarrow> orderly d d')" for t
    by (cases "tn_status t = TRegistrationOpen") (auto simp: moves_def raise_def orderly_refl open_for_def)
  have reads: "reads (requireTournament mem_app tid)"
  proof -
    have "preserves (\<lambda>w. w_db w = x) (requireTournament mem_app tid)" for x
      unfolding requireTournament_def by (auto intro!: keep_rules keeps_bindS [where R = "\<lambda>_. True"] split: option.split)
    then show ?thesis by (simp add: reads_def keeps_def)
  qed
  show ?thesis
    unfolding unregisterPlayer_def by (rule moves_bind_reads [OF yields_require reads rest orderly_refl])
qed

subsection \<open>Sequences of operations\<close>

inductive tournament_step :: "'s app_env \<Rightarrow> ('s \<Rightarrow> app_world) \<Rightarrow> db \<Rightarrow> db \<Rightarrow> bool" for env view where
  create: "tournament_step env view (w_db (view s)) (w_db (view (snd (createTournament env i n f b opens starts s))))"
| open_reg: "tournament_step env view (w_db (view s)) (w_db (view (snd (openRegistration env tid s))))"
| start: "tournament_step env view (w_db (view s)) (w_db (view (snd (startTournament env tid s))))"
| register: "tournament_step env view (w_db (view s)) (w_db (view (snd (registerPlayer env tid u s))))"
| unregister: "tournament_step env view (w_db (view s)) (w_db (view (snd (unregisterPlayer env tid u s))))"

inductive tournament_run :: "'s app_env \<Rightarrow> ('s \<Rightarrow> app_world) \<Rightarrow> db \<Rightarrow> db \<Rightarrow> bool" for env view where
  stop: "tournament_run env view d d"
| step: "tournament_run env view d d1 \<Longrightarrow> tournament_step env view d1 d2 \<Longrightarrow> tournament_run env view d d2"

lemma step_orderly: "app_ok env view \<Longrightarrow> tournament_step env view d d' \<Longrightarrow> orderly d d'"
proof -
  assume ok: "app_ok env view"
  then have service: "app_service env view" by unfold_locales
  note sims = app_service.sim_tournament_steps [OF service]
  assume "tournament_step env view d d'"
  then show ?thesis
    by (cases rule: tournament_step.cases)
      (simp_all only: sim_state [OF sims(1)] sim_state [OF sims(2)] sim_state [OF sims(3)] sim_state [OF sims(4)] sim_state [OF sims(5)]
        movesD [OF create_moves] movesD [OF moves_lifecycle(1)] movesD [OF moves_lifecycle(2)] movesD [OF register_moves] movesD [OF unregister_moves])
qed


definition cup_demo :: "app_world" where
  "cup_demo = bracket_demo\<lparr>w_db := (w_db bracket_demo)\<lparr>d_tournaments := [], d_tmatches := []\<rparr>\<rparr>"

definition cup_steps :: "app_world \<Rightarrow> app_world" where
  "cup_steps w = snd (registerPlayer mem_app ''t'' ''c'' (snd (registerPlayer mem_app ''t'' ''b'' (snd (registerPlayer mem_app ''t'' ''a''
     (snd (openRegistration mem_app ''t'' (snd (createTournament mem_app ''t'' ''Cup'' SingleElim 2 0 1 w)))))))))"


end
