(* ===== verification/Api_Seasons.thy ===== *)
theory Api_Seasons
  imports Api_Tournaments Auth_Service Season_Reset
begin

section \<open>apps/api: seasons and the leaderboard\<close>

text \<open>
  \<open>seasons/seasons.service.ts\<close> with its queue, \<open>leaderboard/leaderboard.service.ts\<close> and the cache of the
  leaderboard in \<open>redis/redis.service.ts\<close>. The service calls the user service over gRPC (\<open>User_Service\<close>). Page
  and limit are positive, as the DTOs check. The random id of a new season is an argument.
\<close>

subsection \<open>seasons-queue.service.ts\<close>

definition enqueueSeasonReset :: "'s app_env \<Rightarrow> string \<Rightarrow> ('s, app_exn, unit) eff" where
  "enqueueSeasonReset env seasonId = a_add_job env
     \<lparr>aj_queue = ''seasons'', aj_name = ''season-reset'', aj_data = SeasonReset (Some seasonId) ''admin'',
       aj_jobId = None, aj_attempts = 3\<rparr>"

subsection \<open>seasons.service.ts: reading\<close>

record CurrentSeasonDto =
  ss_id :: string
  ss_name :: string
  ss_startedAt :: time
  ss_endsAt :: "time option"
  ss_status :: SeasonStatus

record CurrentSeasonMeDto =
  sm_rating :: int
  sm_league :: league_summary
  sm_rank :: nat
  sm_progressToNextLeague :: real

record SeasonStandingEntryDto =
  se_rank :: nat
  se_userId :: string
  se_displayName :: string
  se_finalRating :: int
  se_finalLeague :: league_summary

record SeasonStandingsResponseDto =
  sp_season :: "string \<times> string \<times> SeasonStatus"
  sp_items :: "SeasonStandingEntryDto list"
  sp_total :: nat
  sp_page :: nat
  sp_limit :: nat

definition season_summary :: "season_row \<Rightarrow> CurrentSeasonDto" where
  "season_summary s = \<lparr>ss_id = sn_id s, ss_name = sn_name s, ss_startedAt = sn_startedAt s, ss_endsAt = sn_endsAt s,
     ss_status = sn_status s\<rparr>"

definition getCurrent :: "'s app_env \<Rightarrow> string \<Rightarrow> ('s, app_exn, CurrentSeasonDto \<times> CurrentSeasonMeDto) eff" where
  "getCurrent env userId =
     bindS (findFirst (a_season env) (\<lambda>s. sn_status s = SeasonActive) (\<lambda>_. [])) (\<lambda>found.
       case found of
         None \<Rightarrow> raise (HttpError 404 ''NO_ACTIVE_SEASON'')
       | Some season \<Rightarrow>
           bindS (getCompetitionStats env userId) (\<lambda>stats.
           bindS (t_find (a_league env) (\<lambda>_. True) (\<lambda>l. [tier l]) None) (\<lambda>leagues.
           bindS (liftS (map_sum LeagueFailure id (getLeagueForRating (Fin (of_int (cs_rating stats))) (map league.truncate leagues)))) (\<lambda>l.
           bindS (liftS (map_sum LeagueFailure id (getLeagueProgress (Fin (of_int (cs_rating stats))) l))) (\<lambda>progress.
             ret (season_summary season, \<lparr>sm_rating = cs_rating stats, sm_league = \<lparr>ls_name = lg_name l, ls_tier = tier l\<rparr>,
               sm_rank = cs_rank stats, sm_progressToNextLeague = progress\<rparr>))))))"

text \<open>\<open>resolveLeague\<close>, the same in both services.\<close>

definition resolveLeague :: "string option \<Rightarrow> app_exn + league option" where
  "resolveLeague leagueName =
     (if \<not> truthy leagueName then Inr None
      else case getReferenceLeagueByName (the leagueName) of
        None \<Rightarrow> Inl (HttpError 400 ''UNKNOWN_LEAGUE'') | Some l \<Rightarrow> Inr (Some l))"

text \<open>
  The condition on the name of the league reads the leagues first; the user and the league of a standing exist by
  the foreign keys.
\<close>

definition standing_entry :: "standing_row \<times> user_row \<times> league_row \<Rightarrow> SeasonStandingEntryDto" where
  "standing_entry row = (case row of (d, u, l) \<Rightarrow>
     \<lparr>se_rank = sd_rank d, se_userId = us_id u, se_displayName = us_displayName u, se_finalRating = sd_finalRating d,
       se_finalLeague = \<lparr>ls_name = lg_name l, ls_tier = tier l\<rparr>\<rparr>)"

definition standings_where :: "string \<Rightarrow> league option \<Rightarrow> league_row list \<Rightarrow> standing_row \<Rightarrow> bool" where
  "standings_where seasonId league leagues d \<longleftrightarrow> sd_seasonId d = seasonId \<and>
     (case league of None \<Rightarrow> True
      | Some l \<Rightarrow> \<exists>r \<in> set leagues. lg_id r = sd_finalLeagueId d \<and> lg_name r = lg_name l)"

definition standings_page ::
  "'s app_env \<Rightarrow> string \<Rightarrow> league option \<Rightarrow> nat \<Rightarrow> nat \<Rightarrow> ('s, app_exn, SeasonStandingEntryDto list) eff" where
  "standings_page env seasonId league skip n =
     bindS (findMany (a_league env) (\<lambda>_. True)) (\<lambda>leagues.
     bindS (find_page (a_seasonStanding env) (standings_where seasonId league leagues) (\<lambda>d. [int (sd_rank d)]) skip n) (\<lambda>ds.
     bindS (findMany (a_user env) (\<lambda>u. us_id u \<in> sd_userId ` set ds)) (\<lambda>users.
       ret (map standing_entry (with_user_and_league ds users leagues)))))"

definition getStandings ::
  "'s app_env \<Rightarrow> string \<Rightarrow> nat \<Rightarrow> nat \<Rightarrow> string option \<Rightarrow> ('s, app_exn, SeasonStandingsResponseDto) eff" where
  "getStandings env seasonId page lmt queryLeague =
     bindS (findUnique (a_season env) (\<lambda>s. sn_id s = seasonId)) (\<lambda>found.
       case found of
         None \<Rightarrow> raise (HttpError 404 ''SEASON_NOT_FOUND'')
       | Some season \<Rightarrow>
           if sn_status season \<noteq> SeasonClosed then raise (HttpError 409 ''SEASON_NOT_CLOSED'')
           else bindS (liftS (resolveLeague queryLeague)) (\<lambda>league.
             bindS (bothS (standings_page env seasonId league ((page - 1) * lmt) lmt)
                 (bindS (findMany (a_league env) (\<lambda>_. True)) (\<lambda>leagues.
                   countRows (a_seasonStanding env) (standings_where seasonId league leagues)))) (\<lambda>r.
               ret \<lparr>sp_season = (sn_id season, sn_name season, sn_status season), sp_items = fst r, sp_total = snd r,
                 sp_page = page, sp_limit = lmt\<rparr>)))"

text \<open>In descending order PostgreSQL puts a missing date first.\<close>

definition listClosed :: "'s app_env \<Rightarrow> ('s, app_exn, CurrentSeasonDto list) eff" where
  "listClosed env =
     bindS (t_find (a_season env) (\<lambda>s. sn_status s = SeasonClosed)
         (\<lambda>s. case sn_endsAt s of None \<Rightarrow> [0] | Some e \<Rightarrow> [1, - e]) (Some 5)) (\<lambda>items.
       ret (map (\<lambda>s. (season_summary s)\<lparr>ss_status := SeasonClosed\<rparr>) items))"

subsection \<open>seasons.service.ts: the life of a season\<close>

definition createSeason :: "'s app_env \<Rightarrow> string \<Rightarrow> string \<Rightarrow> time \<Rightarrow> ('s, app_exn, unit) eff" where
  "createSeason env newId name endsAt = bindS (a_now env) (\<lambda>now.
     createMany (a_season env) [\<lparr>sn_id = newId, sn_name = name, sn_startedAt = now, sn_endsAt = Some endsAt,
       sn_status = SeasonUpcoming, sn_createdAt = 0, sn_updatedAt = 0\<rparr>])"

definition requireClosableSeason :: "'s app_env \<Rightarrow> string \<Rightarrow> ('s, app_exn, season_row) eff" where
  "requireClosableSeason env seasonId =
     bindS (findUnique (a_season env) (\<lambda>s. sn_id s = seasonId)) (\<lambda>found.
       case found of
         None \<Rightarrow> raise (HttpError 404 ''SEASON_NOT_FOUND'')
       | Some season \<Rightarrow>
           if sn_status season = SeasonClosed then raise (HttpError 409 ''SEASON_ALREADY_CLOSED'')
           else if sn_status season \<noteq> SeasonActive then raise (HttpError 409 ''SEASON_NOT_ACTIVE'')
           else ret season)"

definition move_season :: "'s app_env \<Rightarrow> string \<Rightarrow> SeasonStatus \<Rightarrow> SeasonStatus \<Rightarrow> ('s, app_exn, nat) eff" where
  "move_season env sid old new = updateMany (a_season env) (\<lambda>s. sn_id s = sid \<and> sn_status s = old) (\<lambda>s. s\<lparr>sn_status := new\<rparr>)"

definition closeSeason :: "'s app_env \<Rightarrow> string \<Rightarrow> ('s, app_exn, season_row) eff" where
  "closeSeason env seasonId =
     bindS (requireClosableSeason env seasonId) (\<lambda>season.
     bindS (move_season env (sn_id season) SeasonActive SeasonClosed) (\<lambda>closeResult.
       if closeResult = 0
       then thenS (requireClosableSeason env seasonId) (raise (HttpError 409 ''SEASON_NOT_ACTIVE''))
       else thenS (catchS (enqueueSeasonReset env (sn_id season))
           (\<lambda>e. thenS (move_season env (sn_id season) SeasonClosed SeasonActive) (raise e)))
         (bindS (findUnique (a_season env) (\<lambda>s. sn_id s = sn_id season)) (\<lambda>closed.
           case closed of None \<Rightarrow> raise (HttpError 404 ''SEASON_NOT_FOUND'') | Some c \<Rightarrow> ret c))))"

subsection \<open>leaderboard.service.ts\<close>

datatype LeaderboardCacheStatus = HIT | MISS

definition LEADERBOARD_CACHE_KEY_PREFIX :: string where "LEADERBOARD_CACHE_KEY_PREFIX = ''leaderboard:top:''"
definition LEADERBOARD_CACHE_TTL_SECONDS :: nat where "LEADERBOARD_CACHE_TTL_SECONDS = 30"

definition leaderboard_cacheKey :: "nat \<Rightarrow> league option \<Rightarrow> string" where
  "leaderboard_cacheKey lmt league = LEADERBOARD_CACHE_KEY_PREFIX @ show_nat lmt @ '':'' @
     (case league of None \<Rightarrow> ''all'' | Some l \<Rightarrow> toLowerCase (lg_name l))"

definition fetchFromDatabase :: "'s app_env \<Rightarrow> nat \<Rightarrow> league option \<Rightarrow> ('s, app_exn, LeaderboardItem list) eff" where
  "fetchFromDatabase env lmt league = listLeaderboard env lmt (map_option lg_name league)"

text \<open>Only this service writes these keys; another text does not parse.\<close>

definition leaderboard_get ::
  "'s app_env \<Rightarrow> nat \<Rightarrow> string option \<Rightarrow> ('s, app_exn, LeaderboardItem list \<times> LeaderboardCacheStatus) eff" where
  "leaderboard_get env lmt leagueName =
     bindS (liftS (resolveLeague leagueName)) (\<lambda>league.
       let cacheKey = leaderboard_cacheKey lmt league in
       bindS (a_get env cacheKey) (\<lambda>cached.
         if truthy_stored cached
         then (case the cached of
             Json (LeaderboardJson items) \<Rightarrow> ret (items, HIT)
           | _ \<Rightarrow> raise (HttpError 500 ''Internal server error''))
         else bindS (fetchFromDatabase env lmt league) (\<lambda>items.
           thenS (a_setex env cacheKey LEADERBOARD_CACHE_TTL_SECONDS (Json (LeaderboardJson items)))
             (ret (items, MISS)))))"

text \<open>\<open>redis.service.ts\<close>: what a message on the invalidation channel does.\<close>

definition invalidateLeaderboardCache :: "'s app_env \<Rightarrow> ('s, app_exn, unit) eff" where
  "invalidateLeaderboardCache env = a_del_prefix env LEADERBOARD_CACHE_KEY_PREFIX"

definition on_redis_message :: "'s app_env \<Rightarrow> string \<Rightarrow> ('s, app_exn, unit) eff" where
  "on_redis_message env channel =
     (if channel = LEADERBOARD_INVALIDATE_CHANNEL then invalidateLeaderboardCache env else ret ())"

subsection \<open>The handlers run as documented\<close>

lemma sim_case_board:
  "(\<And>l. sim view (f l) (f' l)) \<Longrightarrow>
   sim view (case x of Json (LeaderboardJson l) \<Rightarrow> f l | _ \<Rightarrow> raise e)
     (case x of Json (LeaderboardJson l) \<Rightarrow> f' l | _ \<Rightarrow> raise e)"
  by (simp add: sim_raise split: stored.split app_json.split)

context app_service
begin

lemma sim_season_reads [sim_rules]:
  "sim view (getCompetitionStats env u) (getCompetitionStats mem_app u)"
  "sim view (listLeaderboard env n l) (listLeaderboard mem_app n l)"
  unfolding getCompetitionStats_def users_getCompetitionStats_def not_found_as_rpc_def us_getCompetitionStats_def
    us_getRating_def user_with_rating_def listLeaderboard_def us_listLeaderboard_def
    Let_def by (intro sim_rules)+

lemma sim_seasons [sim_rules]:
  "sim view (getCurrent env u) (getCurrent mem_app u)"
  "sim view (standings_page env i l m n) (standings_page mem_app i l m n)"
  "sim view (listClosed env) (listClosed mem_app)"
  "sim view (createSeason env i name e) (createSeason mem_app i name e)"
  "sim view (requireClosableSeason env i) (requireClosableSeason mem_app i)"
  "sim view (move_season env i a b) (move_season mem_app i a b)"
  "sim view (enqueueSeasonReset env i) (enqueueSeasonReset mem_app i)"
  unfolding getCurrent_def standings_page_def listClosed_def createSeason_def requireClosableSeason_def move_season_def
    enqueueSeasonReset_def by (intro sim_rules)+

lemma sim_getStandings [sim_rules]: "sim view (getStandings env i p n l) (getStandings mem_app i p n l)"
  unfolding getStandings_def by (intro sim_rules)

lemma sim_closeSeason [sim_rules]: "sim view (closeSeason env i) (closeSeason mem_app i)"
  unfolding closeSeason_def by (intro sim_rules)

lemma sim_fetch [sim_rules]: "sim view (fetchFromDatabase env n l) (fetchFromDatabase mem_app n l)"
  unfolding fetchFromDatabase_def by (intro sim_rules)

lemma sim_leaderboard [sim_rules]:
  "sim view (leaderboard_get env n l) (leaderboard_get mem_app n l)"
  "sim view (on_redis_message env ch) (on_redis_message mem_app ch)"
  unfolding leaderboard_get_def Let_def on_redis_message_def invalidateLeaderboardCache_def
  by (intro sim_rules sim_case_board)+

end

end
