(* ===== verification/Api_Account.thy ===== *)
theory Api_Account
  imports Api_Seasons
begin

section \<open>apps/api: accounts, guards, history and audit\<close>

text \<open>
  \<open>auth/auth.service.ts\<close> (the gRPC client of the auth service), \<open>auth/strategies/jwt.strategy.ts\<close> with the two
  guards, \<open>me/me-history.service.ts\<close> with its cursor, and \<open>matches/audit.service.ts\<close>. Passport checks the
  signature and the expiry of a token (\<open>cr_jwt_decode\<close> and the clock) before it calls \<open>validate\<close>. JSON, base64url
  and ISO dates are the parameter \<open>cursor_codec\<close>.
\<close>

subsection \<open>auth.service.ts\<close>

definition call_auth :: "'s app_env \<Rightarrow> ('s, app_exn, 'a) eff \<Rightarrow> ('s, app_exn, 'a) eff" where
  "call_auth env m = catchS (thenS (a_rpc env) (grpc_boundary m))
     (\<lambda>e. case e of
        GrpcError c t \<Rightarrow>
          if c = 6 then raise (HttpError 409 ''Unable to complete registration'')
          else if c = 16 then raise (HttpError 401 ''Unauthorized'')
          else raise (HttpError 503 ''Auth service unavailable'')
      | _ \<Rightarrow> raise (HttpError 503 ''Auth service unavailable''))"

text \<open>The auth service answers a registration, a login or a refresh with every field set.\<close>

definition api_register ::
  "'s app_env \<Rightarrow> crypto \<Rightarrow> JwtConfig \<Rightarrow> fresh \<Rightarrow> string \<Rightarrow> string \<Rightarrow> string \<Rightarrow> ('s, app_exn, SafeUser \<times> AuthTokens) eff" where
  "api_register env c cfg fr email password displayName = call_auth env (auth_register env c cfg fr email password displayName)"

definition api_login ::
  "'s app_env \<Rightarrow> crypto \<Rightarrow> JwtConfig \<Rightarrow> fresh \<Rightarrow> string \<Rightarrow> string \<Rightarrow> ('s, app_exn, SafeUser \<times> AuthTokens) eff" where
  "api_login env c cfg fr email password = call_auth env (auth_login env c cfg fr email password)"

definition api_refresh :: "'s app_env \<Rightarrow> crypto \<Rightarrow> JwtConfig \<Rightarrow> fresh \<Rightarrow> string \<Rightarrow> ('s, app_exn, AuthTokens) eff" where
  "api_refresh env c cfg fr refreshToken = call_auth env (auth_refresh env c cfg fr refreshToken)"

definition api_logout :: "'s app_env \<Rightarrow> string \<Rightarrow> string \<Rightarrow> time \<Rightarrow> ('s, app_exn, unit) eff" where
  "api_logout env userId jti expiresAt = call_auth env (auth_logout env userId jti expiresAt)"

definition api_requestPasswordReset :: "'s app_env \<Rightarrow> crypto \<Rightarrow> string \<Rightarrow> fresh \<Rightarrow> string \<Rightarrow> ('s, app_exn, unit) eff" where
  "api_requestPasswordReset env c frontendUrl fr email = call_auth env (auth_requestPasswordReset env c frontendUrl fr email)"

definition api_resetPassword :: "'s app_env \<Rightarrow> crypto \<Rightarrow> fresh \<Rightarrow> string \<Rightarrow> string \<Rightarrow> ('s, app_exn, unit) eff" where
  "api_resetPassword env c fr token newPassword = call_auth env (auth_resetPassword env c fr token newPassword)"

text \<open>On the wire an absent field is an empty text.\<close>

definition wire_session :: "AuthVerdict \<Rightarrow> AuthVerdict" where
  "wire_session v = v\<lparr>vt_userId := or_empty (vt_userId v), vt_role := or_empty (vt_role v),
     vt_displayName := or_empty (vt_displayName v), vt_jti := or_empty (vt_jti v), av_email := or_empty (av_email v)\<rparr>"

definition toVerifyTokenResponse :: "AuthVerdict \<Rightarrow> AuthVerdict" where
  "toVerifyTokenResponse v = (if \<not> vt_valid v
     then refused (case vt_reason v of None \<Rightarrow> R_INVALID | Some r \<Rightarrow> r) else v\<lparr>vt_reason := None\<rparr>)"

definition api_verifySession :: "'s app_env \<Rightarrow> string \<Rightarrow> string \<Rightarrow> ('s, app_exn, AuthVerdict) eff" where
  "api_verifySession env jti userId =
     bindS (call_auth env (bindS (verifySession env jti userId) (\<lambda>v. ret (wire_session v)))) (\<lambda>response.
       ret (toVerifyTokenResponse response))"

definition api_verifyToken :: "'s app_env \<Rightarrow> crypto \<Rightarrow> string \<Rightarrow> ('s, app_exn, AuthVerdict) eff" where
  "api_verifyToken env c token =
     bindS (call_auth env (bindS (auth_verifyToken env c token) (\<lambda>v. ret (wire_session v)))) (\<lambda>response.
       ret (toVerifyTokenResponse response))"

subsection \<open>jwt.strategy.ts and the guards\<close>

record RequestUser = SafeUser +
  ru_tokenJti :: string
  ru_tokenExpiresAt :: time

definition validate :: "'s app_env \<Rightarrow> AccessTokenPayload \<times> time \<Rightarrow> ('s, app_exn, RequestUser) eff" where
  "validate env payload =
     bindS (catchS (api_verifySession env (ap_jti (fst payload)) (ap_sub (fst payload)))
         (\<lambda>_. raise (HttpError 503 ''Authentication revocation store unavailable''))) (\<lambda>result.
       if \<not> vt_valid result \<or> \<not> truthy (vt_userId result) \<or> \<not> truthy (vt_role result) \<or> \<not> truthy (vt_displayName result)
       then raise (HttpError 401 ''Unauthorized'')
       else ret \<lparr>su_id = the (vt_userId result), su_email = (case av_email result of None \<Rightarrow> [] | Some x \<Rightarrow> x),
         su_displayName = the (vt_displayName result), su_role = the (vt_role result),
         ru_tokenJti = ap_jti (fst payload), ru_tokenExpiresAt = snd payload * 1000\<rparr>)"

text \<open>The bearer token of a request, if it has one.\<close>

definition passport_jwt :: "'s app_env \<Rightarrow> crypto \<Rightarrow> string option \<Rightarrow> ('s, app_exn, RequestUser) eff" where
  "passport_jwt env c bearer =
     (case bearer of
        None \<Rightarrow> raise (HttpError 401 ''Unauthorized'')
      | Some token \<Rightarrow> bindS (a_now env) (\<lambda>now.
          case cr_jwt_decode c token of
            None \<Rightarrow> raise (HttpError 401 ''Unauthorized'')
          | Some payload \<Rightarrow> if snd payload \<le> now div 1000 then raise (HttpError 401 ''Unauthorized'') else validate env payload))"

definition jwt_canActivate :: "'s app_env \<Rightarrow> crypto \<Rightarrow> bool \<Rightarrow> string option \<Rightarrow> ('s, app_exn, RequestUser option) eff" where
  "jwt_canActivate env c isPublic bearer =
     (if isPublic then ret None else bindS (passport_jwt env c bearer) (\<lambda>u. ret (Some u)))"

definition roles_canActivate :: "string list \<Rightarrow> RequestUser option \<Rightarrow> app_exn + unit" where
  "roles_canActivate requiredRoles user =
     (if requiredRoles = [] then Inr ()
      else case user of
        None \<Rightarrow> Inl (HttpError 403 ''FORBIDDEN'')
      | Some u \<Rightarrow> if su_role u = [] \<or> su_role u \<notin> set requiredRoles then Inl (HttpError 403 ''FORBIDDEN'') else Inr ())"

text \<open>\<open>@UseGuards(JwtAuthGuard, RolesGuard)\<close> before a handler, and the handlers of the admin of seasons, with the guards of their controller.\<close>

definition guarded ::
  "'s app_env \<Rightarrow> crypto \<Rightarrow> bool \<Rightarrow> string list \<Rightarrow> string option \<Rightarrow> (RequestUser option \<Rightarrow> ('s, app_exn, 'a) eff) \<Rightarrow> ('s, app_exn, 'a) eff" where
  "guarded env c isPublic roles bearer handler =
     bindS (jwt_canActivate env c isPublic bearer) (\<lambda>user. thenS (liftS (roles_canActivate roles user)) (handler user))"

definition admin_createSeason ::
  "'s app_env \<Rightarrow> crypto \<Rightarrow> string option \<Rightarrow> string \<Rightarrow> string \<Rightarrow> time \<Rightarrow> ('s, app_exn, unit) eff" where
  "admin_createSeason env c bearer newId name endsAt =
     guarded env c False [''admin''] bearer (\<lambda>_. createSeason env newId name endsAt)"

definition admin_closeSeason :: "'s app_env \<Rightarrow> crypto \<Rightarrow> string option \<Rightarrow> string \<Rightarrow> ('s, app_exn, season_row) eff" where
  "admin_closeSeason env c bearer seasonId = guarded env c False [''admin''] bearer (\<lambda>_. closeSeason env seasonId)"

definition controller_logout :: "'s app_env \<Rightarrow> crypto \<Rightarrow> string option \<Rightarrow> ('s, app_exn, unit) eff" where
  "controller_logout env c bearer = guarded env c False [] bearer (\<lambda>user. case user of
     None \<Rightarrow> raise (HttpError 401 ''Unauthorized'')
   | Some u \<Rightarrow> api_logout env (su_id u) (ru_tokenJti u) (ru_tokenExpiresAt u))"

subsection \<open>me-history.service.ts\<close>

record cursor_codec =
  cu_stringify :: "string \<times> string \<Rightarrow> string"
  cu_parse :: "string \<Rightarrow> (string option \<times> string option) option"
  cu_base64url :: "string \<Rightarrow> string"
  cu_unbase64url :: "string \<Rightarrow> string"
  cu_toISOString :: "time \<Rightarrow> string"
  cu_getTime :: "string \<Rightarrow> time option"

text \<open>
  An object \<open>{ ts, id }\<close> is a pair; \<open>None\<close> is a text that is no JSON, a field that is no string, a date that is
  \<open>NaN\<close>. What was written reads back as it was.
\<close>

definition cursor_ok :: "cursor_codec \<Rightarrow> bool" where
  "cursor_ok k \<longleftrightarrow> (\<forall>ts i. cu_parse k (cu_stringify k (ts, i)) = Some (Some ts, Some i)) \<and>
     (\<forall>p. cu_stringify k p \<noteq> []) \<and> (\<forall>s. s \<noteq> [] \<longrightarrow> cu_base64url k s \<noteq> [] \<and> cu_unbase64url k (cu_base64url k s) = s) \<and>
     (\<forall>t. cu_getTime k (cu_toISOString k t) = Some t)"

definition encodeHistoryCursor :: "cursor_codec \<Rightarrow> time \<Rightarrow> string \<Rightarrow> string" where
  "encodeHistoryCursor k endedAt mid = cu_base64url k (cu_stringify k (cu_toISOString k endedAt, mid))"

definition decodeHistoryCursor :: "cursor_codec \<Rightarrow> string \<Rightarrow> app_exn + string \<times> string" where
  "decodeHistoryCursor k cursor =
     (case cu_parse k (cu_unbase64url k cursor) of
        Some (Some ts, Some i) \<Rightarrow>
          (case cu_getTime k ts of None \<Rightarrow> Inl (HttpError 400 ''Invalid cursor'') | Some endedAt \<Rightarrow> Inr (ts, i))
      | _ \<Rightarrow> Inl (HttpError 400 ''Invalid cursor''))"

record MeHistoryItem =
  hi_matchId :: string
  hi_opponentName :: string
  hi_ratingAtMatch :: int
  hi_scoreA :: nat
  hi_scoreB :: nat
  hi_isWinner :: bool
  hi_eloDelta :: int
  hi_endedAt :: time

text \<open>The order of texts, ascending (\<open>lt\<close>) and, for \<open>orderBy\<close>, descending.\<close>

definition text_below :: "string \<Rightarrow> string \<Rightarrow> bool" where
  "text_below a b \<longleftrightarrow> text_key a < text_key b"

definition text_desc :: "string \<Rightarrow> int list" where
  "text_desc s = map uminus (text_key s) @ [1]"

definition history_where :: "string \<Rightarrow> (time \<times> string) option \<Rightarrow> match_row \<Rightarrow> bool" where
  "history_where userId cursor m \<longleftrightarrow> mt_status m = MatchEnded \<and> mt_endedAt m \<noteq> None \<and>
     (mt_playerAId m = userId \<or> mt_playerBId m = userId) \<and>
     (case cursor of None \<Rightarrow> True
      | Some (ts, i) \<Rightarrow> the (mt_endedAt m) < ts \<or> the (mt_endedAt m) = ts \<and> text_below (mt_id m) i)"

definition history_order :: "match_row \<Rightarrow> int list" where
  "history_order m = (case mt_endedAt m of None \<Rightarrow> [0] | Some t \<Rightarrow> [1, - t]) @ text_desc (mt_id m)"

definition toHistoryItem :: "user_row list \<Rightarrow> history_row list \<Rightarrow> string \<Rightarrow> match_row \<Rightarrow> MeHistoryItem" where
  "toHistoryItem users histories userId m =
     (let isPlayerA = mt_playerAId m = userId;
          opponentId = (if isPlayerA then mt_playerBId m else mt_playerAId m);
          opponent = find (\<lambda>u. us_id u = opponentId) users;
          entry = (\<lambda>i. find (\<lambda>h. eh_matchId h = mt_id m \<and> eh_userId h = i) histories) in
      \<lparr>hi_matchId = mt_id m, hi_opponentName = us_displayName (the opponent),
       hi_ratingAtMatch = (case entry opponentId of None \<Rightarrow> 1000 | Some h \<Rightarrow> eh_ratingBefore h),
       hi_scoreA = mt_scoreA m, hi_scoreB = mt_scoreB m, hi_isWinner = (mt_winnerId m = Some userId),
       hi_eloDelta = (case entry userId of None \<Rightarrow> 0 | Some h \<Rightarrow> eh_delta h), hi_endedAt = the (mt_endedAt m)\<rparr>)"

definition getHistory ::
  "'s app_env \<Rightarrow> cursor_codec \<Rightarrow> string \<Rightarrow> nat \<Rightarrow> string option \<Rightarrow> ('s, app_exn, MeHistoryItem list \<times> string option) eff" where
  "getHistory env k userId lmt cursor =
     bindS (if truthy cursor then liftS (map_sum id (\<lambda>(ts, i). Some (the (cu_getTime k ts), i)) (decodeHistoryCursor k (the cursor))) else ret None) (\<lambda>decodedCursor.
     bindS (t_find (a_match env) (history_where userId decodedCursor) history_order (Some (lmt + 1))) (\<lambda>rows.
     bindS (findMany (a_user env) (\<lambda>u. us_id u \<in> mt_playerAId ` set rows \<union> mt_playerBId ` set rows)) (\<lambda>users.
     bindS (findMany (a_eloHistory env) (\<lambda>h. eh_matchId h \<in> mt_id ` set rows)) (\<lambda>histories.
       let hasMore = length rows > lmt; pageRows = (if hasMore then take lmt rows else rows) in
       ret (map (toHistoryItem users histories userId) pageRows,
         if hasMore \<and> pageRows \<noteq> [] \<and> mt_endedAt (last pageRows) \<noteq> None
         then Some (encodeHistoryCursor k (the (mt_endedAt (last pageRows))) (mt_id (last pageRows))) else None)))))"

subsection \<open>audit.service.ts and commit-hash.ts\<close>

datatype HashCheckResult = HashMatch | HashMismatch

definition move_text :: "Move \<Rightarrow> string" where
  "move_text m = (case m of Rock \<Rightarrow> ''rock'' | Paper \<Rightarrow> ''paper'' | Scissors \<Rightarrow> ''scissors'')"

definition computeCommitHash :: "crypto \<Rightarrow> string \<Rightarrow> string \<Rightarrow> string" where
  "computeCommitHash c move nonce = cr_sha256 c (move @ '':'' @ nonce)"

definition verifyCommit :: "crypto \<Rightarrow> string option \<Rightarrow> string option \<Rightarrow> string option \<Rightarrow> HashCheckResult" where
  "verifyCommit c commit move nonce =
     (if \<not> truthy commit \<or> \<not> truthy move \<or> \<not> truthy nonce then HashMismatch
      else if computeCommitHash c (the move) (the nonce) = the commit then HashMatch else HashMismatch)"

definition verifyHash :: "crypto \<Rightarrow> string option \<Rightarrow> string option \<Rightarrow> string option \<Rightarrow> HashCheckResult" where
  "verifyHash c move nonce commit =
     (if \<not> truthy move \<or> \<not> truthy nonce \<or> \<not> truthy commit then HashMismatch
      else let calculated = cr_sha256 c (the move @ '':'' @ the nonce) in
        if calculated = the commit then HashMatch else HashMismatch)"

record AuditRoundDto =
  ar_round :: round_row
  ar_checkA :: HashCheckResult
  ar_checkB :: HashCheckResult

record MatchAuditResponseDto =
  mu_matchId :: string
  mu_players :: "(string \<times> string) list"
  mu_rounds :: "AuditRoundDto list"
  mu_finalScore :: "nat \<times> nat"
  mu_winner :: "string option"
  mu_endedAt :: time

definition audit_round :: "crypto \<Rightarrow> round_row \<Rightarrow> AuditRoundDto" where
  "audit_round c r = \<lparr>ar_round = r,
     ar_checkA = verifyHash c (map_option move_text (rw_moveA r)) (rw_nonceA r) (rw_commitA r),
     ar_checkB = verifyHash c (map_option move_text (rw_moveB r)) (rw_nonceB r) (rw_commitB r)\<rparr>"

text \<open>An ended match without a date throws, as \<open>match.endedAt!.toISOString()\<close> does.\<close>

definition buildAudit :: "'s app_env \<Rightarrow> crypto \<Rightarrow> string \<Rightarrow> ('s, app_exn, MatchAuditResponseDto) eff" where
  "buildAudit env c mid =
     bindS (findUnique (a_match env) (\<lambda>m. mt_id m = mid)) (\<lambda>found.
       case found of
         None \<Rightarrow> raise (HttpError 404 ''MATCH_NOT_FOUND'')
       | Some m \<Rightarrow>
           bindS (findMany (a_user env) (\<lambda>u. us_id u = mt_playerAId m \<or> us_id u = mt_playerBId m)) (\<lambda>users.
           bindS (t_find (a_round env) (\<lambda>r. rw_matchId r = mid) (\<lambda>r. [int (rw_roundNumber r)]) None) (\<lambda>rounds.
             if mt_status m \<noteq> MatchEnded then raise (HttpError 403 ''MATCH_NOT_ENDED'')
             else case mt_endedAt m of
               None \<Rightarrow> raise (HttpError 500 ''Internal server error'')
             | Some endedAt \<Rightarrow>
                 let player = (\<lambda>i. (i, us_displayName (the (find (\<lambda>u. us_id u = i) users)))) in
                 ret \<lparr>mu_matchId = mt_id m, mu_players = [player (mt_playerAId m), player (mt_playerBId m)],
                   mu_rounds = map (audit_round c) rounds, mu_finalScore = (mt_scoreA m, mt_scoreB m),
                   mu_winner = mt_winnerId m, mu_endedAt = endedAt\<rparr>)))"

subsection \<open>The handlers run as documented\<close>

context app_service
begin

lemma sim_call_auth [sim_rules]: "sim view m m' \<Longrightarrow> sim view (call_auth env m) (call_auth mem_app m')"
  unfolding call_auth_def grpc_boundary_def by (intro sim_rules)

lemma sim_sessions [sim_rules]:
  "sim view (api_verifySession env j u) (api_verifySession mem_app j u)"
  "sim view (api_verifyToken env c t) (api_verifyToken mem_app c t)"
  unfolding api_verifySession_def api_verifyToken_def by (intro sim_rules)+

lemma sim_guards [sim_rules]:
  "sim view (validate env p) (validate mem_app p)"
  "sim view (passport_jwt env c b) (passport_jwt mem_app c b)"
  "sim view (jwt_canActivate env c pub b) (jwt_canActivate mem_app c pub b)"
  unfolding jwt_canActivate_def passport_jwt_def validate_def by (intro sim_rules)+

lemma sim_guarded [sim_rules]:
  "(\<And>u. sim view (h u) (h' u)) \<Longrightarrow> sim view (guarded env c pub rs b h) (guarded mem_app c pub rs b h')"
  unfolding guarded_def by (intro sim_rules)

lemma sim_admin [sim_rules]:
  "sim view (admin_createSeason env c b i name e) (admin_createSeason mem_app c b i name e)"
  "sim view (admin_closeSeason env c b i) (admin_closeSeason mem_app c b i)"
  unfolding admin_createSeason_def admin_closeSeason_def by (intro sim_rules)+

lemma sim_history [sim_rules]:
  "sim view (getHistory env k u n cur) (getHistory mem_app k u n cur)"
  "sim view (buildAudit env c i) (buildAudit mem_app c i)"
  unfolding getHistory_def buildAudit_def Let_def by (intro sim_rules)+

end

end
