(* ===== verification/Api_Season_Props.thy ===== *)
theory Api_Season_Props
  imports Api_Account Auth_Props Season_Props
begin

section \<open>Closing a season, and the cache of the leaderboard\<close>

text \<open>
  \<open>closeSeason\<close> marks the season and hands it over to the job runner; when the queue refuses, it takes the mark
  back. Whatever call fails, either nothing has changed, or the season is closed and queued, or it is closed and
  the next run of the cron job finds it. Then: how long a cached leaderboard is served.
\<close>

subsection \<open>What one call can do\<close>

text \<open>A single call either fails and changes nothing, or runs as it does when no call fails.\<close>

definition atomic :: "app_exn \<Rightarrow> (app_world, app_exn, 'a) eff \<Rightarrow> bool" where
  "atomic e m \<longleftrightarrow> (\<forall>w. \<exists>os. m w = (Inl e, w\<lparr>w_outages := os\<rparr>) \<or>
     m w = (fst (m (calm w)), (snd (m (calm w)))\<lparr>w_outages := os\<rparr>))"

lemma atomic_cases:
  assumes "atomic e m"
  obtains (fails) os where "m w = (Inl e, w\<lparr>w_outages := os\<rparr>)"
  | (runs) os where "m w = (fst (m (calm w)), (snd (m (calm w)))\<lparr>w_outages := os\<rparr>)"
  using assms unfolding atomic_def by metis

lemma atomic_app_call:
  assumes "\<And>w os. f (w\<lparr>w_outages := os\<rparr>) = (fst (f (calm w)), (snd (f (calm w)))\<lparr>w_outages := os\<rparr>)"
  shows "atomic e (app_call e f)"
  unfolding atomic_def
proof
  fix w
  have calm: "app_call e f (calm w) = f (calm w)" by (simp add: app_call_def)
  have same: "w\<lparr>w_outages := w_outages w\<rparr> = w" by simp
  show "\<exists>os. app_call e f w = (Inl e, w\<lparr>w_outages := os\<rparr>) \<or>
      app_call e f w = (fst (app_call e f (calm w)), (snd (app_call e f (calm w)))\<lparr>w_outages := os\<rparr>)"
  proof (cases "w_outages w")
    case Nil
    then have "app_call e f w = f w" by (simp add: app_call_def)
    with same have "app_call e f w = f (w\<lparr>w_outages := w_outages w\<rparr>)" by metis
    then show ?thesis using assms [where w = w] calm by metis
  next
    case (Cons b os)
    then show ?thesis using assms [where w = w] calm by (cases b) (auto simp: app_call_def)
  qed
qed

lemma atomic_map: "atomic e m \<Longrightarrow> atomic e (bindS m (\<lambda>r. ret (g r)))"
  unfolding atomic_def
proof
  fix w
  assume "\<forall>w. \<exists>os. m w = (Inl e, w\<lparr>w_outages := os\<rparr>) \<or> m w = (fst (m (calm w)), (snd (m (calm w)))\<lparr>w_outages := os\<rparr>)"
  then obtain os where "m w = (Inl e, w\<lparr>w_outages := os\<rparr>) \<or> m w = (fst (m (calm w)), (snd (m (calm w)))\<lparr>w_outages := os\<rparr>)"
    by blast
  then show "\<exists>os. bindS m (\<lambda>r. ret (g r)) w = (Inl e, w\<lparr>w_outages := os\<rparr>) \<or> bindS m (\<lambda>r. ret (g r)) w =
      (fst (bindS m (\<lambda>r. ret (g r)) (calm w)), (snd (bindS m (\<lambda>r. ret (g r)) (calm w)))\<lparr>w_outages := os\<rparr>)"
    by (intro exI [of _ os]) (cases "m (calm w)", auto simp: bindS_def ret_def split: sum.split)
qed

lemma atomic_calls:
  "atomic (DbEx DbUnavailable) (findUnique (mem_table rows store unique stamp touch) q)"
  "atomic (DbEx DbUnavailable) (updateMany (mem_table rows store unique stamp touch) q f)"
  "atomic QueueEx (a_add_job mem_app j)"
proof -
  note f = findUnique_def findFirst_def updateMany_def mem_tables
  show "atomic (DbEx DbUnavailable) (findUnique (mem_table rows store unique stamp touch) q)"
    unfolding f by (intro atomic_map atomic_app_call) (simp add: calm_def)
  show "atomic (DbEx DbUnavailable) (updateMany (mem_table rows store unique stamp touch) q f)"
    unfolding f by (intro atomic_map atomic_app_call) (simp add: calm_def Let_def)
  show "atomic QueueEx (a_add_job mem_app j)"
    unfolding mem_app_def app_env.simps by (rule atomic_app_call) (simp add: calm_def)
qed

subsection \<open>Closing a season\<close>

definition season_statuses :: "db \<Rightarrow> (string \<times> SeasonStatus) list" where
  "season_statuses d = map (\<lambda>s. (sn_id s, sn_status s)) (d_seasons d)"

definition reset_job :: "string \<Rightarrow> app_job" where
  "reset_job sid = \<lparr>aj_queue = ''seasons'', aj_name = ''season-reset'', aj_data = SeasonReset (Some sid) ''admin'',
     aj_jobId = None, aj_attempts = 3\<rparr>"

definition moved :: "string \<Rightarrow> SeasonStatus \<Rightarrow> SeasonStatus \<Rightarrow> time \<Rightarrow> season_row list \<Rightarrow> season_row list" where
  "moved sid a b now ss = map (\<lambda>s. if sn_id s = sid \<and> sn_status s = a then s\<lparr>sn_status := b, sn_updatedAt := now\<rparr> else s) ss"

lemma moved_ids: "map sn_id (moved sid a b now ss) = map sn_id ss"
  by (simp add: moved_def)

lemma season_calls:
  "atomic (DbEx DbUnavailable) (findUnique (a_season mem_app) q)" "atomic (DbEx DbUnavailable) (move_season mem_app sid a b)"
  "atomic QueueEx (enqueueSeasonReset mem_app sid)"
  unfolding move_season_def enqueueSeasonReset_def by (simp_all only: mem_app_def app_env.simps atomic_calls(1,2))
    (simp only: atomic_calls(3) [unfolded mem_app_def app_env.simps])

lemma season_runs:
  assumes "w_outages w = []"
  shows "findUnique (a_season mem_app) q w = (Inr (find q (d_seasons (w_db w))), w)"
    and "enqueueSeasonReset mem_app sid w = (Inr (), w\<lparr>w_jobs := w_jobs w @ [reset_job sid]\<rparr>)"
    and "distinct (map sn_id (d_seasons (w_db w))) \<Longrightarrow> move_season mem_app sid a b w =
      (Inr (length (filter (\<lambda>s. sn_id s = sid \<and> sn_status s = a) (d_seasons (w_db w)))),
       w\<lparr>w_db := (w_db w)\<lparr>d_seasons := moved sid a b (rd_now (w_keys w)) (d_seasons (w_db w))\<rparr>\<rparr>)"
proof -
  show "findUnique (a_season mem_app) q w = (Inr (find q (d_seasons (w_db w))), w)"
    using assms by (simp add: mem_app_def)
  show "enqueueSeasonReset mem_app sid w = (Inr (), w\<lparr>w_jobs := w_jobs w @ [reset_job sid]\<rparr>)"
    using assms by (simp add: enqueueSeasonReset_def reset_job_def mem_app_def)
  assume "distinct (map sn_id (d_seasons (w_db w)))"
  then have d: "distinct (map sn_id (moved sid a b (rd_now (w_keys w)) (d_seasons (w_db w))))" by (simp only: moved_ids)
  show "move_season mem_app sid a b w = (Inr (length (filter (\<lambda>s. sn_id s = sid \<and> sn_status s = a) (d_seasons (w_db w)))),
      w\<lparr>w_db := (w_db w)\<lparr>d_seasons := moved sid a b (rd_now (w_keys w)) (d_seasons (w_db w))\<rparr>\<rparr>)"
    unfolding move_season_def mem_app_def app_env.simps
    by (rule run_updateMany [OF assms]) (use d in \<open>simp_all add: moved_def\<close>)
qed

lemma requireClosable_run:
  obtains (refused) e os where "requireClosableSeason mem_app sid w = (Inl e, w\<lparr>w_outages := os\<rparr>)"
  | (active) x os where "requireClosableSeason mem_app sid w = (Inr x, w\<lparr>w_outages := os\<rparr>)"
      "x \<in> set (d_seasons (w_db w))" "sn_id x = sid" "sn_status x = SeasonActive"
proof (rule atomic_cases [OF season_calls(1) [of "\<lambda>s. sn_id s = sid"], of w])
  fix os assume "findUnique (a_season mem_app) (\<lambda>s. sn_id s = sid) w = (Inl (DbEx DbUnavailable), w\<lparr>w_outages := os\<rparr>)"
  then show thesis by (intro refused) (simp add: requireClosableSeason_def bindS_apply)
next
  fix os
  assume "findUnique (a_season mem_app) (\<lambda>s. sn_id s = sid) w = (fst (findUnique (a_season mem_app) (\<lambda>s. sn_id s = sid) (calm w)),
      (snd (findUnique (a_season mem_app) (\<lambda>s. sn_id s = sid) (calm w)))\<lparr>w_outages := os\<rparr>)"
  then have run: "findUnique (a_season mem_app) (\<lambda>s. sn_id s = sid) w = (Inr (find (\<lambda>s. sn_id s = sid) (d_seasons (w_db w))), w\<lparr>w_outages := os\<rparr>)"
    by (simp add: season_runs) (simp add: calm_def)
  show thesis
  proof (cases "find (\<lambda>s. sn_id s = sid) (d_seasons (w_db w))")
    case None
    then show thesis by (intro refused) (simp add: requireClosableSeason_def bindS_apply run raise_apply)
  next
    case (Some x)
    then have x: "x \<in> set (d_seasons (w_db w))" "sn_id x = sid" by (auto simp: find_Some_iff)
    show thesis
    proof (cases "sn_status x = SeasonActive")
      case True
      with Some x show thesis by (intro active [of x os]) (simp_all add: requireClosableSeason_def bindS_apply run ret_apply)
    next
      case False
      then show thesis
        by (cases "sn_status x = SeasonClosed") (rule refused, simp add: requireClosableSeason_def bindS_apply run raise_apply Some)+
    qed
  qed
qed

lemma move_season_cases:
  assumes "distinct (map sn_id (d_seasons (w_db w)))"
  obtains (fails) os where "move_season mem_app sid a b w = (Inl (DbEx DbUnavailable), w\<lparr>w_outages := os\<rparr>)"
  | (moves) os where "move_season mem_app sid a b w =
      (Inr (length (filter (\<lambda>s. sn_id s = sid \<and> sn_status s = a) (d_seasons (w_db w)))),
       w\<lparr>w_outages := os, w_db := (w_db w)\<lparr>d_seasons := moved sid a b (rd_now (w_keys w)) (d_seasons (w_db w))\<rparr>\<rparr>)"
proof (rule atomic_cases [OF season_calls(2) [of sid a b], of w])
  fix os
  assume "move_season mem_app sid a b w = (fst (move_season mem_app sid a b (calm w)), (snd (move_season mem_app sid a b (calm w)))\<lparr>w_outages := os\<rparr>)"
  then show thesis
    using assms by (intro moves [of os]) (simp add: season_runs, simp add: calm_def)
qed (rule fails)

lemma enqueue_cases:
  obtains (fails) os where "enqueueSeasonReset mem_app sid w = (Inl QueueEx, w\<lparr>w_outages := os\<rparr>)"
  | (queues) os where "enqueueSeasonReset mem_app sid w = (Inr (), w\<lparr>w_outages := os, w_jobs := w_jobs w @ [reset_job sid]\<rparr>)"
proof (rule atomic_cases [OF season_calls(3) [of sid], of w])
  fix os
  assume "enqueueSeasonReset mem_app sid w = (fst (enqueueSeasonReset mem_app sid (calm w)), (snd (enqueueSeasonReset mem_app sid (calm w)))\<lparr>w_outages := os\<rparr>)"
  then show thesis by (intro queues [of os]) (simp add: season_runs, simp add: calm_def)
qed (rule fails)

text \<open>What \<open>closeSeason\<close> may leave behind.\<close>

definition closed_in :: "string \<Rightarrow> (string \<times> SeasonStatus) list \<Rightarrow> (string \<times> SeasonStatus) list" where
  "closed_in sid ss = map (\<lambda>p. if p = (sid, SeasonActive) then (sid, SeasonClosed) else p) ss"

lemma statuses_moved: "map (\<lambda>s. (sn_id s, sn_status s)) (moved sid SeasonActive SeasonClosed now ss) = closed_in sid (map (\<lambda>s. (sn_id s, sn_status s)) ss)"
  by (induction ss) (auto simp: moved_def closed_in_def)

lemma statuses_back:
  assumes "distinct (map sn_id ss)" and "x \<in> set ss" "sn_id x = sid" "sn_status x = SeasonActive"
  shows "map (\<lambda>s. (sn_id s, sn_status s)) (moved sid SeasonClosed SeasonActive now' (moved sid SeasonActive SeasonClosed now ss)) =
    map (\<lambda>s. (sn_id s, sn_status s)) ss"
proof -
  have "\<forall>s\<in>set ss. sn_id s = sid \<longrightarrow> sn_status s = SeasonActive"
    using assms by (metis (no_types, lifting) distinct_map inj_onD)
  then show ?thesis by (auto simp: moved_def)
qed

definition close_outcome :: "string \<Rightarrow> app_world \<Rightarrow> (app_exn + season_row) \<Rightarrow> app_world \<Rightarrow> bool" where
  "close_outcome sid w r w' \<longleftrightarrow>
     (\<exists>ss. w_db w' = (w_db w)\<lparr>d_seasons := ss\<rparr>) \<and>
     (season_statuses (w_db w') = season_statuses (w_db w) \<and> w_jobs w' = w_jobs w \<and> (\<exists>e. r = Inl e) \<or>
      (sid, SeasonActive) \<in> set (season_statuses (w_db w)) \<and>
      season_statuses (w_db w') = closed_in sid (season_statuses (w_db w)) \<and>
      (w_jobs w' = w_jobs w \<and> (\<exists>e. r = Inl e) \<or>
       w_jobs w' = w_jobs w @ [reset_job sid] \<and> (\<forall>c. r = Inr c \<longrightarrow> sn_id c = sid \<and> sn_status c = SeasonClosed)))"

lemma close_outcomes:
  assumes dist: "distinct (map sn_id (d_seasons (w_db w)))"
  shows "close_outcome sid w (fst (closeSeason mem_app sid w)) (snd (closeSeason mem_app sid w))"
proof (rule requireClosable_run [of sid w])
  fix e os assume "requireClosableSeason mem_app sid w = (Inl e, w\<lparr>w_outages := os\<rparr>)"
  then show ?thesis by (auto simp: closeSeason_def bindS_apply close_outcome_def intro: exI [of _ "d_seasons (w_db w)"])
next
  fix x os
  assume guard: "requireClosableSeason mem_app sid w = (Inr x, w\<lparr>w_outages := os\<rparr>)"
    and x: "x \<in> set (d_seasons (w_db w))" "sn_id x = sid" "sn_status x = SeasonActive"
  let ?w1 = "w\<lparr>w_outages := os\<rparr>"
  have active: "(sid, SeasonActive) \<in> set (season_statuses (w_db w))" using x by (force simp: season_statuses_def)
  have some: "length (filter (\<lambda>s. sn_id s = sid \<and> sn_status s = SeasonActive) (d_seasons (w_db w))) \<noteq> 0"
    using x by (auto simp: filter_empty_conv)
  show ?thesis
  proof (rule move_season_cases [of ?w1 sid SeasonActive SeasonClosed])
    show "distinct (map sn_id (d_seasons (w_db ?w1)))" using dist by simp
  next
    fix os' assume "move_season mem_app sid SeasonActive SeasonClosed ?w1 = (Inl (DbEx DbUnavailable), ?w1\<lparr>w_outages := os'\<rparr>)"
    then show ?thesis
      using guard x by (auto simp: closeSeason_def bindS_apply close_outcome_def intro: exI [of _ "d_seasons (w_db w)"])
  next
    fix os'
    let ?w2 = "w\<lparr>w_outages := os', w_db := (w_db w)\<lparr>d_seasons := moved sid SeasonActive SeasonClosed (rd_now (w_keys w)) (d_seasons (w_db w))\<rparr>\<rparr>"
    assume "move_season mem_app sid SeasonActive SeasonClosed ?w1 = (Inr (length (filter (\<lambda>s. sn_id s = sid \<and> sn_status s = SeasonActive) (d_seasons (w_db ?w1)))),
       ?w1\<lparr>w_outages := os', w_db := (w_db ?w1)\<lparr>d_seasons := moved sid SeasonActive SeasonClosed (rd_now (w_keys ?w1)) (d_seasons (w_db ?w1))\<rparr>\<rparr>)"
    then have rest: "closeSeason mem_app sid w = bindS (catchS (enqueueSeasonReset mem_app sid) (\<lambda>e. thenS (move_season mem_app sid SeasonClosed SeasonActive) (raise e)))
        (\<lambda>_. bindS (findUnique (a_season mem_app) (\<lambda>s. sn_id s = sid)) (\<lambda>closed. case closed of None \<Rightarrow> raise (HttpError 404 ''SEASON_NOT_FOUND'') | Some c \<Rightarrow> ret c)) ?w2"
      using guard x some by (simp add: closeSeason_def bindS_apply thenS_def)
    show ?thesis
    proof (rule enqueue_cases [of sid ?w2])
      fix os3 assume "enqueueSeasonReset mem_app sid ?w2 = (Inl QueueEx, ?w2\<lparr>w_outages := os3\<rparr>)"
      then have reopen: "closeSeason mem_app sid w = bindS (move_season mem_app sid SeasonClosed SeasonActive) (\<lambda>_. raise QueueEx) (?w2\<lparr>w_outages := os3\<rparr>)"
        unfolding rest by (simp add: bindS_def catchS_def thenS_def raise_def split: prod.split sum.split)
      have d2: "distinct (map sn_id (d_seasons (w_db (?w2\<lparr>w_outages := os3\<rparr>))))" using dist by (simp add: moved_ids)
      show ?thesis
        by (rule move_season_cases [OF d2, of sid SeasonClosed SeasonActive])
          (use active statuses_back [OF dist x] in
            \<open>auto simp: reopen close_outcome_def bindS_apply raise_apply season_statuses_def statuses_moved\<close>)
    next
      fix os3 assume "enqueueSeasonReset mem_app sid ?w2 = (Inr (), ?w2\<lparr>w_outages := os3, w_jobs := w_jobs ?w2 @ [reset_job sid]\<rparr>)"
      then have queued: "closeSeason mem_app sid w = bindS (findUnique (a_season mem_app) (\<lambda>s. sn_id s = sid))
          (\<lambda>closed. case closed of None \<Rightarrow> raise (HttpError 404 ''SEASON_NOT_FOUND'') | Some c \<Rightarrow> ret c) (?w2\<lparr>w_outages := os3, w_jobs := w_jobs w @ [reset_job sid]\<rparr>)"
        unfolding rest by (simp add: bindS_def catchS_def)
      have closed: "sn_status c = SeasonClosed \<and> sn_id c = sid"
        if "find (\<lambda>s. sn_id s = sid) (moved sid SeasonActive SeasonClosed now (d_seasons (w_db w))) = Some c" for c now
      proof -
        have "\<forall>s\<in>set (d_seasons (w_db w)). sn_id s = sid \<longrightarrow> sn_status s = SeasonActive"
          using dist x by (metis (no_types, lifting) distinct_map inj_onD)
        with that show ?thesis by (auto simp: find_Some_iff moved_def split: if_splits)
      qed
      show ?thesis
        by (rule atomic_cases [OF season_calls(1) [of "\<lambda>s. sn_id s = sid"], of "?w2\<lparr>w_outages := os3, w_jobs := w_jobs w @ [reset_job sid]\<rparr>"])
          (use active closed in \<open>auto simp: queued close_outcome_def bindS_apply raise_apply ret_apply season_runs season_statuses_def
            statuses_moved calm_def split: option.splits\<close>)
    qed
  qed
qed

text \<open>The cron job, which names no season.\<close>

definition awaits_reset :: "db \<Rightarrow> season_row \<Rightarrow> bool" where
  "awaits_reset d x \<longleftrightarrow> x \<in> set (d_seasons d) \<and> sn_status x = SeasonClosed \<and>
     (\<not> (\<exists>y \<in> set (d_standings d). sd_seasonId y = sn_id x) \<or>
      (\<exists>y \<in> set (d_standings d). sd_seasonId y = sn_id x \<and> \<not> sd_rewardsDistributed y))"

lemma run_findFirst:
  assumes "w_outages w = []" and "x \<in> set (rows (w_db w))" "q x"
  obtains y where "findFirst (mem_table rows store unique stamp touch) q key w = (Inr (Some y), w)" "y \<in> set (rows (w_db w))" "q y"
proof -
  have "x \<in> set (sort_key key (filter q (rows (w_db w))))" using assms(2,3) by simp
  then obtain y ys where sorted: "sort_key key (filter q (rows (w_db w))) = y # ys" by (cases "sort_key key (filter q (rows (w_db w)))") auto
  then have "y \<in> set (sort_key key (filter q (rows (w_db w))))" by simp
  then have "y \<in> set (rows (w_db w))" "q y" by simp_all
  moreover have "findFirst (mem_table rows store unique stamp touch) q key w = (Inr (Some y), w)"
    using assms(1) sorted by (simp add: findFirst_def bindS_apply ret_apply limit_def)
  ultimately show thesis using that by blast
qed

lemma cron_finds:
  assumes w: "w_outages w = []" and x: "awaits_reset (w_db w) x"
  shows "\<exists>y. fst (resolveSeason mem_app None w) = Inr (Some y) \<and> awaits_reset (w_db w) y"
proof -
  let ?q = "\<lambda>s. sn_status s = SeasonClosed \<and>
    (\<not> (\<exists>d \<in> set (d_standings (w_db w)). sd_seasonId d = sn_id s) \<or>
     (\<exists>d \<in> set (d_standings (w_db w)). sd_seasonId d = sn_id s \<and> \<not> sd_rewardsDistributed d))"
  have standings: "findMany (a_seasonStanding mem_app) (\<lambda>_. True) w = (Inr (d_standings (w_db w)), w)"
    using w by (simp add: mem_app_def)
  have "\<exists>y. findFirst (a_season mem_app) ?q (\<lambda>s. [sn_updatedAt s]) w = (Inr (Some y), w) \<and> y \<in> set (d_seasons (w_db w)) \<and> ?q y"
    unfolding mem_app_def app_env.simps
    by (rule run_findFirst [where rows = d_seasons and q = ?q, OF w]) (use x in \<open>auto simp: awaits_reset_def\<close>)
  then show ?thesis
    by (auto simp: resolveSeason_def bindS_apply standings ret_apply awaits_reset_def)
qed


definition close_demo :: "bool list \<Rightarrow> app_world" where
  "close_demo os = reset_demo\<lparr>w_db := (w_db reset_demo)\<lparr>d_seasons := [season_demo SeasonActive]\<rparr>, w_outages := os\<rparr>"


subsection \<open>The cache of the leaderboard\<close>

definition asked_board :: "nat \<Rightarrow> league option \<Rightarrow> db \<Rightarrow> app_exn + LeaderboardItem list" where
  "asked_board n l d = (let l' = map_option lg_name l; ref = (if truthy l' then getReferenceLeagueByName (the l') else None);
       rows = take n (sort_key board_order (filter (toRatingWhere ref) (d_elo d))) in
     case board_items ref (filter (\<lambda>u. us_id u \<in> er_userId ` set rows) (d_users d)) 0 rows of
       Inl _ \<Rightarrow> Inl (HttpError 503 ''User service unavailable'') | Inr items \<Rightarrow> Inr items)"

lemma fetch_run:
  assumes "w_outages w = []"
  shows "fetchFromDatabase mem_app n l w = (asked_board n l (w_db w), w)"
proof -
  have run: "t_find (a_eloRating mem_app) q k m w = (Inr (limit m (sort_key k (filter q (d_elo (w_db w))))), w)"
    "findMany (a_user mem_app) q' w = (Inr (filter q' (d_users (w_db w))), w)" for q k m q'
    using assms by (simp_all add: mem_app_def)
  show ?thesis
    using assms by (simp add: fetchFromDatabase_def listLeaderboard_def us_listLeaderboard_def asked_board_def Let_def call_users_def
      grpc_boundary_def catchS_def thenS_def bindS_apply run liftS_apply limit_def raise_def split: sum.split)
qed

lemma look_prefix: "look ((w_keys w)\<lparr>rd_keys := (\<lambda>k. if take (length p) k = p then None else rd_keys (w_keys w) k)\<rparr>) (p @ t) = None"
  by (simp add: look_def)

lemma get_hit:
  assumes w: "w_outages w = []" and l: "resolveLeague name = Inr league"
    and k: "look (w_keys w) (leaderboard_cacheKey n league) = Some (RStr (Json (LeaderboardJson items)))"
  shows "fst (leaderboard_get mem_app n name w) = Inr (items, HIT)"
  using run_get [OF w, of "leaderboard_cacheKey n league"]
  by (cases "a_get mem_app (leaderboard_cacheKey n league) w")
    (simp add: leaderboard_get_def Let_def bindS_apply liftS_apply l k ret_apply)

lemma get_miss:
  assumes w: "w_outages w = []" and l: "resolveLeague name = Inr league"
    and k: "look (w_keys w) (leaderboard_cacheKey n league) = None" and data: "asked_board n league (w_db w) = Inr items"
  shows "leaderboard_get mem_app n name w = (Inr (items, MISS), w\<lparr>w_keys := put (leaderboard_cacheKey n league)
    (RStr (Json (LeaderboardJson items))) (expiry (w_keys w) LEADERBOARD_CACHE_TTL_SECONDS) (w_keys w)\<rparr>)"
proof -
  have "a_get mem_app (leaderboard_cacheKey n league) w = (Inr None, w)"
    using run_get [OF w, of "leaderboard_cacheKey n league"] k by (cases "a_get mem_app (leaderboard_cacheKey n league) w") simp
  moreover have "fetchFromDatabase mem_app n league w = (Inr items, w)"
    using data fetch_run [OF w, of n league] by simp
  moreover have "a_setex mem_app key ttl v w = (Inr (), w\<lparr>w_keys := put key (RStr v) (expiry (w_keys w) ttl) (w_keys w)\<rparr>)" for key ttl v
    using w by (simp add: mem_app_def)
  ultimately show ?thesis
    by (simp add: leaderboard_get_def Let_def bindS_apply thenS_def liftS_apply l ret_apply)
qed

text \<open>
  C37. When no call fails: an answer that is not in the cache is the leaderboard of the user service, and it is served
  again, whatever the database does meanwhile, until 30 seconds have passed or a message on the invalidation
  channel has arrived; then the next answer is computed again.
\<close>
theorem leaderboard_cache_cycle:
  assumes "app_ok env view" and "w_outages (view s) = []" and "resolveLeague name = Inr league"
    and "look (w_keys (view s)) (leaderboard_cacheKey n league) = None"
    and "fst (fetchFromDatabase env n league s) = Inr items"
    and "w_outages (view u) = []" and "fst (fetchFromDatabase env n league u) = Inr later"
    and "w_keys (view u) = (w_keys (view (snd (leaderboard_get env n name s))))\<lparr>rd_now := t\<rparr>"
  shows "fst (leaderboard_get env n name s) = Inr (items, MISS) \<and>
    fst (leaderboard_get env n name u) = Inr (if t < rd_now (w_keys (view s)) + 30000 then (items, HIT) else (later, MISS)) \<and>
    fst (leaderboard_get env n name (snd (on_redis_message env LEADERBOARD_INVALIDATE_CHANNEL u))) = Inr (later, MISS)"
proof -
  have svc: "app_service env view" by unfold_locales (rule assms(1))
  note sim = simD [OF app_service.sim_leaderboard(1) [OF svc], of n name] simD [OF app_service.sim_leaderboard(2) [OF svc]]
  note fetch = simD [OF app_service.sim_fetch [OF svc], of n league]
  let ?key = "leaderboard_cacheKey n league"
  have board: "asked_board n league (w_db (view s)) = Inr items" "asked_board n league (w_db (view u)) = Inr later"
    by (metis fetch_run [OF assms(2)] fetch [of s] assms(5) prod.inject) (metis fetch_run [OF assms(6)] fetch [of u] assms(7) prod.inject)
  note first = get_miss [OF assms(2,3,4) board(1)]
  then have keys: "w_keys (view u) = (put ?key (RStr (Json (LeaderboardJson items))) (expiry (w_keys (view s)) LEADERBOARD_CACHE_TTL_SECONDS) (w_keys (view s)))\<lparr>rd_now := t\<rparr>"
    using sim(1) [of s] assms(8) by simp
  have cached: "look (w_keys (view u)) ?key = (if t < rd_now (w_keys (view s)) + 30000 then Some (RStr (Json (LeaderboardJson items))) else None)"
    unfolding keys by (auto simp: look_def put_def expired_def expiry_def LEADERBOARD_CACHE_TTL_SECONDS_def)
  have "fst (leaderboard_get env n name u) = Inr (if t < rd_now (w_keys (view s)) + 30000 then (items, HIT) else (later, MISS))"
    using get_hit [OF assms(6,3), of n items] get_miss [OF assms(6,3) _ board(2)] cached sim(1) [of u] by (auto split: if_splits)
  moreover have "fst (leaderboard_get env n name (snd (on_redis_message env LEADERBOARD_INVALIDATE_CHANNEL u))) = Inr (later, MISS)"
  proof -
    let ?v = "(view u)\<lparr>w_keys := (w_keys (view u))\<lparr>rd_keys := (\<lambda>k. if take (length LEADERBOARD_CACHE_KEY_PREFIX) k = LEADERBOARD_CACHE_KEY_PREFIX then None
      else rd_keys (w_keys (view u)) k)\<rparr>\<rparr>"
    have v: "view (snd (on_redis_message env LEADERBOARD_INVALIDATE_CHANNEL u)) = ?v"
      using sim(2) [of LEADERBOARD_INVALIDATE_CHANNEL u] assms(6) by (simp add: on_redis_message_def invalidateLeaderboardCache_def mem_app_def)
    have "look (w_keys ?v) ?key = None" by (simp add: leaderboard_cacheKey_def look_prefix)
    then show ?thesis
      using get_miss [of ?v, OF _ assms(3)] board(2) assms(6) sim(1) [of "snd (on_redis_message env LEADERBOARD_INVALIDATE_CHANNEL u)"] v by simp
  qed
  ultimately show ?thesis using first sim(1) [of s] by simp
qed

definition board_demo :: "int \<Rightarrow> string \<Rightarrow> int \<Rightarrow> LeaderboardItem list" where
  "board_demo r l t = [\<lparr>lb_rank = 1, lb_userId = ''a'', lb_displayName = ''a'', lb_rating = r, lb_gamesPlayed = 2, lb_league = \<lparr>ls_name = l, ls_tier = t\<rparr>\<rparr>]"

definition later_demo :: app_world where
  "later_demo = (rated_demo [(''a'', 1300)])
     \<lparr>w_keys := (w_keys (snd (leaderboard_get mem_app 1 None (rated_demo [(''a'', 900)]))))\<lparr>rd_now := 10000\<rparr>\<rparr>"

text \<open>Ten seconds after the first request the rating has changed: the old answer is served until the cache is dropped.\<close>

theorem leaderboard_cache_cycle_witness:
  "fst (leaderboard_get mem_app 1 None later_demo) = Inr (board_demo 900 ''Bronze'' 1, HIT) \<and>
   fst (leaderboard_get mem_app 1 None (snd (on_redis_message mem_app LEADERBOARD_INVALIDATE_CHANNEL later_demo))) =
     Inr (board_demo 1300 ''Gold'' 3, MISS)"
proof -
  have leagues: "getLeagueSummaryForRating (Fin 900) = Inr \<lparr>ls_name = ''Bronze'', ls_tier = 1\<rparr>"
    "getLeagueSummaryForRating (Fin 1300) = Inr \<lparr>ls_name = ''Gold'', ls_tier = 3\<rparr>"
    by (simp_all add: getLeagueSummaryForRating_def getLeagueForRating_def assertRating_def assertNonEmptyLeagues_def REFERENCE_LEAGUES_def
      assertLeagueConfig_def in_league_def toLeagueSummary_def)
  have o: "w_outages (rated_demo [(''a'', 900)]) = []" "w_outages later_demo = []" by (simp_all add: rated_demo_def later_demo_def)
  have db: "w_db later_demo = w_db (rated_demo [(''a'', 1300)])" by (simp add: later_demo_def)
  have boards: "fst (fetchFromDatabase mem_app 1 None (rated_demo [(''a'', 900)])) = Inr (board_demo 900 ''Bronze'' 1)"
    "fst (fetchFromDatabase mem_app 1 None later_demo) = Inr (board_demo 1300 ''Gold'' 3)"
    unfolding fetch_run [OF o(1)] fetch_run [OF o(2)] db
    by (simp_all add: asked_board_def rated_demo_def toRatingWhere_def board_order_def leagues board_demo_def)
  have empty: "resolveLeague None = Inr None" "look (w_keys (rated_demo [(''a'', 900)])) k = None" for k
    by (simp_all add: resolveLeague_def rated_demo_def look_def)
  have keys: "w_keys later_demo = (w_keys (snd (leaderboard_get mem_app 1 None (rated_demo [(''a'', 900)]))))\<lparr>rd_now := 10000\<rparr>"
    by (simp add: later_demo_def)
  have now: "rd_now (w_keys (rated_demo [(''a'', 900)])) = 0" by (simp add: rated_demo_def)
  show ?thesis
    using leaderboard_cache_cycle [OF app_ok_mem o(1) empty(1) empty(2) boards(1) o(2) boards(2) keys] now by simp
qed

end
