(* ===== verification/Api_Admin_Props.thy ===== *)
theory Api_Admin_Props
  imports Api_Season_Props
begin

section \<open>The guards of the api\<close>

text \<open>
  The two guards before a handler of the administration only look at the world; they let a request through when
  its token is signed and not expired, the session is not revoked, and the user is, now, an administrator.
\<close>

subsection \<open>Who reaches a handler of the administration\<close>

text \<open>A handler that only looks: what it reports was so in the world it saw.\<close>

definition peeks :: "(app_world, app_exn, 'a) eff \<Rightarrow> (db \<Rightarrow> app_json redis \<Rightarrow> 'a \<Rightarrow> bool) \<Rightarrow> bool" where
  "peeks m Q \<longleftrightarrow> (\<forall>w. \<exists>os. snd (m w) = w\<lparr>w_outages := os\<rparr> \<and> (\<forall>x. fst (m w) = Inr x \<longrightarrow> Q (w_db w) (w_keys w) x))"

lemma outages_to_come: "\<exists>os. w = w\<lparr>w_outages := os\<rparr>"
  by (rule exI [of _ "w_outages w"]) simp

lemma peeks_ret: "(\<And>d k. Q d k x) \<Longrightarrow> peeks (ret x) Q"
  by (simp add: peeks_def ret_def outages_to_come)

lemma peeks_raise: "peeks (raise e) Q"
  by (simp add: peeks_def raise_def outages_to_come)

lemma peeks_weaken: "peeks m Q \<Longrightarrow> (\<And>d k x. Q d k x \<Longrightarrow> R d k x) \<Longrightarrow> peeks m R"
  unfolding peeks_def by metis

lemma peeks_bind:
  assumes "peeks m S" and "\<And>a. peeks (f a) (\<lambda>d k b. S d k a \<longrightarrow> Q d k b)"
  shows "peeks (bindS m f) Q"
  unfolding peeks_def
proof
  fix w
  obtain os where m: "snd (m w) = w\<lparr>w_outages := os\<rparr>" "\<And>x. fst (m w) = Inr x \<Longrightarrow> S (w_db w) (w_keys w) x"
    using assms(1) unfolding peeks_def by blast
  show "\<exists>os. snd (bindS m f w) = w\<lparr>w_outages := os\<rparr> \<and> (\<forall>x. fst (bindS m f w) = Inr x \<longrightarrow> Q (w_db w) (w_keys w) x)"
  proof (cases "fst (m w)")
    case (Inl e)
    then show ?thesis using m(1) by (cases "m w") (auto simp: bindS_def)
  next
    case (Inr a)
    obtain os' where "snd (f a (snd (m w))) = (snd (m w))\<lparr>w_outages := os'\<rparr>"
      "\<And>x. fst (f a (snd (m w))) = Inr x \<Longrightarrow> S (w_db (snd (m w))) (w_keys (snd (m w))) a \<Longrightarrow> Q (w_db (snd (m w))) (w_keys (snd (m w))) x"
      using assms(2) [of a] unfolding peeks_def by blast
    with m Inr show ?thesis by (cases "m w") (auto simp: bindS_def)
  qed
qed

lemma peeks_catch: "peeks m Q \<Longrightarrow> (\<And>e. peeks (h e) Q) \<Longrightarrow> peeks (catchS m h) Q"
  unfolding peeks_def
proof
  fix w
  assume "\<forall>w. \<exists>os. snd (m w) = w\<lparr>w_outages := os\<rparr> \<and> (\<forall>x. fst (m w) = Inr x \<longrightarrow> Q (w_db w) (w_keys w) x)"
    and h: "\<And>e. \<forall>w. \<exists>os. snd (h e w) = w\<lparr>w_outages := os\<rparr> \<and> (\<forall>x. fst (h e w) = Inr x \<longrightarrow> Q (w_db w) (w_keys w) x)"
  then obtain os where m: "snd (m w) = w\<lparr>w_outages := os\<rparr>" "\<forall>x. fst (m w) = Inr x \<longrightarrow> Q (w_db w) (w_keys w) x" by blast
  show "\<exists>os. snd (catchS m h w) = w\<lparr>w_outages := os\<rparr> \<and> (\<forall>x. fst (catchS m h w) = Inr x \<longrightarrow> Q (w_db w) (w_keys w) x)"
  proof (cases "fst (m w)")
    case (Inl e)
    obtain os' where "snd (h e (snd (m w))) = (snd (m w))\<lparr>w_outages := os'\<rparr>"
      "\<forall>x. fst (h e (snd (m w))) = Inr x \<longrightarrow> Q (w_db (snd (m w))) (w_keys (snd (m w))) x"
      using h [of e] by blast
    with m Inl show ?thesis by (cases "m w") (auto simp: catchS_def)
  next
    case (Inr a)
    with m show ?thesis by (cases "m w") (auto simp: catchS_def)
  qed
qed

lemma peeks_atomic:
  assumes "atomic e m" and "\<And>w. w_outages w = [] \<Longrightarrow> snd (m w) = w" and "\<And>w x. w_outages w = [] \<Longrightarrow> fst (m w) = Inr x \<Longrightarrow> Q (w_db w) (w_keys w) x"
  shows "peeks m Q"
  unfolding peeks_def
proof
  fix w
  show "\<exists>os. snd (m w) = w\<lparr>w_outages := os\<rparr> \<and> (\<forall>x. fst (m w) = Inr x \<longrightarrow> Q (w_db w) (w_keys w) x)"
    by (rule atomic_cases [OF assms(1), of w]) (use assms(2,3) [of "calm w"] in \<open>auto simp: calm_def intro: exI\<close>)
qed

lemma peeks_calls:
  "peeks (findUnique (a_user mem_app) q) (\<lambda>d k x. x = find q (d_users d))"
  "peeks (a_rpc mem_app) (\<lambda>d k x. True)"
  "peeks (a_get mem_app key) (\<lambda>d k x. x = (case look k key of Some (RStr t) \<Rightarrow> Some t | _ \<Rightarrow> None))"
  "peeks (a_now mem_app) (\<lambda>d k x. x = rd_now k)"
proof -
  show "peeks (findUnique (a_user mem_app) q) (\<lambda>d k x. x = find q (d_users d))"
    by (rule peeks_atomic [where e = "DbEx DbUnavailable"]) (simp_all add: mem_app_def atomic_calls)
  show "peeks (a_rpc mem_app) (\<lambda>d k x. True)"
    by (rule peeks_atomic [where e = "GrpcError 14 ''UNAVAILABLE''"]) (simp_all add: mem_app_def, rule atomic_app_call, simp add: calm_def)
  show "peeks (a_get mem_app key) (\<lambda>d k x. x = (case look k key of Some (RStr t) \<Rightarrow> Some t | _ \<Rightarrow> None))"
  proof (rule peeks_atomic [where e = "CacheEx RedisUnavailable"])
    show "atomic (CacheEx RedisUnavailable) (a_get mem_app key)"
      unfolding mem_app_def app_env.simps by (rule atomic_app_call) (simp add: calm_def do_get_def split: option.split rvalue.split)
  qed (auto dest: run_get [of _ key] split: option.splits rvalue.splits)
  show "peeks (a_now mem_app) (\<lambda>d k x. x = rd_now k)"
    by (simp add: peeks_def mem_app_def outages_to_come)
qed

subsection \<open>The session behind a request\<close>

definition session_of :: "string \<Rightarrow> string \<Rightarrow> db \<Rightarrow> app_json redis \<Rightarrow> AuthVerdict \<Rightarrow> bool" where
  "session_of jti uid d k v \<longleftrightarrow> vt_valid v \<longrightarrow>
     look k (auth_blacklistKey jti) \<noteq> Some (RStr (Txt ''1'')) \<and> vt_userId v = Some uid \<and>
     (\<exists>row. find (\<lambda>r. us_id r = uid) (d_users d) = Some row \<and> vt_role v = Some (mapRole (us_role row)))"

lemma peeks_lift: "(\<And>d k x. r = Inr x \<Longrightarrow> Q d k x) \<Longrightarrow> peeks (liftS r) Q"
  by (cases r) (auto simp: peeks_def liftS_def ret_def raise_def outages_to_come)

lemma peeks_call_users: "peeks m Q \<Longrightarrow> peeks (call_users mem_app m) Q"
  unfolding call_users_def grpc_boundary_def thenS_def
  by (intro peeks_catch peeks_bind [OF peeks_calls(2)]) (auto intro: peeks_raise peeks_weaken split: app_exn.split)

lemma peeks_call_auth: "peeks m Q \<Longrightarrow> peeks (call_auth mem_app m) Q"
  unfolding call_auth_def grpc_boundary_def thenS_def
  by (intro peeks_catch peeks_bind [OF peeks_calls(2)]) (auto intro: peeks_raise peeks_weaken split: app_exn.split)

lemma looked_up: "(case look k key of Some (RStr t) \<Rightarrow> Some t | _ \<Rightarrow> None) = Some v \<longleftrightarrow> look k key = Some (RStr v)"
  by (auto split: option.split rvalue.split)

lemma peeks_revoked:
  "peeks (catchS (bindS (auth_isAccessTokenRevoked mem_app jti) (\<lambda>b. ret (Some b))) (\<lambda>_. ret None))
     (\<lambda>d k r. r = Some False \<longrightarrow> look k (auth_blacklistKey jti) \<noteq> Some (RStr (Txt ''1'')))"
  unfolding auth_isAccessTokenRevoked_def
  by (intro peeks_catch peeks_bind [OF peeks_bind [OF peeks_calls(3), where Q = "\<lambda>d k b. b = (look k (auth_blacklistKey jti) = Some (RStr (Txt ''1'')))"]])
    (auto intro!: peeks_ret simp: looked_up)

lemma peeks_findById:
  "peeks (findById mem_app uid) (\<lambda>d k r. \<forall>u. r = Some u \<longrightarrow> (\<exists>row. find (\<lambda>r. us_id r = uid) (d_users d) = Some row \<and> u = toUserRecord row))"
  unfolding findById_def us_findById_def
proof (rule peeks_bind [OF peeks_call_users [OF peeks_bind [OF peeks_calls(1),
    where Q = "\<lambda>d k r. r = map_option toUserRecord (find (\<lambda>r. us_id r = uid) (d_users d))"]]])
  fix r
  have "\<exists>row. find (\<lambda>r. us_id r = uid) (d_users d) = Some row \<and> u = toUserRecord row"
    if "r = map_option toUserRecord (find (\<lambda>r. us_id r = uid) (d_users d))" "toUserRecordOrNull r = Inr (Some u)" for d u
    using that by (cases "find (\<lambda>r. us_id r = uid) (d_users d)") (auto simp: toUserRecordOrNull_def split: if_splits)
  then show "peeks (liftS (toUserRecordOrNull r)) (\<lambda>d k b. r = map_option toUserRecord (find (\<lambda>r. us_id r = uid) (d_users d)) \<longrightarrow>
      (\<forall>u. b = Some u \<longrightarrow> (\<exists>row. find (\<lambda>r. us_id r = uid) (d_users d) = Some row \<and> u = toUserRecord row)))"
    by (intro peeks_lift) blast
qed (auto intro: peeks_ret)

lemma peeks_verifySession: "peeks (verifySession mem_app jti uid) (session_of jti uid)"
  unfolding verifySession_def
proof (rule peeks_bind [OF peeks_revoked])
  fix r
  show "peeks (case r of None \<Rightarrow> ret (refused R_UNAVAILABLE) | Some True \<Rightarrow> ret (refused R_REVOKED)
      | Some False \<Rightarrow> bindS (findById mem_app uid) (\<lambda>user. case user of None \<Rightarrow> ret (refused R_INVALID)
        | Some u \<Rightarrow> ret \<lparr>vt_valid = True, vt_userId = Some uid, vt_role = Some (ur_role u), vt_displayName = Some (ur_displayName u),
            vt_reason = None, vt_jti = Some jti, av_email = Some (ur_email u)\<rparr>))
    (\<lambda>d k v. (r = Some False \<longrightarrow> look k (auth_blacklistKey jti) \<noteq> Some (RStr (Txt ''1''))) \<longrightarrow> session_of jti uid d k v)"
    by (auto simp: session_of_def refused_def toUserRecord_def intro!: peeks_ret peeks_bind [OF peeks_findById] split: option.split bool.split)
qed

lemma peeks_api_verifySession: "peeks (api_verifySession mem_app jti uid) (session_of jti uid)"
  unfolding api_verifySession_def
  by (intro peeks_bind [OF peeks_call_auth [OF peeks_bind [OF peeks_verifySession, where Q = "session_of jti uid"]]])
    (auto intro!: peeks_ret simp: session_of_def wire_session_def or_empty_def toVerifyTokenResponse_def refused_def)

definition authenticated :: "crypto \<Rightarrow> string option \<Rightarrow> db \<Rightarrow> app_json redis \<Rightarrow> RequestUser option \<Rightarrow> bool" where
  "authenticated c bearer d k user \<longleftrightarrow> (\<exists>u token p e row. user = Some u \<and> bearer = Some token \<and> cr_jwt_decode c token = Some (p, e) \<and>
     rd_now k div 1000 < e \<and> look k (auth_blacklistKey (ap_jti p)) \<noteq> Some (RStr (Txt ''1'')) \<and>
     find (\<lambda>r. us_id r = ap_sub p) (d_users d) = Some row \<and> su_id u = ap_sub p \<and> su_role u = mapRole (us_role row))"

lemma peeks_validate:
  "peeks (validate mem_app (p, e)) (\<lambda>d k u. look k (auth_blacklistKey (ap_jti p)) \<noteq> Some (RStr (Txt ''1'')) \<and> su_id u = ap_sub p \<and>
     (\<exists>row. find (\<lambda>r. us_id r = ap_sub p) (d_users d) = Some row \<and> su_role u = mapRole (us_role row)))"
  unfolding validate_def
  by (intro peeks_bind [OF peeks_catch [OF peeks_api_verifySession peeks_raise]])
    (auto intro!: peeks_raise peeks_ret simp: session_of_def)

lemma peeks_guard: "peeks (jwt_canActivate mem_app c False bearer) (authenticated c bearer)"
proof (cases bearer)
  case None
  then show ?thesis by (auto simp: jwt_canActivate_def passport_jwt_def intro!: peeks_bind [OF peeks_raise [where Q = "\<lambda>_ _ _. False"]] peeks_ret)
next
  case (Some token)
  have "peeks (case cr_jwt_decode c token of None \<Rightarrow> raise (HttpError 401 ''Unauthorized'')
      | Some payload \<Rightarrow> if snd payload \<le> now div 1000 then raise (HttpError 401 ''Unauthorized'') else validate mem_app payload)
    (\<lambda>d k u. now = rd_now k \<longrightarrow> authenticated c bearer d k (Some u))" for now
    using Some by (auto simp: authenticated_def intro!: peeks_raise peeks_weaken [OF peeks_validate] split: option.split)
  then show ?thesis
    using Some unfolding jwt_canActivate_def passport_jwt_def
    by (auto intro!: peeks_bind [OF peeks_bind [OF peeks_calls(4), where Q = "\<lambda>d k u. authenticated c bearer d k (Some u)"]] peeks_ret)
qed

subsection \<open>Properties\<close>

text \<open>
  A request to a handler of the administration is either refused, with nothing changed but the outages to come,
  or it carries a signed token that has not expired, of a session that is not revoked, whose user exists and is an
  administrator in the database at that moment, whatever role the token was issued for; then, and only then, the handler
  runs, in the world the guards found.
\<close>
theorem only_admins_pass:
  assumes "app_ok env view"
  shows "(\<exists>e os. fst (guarded env c False [''admin''] bearer h s) = Inl e \<and>
      view (snd (guarded env c False [''admin''] bearer h s)) = (view s)\<lparr>w_outages := os\<rparr>) \<or>
    (\<exists>u s' os. guarded env c False [''admin''] bearer h s = h (Some u) s' \<and> view s' = (view s)\<lparr>w_outages := os\<rparr> \<and>
      authenticated c bearer (w_db (view s)) (w_keys (view s)) (Some u) \<and>
      (\<exists>row \<in> set (d_users (w_db (view s))). us_id row = su_id u \<and> us_role row = RoleAdmin))"
proof -
  have svc: "app_service env view" by unfold_locales (rule assms)
  obtain r s1 where run: "jwt_canActivate env c False bearer s = (r, s1)" by fastforce
  have mem: "jwt_canActivate mem_app c False bearer (view s) = (r, view s1)"
    using simD [OF app_service.sim_guards(3) [OF svc], of c False bearer s] run by simp
  obtain os where s1: "view s1 = (view s)\<lparr>w_outages := os\<rparr>"
    and auth: "\<And>x. r = Inr x \<Longrightarrow> authenticated c bearer (w_db (view s)) (w_keys (view s)) x"
    using peeks_guard [of c bearer] mem unfolding peeks_def by (metis fst_conv snd_conv)
  show ?thesis
  proof (cases r)
    case (Inl e)
    then have "guarded env c False [''admin''] bearer h s = (Inl e, s1)" by (simp add: guarded_def bindS_apply run)
    then show ?thesis using s1 by auto
  next
    case (Inr user)
    from auth [OF this] obtain u and p :: AccessTokenPayload and row where u: "user = Some u" "find (\<lambda>r. us_id r = ap_sub p) (d_users (w_db (view s))) = Some row"
      "su_id u = ap_sub p" "su_role u = mapRole (us_role row)"
      unfolding authenticated_def by blast
    show ?thesis
    proof (cases "us_role row = RoleAdmin")
      case True
      with u have "guarded env c False [''admin''] bearer h s = h (Some u) s1"
        by (simp add: guarded_def bindS_apply thenS_def run Inr roles_canActivate_def mapRole_def liftS_apply)
      moreover have "row \<in> set (d_users (w_db (view s)))" "us_id row = su_id u" using u(2,3) by (auto simp: find_Some_iff)
      ultimately show ?thesis using s1 auth [OF Inr] u(1) True by blast
    next
      case False
      with u have "guarded env c False [''admin''] bearer h s = (Inl (HttpError 403 ''FORBIDDEN''), s1)"
        by (simp add: guarded_def bindS_apply thenS_def run Inr roles_canActivate_def mapRole_def liftS_apply)
      then show ?thesis using s1 by auto
    qed
  qed
qed

text \<open>A token that was issued to an administrator, who has become a player since: nothing happens. To an administrator the handler answers.\<close>

definition admin_token :: string where
  "admin_token = cr_jwt_sign plain_crypto (payload_demo\<lparr>ap_role := ''admin''\<rparr>) 100"

theorem only_admins_pass_witness:
  "(\<exists>e os. fst (admin_closeSeason mem_app plain_crypto (Some admin_token) ''s'' (auth_demo [user_demo] [])) = Inl e \<and>
     snd (admin_closeSeason mem_app plain_crypto (Some admin_token) ''s'' (auth_demo [user_demo] [])) = (auth_demo [user_demo] [])\<lparr>w_outages := os\<rparr>) \<and>
   fst (admin_closeSeason mem_app plain_crypto (Some admin_token) ''s'' (auth_demo [user_demo\<lparr>us_role := RoleAdmin\<rparr>] [])) = Inl (HttpError 404 ''SEASON_NOT_FOUND'')"
proof
  have "\<not> (\<exists>row \<in> set (d_users (w_db (auth_demo [user_demo] []))). us_id row = i \<and> us_role row = RoleAdmin)" for i
    by (simp add: auth_demo_def user_demo_def)
  with only_admins_pass [OF app_ok_mem, of plain_crypto "Some admin_token" "\<lambda>_. closeSeason mem_app ''s''" "auth_demo [user_demo] []"]
  show "\<exists>e os. fst (admin_closeSeason mem_app plain_crypto (Some admin_token) ''s'' (auth_demo [user_demo] [])) = Inl e \<and>
     snd (admin_closeSeason mem_app plain_crypto (Some admin_token) ''s'' (auth_demo [user_demo] [])) = (auth_demo [user_demo] [])\<lparr>w_outages := os\<rparr>"
    unfolding admin_closeSeason_def by blast
  have jwt: "cr_jwt_decode plain_crypto admin_token = Some (payload_demo\<lparr>ap_role := ''admin''\<rparr>, 100)"
    using plain_crypto_ok by (simp add: admin_token_def crypto_ok_def)
  let ?w = "auth_demo [user_demo\<lparr>us_role := RoleAdmin\<rparr>] []"
  have o: "w_outages ?w = []" by (simp add: auth_demo_def)
  have user: "findById mem_app ''u'' ?w = (Inr (Some (toUserRecord (user_demo\<lparr>us_role := RoleAdmin\<rparr>))), ?w)"
    by (simp add: run_findById [OF o]) (simp add: auth_demo_def user_demo_def toUserRecord_def toUserRecordOrNull_def mapRole_def)
  show "fst (admin_closeSeason mem_app plain_crypto (Some admin_token) ''s'' ?w) = Inl (HttpError 404 ''SEASON_NOT_FOUND'')"
  proof -
    have "snd (a_get mem_app k ?w) = ?w \<and> fst (a_get mem_app k ?w) = Inr None" for k
      using run_get [OF o, of k] by (simp add: auth_demo_def look_def)
    then have get: "a_get mem_app k ?w = (Inr None, ?w)" for k by (metis prod.collapse)
    have session: "verifySession mem_app ''j'' ''u'' ?w = (Inr \<lparr>vt_valid = True, vt_userId = Some ''u'', vt_role = Some ''admin'',
        vt_displayName = Some ''U'', vt_reason = None, vt_jti = Some ''j'', av_email = Some ''u@x''\<rparr>, ?w)"
      by (simp add: verifySession_def auth_isAccessTokenRevoked_def eff_simps get user) (simp add: toUserRecord_def user_demo_def mapRole_def)
    have validated: "\<exists>u. validate mem_app (payload_demo\<lparr>ap_role := ''admin''\<rparr>, 100) ?w = (Inr u, ?w) \<and> su_role u = ''admin''"
      using session o by (simp add: validate_def api_verifySession_def call_auth_def grpc_boundary_def eff_simps wire_session_def
        toVerifyTokenResponse_def or_empty_def payload_demo_def)
    have now: "a_now mem_app ?w = (Inr 5000, ?w)" by (simp add: mem_app_def auth_demo_def)
    have "findUnique (a_season mem_app) q ?w = (Inr None, ?w)" for q
      unfolding season_runs(1) [OF o] by (simp add: auth_demo_def)
    with validated now jwt show ?thesis
      by (auto simp: admin_closeSeason_def guarded_def jwt_canActivate_def passport_jwt_def roles_canActivate_def closeSeason_def
        requireClosableSeason_def eff_simps)
  qed
qed

end
