(* ===== verification/Api_History_Props.thy ===== *)
theory Api_History_Props
  imports Api_Account Auth_Props
begin

section \<open>The pages of a match history\<close>

text \<open>
  \<open>GET /me/history\<close> is read page by page, each with the cursor of the page before. Whatever the size of a page,
  the pages together are the whole history: the ended matches of the user, latest first, each once.
\<close>

subsection \<open>The order of the history\<close>

lemma desc_less:
  "\<forall>x\<in>set xs. (0::int) \<le> x \<Longrightarrow> \<forall>y\<in>set ys. (0::int) \<le> y \<Longrightarrow>
   map uminus xs @ [1] < map uminus ys @ [1] \<longleftrightarrow> ys < xs"
proof (induction xs arbitrary: ys)
  case Nil
  then show ?case by (cases ys) auto
next
  case (Cons x xs)
  then show ?case by (cases ys) auto
qed

lemma text_desc_less: "text_desc a < text_desc b \<longleftrightarrow> text_below b a"
  unfolding text_desc_def text_below_def by (rule desc_less) (auto simp: text_key_def)

lemma text_key_inject: "text_key a = text_key b \<longleftrightarrow> a = b"
proof -
  have "inj (\<lambda>c::char. int (of_char c))" by (rule injI) simp
  then show ?thesis unfolding text_key_def by (simp add: inj_map_eq_map)
qed

lemma history_order_inject:
  "mt_endedAt m \<noteq> None \<Longrightarrow> mt_endedAt m' \<noteq> None \<Longrightarrow> history_order m = history_order m' \<Longrightarrow> mt_id m = mt_id m'"
  by (auto simp: history_order_def text_desc_def text_key_inject [symmetric] inj_map_eq_map [of uminus])

lemma where_after:
  assumes "history_where u None m0"
  shows "history_where u (Some (the (mt_endedAt m0), mt_id m0)) m \<longleftrightarrow> history_where u None m \<and> history_order m0 < history_order m"
  using assms by (auto simp: history_where_def history_order_def text_desc_less split: option.splits)

subsection \<open>Positions in a strictly sorted list\<close>

lemma filter_after:
  assumes "sorted_wrt (\<lambda>x y. k x < k y) xs" and "j < length xs"
  shows "filter (\<lambda>x. (k (xs ! j) :: 'k :: linorder) < k x) xs = drop (Suc j) xs"
proof -
  have "xs = take (Suc j) xs @ drop (Suc j) xs" by simp
  moreover have "filter (\<lambda>x. k (xs ! j) < k x) (take (Suc j) xs) = []"
  proof -
    have "\<not> k (xs ! j) < k x" if x: "x \<in> set (take (Suc j) xs)" for x
    proof -
      obtain i where i: "i \<le> j" "x = xs ! i" using x assms(2) by (auto simp: in_set_conv_nth less_Suc_eq_le)
      then show ?thesis using sorted_wrt_nth_less [OF assms(1), of i j] assms(2) by (cases "i = j") (auto simp: not_less)
    qed
    then show ?thesis by (simp add: filter_empty_conv)
  qed
  moreover have "filter (\<lambda>x. k (xs ! j) < k x) (drop (Suc j) xs) = drop (Suc j) xs"
  proof (rule filter_True)
    show "\<forall>x\<in>set (drop (Suc j) xs). k (xs ! j) < k x"
      using sorted_wrt_nth_less [OF assms(1), of j] assms(2) by (auto simp: in_set_conv_nth)
  qed
  ultimately show ?thesis by (metis append_Nil filter_append)
qed

definition whole_history :: "db \<Rightarrow> string \<Rightarrow> match_row list" where
  "whole_history d u = sort_key history_order (filter (history_where u None) (d_matches d))"

lemma whole_history_strict:
  assumes "distinct (map mt_id (d_matches d))"
  shows "sorted_wrt (\<lambda>x y. history_order x < history_order y) (whole_history d u)"
proof -
  let ?xs = "whole_history d u"
  have member: "history_where u None m" if "m \<in> set ?xs" for m using that by (simp add: whole_history_def)
  have ids: "distinct (map mt_id ?xs)"
    using assms by (simp add: whole_history_def distinct_map inj_on_def)
  have "sorted (map history_order ?xs)" by (simp add: whole_history_def)
  moreover have "distinct (map history_order ?xs)"
    using ids member history_order_inject unfolding distinct_map inj_on_def history_where_def by metis
  ultimately have "sorted_wrt (<) (map history_order ?xs)" by (simp add: strict_sorted_iff)
  then show ?thesis by (simp add: sorted_wrt_map)
qed

text \<open>The cursor of a position.\<close>

definition cursor_at :: "cursor_codec \<Rightarrow> match_row list \<Rightarrow> nat \<Rightarrow> string option" where
  "cursor_at k xs p = (if p = 0 then None else Some (encodeHistoryCursor k (the (mt_endedAt (xs ! (p - 1)))) (mt_id (xs ! (p - 1)))))"

definition history_entry :: "db \<Rightarrow> string \<Rightarrow> match_row \<Rightarrow> MeHistoryItem" where
  "history_entry d u m = toHistoryItem (d_users d) (d_history d) u m"

lemma find_narrowed: "(\<And>x. p x \<Longrightarrow> q x) \<Longrightarrow> find p (filter q xs) = find p xs"
  by (induction xs) auto

lemma entry_narrowed:
  assumes "m \<in> set rows"
  shows "toHistoryItem (filter (\<lambda>x. us_id x \<in> mt_playerAId ` set rows \<union> mt_playerBId ` set rows) us)
    (filter (\<lambda>h. eh_matchId h \<in> mt_id ` set rows) hs) u m = toHistoryItem us hs u m"
proof -
  have "find (\<lambda>x. us_id x = i) (filter (\<lambda>x. us_id x \<in> mt_playerAId ` set rows \<union> mt_playerBId ` set rows) us) = find (\<lambda>x. us_id x = i) us"
    if "i = mt_playerAId m \<or> i = mt_playerBId m" for i
    by (rule find_narrowed) (use assms that in auto)
  moreover have "find (\<lambda>h. eh_matchId h = mt_id m \<and> eh_userId h = i) (filter (\<lambda>h. eh_matchId h \<in> mt_id ` set rows) hs) =
      find (\<lambda>h. eh_matchId h = mt_id m \<and> eh_userId h = i) hs" for i
    by (rule find_narrowed) (use assms in auto)
  ultimately show ?thesis by (simp add: toHistoryItem_def Let_def)
qed

subsection \<open>One page\<close>

lemma rows_at:
  assumes "distinct (map mt_id (d_matches d))" and "p \<le> length (whole_history d u)"
  shows "sort_key history_order (filter (history_where u (if p = 0 then None
      else Some (the (mt_endedAt (whole_history d u ! (p - 1))), mt_id (whole_history d u ! (p - 1))))) (d_matches d)) = drop p (whole_history d u)"
proof (cases p)
  case 0
  then show ?thesis by (simp add: whole_history_def)
next
  case (Suc j)
  let ?L = "whole_history d u"
  have j: "j < length ?L" using assms(2) Suc by simp
  then have "?L ! j \<in> set ?L" by simp
  then have m0: "history_where u None (?L ! j)" by (simp add: whole_history_def)
  have "filter (history_where u (Some (the (mt_endedAt (?L ! j)), mt_id (?L ! j)))) (d_matches d) =
      filter (\<lambda>m. history_order (?L ! j) < history_order m) (filter (history_where u None) (d_matches d))"
    unfolding filter_filter by (rule filter_cong [OF refl]) (rule where_after [OF m0])
  then have "sort_key history_order (filter (history_where u (Some (the (mt_endedAt (?L ! j)), mt_id (?L ! j)))) (d_matches d)) =
      filter (\<lambda>m. history_order (?L ! j) < history_order m) ?L"
    by (simp add: whole_history_def filter_sort)
  with filter_after [OF whole_history_strict [OF assms(1)] j] Suc show ?thesis by simp
qed

lemma page_run:
  assumes w: "w_outages w = []" and k: "cursor_ok k" and ids: "distinct (map mt_id (d_matches (w_db w)))"
    and p: "p \<le> length (whole_history (w_db w) u)" and n: "0 < n"
  shows "getHistory mem_app k u n (cursor_at k (whole_history (w_db w) u) p) w =
    (Inr (map (history_entry (w_db w) u) (take n (drop p (whole_history (w_db w) u))),
       if p + n < length (whole_history (w_db w) u) then cursor_at k (whole_history (w_db w) u) (p + n) else None), w)"
proof -
  let ?L = "whole_history (w_db w) u"
  let ?at = "if p = 0 then None else Some (the (mt_endedAt (?L ! (p - 1))), mt_id (?L ! (p - 1)))"
  let ?rows = "take (n + 1) (drop p ?L)"
  have cursor: "(if truthy (cursor_at k ?L p) then liftS (map_sum id (\<lambda>(ts, i). Some (the (cu_getTime k ts), i)) (decodeHistoryCursor k (the (cursor_at k ?L p)))) else ret None) = ret ?at"
    using k by (auto simp: cursor_at_def cursor_ok_def decodeHistoryCursor_def encodeHistoryCursor_def liftS_def)
  have rows: "t_find (a_match mem_app) (history_where u ?at) history_order (Some (n + 1)) w = (Inr ?rows, w)"
    unfolding mem_app_def app_env.simps mem_tables using w by (simp add: limit_def rows_at [OF ids p] del: One_nat_def)
  have others: "findMany (a_user mem_app) q w = (Inr (filter q (d_users (w_db w))), w)"
    "findMany (a_eloHistory mem_app) q' w = (Inr (filter q' (d_history (w_db w))), w)" for q q'
    unfolding mem_app_def app_env.simps by (rule run_findMany [OF w])+
  have page: "(if p + n < length ?L then take n ?rows else ?rows) = take n (drop p ?L)"
    by (auto simp: min_def)
  have more: "n < length ?rows \<longleftrightarrow> p + n < length ?L" by auto
  have last: "take n (drop p ?L) \<noteq> [] \<and> last (take n (drop p ?L)) = ?L ! (p + n - 1) \<and> mt_endedAt (?L ! (p + n - 1)) \<noteq> None"
    if "p + n < length ?L"
  proof -
    have "?L ! (p + n - 1) \<in> set ?L" using that n by simp
    then have "mt_endedAt (?L ! (p + n - 1)) \<noteq> None" unfolding whole_history_def by (simp add: history_where_def)
    moreover have "length (take n (drop p ?L)) = n" using that by simp
    ultimately show ?thesis using that n by (auto simp: last_conv_nth)
  qed
  have entries: "map (toHistoryItem (filter (\<lambda>x. us_id x \<in> mt_playerAId ` set ?rows \<union> mt_playerBId ` set ?rows) (d_users (w_db w)))
      (filter (\<lambda>h. eh_matchId h \<in> mt_id ` set ?rows) (d_history (w_db w))) u) (take n (drop p ?L)) = map (history_entry (w_db w) u) (take n (drop p ?L))"
  proof (rule map_cong [OF refl])
    fix m assume "m \<in> set (take n (drop p ?L))"
    then have "m \<in> set ?rows" by (meson le_add1 set_take_subset_set_take subsetD)
    then show "toHistoryItem (filter (\<lambda>x. us_id x \<in> mt_playerAId ` set ?rows \<union> mt_playerBId ` set ?rows) (d_users (w_db w)))
        (filter (\<lambda>h. eh_matchId h \<in> mt_id ` set ?rows) (d_history (w_db w))) u m = history_entry (w_db w) u m"
      unfolding history_entry_def by (rule entry_narrowed)
  qed
  show ?thesis
    unfolding getHistory_def Let_def cursor bindS_apply ret_apply prod.case sum.case rows others more page entries
    using last n by (simp add: cursor_at_def)
qed

subsection \<open>All pages\<close>

text \<open>\<open>useInfiniteQuery\<close> of the client, until there is no next page; every page takes one unit of fuel.\<close>

fun walk_history :: "nat \<Rightarrow> 's app_env \<Rightarrow> cursor_codec \<Rightarrow> string \<Rightarrow> nat \<Rightarrow> string option \<Rightarrow> ('s, app_exn, MeHistoryItem list) eff" where
  "walk_history 0 env k u n cursor = raise OutOfFuel"
| "walk_history (Suc fuel) env k u n cursor =
     bindS (getHistory env k u n cursor) (\<lambda>page.
       case snd page of
         None \<Rightarrow> ret (fst page)
       | Some c \<Rightarrow> bindS (walk_history fuel env k u n (Some c)) (\<lambda>rest. ret (fst page @ rest)))"

lemma walk_run:
  assumes w: "w_outages w = []" and k: "cursor_ok k" and ids: "distinct (map mt_id (d_matches (w_db w)))" and n: "0 < n"
  shows "p \<le> length (whole_history (w_db w) u) \<Longrightarrow> length (whole_history (w_db w) u) < p + fuel \<Longrightarrow>
    walk_history fuel mem_app k u n (cursor_at k (whole_history (w_db w) u) p) w =
      (Inr (map (history_entry (w_db w) u) (drop p (whole_history (w_db w) u))), w)"
proof (induction fuel arbitrary: p)
  case (Suc fuel)
  let ?L = "whole_history (w_db w) u"
  note page = page_run [OF w k ids Suc.prems(1) n]
  show ?case
  proof (cases "p + n < length ?L")
    case True
    then have next_cursor: "cursor_at k ?L (p + n) = Some (encodeHistoryCursor k (the (mt_endedAt (?L ! (p + n - 1)))) (mt_id (?L ! (p + n - 1))))"
      using n by (simp add: cursor_at_def)
    have "take n (drop p ?L) @ drop (p + n) ?L = drop p ?L" by (metis append_take_drop_id drop_drop add.commute)
    then show ?thesis
      using Suc.IH [of "p + n"] True Suc.prems n unfolding walk_history.simps
      by (simp add: bindS_apply page next_cursor ret_apply map_append [symmetric] del: map_append)
  next
    case False
    then show ?thesis
      unfolding walk_history.simps by (simp add: bindS_apply page ret_apply)
  qed
qed simp

context app_service
begin

lemma sim_walk [sim_rules]: "sim view (walk_history fuel env k u n c) (walk_history fuel mem_app k u n c)"
  by (induction fuel arbitrary: c) (auto intro!: sim_rules)

end

text \<open>
  C40. When no call fails, reading the history page by page ends, and the pages put together are all the ended matches
  of the user, latest first, each with its opponent and the change of rating: no match is lost or repeated
  at the border of a page, even when matches ended at the same instant.
\<close>
theorem history_pages_complete:
  assumes "app_ok env view" and "cursor_ok k" and "w_outages (view s) = []" and "distinct (map mt_id (d_matches (w_db (view s))))"
    and "0 < n" and "length (d_matches (w_db (view s))) < fuel"
  shows "fst (walk_history fuel env k u n None s) =
    Inr (map (history_entry (w_db (view s)) u) (sort_key history_order (filter (history_where u None) (d_matches (w_db (view s))))))"
proof -
  have svc: "app_service env view" by unfold_locales (rule assms(1))
  have "length (whole_history (w_db (view s)) u) \<le> length (d_matches (w_db (view s)))" by (simp add: whole_history_def)
  then have enough: "length (whole_history (w_db (view s)) u) < 0 + fuel" using assms(6) by simp
  have start: "cursor_at k xs 0 = None" for xs by (simp add: cursor_at_def)
  show ?thesis
    unfolding sim_result [OF app_service.sim_walk [OF svc]] walk_run [OF assms(3,2,4,5) le0 enough, unfolded start]
    by (simp add: whole_history_def)
qed

definition plain_cursor :: cursor_codec where
  "plain_cursor = \<lparr>cu_stringify = (\<lambda>(ts, i). wire_text ts @ i), cu_parse = (\<lambda>s. map_option (\<lambda>(ts, i). (Some ts, Some i)) (read_text s)),
     cu_base64url = (\<lambda>s. s), cu_unbase64url = (\<lambda>s. s), cu_toISOString = show_int, cu_getTime = parse_int\<rparr>"

lemma plain_cursor_ok: "cursor_ok plain_cursor"
proof -
  have "wire_text i @ r \<noteq> []" for i r by (simp add: wire_text_def)
  then show ?thesis by (simp add: cursor_ok_def plain_cursor_def split: prod.split)
qed

definition played_demo :: "string \<Rightarrow> time \<Rightarrow> match_row" where
  "played_demo i t = \<lparr>mt_id = i, mt_playerAId = ''b'', mt_playerBId = ''u'', mt_winnerId = Some ''u'', mt_scoreA = 0, mt_scoreB = 2,
     mt_startedAt = 0, mt_endedAt = Some t, mt_status = MatchEnded\<rparr>"

definition history_demo :: app_world where
  "history_demo = (auth_demo [user_demo, user_demo\<lparr>us_id := ''b'', us_displayName := ''B''\<rparr>] [])\<lparr>w_db :=
     (w_db (auth_demo [user_demo, user_demo\<lparr>us_id := ''b'', us_displayName := ''B''\<rparr>] []))
       \<lparr>d_matches := [played_demo ''m1'' 40, played_demo ''m3'' 70, played_demo ''m2'' 70]\<rparr>\<rparr>"

text \<open>Pages of one match; two matches ended at the same instant.\<close>

theorem history_pages_complete_witness:
  "\<exists>items. fst (walk_history 4 mem_app plain_cursor ''u'' 1 None history_demo) = Inr items \<and>
     map hi_matchId items = [''m3'', ''m2'', ''m1''] \<and> map hi_opponentName items = [''B'', ''B'', ''B'']"
proof -
  have o: "w_outages history_demo = []" "distinct (map mt_id (d_matches (w_db history_demo)))" "length (d_matches (w_db history_demo)) < 4"
    by (simp_all add: history_demo_def auth_demo_def played_demo_def)
  from history_pages_complete [OF app_ok_mem plain_cursor_ok o(1,2) _ o(3), of 1 "''u''"] show ?thesis
    by (simp add: history_demo_def auth_demo_def played_demo_def user_demo_def history_where_def history_order_def text_desc_def text_key_def
      history_entry_def toHistoryItem_def Let_def)
qed

end
