(* ===== verification/Front_Schemas.thy ===== *)
theory Front_Schemas
  imports Game_Gateway
begin

section \<open>packages/schemas and the messages on the wire\<close>

text \<open>
  The schemas of \<open>packages/schemas/src/game-events.ts\<close> and the JSON of the messages that the game
  service sends to a socket. A JavaScript value is a \<open>js\<close>; an object lists each of its keys once. The
  library zod and \<open>Date.prototype.toISOString\<close> are parameters: \<open>safeParse\<close> takes a schema, which is the
  expression the source builds, and \<open>zod_ok\<close> states the documented behaviour of the constructors
  the source uses.
\<close>

subsection \<open>JavaScript values\<close>

datatype js =
  JUndef | JNull | JBool bool | JNum rat | JStr string | JArr "js list" | JObj "(string \<times> js) list"

fun fld :: "string \<Rightarrow> js \<Rightarrow> js" where
  "fld k (JObj kvs) = (case map_of kvs k of None \<Rightarrow> JUndef | Some v \<Rightarrow> v)"
| "fld k v = JUndef"

definition jint :: "int \<Rightarrow> js" where "jint i = JNum (of_int i)"

lemma jint_inject [simp]: "jint i = jint j \<longleftrightarrow> i = j"
  by (simp add: jint_def)

lemma jint_distinct [simp]:
  "jint i \<noteq> JUndef" "JUndef \<noteq> jint i" "jint i \<noteq> JNull" "JNull \<noteq> jint i" "jint i \<noteq> JStr s" "JStr s \<noteq> jint i"
  by (simp_all add: jint_def)

subsection \<open>zod\<close>

datatype num_check = IsInt | IsPositive | IsNonnegative

datatype schema =
  ZString | ZStringMin nat | ZDatetime | ZNumber "num_check list" | ZEnum "string list" | ZLiteral js
| ZNullable schema | ZOptional schema | ZUnion schema schema | ZObject "(string \<times> schema) list"

fun num_passes :: "rat \<Rightarrow> num_check \<Rightarrow> bool" where
  "num_passes q IsInt \<longleftrightarrow> of_int \<lfloor>q\<rfloor> = q"
| "num_passes q IsPositive \<longleftrightarrow> 0 < q"
| "num_passes q IsNonnegative \<longleftrightarrow> 0 \<le> q"

text \<open>
  What the documentation of zod promises of \<open>safeParse\<close> on these schemas: \<open>Some\<close> of the data, in
  which an object has the keys of its schema only, or \<open>None\<close> for a failure. Which strings are dates
  is left open.
\<close>

function (sequential) zod_doc :: "(string \<Rightarrow> bool) \<Rightarrow> schema \<Rightarrow> js \<Rightarrow> js option"
  and zod_fields :: "(string \<Rightarrow> bool) \<Rightarrow> (string \<times> schema) list \<Rightarrow> js \<Rightarrow> (string \<times> js) list option" where
  "zod_doc d ZString (JStr s) = Some (JStr s)"
| "zod_doc d (ZStringMin n) (JStr s) = (if n \<le> length s then Some (JStr s) else None)"
| "zod_doc d ZDatetime (JStr s) = (if d s then Some (JStr s) else None)"
| "zod_doc d (ZNumber cs) (JNum q) = (if list_all (num_passes q) cs then Some (JNum q) else None)"
| "zod_doc d (ZEnum es) (JStr s) = (if s \<in> set es then Some (JStr s) else None)"
| "zod_doc d (ZLiteral l) v = (if v = l then Some v else None)"
| "zod_doc d (ZNullable s) v = (if v = JNull then Some JNull else zod_doc d s v)"
| "zod_doc d (ZOptional s) v = (if v = JUndef then Some JUndef else zod_doc d s v)"
| "zod_doc d (ZUnion s t) v = (case zod_doc d s v of Some x \<Rightarrow> Some x | None \<Rightarrow> zod_doc d t v)"
| "zod_doc d (ZObject fs) (JObj kvs) = map_option JObj (zod_fields d fs (JObj kvs))"
| "zod_doc d _ _ = None"
| "zod_fields d [] v = Some []"
| "zod_fields d ((k, s) # fs) v =
     (case zod_doc d s (fld k v) of
        None \<Rightarrow> None
      | Some x \<Rightarrow> map_option (\<lambda>r. if x = JUndef then r else (k, x) # r) (zod_fields d fs v))"
  by pat_completeness auto
termination
  by (relation "measure (case_sum (\<lambda>(d, s, v). size s) (\<lambda>(d, fs, v). size_list (size_prod (\<lambda>_. 0) size) fs))") simp_all

text \<open>The dates that \<open>toISOString\<close> writes with a year of four digits.\<close>

definition calendar_time :: "time \<Rightarrow> bool" where
  "calendar_time t \<longleftrightarrow> 0 \<le> t \<and> t < 253402300800000"

definition zod_ok :: "(schema \<Rightarrow> js \<Rightarrow> js option) \<Rightarrow> (time \<Rightarrow> string) \<Rightarrow> bool" where
  "zod_ok safeParse isoDate \<longleftrightarrow>
     (\<exists>d. safeParse = zod_doc d \<and> (\<forall>t. calendar_time t \<longrightarrow> d (isoDate t)))"

subsection \<open>game-events.ts\<close>

definition moveSchema :: schema where "moveSchema = ZEnum [''rock'', ''paper'', ''scissors'']"
definition roundWinnerSchema :: schema where "roundWinnerSchema = ZEnum [''a'', ''b'', ''draw'']"

definition matchEndReasonSchema :: schema where
  "matchEndReasonSchema = ZEnum [''BEST_OF_3'', ''FORFEIT_TIMEOUT'', ''DISCONNECT_FORFEIT'', ''MAX_ROUNDS_DRAW'']"

definition connectedPayloadSchema :: schema where
  "connectedPayloadSchema = ZObject [(''userId'', ZStringMin 1), (''displayName'', ZStringMin 1)]"

definition queueJoinedPayloadSchema :: schema where
  "queueJoinedPayloadSchema = ZObject [(''queuedAt'', ZDatetime), (''currentRating'', ZNumber [IsInt])]"

definition matchFoundPayloadSchema :: schema where
  "matchFoundPayloadSchema = ZObject
     [(''matchId'', ZStringMin 1),
      (''opponent'', ZObject [(''userId'', ZOptional (ZStringMin 1)), (''displayName'', ZStringMin 1),
         (''rating'', ZNumber [IsInt])]),
      (''bestOf'', ZLiteral (JNum 3))]"

definition roundStartPayloadSchema :: schema where
  "roundStartPayloadSchema = ZObject
     [(''matchId'', ZStringMin 1), (''roundNumber'', ZNumber [IsInt, IsPositive]), (''deadline'', ZDatetime)]"

definition roundResolvedPayloadSchema :: schema where
  "roundResolvedPayloadSchema = ZObject
     [(''matchId'', ZStringMin 1), (''roundNumber'', ZNumber [IsInt, IsPositive]),
      (''yourMove'', moveSchema), (''theirMove'', moveSchema), (''winner'', roundWinnerSchema),
      (''scoreA'', ZNumber [IsInt, IsNonnegative]), (''scoreB'', ZNumber [IsInt, IsNonnegative])]"

definition matchEndedPayloadSchema :: schema where
  "matchEndedPayloadSchema = ZObject
     [(''matchId'', ZStringMin 1), (''winner'', ZNullable (ZStringMin 1)),
      (''finalScore'', ZObject [(''a'', ZNumber [IsInt, IsNonnegative]), (''b'', ZNumber [IsInt, IsNonnegative])]),
      (''eloDelta'', ZObject [(''a'', ZNumber [IsInt]), (''b'', ZNumber [IsInt])]),
      (''reason'', ZOptional matchEndReasonSchema)]"

definition matchResumedPayloadSchema :: schema where
  "matchResumedPayloadSchema = ZObject
     [(''matchId'', ZStringMin 1), (''currentRound'', ZNumber [IsInt, IsPositive]),
      (''scoreA'', ZNumber [IsInt, IsNonnegative]), (''scoreB'', ZNumber [IsInt, IsNonnegative]),
      (''currentState'', ZLiteral (JStr ''WAITING_PLAYS'')), (''deadline'', ZDatetime)]"

definition gameSocketErrorSchema :: schema where
  "gameSocketErrorSchema = ZObject [(''code'', ZUnion ZString (ZNumber [])), (''message'', ZStringMin 1)]"

definition playPayloadSchema :: schema where
  "playPayloadSchema = ZObject
     [(''matchId'', ZStringMin 1), (''roundNumber'', ZNumber [IsInt, IsPositive]), (''move'', moveSchema)]"

lemmas schema_defs = moveSchema_def roundWinnerSchema_def matchEndReasonSchema_def connectedPayloadSchema_def
  queueJoinedPayloadSchema_def matchFoundPayloadSchema_def roundStartPayloadSchema_def
  roundResolvedPayloadSchema_def matchEndedPayloadSchema_def matchResumedPayloadSchema_def
  gameSocketErrorSchema_def playPayloadSchema_def

subsection \<open>What the service puts on the wire\<close>

definition move_word :: "Move \<Rightarrow> string" where
  "move_word m = (case m of Rock \<Rightarrow> ''rock'' | Paper \<Rightarrow> ''paper'' | Scissors \<Rightarrow> ''scissors'')"

definition label_text :: "RoundLabel \<Rightarrow> string" where
  "label_text l = (case l of LabelA \<Rightarrow> ''a'' | LabelB \<Rightarrow> ''b'' | LabelDraw \<Rightarrow> ''draw'')"

definition end_reason_text :: "MatchEndReason \<Rightarrow> string" where
  "end_reason_text r = (case r of BEST_OF_3 \<Rightarrow> ''BEST_OF_3'' | FORFEIT_TIMEOUT \<Rightarrow> ''FORFEIT_TIMEOUT''
     | DISCONNECT_FORFEIT \<Rightarrow> ''DISCONNECT_FORFEIT'' | MAX_ROUNDS_DRAW \<Rightarrow> ''MAX_ROUNDS_DRAW'')"

definition matchFound_wire :: "string \<Rightarrow> MatchPlayer \<Rightarrow> nat \<Rightarrow> js" where
  "matchFound_wire mid p n = JObj
     [(''matchId'', JStr mid),
      (''opponent'', JObj [(''userId'', JStr (mp_userId p)), (''displayName'', JStr (mp_displayName p)),
         (''rating'', jint (mp_rating p))]),
      (''bestOf'', jint (int n))]"

definition roundStart_wire :: "(time \<Rightarrow> string) \<Rightarrow> string \<Rightarrow> nat \<Rightarrow> time \<Rightarrow> js" where
  "roundStart_wire isoDate mid n deadline = JObj
     [(''matchId'', JStr mid), (''roundNumber'', jint (int n)), (''deadline'', JStr (isoDate deadline))]"

definition roundResolved_wire :: "string \<Rightarrow> nat \<Rightarrow> Move \<Rightarrow> Move \<Rightarrow> RoundLabel \<Rightarrow> nat \<Rightarrow> nat \<Rightarrow> js" where
  "roundResolved_wire mid n yours theirs label a b = JObj
     [(''matchId'', JStr mid), (''roundNumber'', jint (int n)), (''yourMove'', JStr (move_word yours)),
      (''theirMove'', JStr (move_word theirs)), (''winner'', JStr (label_text label)),
      (''scoreA'', jint (int a)), (''scoreB'', jint (int b))]"

text \<open>A \<open>reason\<close> that is undefined is no key of the JSON.\<close>

definition matchEnded_wire ::
  "string \<Rightarrow> string option \<Rightarrow> nat \<times> nat \<Rightarrow> int \<times> int \<Rightarrow> MatchEndReason option \<Rightarrow> js" where
  "matchEnded_wire mid winner score elo reason = JObj
     ([(''matchId'', JStr mid), (''winner'', case winner of None \<Rightarrow> JNull | Some u \<Rightarrow> JStr u),
       (''finalScore'', JObj [(''a'', jint (int (fst score))), (''b'', jint (int (snd score)))]),
       (''eloDelta'', JObj [(''a'', jint (fst elo)), (''b'', jint (snd elo))])] @
      (case reason of None \<Rightarrow> [] | Some r \<Rightarrow> [(''reason'', JStr (end_reason_text r))]))"

fun bus_wire :: "(time \<Rightarrow> string) \<Rightarrow> bus_event \<Rightarrow> string \<times> js" where
  "bus_wire isoDate (matchFound mid p n) = (''matchFound'', matchFound_wire mid p n)"
| "bus_wire isoDate (roundStart mid n t) = (''roundStart'', roundStart_wire isoDate mid n t)"
| "bus_wire isoDate (roundResolved mid n m1 m2 l a b) = (''roundResolved'', roundResolved_wire mid n m1 m2 l a b)"
| "bus_wire isoDate (matchEnded mid w s e r) = (''matchEnded'', matchEnded_wire mid w s e r)"

definition resumed_wire :: "(time \<Rightarrow> string) \<Rightarrow> resumed_payload \<Rightarrow> js" where
  "resumed_wire isoDate p = JObj
     [(''matchId'', JStr (rp_matchId p)), (''currentRound'', jint (int (rp_currentRound p))),
      (''scoreA'', jint (int (fst (rp_scores p)))), (''scoreB'', jint (int (snd (rp_scores p)))),
      (''currentState'', JStr (case rp_currentState p of WAITING_PLAYS \<Rightarrow> ''WAITING_PLAYS''
         | RESOLVING \<Rightarrow> ''RESOLVING'' | ENDED \<Rightarrow> ''ENDED'')),
      (''deadline'', JStr (isoDate (rp_deadline p)))]"

fun socket_wire :: "(time \<Rightarrow> string) \<Rightarrow> socket_event \<Rightarrow> string \<times> js" where
  "socket_wire isoDate (EmitBus ev) = bus_wire isoDate ev"
| "socket_wire isoDate (EmitConnected u n) = (''connected'', JObj [(''userId'', JStr u), (''displayName'', JStr n)])"
| "socket_wire isoDate (EmitResumed p) = (''matchResumed'', resumed_wire isoDate p)"
| "socket_wire isoDate (EmitError code) = (''error'', JObj [(''code'', JStr code), (''message'', JStr code)])"
| "socket_wire isoDate (EmitQueueJoined t r) =
     (''queueJoined'', JObj [(''queuedAt'', JStr (isoDate t)), (''currentRating'', jint r)])"
| "socket_wire isoDate EmitQueueLeft = (''queueLeft'', JObj [])"

subsection \<open>The schemas accept them as they are\<close>

lemma zod_jint [simp]:
  "zod_doc d (ZNumber cs) (jint i) = (if list_all (num_passes (of_int i)) cs then Some (jint i) else None)"
  by (simp add: jint_def)

lemma min_one [simp]: "Suc 0 \<le> length s \<longleftrightarrow> s \<noteq> []"
  by (cases s) simp_all

lemma zod_moves [simp]: "zod_doc d moveSchema (JStr (move_word m)) = Some (JStr (move_word m))"
  by (cases m) (simp_all add: moveSchema_def move_word_def)

lemma zod_labels [simp]: "zod_doc d roundWinnerSchema (JStr (label_text l)) = Some (JStr (label_text l))"
  by (cases l) (simp_all add: roundWinnerSchema_def label_text_def)

lemma zod_reasons [simp]: "zod_doc d matchEndReasonSchema (JStr (end_reason_text r)) = Some (JStr (end_reason_text r))"
  by (cases r) (simp_all add: matchEndReasonSchema_def end_reason_text_def)

lemma three_js: "JNum 3 = jint 3" "(jint (int n) = jint 3) = (n = 3)"
  by (simp_all add: jint_def)

end
