(* ===== verification/Front_Socket.thy ===== *)
theory Front_Socket
  imports Front_Schemas
begin

section \<open>apps/front: the socket of a player and the pages of a match\<close>

text \<open>
  \<open>hooks/useGameSocket.ts\<close> and the pages and components that show its state: \<open>pages/LobbyPage.tsx\<close>,
  \<open>pages/MatchPage.tsx\<close>, \<open>components/MatchHeader.tsx\<close>, \<open>components/RoundResultBanner.tsx\<close>,
  \<open>components/FinalScreen.tsx\<close> and \<open>hooks/useDeadlineCountdown.ts\<close>. The states of React are the fields of
  one record; the setters of one handler take effect in their order. What the session storage holds is
  the JSON of a value, or a text that is no JSON. Of the socket it keeps whether it is connected and
  what was emitted on it. The accented letters of a message are their two bytes.
\<close>

subsection \<open>useGameSocket.ts: the state\<close>

datatype connection_state = GcDisconnected | GcConnecting | GcConnected

record game_client =
  gc_connectionState :: connection_state
  gc_queue :: js
  gc_activeMatch :: js
  gc_round :: js
  gc_roundResult :: js
  gc_matchEnded :: js
  gc_score :: js
  gc_awaitingOpponent :: bool
  gc_error :: js
  gc_matchFoundVersion :: nat
  gc_storage :: "string \<rightharpoonup> js stored"
  gc_socket :: "bool option"
  gc_sent :: "(string \<times> js) list"

definition activeMatchStoragePrefix :: string where "activeMatchStoragePrefix = ''chifoumi.activeMatch''"

definition activeMatchStorageKey :: "string \<Rightarrow> string" where
  "activeMatchStorageKey userId = activeMatchStoragePrefix @ '':'' @ userId"

definition gs_error :: "string \<Rightarrow> string \<Rightarrow> js" where
  "gs_error code message = JObj [(''code'', JStr code), (''message'', JStr message)]"

definition e_acute :: string where "e_acute = [CHR 0xC3, CHR 0xA9]"

definition idle_queue :: js where "idle_queue = JObj [(''status'', JStr ''idle'')]"

definition score_js :: "js \<Rightarrow> js \<Rightarrow> js" where "score_js a b = JObj [(''a'', a), (''b'', b)]"

text \<open>The second case of \<open>readStoredMatch\<close> is the empty text and the text that \<open>JSON.parse\<close> refuses.\<close>

definition readStoredMatch ::
  "(schema \<Rightarrow> js \<Rightarrow> js option) \<Rightarrow> string option \<Rightarrow> (string \<rightharpoonup> js stored) \<Rightarrow> js" where
  "readStoredMatch safeParse userId storage =
     (if \<not> truthy userId then JNull
      else case storage (activeMatchStorageKey (the userId)) of
        None \<Rightarrow> JNull
      | Some (Txt t) \<Rightarrow> JNull
      | Some (Json v) \<Rightarrow> (case safeParse matchFoundPayloadSchema v of Some m \<Rightarrow> m | None \<Rightarrow> JNull))"

definition storeMatch :: "string \<Rightarrow> js \<Rightarrow> (string \<rightharpoonup> js stored) \<Rightarrow> (string \<rightharpoonup> js stored)" where
  "storeMatch userId m storage = storage(activeMatchStorageKey userId \<mapsto> Json m)"

text \<open>The first render of the hook, over what the session storage holds.\<close>

definition gc_init ::
  "(schema \<Rightarrow> js \<Rightarrow> js option) \<Rightarrow> string option \<Rightarrow> (string \<rightharpoonup> js stored) \<Rightarrow> game_client" where
  "gc_init safeParse userId storage =
     \<lparr>gc_connectionState = GcDisconnected, gc_queue = idle_queue,
      gc_activeMatch = readStoredMatch safeParse userId storage, gc_round = JNull, gc_roundResult = JNull,
      gc_matchEnded = JNull, gc_score = score_js (jint 0) (jint 0), gc_awaitingOpponent = False, gc_error = JNull,
      gc_matchFoundVersion = 0, gc_storage = storage, gc_socket = None, gc_sent = []\<rparr>"

definition parsePayload ::
  "(schema \<Rightarrow> js \<Rightarrow> js option) \<Rightarrow> schema \<Rightarrow> js \<Rightarrow> string \<Rightarrow> game_client \<Rightarrow> js option \<times> game_client" where
  "parsePayload safeParse schema payload event c =
     (case safeParse schema payload of
        Some data \<Rightarrow> (Some data, c)
      | None \<Rightarrow> (None, c\<lparr>gc_error := gs_error ''INVALID_SERVER_PAYLOAD''
          (''Le serveur a envoy'' @ e_acute @ '' un '' @ e_acute @ ''v'' @ e_acute @ ''nement '' @ event @ '' invalide'')\<rparr>))"

subsection \<open>useGameSocket.ts: the handlers of the events of the socket\<close>

definition on_connect :: "game_client \<Rightarrow> game_client" where
  "on_connect c = c\<lparr>gc_connectionState := GcConnected, gc_error := JNull\<rparr>"

definition on_disconnect :: "game_client \<Rightarrow> game_client" where
  "on_disconnect c = c\<lparr>gc_connectionState := GcDisconnected\<rparr>"

text \<open>The \<open>code\<close> of the data of the error, undefined when there is none.\<close>

fun readConnectionErrorCode :: "js \<Rightarrow> js" where
  "readConnectionErrorCode (JStr s) = JStr s"
| "readConnectionErrorCode (JNum q) = JNum q"
| "readConnectionErrorCode _ = JStr ''CONNECTION_ERROR''"

definition on_connect_error :: "js \<Rightarrow> string \<Rightarrow> game_client \<Rightarrow> game_client" where
  "on_connect_error code message c =
     c\<lparr>gc_connectionState := GcDisconnected,
       gc_error := JObj [(''code'', readConnectionErrorCode code),
         (''message'', JStr (if message = [] then ''Connexion au jeu impossible'' else message))]\<rparr>"

fun spread_status :: "string \<Rightarrow> js \<Rightarrow> js" where
  "spread_status s (JObj kvs) = JObj ((''status'', JStr s) # kvs)"
| "spread_status s v = JObj [(''status'', JStr s)]"

definition on_queueJoined :: "(schema \<Rightarrow> js \<Rightarrow> js option) \<Rightarrow> js \<Rightarrow> game_client \<Rightarrow> game_client" where
  "on_queueJoined safeParse payload c =
     (case parsePayload safeParse queueJoinedPayloadSchema payload ''queueJoined'' c of
        (None, c') \<Rightarrow> c'
      | (Some parsed, c') \<Rightarrow> c'\<lparr>gc_queue := spread_status ''queued'' parsed\<rparr>)"

definition on_queueLeft :: "game_client \<Rightarrow> game_client" where
  "on_queueLeft c = c\<lparr>gc_queue := idle_queue\<rparr>"

definition on_matchFound :: "(schema \<Rightarrow> js \<Rightarrow> js option) \<Rightarrow> string \<Rightarrow> js \<Rightarrow> game_client \<Rightarrow> game_client" where
  "on_matchFound safeParse userId payload c =
     (case parsePayload safeParse matchFoundPayloadSchema payload ''matchFound'' c of
        (None, c') \<Rightarrow> c'
      | (Some parsed, c') \<Rightarrow> c'\<lparr>gc_storage := storeMatch userId parsed (gc_storage c'), gc_activeMatch := parsed,
          gc_queue := idle_queue, gc_matchEnded := JNull, gc_score := score_js (jint 0) (jint 0),
          gc_matchFoundVersion := gc_matchFoundVersion c' + 1\<rparr>)"

definition on_roundStart :: "(schema \<Rightarrow> js \<Rightarrow> js option) \<Rightarrow> js \<Rightarrow> game_client \<Rightarrow> game_client" where
  "on_roundStart safeParse payload c =
     (case parsePayload safeParse roundStartPayloadSchema payload ''roundStart'' c of
        (None, c') \<Rightarrow> c'
      | (Some parsed, c') \<Rightarrow> c'\<lparr>gc_round := parsed, gc_awaitingOpponent := False\<rparr>)"

definition on_roundResolved :: "(schema \<Rightarrow> js \<Rightarrow> js option) \<Rightarrow> js \<Rightarrow> game_client \<Rightarrow> game_client" where
  "on_roundResolved safeParse payload c =
     (case parsePayload safeParse roundResolvedPayloadSchema payload ''roundResolved'' c of
        (None, c') \<Rightarrow> c'
      | (Some parsed, c') \<Rightarrow> c'\<lparr>gc_roundResult := parsed,
          gc_score := score_js (fld ''scoreA'' parsed) (fld ''scoreB'' parsed), gc_awaitingOpponent := False\<rparr>)"

definition on_matchEnded :: "(schema \<Rightarrow> js \<Rightarrow> js option) \<Rightarrow> js \<Rightarrow> game_client \<Rightarrow> game_client" where
  "on_matchEnded safeParse payload c =
     (case parsePayload safeParse matchEndedPayloadSchema payload ''matchEnded'' c of
        (None, c') \<Rightarrow> c'
      | (Some parsed, c') \<Rightarrow> c'\<lparr>gc_matchEnded := parsed, gc_score := fld ''finalScore'' parsed,
          gc_awaitingOpponent := False\<rparr>)"

text \<open>\<open>JNull\<close> has no \<open>matchId\<close>, and the one of \<open>resumed\<close> is a string: \<open>?.\<close> compares them unequal.\<close>

definition restoreResumedMatch :: "string \<Rightarrow> js \<Rightarrow> game_client \<Rightarrow> game_client" where
  "restoreResumedMatch userId resumed c =
     (let m = (if fld ''matchId'' (gc_activeMatch c) = fld ''matchId'' resumed then gc_activeMatch c
               else JObj [(''matchId'', fld ''matchId'' resumed),
                 (''opponent'', JObj [(''displayName'', JStr ''Adversaire''), (''rating'', jint 0)]),
                 (''bestOf'', jint 3)])
      in c\<lparr>gc_storage := storeMatch userId m (gc_storage c), gc_activeMatch := m\<rparr>)"

definition on_matchResumed :: "(schema \<Rightarrow> js \<Rightarrow> js option) \<Rightarrow> string \<Rightarrow> js \<Rightarrow> game_client \<Rightarrow> game_client" where
  "on_matchResumed safeParse userId payload c =
     (case parsePayload safeParse matchResumedPayloadSchema payload ''matchResumed'' c of
        (None, c') \<Rightarrow> c'
      | (Some parsed, c') \<Rightarrow> (restoreResumedMatch userId parsed c')
          \<lparr>gc_round := JObj [(''matchId'', fld ''matchId'' parsed), (''roundNumber'', fld ''currentRound'' parsed),
             (''deadline'', fld ''deadline'' parsed)],
           gc_roundResult := JNull, gc_matchEnded := JNull,
           gc_score := score_js (fld ''scoreA'' parsed) (fld ''scoreB'' parsed), gc_awaitingOpponent := False\<rparr>)"

definition on_error :: "(schema \<Rightarrow> js \<Rightarrow> js option) \<Rightarrow> js \<Rightarrow> game_client \<Rightarrow> game_client" where
  "on_error safeParse payload c =
     c\<lparr>gc_error := (case safeParse gameSocketErrorSchema payload of
          Some data \<Rightarrow> data
        | None \<Rightarrow> gs_error ''INVALID_ERROR_PAYLOAD'' ''Erreur de jeu inattendue''),
       gc_awaitingOpponent := False\<rparr>"

text \<open>
  The dispatch: a message of another name has no handler. \<open>connect\<close> and \<open>disconnect\<close> are raised by
  the library, which has set \<open>connected\<close> by then.
\<close>

definition gc_message :: "(schema \<Rightarrow> js \<Rightarrow> js option) \<Rightarrow> string \<Rightarrow> string \<times> js \<Rightarrow> game_client \<Rightarrow> game_client" where
  "gc_message safeParse userId m c =
     (let event = fst m; payload = snd m in
      if event = ''queueJoined'' then on_queueJoined safeParse payload c
      else if event = ''queueLeft'' then on_queueLeft c
      else if event = ''matchFound'' then on_matchFound safeParse userId payload c
      else if event = ''roundStart'' then on_roundStart safeParse payload c
      else if event = ''roundResolved'' then on_roundResolved safeParse payload c
      else if event = ''matchEnded'' then on_matchEnded safeParse payload c
      else if event = ''matchResumed'' then on_matchResumed safeParse userId payload c
      else if event = ''error'' then on_error safeParse payload c
      else c)"

datatype socket_input = SockConnect | SockDisconnect | SockConnectError js string | SockMessage "string \<times> js"

definition gc_input :: "(schema \<Rightarrow> js \<Rightarrow> js option) \<Rightarrow> string \<Rightarrow> socket_input \<Rightarrow> game_client \<Rightarrow> game_client" where
  "gc_input safeParse userId i c =
     (case gc_socket c of
        None \<Rightarrow> c
      | Some _ \<Rightarrow> (case i of
          SockConnect \<Rightarrow> on_connect (c\<lparr>gc_socket := Some True\<rparr>)
        | SockDisconnect \<Rightarrow> on_disconnect (c\<lparr>gc_socket := Some False\<rparr>)
        | SockConnectError code message \<Rightarrow> on_connect_error code message (c\<lparr>gc_socket := Some False\<rparr>)
        | SockMessage m \<Rightarrow> gc_message safeParse userId m c))"

subsection \<open>useGameSocket.ts: the effect and the actions\<close>

definition gc_mount ::
  "(schema \<Rightarrow> js \<Rightarrow> js option) \<Rightarrow> string option \<Rightarrow> string option \<Rightarrow> game_client \<Rightarrow> game_client" where
  "gc_mount safeParse token userId c =
     (if \<not> truthy token \<or> \<not> truthy userId
      then c\<lparr>gc_connectionState := GcDisconnected, gc_activeMatch := JNull\<rparr>
      else c\<lparr>gc_activeMatch := readStoredMatch safeParse userId (gc_storage c),
             gc_connectionState := GcConnecting, gc_socket := Some False\<rparr>)"

text \<open>The clean-up of the effect, which is there only when the effect made a socket.\<close>

definition gc_unmount :: "game_client \<Rightarrow> game_client" where
  "gc_unmount c = (case gc_socket c of None \<Rightarrow> c
     | Some _ \<Rightarrow> c\<lparr>gc_socket := None, gc_connectionState := GcDisconnected\<rparr>)"

definition disconnected_error :: js where
  "disconnected_error = gs_error ''SOCKET_DISCONNECTED'' ''Connexion au jeu indisponible''"

definition gc_joinQueue :: "game_client \<Rightarrow> game_client" where
  "gc_joinQueue c =
     (if gc_socket c \<noteq> Some True then c\<lparr>gc_error := disconnected_error\<rparr>
      else c\<lparr>gc_error := JNull, gc_sent := gc_sent c @ [(''joinQueue'', JObj [])]\<rparr>)"

definition gc_leaveQueue :: "game_client \<Rightarrow> game_client" where
  "gc_leaveQueue c = (if gc_socket c = None then c else c\<lparr>gc_sent := gc_sent c @ [(''leaveQueue'', JObj [])]\<rparr>)"

definition gc_play :: "string \<Rightarrow> js \<Rightarrow> string \<Rightarrow> game_client \<Rightarrow> game_client" where
  "gc_play mid roundNumber move c =
     (if gc_socket c \<noteq> Some True then c\<lparr>gc_error := disconnected_error\<rparr>
      else c\<lparr>gc_awaitingOpponent := True, gc_error := JNull,
        gc_sent := gc_sent c @ [(''play'', JObj [(''matchId'', JStr mid), (''roundNumber'', roundNumber),
          (''move'', JStr move)])]\<rparr>)"

definition gc_clearMatch :: "string option \<Rightarrow> game_client \<Rightarrow> game_client" where
  "gc_clearMatch userId c =
     c\<lparr>gc_storage := (if truthy userId then (gc_storage c)(activeMatchStorageKey (the userId) := None) else gc_storage c),
       gc_activeMatch := JNull, gc_round := JNull, gc_roundResult := JNull, gc_matchEnded := JNull,
       gc_score := score_js (jint 0) (jint 0), gc_awaitingOpponent := False\<rparr>"

definition gc_clearError :: "game_client \<Rightarrow> game_client" where "gc_clearError c = c\<lparr>gc_error := JNull\<rparr>"

definition gc_acknowledgeMatchFound :: "game_client \<Rightarrow> game_client" where
  "gc_acknowledgeMatchFound c = c\<lparr>gc_matchFoundVersion := 0\<rparr>"

end
