(* ===== verification/Front_Pages.thy ===== *)
theory Front_Pages
  imports Front_Socket
begin

section \<open>apps/front: what the pages show and let the player do\<close>

text \<open>
  \<open>pages/LobbyPage.tsx\<close>, \<open>pages/MatchPage.tsx\<close> and their components as functions from the state of
  \<open>useGameSocket\<close> to what is on the screen, and the steps a page can take. The parser of dates and the
  current time are arguments; the countdown is the one of the tick at that time.
\<close>

datatype outcome = OutcomeWin | OutcomeLoss | OutcomeDraw

fun jnum :: "js \<Rightarrow> rat" where
  "jnum (JNum q) = q"
| "jnum _ = 0"

lemma jnum_jint [simp]: "jnum (jint i) = of_int i"
  by (simp add: jint_def)

subsection \<open>RoundResultBanner.tsx and FinalScreen.tsx\<close>

definition resolvePersonalOutcome :: "js \<Rightarrow> js \<Rightarrow> outcome" where
  "resolvePersonalOutcome yourMove theirMove =
     (if yourMove = theirMove then OutcomeDraw
      else if yourMove = JStr ''rock'' \<and> theirMove = JStr ''scissors'' \<or>
              yourMove = JStr ''paper'' \<and> theirMove = JStr ''rock'' \<or>
              yourMove = JStr ''scissors'' \<and> theirMove = JStr ''paper'' then OutcomeWin
      else OutcomeLoss)"

definition getMatchOutcome :: "js \<Rightarrow> string \<Rightarrow> outcome" where
  "getMatchOutcome result userId =
     (if fld ''winner'' result = JNull then OutcomeDraw
      else if fld ''winner'' result = JStr userId then OutcomeWin else OutcomeLoss)"

definition getPersonalDelta :: "js \<Rightarrow> outcome \<Rightarrow> rat" where
  "getPersonalDelta result outcome =
     (let a = jnum (fld ''a'' (fld ''eloDelta'' result)); b = jnum (fld ''b'' (fld ''eloDelta'' result)) in
      if outcome = OutcomeDraw then (if \<bar>a\<bar> \<le> \<bar>b\<bar> then a else b)
      else if outcome = OutcomeWin then max a b else min a b)"

definition final_title :: "js \<Rightarrow> outcome \<Rightarrow> string" where
  "final_title result outcome =
     (if fld ''reason'' result = JStr ''FORFEIT_TIMEOUT'' \<and> outcome = OutcomeLoss
      then ''D'' @ e_acute @ ''faite par forfait''
      else if outcome = OutcomeWin then ''Victoire''
      else if outcome = OutcomeLoss then ''D'' @ e_acute @ ''faite'' else ''Match nul'')"

record final_view =
  fv_outcome :: outcome
  fv_title :: string
  fv_score :: "js \<times> js"
  fv_delta :: rat

definition FinalScreen :: "js \<Rightarrow> string \<Rightarrow> final_view" where
  "FinalScreen result userId =
     (let outcome = getMatchOutcome result userId in
      \<lparr>fv_outcome = outcome, fv_title = final_title result outcome,
       fv_score = (fld ''a'' (fld ''finalScore'' result), fld ''b'' (fld ''finalScore'' result)),
       fv_delta = getPersonalDelta result outcome\<rparr>)"

subsection \<open>useDeadlineCountdown.ts\<close>

fun getRemainingMs :: "(string \<Rightarrow> time option) \<Rightarrow> time \<Rightarrow> js \<Rightarrow> int" where
  "getRemainingMs parseDate now (JStr s) =
     (if s = [] then 0 else case parseDate s of None \<Rightarrow> 0 | Some d \<Rightarrow> max 0 (d - now))"
| "getRemainingMs parseDate now _ = 0"

definition useDeadlineCountdown :: "(string \<Rightarrow> time option) \<Rightarrow> time \<Rightarrow> js \<Rightarrow> int" where
  "useDeadlineCountdown parseDate now deadline =
     max 0 \<lceil>of_int (getRemainingMs parseDate now deadline) / (1000 :: rat)\<rceil>"

subsection \<open>MatchPage.tsx\<close>

text \<open>\<open>MatchHeader.tsx\<close> puts the first number of the score beside the player, under ``Vous''.\<close>

definition MatchHeader :: "js \<Rightarrow> js \<times> js" where
  "MatchHeader score = (fld ''a'' score, fld ''b'' score)"

record play_view =
  pv_opponent :: js
  pv_score :: "js \<times> js"
  pv_round :: js
  pv_countdown :: int
  pv_canPlay :: bool
  pv_waiting :: bool
  pv_result :: "outcome option"
  pv_error :: js

datatype match_view = NoView | NotFoundView | FinalView final_view | PlayView play_view

definition MatchPage ::
  "(string \<Rightarrow> time option) \<Rightarrow> time \<Rightarrow> string option \<Rightarrow> string option \<Rightarrow> game_client \<Rightarrow> match_view" where
  "MatchPage parseDate now userId mid game =
     (let countdown = useDeadlineCountdown parseDate now (fld ''deadline'' (gc_round game)) in
      case userId of
        None \<Rightarrow> NoView
      | Some u \<Rightarrow>
          if \<not> truthy mid \<or> gc_activeMatch game = JNull \<or> fld ''matchId'' (gc_activeMatch game) \<noteq> JStr (the mid)
          then NotFoundView
          else if gc_matchEnded game \<noteq> JNull then FinalView (FinalScreen (gc_matchEnded game) u)
          else PlayView
            \<lparr>pv_opponent = fld ''opponent'' (gc_activeMatch game), pv_score = MatchHeader (gc_score game),
             pv_round = (if gc_round game = JNull then jint 1 else fld ''roundNumber'' (gc_round game)),
             pv_countdown = countdown,
             pv_canPlay = (gc_round game \<noteq> JNull \<and> 0 < countdown \<and> \<not> gc_awaitingOpponent game \<and>
               gc_connectionState game = GcConnected),
             pv_waiting = gc_awaitingOpponent game,
             pv_result = (if gc_roundResult game = JNull then None
               else Some (resolvePersonalOutcome (fld ''yourMove'' (gc_roundResult game)) (fld ''theirMove'' (gc_roundResult game)))),
             pv_error = gc_error game\<rparr>)"

text \<open>\<open>play\<close> and \<open>returnToLobby\<close> of the page.\<close>

definition page_play :: "string \<Rightarrow> string \<Rightarrow> game_client \<Rightarrow> game_client" where
  "page_play mid move game =
     (if gc_round game \<noteq> JNull then gc_play mid (fld ''roundNumber'' (gc_round game)) move game else game)"

definition returnToLobby :: "string option \<Rightarrow> game_client \<Rightarrow> game_client" where
  "returnToLobby userId game = gc_clearMatch userId game"

text \<open>\<open>MoveButtons.tsx\<close>: a button played is not enabled again before the key, the round, changes.\<close>

record move_buttons =
  mb_key :: js
  mb_hasPlayed :: bool

definition mb_render :: "js \<Rightarrow> move_buttons option \<Rightarrow> move_buttons" where
  "mb_render key mb = (case mb of
      Some b \<Rightarrow> if mb_key b = key then b else \<lparr>mb_key = key, mb_hasPlayed = False\<rparr>
    | None \<Rightarrow> \<lparr>mb_key = key, mb_hasPlayed = False\<rparr>)"

definition mb_isDisabled :: "bool \<Rightarrow> move_buttons \<Rightarrow> bool" where
  "mb_isDisabled disabled b \<longleftrightarrow> disabled \<or> mb_hasPlayed b"

subsection \<open>LobbyPage.tsx\<close>

definition is_queued :: "game_client \<Rightarrow> bool" where
  "is_queued game \<longleftrightarrow> fld ''status'' (gc_queue game) = JStr ''queued''"

text \<open>The button ``Trouver un match'' is there and enabled.\<close>

definition canFindMatch :: "game_client \<Rightarrow> bool" where
  "canFindMatch game \<longleftrightarrow> \<not> is_queued game \<and> gc_connectionState game = GcConnected \<and> gc_activeMatch game = JNull"

text \<open>The first effect: the match that was found is acknowledged and its page is opened.\<close>

definition lobby_navigate :: "game_client \<Rightarrow> game_client \<times> string option" where
  "lobby_navigate game =
     (if 0 < gc_matchFoundVersion game \<and> gc_activeMatch game \<noteq> JNull
      then (gc_acknowledgeMatchFound game,
        case fld ''matchId'' (gc_activeMatch game) of JStr mid \<Rightarrow> Some (''/match/'' @ mid) | _ \<Rightarrow> None)
      else (game, None))"

definition formatDuration :: "int \<Rightarrow> string" where
  "formatDuration ms =
     (let totalSeconds = ms div 1000; seconds = show_int (totalSeconds mod 60) in
      show_int (totalSeconds div 60) @ '':'' @ replicate (2 - length seconds) CHR ''0'' @ seconds)"

text \<open>\<open>None\<close> is \<open>NaN\<close>, for a text that is no date.\<close>

definition useQueueElapsed :: "(string \<Rightarrow> time option) \<Rightarrow> time \<Rightarrow> js \<Rightarrow> int option" where
  "useQueueElapsed parseDate now queuedAt = (case queuedAt of
      JStr s \<Rightarrow> if s = [] then Some 0 else map_option (\<lambda>d. max 0 (now - d)) (parseDate s)
    | _ \<Rightarrow> Some 0)"

subsection \<open>The steps of a page\<close>

text \<open>
  What changes the state while a player has a page open: the buttons that are on the page, the events
  of the socket in \<open>inputs\<close>, the effect of the lobby, a new access token, and a reload, which keeps
  the session storage. \<open>parseDate\<close> and \<open>now\<close> vary with the step.
\<close>

inductive page_step ::
  "(schema \<Rightarrow> js \<Rightarrow> js option) \<Rightarrow> string \<Rightarrow> socket_input set \<Rightarrow> game_client \<Rightarrow> game_client \<Rightarrow> bool"
  for safeParse u inputs where
  find_match: "canFindMatch c \<Longrightarrow> page_step safeParse u inputs c (gc_joinQueue c)"
| cancel_search: "is_queued c \<Longrightarrow> page_step safeParse u inputs c (gc_leaveQueue c)"
| move: "MatchPage parseDate now (Some u) mid c = PlayView v \<Longrightarrow> pv_canPlay v \<Longrightarrow>
    page_step safeParse u inputs c (page_play (the mid) m c)"
| return: "MatchPage parseDate now (Some u) mid c = FinalView v \<Longrightarrow>
    page_step safeParse u inputs c (returnToLobby (Some u) c)"
| close_notice: "gc_error c \<noteq> JNull \<Longrightarrow> page_step safeParse u inputs c (gc_clearError c)"
| navigation: "page_step safeParse u inputs c (fst (lobby_navigate c))"
| event: "i \<in> inputs \<Longrightarrow> page_step safeParse u inputs c (gc_input safeParse u i c)"
| new_token: "page_step safeParse u inputs c (gc_mount safeParse token (Some u) (gc_unmount c))"
| reload: "page_step safeParse u inputs c (gc_mount safeParse token (Some u) (gc_init safeParse (Some u) (gc_storage c)))"

inductive_cases page_stepE: "page_step safeParse u inputs c c'"

end
