(* ===== verification/Front_Match_Props.thy ===== *)
theory Front_Match_Props
  imports Front_Pages
begin

section \<open>From the service to the screen\<close>

text \<open>
  The messages of the game service, relayed to the sockets of the players and read by their clients:
  the schemas accept all of them, and the client of each player shows the state the service keeps.
\<close>

subsection \<open>The schemas accept the messages of the service\<close>

lemma zod_matchFound:
  assumes "mid \<noteq> []" and "mp_userId p \<noteq> []" and "mp_displayName p \<noteq> []"
  shows "zod_doc d matchFoundPayloadSchema (matchFound_wire mid p 3) = Some (matchFound_wire mid p 3)"
  using assms by (simp add: matchFoundPayloadSchema_def matchFound_wire_def three_js)

lemma zod_roundStart:
  assumes "mid \<noteq> []" and "0 < n" and "d (isoDate t)"
  shows "zod_doc d roundStartPayloadSchema (roundStart_wire isoDate mid n t) = Some (roundStart_wire isoDate mid n t)"
  using assms by (simp add: roundStartPayloadSchema_def roundStart_wire_def)

lemma zod_roundResolved:
  assumes "mid \<noteq> []" and "0 < n"
  shows "zod_doc d roundResolvedPayloadSchema (roundResolved_wire mid n m m' l a b) = Some (roundResolved_wire mid n m m' l a b)"
  using assms by (simp add: roundResolvedPayloadSchema_def roundResolved_wire_def)

lemma zod_matchEnded:
  assumes "mid \<noteq> []" and "winner \<noteq> Some []"
  shows "zod_doc d matchEndedPayloadSchema (matchEnded_wire mid winner score elo reason) =
    Some (matchEnded_wire mid winner score elo reason)"
  using assms by (cases winner; cases reason) (simp_all add: matchEndedPayloadSchema_def matchEnded_wire_def)

lemma zod_resumed:
  assumes "rp_matchId p \<noteq> []" and "0 < rp_currentRound p" and "rp_currentState p = WAITING_PLAYS" and "d (isoDate (rp_deadline p))"
  shows "zod_doc d matchResumedPayloadSchema (resumed_wire isoDate p) = Some (resumed_wire isoDate p)"
  using assms by (simp add: matchResumedPayloadSchema_def resumed_wire_def)

lemmas zod_accepts = zod_matchFound zod_roundStart zod_roundResolved zod_matchEnded zod_resumed

text \<open>So the handlers take the data of the message as it was sent.\<close>

lemmas handler_defs = gc_message_def Let_def parsePayload_def on_matchFound_def on_roundStart_def on_roundResolved_def
  on_matchEnded_def on_matchResumed_def on_queueJoined_def on_queueLeft_def on_error_def

lemma zod_matchFound_object: "zod_doc d matchFoundPayloadSchema v = Some m \<Longrightarrow> m \<noteq> JNull \<and> m \<noteq> JUndef"
  by (cases v) (auto simp: matchFoundPayloadSchema_def)

subsection \<open>Relaying the messages\<close>

text \<open>Every instance of the service relays what it receives, in the order of the channel.\<close>

definition deliver :: "'s env \<Rightarrow> (string \<times> bus_msg) list \<Rightarrow> ('s, exn, unit list) eff" where
  "deliver env msgs = allS (map (\<lambda>m. handleMatchMessage env True (Some (snd m))) msgs)"

text \<open>What one socket hears, and the client at its other end.\<close>

definition heard :: "string \<Rightarrow> (string \<times> socket_event) list \<Rightarrow> socket_event list" where
  "heard sid es = map snd (filter (\<lambda>e. fst e = sid) es)"

definition client_hears ::
  "(schema \<Rightarrow> js \<Rightarrow> js option) \<Rightarrow> (time \<Rightarrow> string) \<Rightarrow> string \<Rightarrow> socket_event list \<Rightarrow> game_client \<Rightarrow> game_client" where
  "client_hears safeParse isoDate u evs c = fold (\<lambda>e. gc_message safeParse u (socket_wire isoDate e)) evs c"

text \<open>The match is stored and both players are connected, to different sockets.\<close>

definition wired :: "MatchState \<Rightarrow> string \<Rightarrow> string \<Rightarrow> world \<Rightarrow> bool" where
  "wired st sa sb w \<longleftrightarrow> outages w = [] \<and> is_uuid (matchId st) \<and>
     look (rd w) (matchStateKey (matchId st)) = Some (RStr (Json st)) \<and>
     mp_userId (fst (players st)) \<noteq> [] \<and> mp_userId (snd (players st)) \<noteq> [] \<and>
     look (rd w) (userSocketKey (mp_userId (fst (players st)))) = Some (RStr (Txt sa)) \<and> sa \<noteq> [] \<and>
     look (rd w) (userSocketKey (mp_userId (snd (players st)))) = Some (RStr (Txt sb)) \<and> sb \<noteq> [] \<and> sa \<noteq> sb"

lemma wired_emitted [simp]: "wired st sa sb (w\<lparr>emitted := es\<rparr>) \<longleftrightarrow> wired st sa sb w"
  by (simp add: wired_def)

lemma emit_wired:
  assumes "wired st sa sb w"
  shows "emit_to_user mem_env (mp_userId (fst (players st))) ev w = (Inr (), w\<lparr>emitted := emitted w @ [(sa, EmitBus ev)]\<rparr>)"
    "emit_to_user mem_env (mp_userId (snd (players st))) ev w = (Inr (), w\<lparr>emitted := emitted w @ [(sb, EmitBus ev)]\<rparr>)"
  using assms by (simp_all add: wired_def emit_to_user_def call_by_call e_redis_mem)

lemma relay_wired:
  assumes "wired st sa sb w"
  shows "handleMatchMessage mem_env True (Some \<lparr>bm_event = ev, bm_recipient = Some (mp_userId (fst (players st)))\<rparr>) w =
      (Inr (), w\<lparr>emitted := emitted w @ [(sa, EmitBus ev)]\<rparr>)" (is ?A)
    and "handleMatchMessage mem_env True (Some \<lparr>bm_event = ev, bm_recipient = Some (mp_userId (snd (players st)))\<rparr>) w =
      (Inr (), w\<lparr>emitted := emitted w @ [(sb, EmitBus ev)]\<rparr>)" (is ?B)
    and "event_match ev = matchId st \<Longrightarrow> handleMatchMessage mem_env True (Some \<lparr>bm_event = ev, bm_recipient = None\<rparr>) w =
      (Inr (), w\<lparr>emitted := emitted w @ [(sa, EmitBus ev), (sb, EmitBus ev)]\<rparr>)" (is "_ \<Longrightarrow> ?C")
proof -
  show ?A ?B using assms by (simp_all add: handleMatchMessage_def emitToRecipients_def wired_def emit_wired [OF assms])
  assume "event_match ev = matchId st"
  moreover have "get mem_env (matchStateKey (matchId st)) w = (Inr (Some (Json st)), w)" "matchId st \<noteq> []"
    using assms by (auto simp: wired_def redis_run do_get_def uuid_not_Nil)
  moreover have "wired st sa sb (w\<lparr>emitted := emitted w @ [(sa, EmitBus ev)]\<rparr>)" using assms by simp
  ultimately show ?C
    using emit_wired [OF assms] emit_wired(2) [of st sa sb "w\<lparr>emitted := emitted w @ [(sa, EmitBus ev)]\<rparr>"]
    unfolding handleMatchMessage_def emitToRecipients_def relay_key by (simp add: eff_simps)
qed

lemma sim_deliver:
  assumes "env_ok env view"
  shows "sim view (deliver env msgs) (deliver mem_env msgs)"
  unfolding deliver_def by (intro sim_allS_map game_env.sim_relay game_env.intro assms)

subsection \<open>What a round and the start of a match publish\<close>

definition round_msgs :: "MatchState \<Rightarrow> RoundResolution \<Rightarrow> (string \<times> bus_msg) list" where
  "round_msgs st r =
     (let ev = (\<lambda>m m'. roundResolved (matchId st) (rs_roundNumber r) m m' (label_of (resolveRps (rs_moveA r) (rs_moveB r)))
            (scoreA st) (scoreB st)) in
      [(matchChannel (matchId st), \<lparr>bm_event = ev (rs_moveA r) (rs_moveB r), bm_recipient = Some (mp_userId (fst (players st)))\<rparr>),
       (matchChannel (matchId st), \<lparr>bm_event = ev (rs_moveB r) (rs_moveA r), bm_recipient = Some (mp_userId (snd (players st)))\<rparr>)])"

definition next_round_msg :: "MatchState \<Rightarrow> string \<times> bus_msg" where
  "next_round_msg st = (matchChannel (matchId st),
     \<lparr>bm_event = roundStart (matchId st) (currentRound st) (roundDeadline st), bm_recipient = None\<rparr>)"

text \<open>Nothing of the match was finalized, and the keys of its timers hold texts.\<close>

definition unfinished :: "MatchState \<Rightarrow> world \<Rightarrow> bool" where
  "unfinished st w \<longleftrightarrow> look (rd w) (finalizedKey (matchId st)) = None \<and> end_keys_ok st w \<and>
     (\<forall>j \<in> set (ends w). job_id j \<noteq> matchId st)"

lemma socket_key_free:
  "userSocketKey u \<noteq> matchTimeoutJobKey m" "userSocketKey u \<noteq> finalizedKey m" "userSocketKey u \<noteq> userMatchKey v"
  by (simp_all add: userSocketKey_def matchTimeoutJobKey_def finalizedKey_def userMatchKey_def)

lemma userMatchKey_state: "is_uuid mid \<Longrightarrow> userMatchKey u \<noteq> matchStateKey mid"
  using match_key_neq(3) [of mid u] by (simp add: userMatchKey_def matchByUserKey_def MATCH_BY_USER_PREFIX_def)

lemmas wired_keys = socket_key_free socket_key_free [symmetric] gateway_keys userMatchKey_state
  userMatchKey_state [symmetric] matchStateKey_neq matchStateKey_neq [symmetric]

lemma afterRoundResolved_run:
  assumes w: "wired st sa sb w" and fin: "unfinished st w"
    and rating: "0 \<le> mp_rating (fst (players st))" "0 \<le> mp_rating (snd (players st))"
  obtains elo w' where "afterRoundResolved mem_env st r w = (Inr (), w')" and "resolveEloDelta st = Inr elo"
    and "published w' = published w @ round_msgs st r @ (if status st = ENDED then ended_msgs st elo else [next_round_msg st])"
    and "wired st sa sb w'"
proof -
  define w1 where "w1 = w\<lparr>published := published w @ round_msgs st r\<rparr>"
  have out: "outages w = []" "outages w1 = []" and uuid: "is_uuid (matchId st)" and keys: "end_keys_ok st w1"
    using w fin by (auto simp: wired_def w1_def unfinished_def end_keys_ok_def)
  have pub: "afterRoundResolved mem_env st r w = (if status st = ENDED then finalizeMatch mem_env st w1
      else thenS (schedulePhaseTimeout mem_env (matchId st) (currentRound st) (roundDeadline st))
        (broadcastRoundStart mem_env st) w1)"
    using out by (simp add: afterRoundResolved_def Let_def broadcastToMatch_def eff_simps redis_run w1_def round_msgs_def)
  show ?thesis
  proof (cases "status st = ENDED")
    case True
    have "look (rd w1) (finalizedKey (matchId st)) = None" "\<And>j. j \<in> set (ends w1) \<Longrightarrow> job_id j \<noteq> matchId st"
      using fin by (auto simp: w1_def unfinished_def ends_def)
    from finalizeMatch_first_run [OF out(2) uuid this(1) keys this(2) rating] obtain elo w' where
      w': "resolveEloDelta st = Inr elo" "finalizeMatch mem_env st w1 = (Inr (), w')" "outages w' = []"
      "published w' = published w1 @ ended_msgs st elo"
      "\<And>k. k \<notin> end_keys st \<union> {finalizedKey (matchId st), userMatchKey (mp_userId (fst (players st))),
         userMatchKey (mp_userId (snd (players st)))} \<Longrightarrow> look (rd w') k = look (rd w1) k" by metis
    moreover have "wired st sa sb w'"
      using w w'(3,5) uuid by (simp add: wired_def end_keys_def wired_keys) (simp add: w1_def)
    ultimately show ?thesis using that pub True by (simp add: w1_def)
  next
    case False
    obtain elo where elo: "resolveEloDelta st = Inr elo" using resolveEloDelta_ok [OF rating] by blast
    from scheduleTimeout_run [OF out(2), of "matchId st" "currentRound st" "roundDeadline st"] keys obtain w2 where
      w2: "schedulePhaseTimeout mem_env (matchId st) (currentRound st) (roundDeadline st) w1 = (Inr (), w2)"
      "outages w2 = []" "published w2 = published w1" "\<And>k. k \<noteq> matchTimeoutJobKey (matchId st) \<Longrightarrow> look (rd w2) k = look (rd w1) k"
      by (auto simp: end_keys_ok_def)
    moreover have "wired st sa sb w2"
      using w w2(2,4) by (simp add: wired_def wired_keys) (simp add: w1_def)
    moreover have "broadcastRoundStart mem_env st w2 = (Inr (), w2\<lparr>published := published w2 @ [next_round_msg st]\<rparr>)"
      using w2(2) by (simp add: broadcastRoundStart_def broadcastToMatch_def redis_run next_round_msg_def)
    ultimately show ?thesis
      using that [OF _ elo, of "w2\<lparr>published := published w2 @ [next_round_msg st]\<rparr>"] pub False
      by (simp add: w1_def eff_simps) (simp add: wired_def)
  qed
qed

text \<open>The sockets a message of this match reaches.\<close>

definition reach :: "MatchState \<Rightarrow> string \<Rightarrow> string \<Rightarrow> bus_msg \<Rightarrow> string list" where
  "reach st sa sb m =
     (if bm_recipient m = Some (mp_userId (fst (players st))) then [sa]
      else if bm_recipient m = Some (mp_userId (snd (players st))) then [sb] else [sa, sb])"

definition of_match :: "MatchState \<Rightarrow> bus_msg \<Rightarrow> bool" where
  "of_match st m \<longleftrightarrow> bm_recipient m = Some (mp_userId (fst (players st))) \<or>
     bm_recipient m = Some (mp_userId (snd (players st))) \<or> bm_recipient m = None \<and> event_match (bm_event m) = matchId st"

definition emissions :: "MatchState \<Rightarrow> string \<Rightarrow> string \<Rightarrow> (string \<times> bus_msg) list \<Rightarrow> (string \<times> socket_event) list" where
  "emissions st sa sb msgs =
     concat (map (\<lambda>m. map (\<lambda>sid. (sid, EmitBus (bm_event (snd m)))) (reach st sa sb (snd m))) msgs)"

lemma relay_one:
  assumes "wired st sa sb w" and "of_match st m"
  shows "handleMatchMessage mem_env True (Some m) w =
    (Inr (), w\<lparr>emitted := emitted w @ map (\<lambda>sid. (sid, EmitBus (bm_event m))) (reach st sa sb m)\<rparr>)"
  using assms(2) relay_wired [OF assms(1)] by (cases m) (auto simp: of_match_def reach_def)

lemma deliver_wired:
  "wired st sa sb w \<Longrightarrow> list_all (\<lambda>m. of_match st (snd m)) msgs \<Longrightarrow>
   \<exists>us. deliver mem_env msgs w = (Inr us, w\<lparr>emitted := emitted w @ emissions st sa sb msgs\<rparr>)"
proof (induction msgs arbitrary: w)
  case (Cons m msgs)
  let ?w = "w\<lparr>emitted := emitted w @ map (\<lambda>sid. (sid, EmitBus (bm_event (snd m)))) (reach st sa sb (snd m))\<rparr>"
  have "wired st sa sb ?w" "list_all (\<lambda>m. of_match st (snd m)) msgs" using Cons.prems by simp_all
  from Cons.IH [OF this] obtain us where
    "deliver mem_env msgs ?w = (Inr us, ?w\<lparr>emitted := emitted ?w @ emissions st sa sb msgs\<rparr>)" ..
  with relay_one [OF Cons.prems(1), of "snd m"] Cons.prems(2) show ?case
    by (simp add: deliver_def emissions_def)
qed (simp add: deliver_def emissions_def ret_apply)

subsection \<open>What the client shows\<close>

definition shows_match :: "(time \<Rightarrow> string) \<Rightarrow> MatchState \<Rightarrow> game_client \<Rightarrow> bool" where
  "shows_match isoDate st c \<longleftrightarrow>
     fld ''matchId'' (gc_activeMatch c) = JStr (matchId st) \<and>
     gc_score c = score_js (jint (int (scoreA st))) (jint (int (scoreB st))) \<and> \<not> gc_awaitingOpponent c \<and>
     (if status st = ENDED
      then \<exists>elo. resolveEloDelta st = Inr elo \<and>
        gc_matchEnded c = matchEnded_wire (matchId st) (winnerId st) (scoreA st, scoreB st) elo (endReason st)
      else gc_matchEnded c = JNull \<and>
        gc_round c = roundStart_wire isoDate (matchId st) (currentRound st) (roundDeadline st))"

text \<open>The state can be put on the wire.\<close>

definition sendable :: "MatchState \<Rightarrow> bool" where
  "sendable st \<longleftrightarrow> (if status st = ENDED then winnerId st \<noteq> Some [] else 0 < currentRound st \<and> calendar_time (roundDeadline st))"

text \<open>The client has the match open, and has not been told of an end.\<close>

definition match_open :: "MatchState \<Rightarrow> game_client \<Rightarrow> bool" where
  "match_open st c \<longleftrightarrow> fld ''matchId'' (gc_activeMatch c) = JStr (matchId st) \<and> gc_matchEnded c = JNull"

definition told_round :: "(time \<Rightarrow> string) \<Rightarrow> MatchState \<Rightarrow> nat \<Rightarrow> Move \<Rightarrow> Move \<Rightarrow> RoundLabel \<Rightarrow> game_client \<Rightarrow> game_client \<Rightarrow> bool" where
  "told_round isoDate st n mine theirs label c c' \<longleftrightarrow> shows_match isoDate st c' \<and> gc_error c' = gc_error c \<and>
     gc_roundResult c' = roundResolved_wire (matchId st) n mine theirs label (scoreA st) (scoreB st)"

lemma wire_fields [simp]:
  "fld ''scoreA'' (roundResolved_wire mid n m m' l a b) = jint (int a)"
  "fld ''scoreB'' (roundResolved_wire mid n m m' l a b) = jint (int b)"
  "fld ''yourMove'' (roundResolved_wire mid n m m' l a b) = JStr (move_word m)"
  "fld ''theirMove'' (roundResolved_wire mid n m m' l a b) = JStr (move_word m')"
  "fld ''finalScore'' (matchEnded_wire mid w s e r) = score_js (jint (int (fst s))) (jint (int (snd s)))"
  "fld ''winner'' (matchEnded_wire mid w s e r) = (case w of None \<Rightarrow> JNull | Some u \<Rightarrow> JStr u)"
  "fld ''eloDelta'' (matchEnded_wire mid w s e r) = JObj [(''a'', jint (fst e)), (''b'', jint (snd e))]"
  "fld ''matchId'' (matchFound_wire mid p k) = JStr mid"
  "fld ''deadline'' (roundStart_wire isoDate mid n t) = JStr (isoDate t)"
  "fld ''roundNumber'' (roundStart_wire isoDate mid n t) = jint (int n)"
  by (simp_all add: roundResolved_wire_def matchEnded_wire_def score_js_def matchFound_wire_def roundStart_wire_def
      split: option.split)

text \<open>One round, as one player hears of it.\<close>

lemma hears_round:
  assumes d: "\<And>t. calendar_time t \<Longrightarrow> d (isoDate t)" and "match_open st c" and "sendable st" and "0 < n" and "matchId st \<noteq> []"
    and elo: "resolveEloDelta st = Inr elo"
  shows "told_round isoDate st n m m' l c
    (client_hears (zod_doc d) isoDate u
      [EmitBus (roundResolved (matchId st) n m m' l (scoreA st) (scoreB st)),
       EmitBus (if status st = ENDED then matchEnded (matchId st) (winnerId st) (scoreA st, scoreB st) elo (endReason st)
                else roundStart (matchId st) (currentRound st) (roundDeadline st))] c)"
proof (cases "status st = ENDED")
  case True
  with assms show ?thesis
    by (simp add: client_hears_def handler_defs zod_accepts told_round_def shows_match_def match_open_def sendable_def)
next
  case False
  with assms show ?thesis
    by (simp add: client_hears_def handler_defs zod_accepts told_round_def shows_match_def match_open_def sendable_def)
qed

lemma round_emissions:
  fixes st :: MatchState and r :: RoundResolution and elo :: "int \<times> int"
  assumes "sa \<noteq> sb" and "mp_userId (fst (players st)) \<noteq> mp_userId (snd (players st))"
  defines "l \<equiv> label_of (resolveRps (rs_moveA r) (rs_moveB r))"
    and "fin \<equiv> (if status st = ENDED then matchEnded (matchId st) (winnerId st) (scoreA st, scoreB st) elo (endReason st)
       else roundStart (matchId st) (currentRound st) (roundDeadline st))"
    and "msgs \<equiv> round_msgs st r @ (if status st = ENDED then ended_msgs st elo else [next_round_msg st])"
  shows "list_all (\<lambda>m. of_match st (snd m)) msgs"
    "heard sa (emissions st sa sb msgs) =
      [EmitBus (roundResolved (matchId st) (rs_roundNumber r) (rs_moveA r) (rs_moveB r) l (scoreA st) (scoreB st)), EmitBus fin]"
    "heard sb (emissions st sa sb msgs) =
      [EmitBus (roundResolved (matchId st) (rs_roundNumber r) (rs_moveB r) (rs_moveA r) l (scoreA st) (scoreB st)), EmitBus fin]"
  using assms(1,2) by (simp_all add: msgs_def fin_def l_def round_msgs_def ended_msgs_def next_round_msg_def Let_def
      of_match_def emissions_def reach_def heard_def)

text \<open>
  C8. The clients follow the match. When a round of a stored match is resolved, while no call fails
  and both players are connected, the messages that the service publishes, relayed to the sockets and
  parsed by the clients against the shared schemas, make the client of each player show the new state
  of the service, whatever it showed of the match before: the score, the next round with its deadline, or the end
  of the match with its winner, score, reason and change of rating; beside the result of the round
  from his own side. No message is refused, and nobody is left waiting for the opponent.
\<close>

theorem clients_follow_match:
  assumes "env_ok env view" and "zod_ok safeParse isoDate"
    and "wired st sa sb (view s)" and "unfinished st (view s)" and "sendable st" and "0 < rs_roundNumber r"
    and "mp_userId (fst (players st)) \<noteq> mp_userId (snd (players st))"
    and "0 \<le> mp_rating (fst (players st))" and "0 \<le> mp_rating (snd (players st))"
    and "match_open st ca" and "match_open st cb"
  shows "let s1 = snd (afterRoundResolved env st r s);
      s2 = snd (deliver env (drop (length (published (view s))) (published (view s1))) s1);
      es = drop (length (emitted (view s1))) (emitted (view s2));
      hears = (\<lambda>u sid. client_hears safeParse isoDate u (heard sid es));
      l = label_of (resolveRps (rs_moveA r) (rs_moveB r)) in
    told_round isoDate st (rs_roundNumber r) (rs_moveA r) (rs_moveB r) l ca (hears (mp_userId (fst (players st))) sa ca) \<and>
    told_round isoDate st (rs_roundNumber r) (rs_moveB r) (rs_moveA r) l cb (hears (mp_userId (snd (players st))) sb cb)"
proof -
  let ?w = "view s" and ?A = "mp_userId (fst (players st))" and ?B = "mp_userId (snd (players st))"
  obtain d where d: "safeParse = zod_doc d" "\<And>t. calendar_time t \<Longrightarrow> d (isoDate t)"
    using assms(2) by (auto simp: zod_ok_def)
  obtain elo w1 where w1: "afterRoundResolved mem_env st r ?w = (Inr (), w1)" and elo: "resolveEloDelta st = Inr elo"
    and pub: "published w1 = published ?w @ round_msgs st r @ (if status st = ENDED then ended_msgs st elo else [next_round_msg st])"
    and wired: "wired st sa sb w1"
    by (rule afterRoundResolved_run [OF assms(3,4,8,9)])
  define msgs where "msgs = round_msgs st r @ (if status st = ENDED then ended_msgs st elo else [next_round_msg st])"
  have ab: "sa \<noteq> sb" and mid: "matchId st \<noteq> []" using assms(3) by (auto simp: wired_def uuid_not_Nil)
  note em = round_emissions [OF ab assms(7), of r elo, folded msgs_def]
  from deliver_wired [OF wired em(1)] obtain us where
    w2: "deliver mem_env msgs w1 = (Inr us, w1\<lparr>emitted := emitted w1 @ emissions st sa sb msgs\<rparr>)" ..
  define s1 where "s1 = snd (afterRoundResolved env st r s)"
  have v1: "view s1 = w1"
    using sim_run [OF game_env.sim_afterRoundResolved(1) [OF game_env.intro [OF assms(1)]] w1] by (simp add: s1_def)
  have new: "drop (length (published ?w)) (published (view s1)) = msgs" by (simp add: v1 pub msgs_def)
  have "view (snd (deliver env msgs s1)) = w1\<lparr>emitted := emitted w1 @ emissions st sa sb msgs\<rparr>"
    using sim_run [OF sim_deliver [OF assms(1)] w2 [folded v1]] by (simp add: v1)
  then have es: "drop (length (emitted (view s1))) (emitted (view (snd (deliver env msgs s1)))) = emissions st sa sb msgs"
    by (simp add: v1)
  show ?thesis
    unfolding Let_def s1_def [symmetric] new es em(2,3) d(1)
    using hears_round [where d = d and isoDate = isoDate, OF d(2) assms(10,5,6) mid elo] hears_round [where d = d and isoDate = isoDate, OF d(2) assms(11,5,6) mid elo] by blast
qed

text \<open>The match that alice won against bob, both connected.\<close>

definition front_world :: world where
  "front_world = (idle_world won_match)\<lparr>rd := put (userSocketKey ''a'') (RStr (Txt ''s1'')) None
     (put (userSocketKey ''b'') (RStr (Txt ''s2'')) None (rd (idle_world won_match)))\<rparr>"

definition demo_client :: "MatchPlayer \<Rightarrow> game_client" where
  "demo_client opponent = (gc_init (zod_doc (\<lambda>_. True)) (Some ''u'') (\<lambda>_. None))
     \<lparr>gc_activeMatch := matchFound_wire uuid_m opponent 3\<rparr>"

definition demo_resolution :: RoundResolution where
  "demo_resolution = \<lparr>rs_moveA = Rock, rs_moveB = Scissors, rs_roundNumber = 2\<rparr>"

lemma front_world_look:
  "look (rd front_world) k = (if k = userSocketKey ''a'' then Some (RStr (Txt ''s1''))
     else if k = userSocketKey ''b'' then Some (RStr (Txt ''s2''))
     else if k = matchStateKey uuid_m then Some (RStr (Json won_match)) else None)"
  by (simp add: front_world_def idle_world_look expired_def)

lemma front_world_ready: "wired won_match ''s1'' ''s2'' front_world" "unfinished won_match front_world"
proof -
  have "outages front_world = []" "ends front_world = []" by (simp_all add: front_world_def ends_def idle_world_def)
  moreover have "userSocketKey ''a'' \<noteq> userSocketKey ''b''" "userSocketKey u \<noteq> matchStateKey uuid_m"
    "matchDisconnectForfeitJobKey u \<noteq> matchStateKey uuid_m" "matchDisconnectForfeitJobKey u \<noteq> userSocketKey v" for u v
    by (simp_all add: userSocketKey_inject gateway_keys)
  ultimately show "wired won_match ''s1'' ''s2'' front_world" "unfinished won_match front_world"
    by (auto simp: wired_def unfinished_def end_keys_ok_def lock_key_ok_def front_world_look demo_players_def wired_keys)
qed

lemma zod_ok_doc: "zod_ok (zod_doc (\<lambda>_. True)) isoDate"
  by (auto simp: zod_ok_def)

lemma clients_follow_match_witness:
  "let s1 = snd (afterRoundResolved mem_env won_match demo_resolution front_world);
      s2 = snd (deliver mem_env (drop (length (published front_world)) (published s1)) s1);
      es = drop (length (emitted s1)) (emitted s2);
      hears = (\<lambda>u sid. client_hears (zod_doc (\<lambda>_. True)) show_int u (heard sid es)) in
    fv_outcome (FinalScreen (gc_matchEnded (hears ''a'' ''s1'' (demo_client (snd demo_players)))) ''a'') = OutcomeWin \<and>
    fv_outcome (FinalScreen (gc_matchEnded (hears ''b'' ''s2'' (demo_client (fst demo_players)))) ''b'') = OutcomeLoss"
proof -
  have r: "sendable won_match" "0 < rs_roundNumber demo_resolution"
    "mp_userId (fst (players won_match)) \<noteq> mp_userId (snd (players won_match))"
    "0 \<le> mp_rating (fst (players won_match))" "0 \<le> mp_rating (snd (players won_match))"
    "match_open won_match (demo_client p)" for p
    by (simp_all add: sendable_def won_match_def buildInitialState_def demo_players_def demo_resolution_def
        match_open_def demo_client_def gc_init_def)
  have w: "status won_match = ENDED" "winnerId won_match = Some ''a''"
    "mp_userId (fst (players won_match)) = ''a''" "mp_userId (snd (players won_match)) = ''b''"
    by (simp_all add: won_match_def buildInitialState_def demo_players_def)
  from clients_follow_match [OF env_ok_mem zod_ok_doc front_world_ready r(1-5) r(6) [of "snd demo_players"] r(6) [of "fst demo_players"], of show_int]
  show ?thesis
    unfolding Let_def w
    by (auto simp: told_round_def shows_match_def w FinalScreen_def Let_def getMatchOutcome_def)
qed

end
