(* ===== verification/Front_Screen_Props.thy ===== *)
theory Front_Screen_Props
  imports Front_Match_Props
begin

section \<open>What the player is shown, and what locks him out\<close>

text \<open>
  The reconnected client, the agreement of the screens of a round and of an end with the service, and
  two behaviours of the pages that go against their purpose: the rating change shown after a draw, and
  the lobby of a player who missed the end of a match.
\<close>

subsection \<open>A client that comes back\<close>

lemma hears_resumed:
  assumes d: "\<And>t. calendar_time t \<Longrightarrow> d (isoDate t)" and "matchId st \<noteq> []" and "status st \<noteq> ENDED"
    and "0 < currentRound st" and "calendar_time (roundDeadline st)" and "u \<noteq> []"
    and stored: "gc_activeMatch c = JNull \<or> zod_doc d matchFoundPayloadSchema (gc_activeMatch c) = Some (gc_activeMatch c)"
  shows "let c' = client_hears (zod_doc d) isoDate u [EmitConnected u n, EmitResumed (resumed_of st)] c in
    shows_match isoDate st c' \<and> gc_roundResult c' = JNull \<and> gc_error c' = gc_error c \<and>
    readStoredMatch (zod_doc d) (Some u) (gc_storage c') = gc_activeMatch c'"
proof -
  let ?p = "resumed_of st" and ?m = "JObj [(''matchId'', JStr (matchId st)),
      (''opponent'', JObj [(''displayName'', JStr ''Adversaire''), (''rating'', jint 0)]), (''bestOf'', jint 3)]"
  have z: "zod_doc d matchResumedPayloadSchema (resumed_wire isoDate ?p) = Some (resumed_wire isoDate ?p)"
    using assms by (intro zod_resumed) (simp_all add: resumed_of_def)
  have f: "fld ''matchId'' (resumed_wire isoDate ?p) = JStr (matchId st)"
    "fld ''currentRound'' (resumed_wire isoDate ?p) = jint (int (currentRound st))"
    "fld ''scoreA'' (resumed_wire isoDate ?p) = jint (int (scoreA st))"
    "fld ''scoreB'' (resumed_wire isoDate ?p) = jint (int (scoreB st))"
    "fld ''deadline'' (resumed_wire isoDate ?p) = JStr (isoDate (roundDeadline st))"
    by (simp_all add: resumed_wire_def resumed_of_def)
  have m: "zod_doc d matchFoundPayloadSchema ?m = Some ?m"
    using assms(2) by (simp add: matchFoundPayloadSchema_def three_js)
  show ?thesis
    using assms(2,3,6) stored m
    by (auto simp: client_hears_def handler_defs z f restoreResumedMatch_def shows_match_def roundStart_wire_def
        readStoredMatch_def storeMatch_def)
qed

text \<open>
  C12. A player who comes back during a match. The service tells his new socket where the match stands,
  and whatever the client showed before (a fresh page, an earlier round, another match, an end it was wrongly
  told), it then shows the state of the service, with no result of a round, and has stored the
  match so that a reload of the page finds it again.
\<close>

theorem reconnected_client_shows_match:
  assumes "env_ok env view" and "zod_ok safeParse isoDate" and "playing u st (view s)" and "u \<noteq> []"
    and "look (rd (view s)) (matchDisconnectForfeitJobKey u) = Some (RStr (Txt i))" and "i \<noteq> []"
    and "\<And>j. j \<in> set (jobs (view s)) \<Longrightarrow> is_job MATCH_DISCONNECT_FORFEIT_QUEUE i j \<Longrightarrow> \<not> job_active j"
    and "0 < currentRound st" and "calendar_time (roundDeadline st)"
    and "gc_activeMatch c = JNull \<or> safeParse matchFoundPayloadSchema (gc_activeMatch c) = Some (gc_activeMatch c)"
  shows "let s' = snd (handleConnection env u n sid s);
      c' = client_hears safeParse isoDate u (heard sid (drop (length (emitted (view s))) (emitted (view s')))) c in
    shows_match isoDate st c' \<and> gc_roundResult c' = JNull \<and> gc_error c' = gc_error c \<and>
    readStoredMatch safeParse (Some u) (gc_storage c') = gc_activeMatch c'"
proof -
  obtain d where d: "safeParse = zod_doc d" "\<And>t. calendar_time t \<Longrightarrow> d (isoDate t)"
    using assms(2) by (auto simp: zod_ok_def)
  have st: "matchId st \<noteq> []" "status st \<noteq> ENDED" using assms(3) by (auto simp: playing_def uuid_not_Nil)
  have "emitted (view (snd (handleConnection env u n sid s))) =
      emitted (view s) @ [(sid, EmitConnected u n), (sid, EmitResumed (resumed_of st))]"
    using sim_run [OF game_env.sim_gateway(1) [OF game_env.intro [OF assms(1)]] connection_run [OF assms(3,5-7), of n sid]]
    by simp
  then have "heard sid (drop (length (emitted (view s))) (emitted (view (snd (handleConnection env u n sid s))))) =
      [EmitConnected u n, EmitResumed (resumed_of st)]"
    by (simp add: heard_def)
  with hears_resumed [where d = d and isoDate = isoDate, OF d(2) st assms(8,9,4) assms(10) [unfolded d(1)], of n]
  show ?thesis by (simp add: d(1) Let_def)
qed

lemma reconnected_client_witness:
  "let w = ann_world\<lparr>rd := put (matchDisconnectForfeitJobKey ''a'') (RStr (Txt ''0'')) None (rd ann_world)\<rparr>;
      c = gc_init (zod_doc (\<lambda>_. True)) (Some ''a'') (\<lambda>_. None);
      c' = client_hears (zod_doc (\<lambda>_. True)) show_int ''a'' (heard ''s2'' (emitted (snd (handleConnection mem_env ''a'' ''A'' ''s2'' w)))) c in
    fld ''roundNumber'' (gc_round c') = jint 1 \<and> fld ''matchId'' (gc_activeMatch c') = JStr uuid_m"
proof -
  let ?k = "matchDisconnectForfeitJobKey ''a''"
  let ?w = "ann_world\<lparr>rd := put ?k (RStr (Txt ''0'')) None (rd ann_world)\<rparr>"
  let ?c = "gc_init (zod_doc (\<lambda>_. True)) (Some ''a'') (\<lambda>_. None)"
  have st: "0 < currentRound ann_match" "calendar_time (roundDeadline ann_match)" "status ann_match \<noteq> ENDED"
    "currentRound ann_match = 1" "matchId ann_match = uuid_m"
    by (simp_all add: ann_match_def buildInitialState_def calendar_time_def ROUND_DEADLINE_MS_def)
  have "look (rd ?w) k = (if k = ?k then Some (RStr (Txt ''0'')) else look (rd ann_world) k)" for k
    by (simp add: expired_def)
  then have p: "playing ''a'' ann_match ?w" "look (rd ?w) ?k = Some (RStr (Txt ''0''))"
    using ann_playing by (simp_all add: playing_def gateway_keys)
  have c: "gc_activeMatch ?c = JNull \<or> zod_doc (\<lambda>_. True) matchFoundPayloadSchema (gc_activeMatch ?c) = Some (gc_activeMatch ?c)"
    by (simp add: gc_init_def readStoredMatch_def)
  from reconnected_client_shows_match [where s = ?w and c = ?c, OF env_ok_mem zod_ok_doc p(1) _ p(2) _ _ st(1,2) c, of "''A''" "''s2''"]
  show ?thesis by (simp add: Let_def shows_match_def st)
qed

subsection \<open>The screens of a round and of the end\<close>

definition own_outcome :: "RoundWinner \<Rightarrow> outcome" where
  "own_outcome w = (case w of WinA \<Rightarrow> OutcomeWin | WinB \<Rightarrow> OutcomeLoss | Draw \<Rightarrow> OutcomeDraw)"

definition other_outcome :: "RoundWinner \<Rightarrow> outcome" where
  "other_outcome w = (case w of WinA \<Rightarrow> OutcomeLoss | WinB \<Rightarrow> OutcomeWin | Draw \<Rightarrow> OutcomeDraw)"

lemma move_word_inject [simp]: "move_word m = move_word m' \<longleftrightarrow> m = m'"
  by (cases m; cases m') (simp_all add: move_word_def)

lemma resolvePersonalOutcome_moves:
  "resolvePersonalOutcome (JStr (move_word m)) (JStr (move_word m')) = own_outcome (resolveRps m m')"
  by (cases m; cases m') (simp_all add: resolvePersonalOutcome_def move_word_def resolveRps_def own_outcome_def)

lemma own_other: "own_outcome (resolveRps m' m) = other_outcome (resolveRps m m')"
  by (cases m; cases m') (simp_all add: resolveRps_def own_outcome_def other_outcome_def)

lemma winner_delta_signs:
  assumes "resolveEloDelta st = Inr elo" and "winnerId st = Some w" and "w \<noteq> []"
    and "mp_userId (fst (players st)) \<noteq> mp_userId (snd (players st))"
    and "w \<in> {mp_userId (fst (players st)), mp_userId (snd (players st))}"
  shows "if w = mp_userId (fst (players st)) then snd elo \<le> 0 \<and> 0 \<le> fst elo else fst elo \<le> 0 \<and> 0 \<le> snd elo"
proof -
  obtain r where r: "computeElo (Fin (of_int (mp_rating (fst (players st))))) (Fin (of_int (mp_rating (snd (players st)))))
      (toEloOutcome st) (Fin 0) (Fin 0) = Inr r" and elo: "elo = (deltaA r, deltaB r)"
    using assms(1) by (auto simp: resolveEloDelta_def split: sum.splits)
  have "toEloOutcome st = (if w = mp_userId (fst (players st)) then ''A'' else ''B'')"
    using assms(2,3) by (simp add: toEloOutcome_def)
  with computeElo_valid [OF computeElo_Inr [OF r]] r elo show ?thesis
    by (auto simp: getScorePair_def elo_delta_win elo_delta_loss)
qed

text \<open>
  C13. What a player reads is what the service decided. The banner of a round, which the client works out
  again from the two moves, is the result of the round for the player who looks at it, on both sides; the
  screen of the end says who won to each of the two players; and when somebody won, each reads the
  change of his own rating, although the message does not say which of the two numbers is his.
\<close>

theorem screens_agree_with_service:
  assumes "resolveEloDelta st = Inr elo" and "mp_userId (fst (players st)) \<noteq> mp_userId (snd (players st))"
    and "winnerId st \<in> {None, Some (mp_userId (fst (players st))), Some (mp_userId (snd (players st)))}"
    and "winnerId st \<noteq> Some []"
  shows "resolvePersonalOutcome (JStr (move_word m)) (JStr (move_word m')) = own_outcome (resolveRps m m') \<and>
    resolvePersonalOutcome (JStr (move_word m')) (JStr (move_word m)) = other_outcome (resolveRps m m') \<and>
    (let e = matchEnded_wire (matchId st) (winnerId st) (scoreA st, scoreB st) elo (endReason st);
         a = FinalScreen e (mp_userId (fst (players st))); b = FinalScreen e (mp_userId (snd (players st))) in
      (case winnerId st of
         None \<Rightarrow> fv_outcome a = OutcomeDraw \<and> fv_outcome b = OutcomeDraw
       | Some w \<Rightarrow> fv_outcome a = (if w = mp_userId (fst (players st)) then OutcomeWin else OutcomeLoss) \<and>
           fv_outcome b = (if w = mp_userId (snd (players st)) then OutcomeWin else OutcomeLoss) \<and>
           fv_delta a = of_int (fst elo) \<and> fv_delta b = of_int (snd elo)))"
proof (cases "winnerId st")
  case None
  then show ?thesis
    by (simp add: resolvePersonalOutcome_moves own_other FinalScreen_def Let_def getMatchOutcome_def)
next
  case (Some w)
  with assms(4) have "w \<noteq> []" by auto
  with winner_delta_signs [OF assms(1) Some _ assms(2)] assms(3) Some have
    "if w = mp_userId (fst (players st)) then snd elo \<le> 0 \<and> 0 \<le> fst elo else fst elo \<le> 0 \<and> 0 \<le> snd elo" by auto
  then have le: "if w = mp_userId (fst (players st)) then snd elo \<le> fst elo else fst elo \<le> snd elo"
    by (auto split: if_splits)
  show ?thesis
    using le Some assms(2,3)
    by (auto simp: resolvePersonalOutcome_moves own_other FinalScreen_def Let_def getMatchOutcome_def getPersonalDelta_def
        max_def min_def split: if_splits)
qed

lemma screens_agree_witness:
  "let elo = (case resolveEloDelta won_match of Inr e \<Rightarrow> e | Inl _ \<Rightarrow> (0, 0));
       e = matchEnded_wire uuid_m (winnerId won_match) (scoreA won_match, scoreB won_match) elo (endReason won_match) in
   fv_outcome (FinalScreen e ''b'') = OutcomeLoss \<and> fv_delta (FinalScreen e ''b'') = of_int (snd elo)"
proof -
  obtain elo where elo: "resolveEloDelta won_match = Inr elo"
    by (rule resolveEloDelta_ok [of won_match]) (simp_all add: demo_players_def)
  have "mp_userId (fst (players won_match)) \<noteq> mp_userId (snd (players won_match))"
    "winnerId won_match = Some ''a''" by (simp_all add: demo_players_def) (simp add: won_match_def)
  from screens_agree_with_service [OF elo this(1)] this(2) show ?thesis
    by (simp add: elo demo_players_def Let_def)
qed

subsection \<open>The rating change after a draw\<close>

text \<open>A drawn match between players of 1000 and 1400.\<close>

definition drawn_match :: MatchState where
  "drawn_match = (buildInitialState \<lparr>mp_userId = ''a'', mp_displayName = ''A'', mp_rating = 1000\<rparr>
     \<lparr>mp_userId = ''b'', mp_displayName = ''B'', mp_rating = 1400\<rparr> uuid_m 0 None)
     \<lparr>scoreA := 1, scoreB := 1, currentRound := 5, status := ENDED, endReason := Some MAX_ROUNDS_DRAW\<rparr>"

lemma drawn_delta: "resolveEloDelta drawn_match = Inr (16, - 16)"
proof -
  have e: "getExpectedScore 1400 1000 = 10 / 11" "getExpectedScore 1000 1400 = 1 / 11"
    using expected_400 [of 1000] expected_complement [of 1400 1000] by simp_all
  have v: "valid_args (Fin 1000) (Fin 1400) ''DRAW'' (Fin 0) (Fin 0)" by (simp add: valid_args_def)
  show ?thesis
    using computeElo_valid [OF v]
    by (simp add: resolveEloDelta_def drawn_match_def buildInitialState_def toEloOutcome_def elo_delta_def
        getScorePair_def e kFactor_def math_round_def)
qed

text \<open>
  The message of the end gives the two changes without saying whose they are, and of a draw the client
  takes the one that is smaller in size, the first when they are equal: the second player, who loses 16
  points, reads that he won 16.
\<close>

lemma draw_shows_the_wrong_delta:
  "let e = matchEnded_wire uuid_m (winnerId drawn_match) (1, 1) (16, - 16) (endReason drawn_match);
       b = FinalScreen e ''b'' in
   resolveEloDelta drawn_match = Inr (16, - 16) \<and> fv_outcome b = OutcomeDraw \<and> fv_delta b = 16"
  by (simp add: drawn_delta) (simp add: FinalScreen_def Let_def getMatchOutcome_def getPersonalDelta_def
      drawn_match_def buildInitialState_def)

subsection \<open>A player who missed the end of his match\<close>

text \<open>What the service sends to a player who is in no match and finds none.\<close>

definition idle_inputs :: "(time \<Rightarrow> string) \<Rightarrow> socket_input set" where
  "idle_inputs isoDate = {SockConnect, SockDisconnect} \<union> {i. \<exists>code m. i = SockConnectError code m} \<union>
     {i. \<exists>u n. i = SockMessage (socket_wire isoDate (EmitConnected u n))} \<union>
     {i. \<exists>code. i = SockMessage (socket_wire isoDate (EmitError code))} \<union>
     {i. \<exists>t r. i = SockMessage (socket_wire isoDate (EmitQueueJoined t r))} \<union>
     {SockMessage (socket_wire isoDate EmitQueueLeft)}"

text \<open>The page holds a match \<open>v\<close>, shown as \<open>m\<close>, of whose end it was not told.\<close>

definition holds_match ::
  "(schema \<Rightarrow> js \<Rightarrow> js option) \<Rightarrow> string \<Rightarrow> js \<Rightarrow> js \<Rightarrow> game_client \<Rightarrow> bool" where
  "holds_match safeParse u v m c \<longleftrightarrow> u \<noteq> [] \<and> gc_storage c (activeMatchStorageKey u) = Some (Json v) \<and>
     safeParse matchFoundPayloadSchema v = Some m \<and> m \<noteq> JNull \<and> gc_matchEnded c = JNull \<and>
     (gc_activeMatch c = m \<or> gc_socket c = None \<and> gc_connectionState c \<noteq> GcConnected)"

lemma holds_match_mount:
  "holds_match safeParse u v m c \<Longrightarrow> gc_socket c = None \<Longrightarrow> holds_match safeParse u v m (gc_mount safeParse token (Some u) c)"
  by (auto simp: holds_match_def gc_mount_def readStoredMatch_def)

lemma holds_match_idle:
  assumes "holds_match safeParse u v m c" and "i \<in> idle_inputs isoDate"
  shows "holds_match safeParse u v m (gc_input safeParse u i c)"
  using assms by (auto simp: holds_match_def gc_input_def idle_inputs_def on_connect_def on_disconnect_def on_connect_error_def
      handler_defs split: option.splits)

lemma holds_match_step:
  assumes "page_step safeParse u (idle_inputs isoDate) c c'" and "holds_match safeParse u v m c"
  shows "holds_match safeParse u v m c'"
  using assms(1)
proof (cases rule: page_step.cases)
  case find_match
  with assms(2) show ?thesis by (auto simp: holds_match_def gc_joinQueue_def)
next
  case cancel_search
  with assms(2) show ?thesis by (auto simp: holds_match_def gc_leaveQueue_def)
next
  case move
  with assms(2) show ?thesis by (auto simp: holds_match_def page_play_def gc_play_def)
next
  case (return parseDate now mid v)
  with assms(2) show ?thesis by (auto simp: holds_match_def MatchPage_def Let_def split: if_splits)
next
  case close_notice
  with assms(2) show ?thesis by (auto simp: holds_match_def gc_clearError_def)
next
  case navigation
  with assms(2) show ?thesis by (auto simp: holds_match_def lobby_navigate_def gc_acknowledgeMatchFound_def)
next
  case (event i)
  with holds_match_idle [OF assms(2)] show ?thesis by simp
next
  case new_token
  moreover have "holds_match safeParse u v m (gc_unmount c)" "gc_socket (gc_unmount c) = None"
    using assms(2) by (auto simp: holds_match_def gc_unmount_def split: option.splits)
  ultimately show ?thesis by (simp add: holds_match_mount)
next
  case reload
  moreover have "holds_match safeParse u v m (gc_init safeParse (Some u) (gc_storage c))"
    using assms(2) by (auto simp: holds_match_def gc_init_def readStoredMatch_def)
  ultimately show ?thesis by (simp add: holds_match_mount gc_init_def)
qed

text \<open>
  C9. A player who missed the end of his match is locked out of the lobby. His client stored the match
  when it was found, and nothing but the button of the final screen forgets it. When he lost the
  connection and the match ended without him, the service tells his new socket only that it is
  connected; from then on, whatever he does on the pages, reloading them and reconnecting included, and
  whatever the service answers, the button ``Trouver un match'' is never enabled, as long as no other
  match is made for him.
\<close>

theorem missed_end_locks_lobby:
  assumes "env_ok env view" and "outages (view s) = []" and "look (rd (view s)) (matchByUserKey u) = None"
    and "zod_ok safeParse isoDate" and "u \<noteq> []"
    and "gc_storage c (activeMatchStorageKey u) = Some (Json v)"
    and "safeParse matchFoundPayloadSchema v = Some (gc_activeMatch c)" and "gc_matchEnded c = JNull"
    and "(page_step safeParse u (idle_inputs isoDate))\<^sup>*\<^sup>* c c'"
  shows "emitted (view (snd (handleConnection env u n sid s))) = emitted (view s) @ [(sid, EmitConnected u n)] \<and>
    \<not> canFindMatch c'"
proof
  have "handleConnection mem_env u n sid (view s) = (Inr (), (view s)\<lparr>emitted := emitted (view s) @ [(sid, EmitConnected u n)],
      rd := put (userSocketKey u) (RStr (Txt sid)) (expiry (rd (view s)) USER_SOCKET_TTL_SECONDS) (rd (view s))\<rparr>)"
    using assms(2,3)
    by (simp add: handleConnection_def handleReconnect_def eff_simps setUserSocket_run getMatchIdForUser_def redis_run
        do_get_def matchByUserKey_def [symmetric] gateway_keys)
  from sim_run [OF game_env.sim_gateway(1) [OF game_env.intro [OF assms(1)]] this]
  show "emitted (view (snd (handleConnection env u n sid s))) = emitted (view s) @ [(sid, EmitConnected u n)]"
    by simp
  have "gc_activeMatch c \<noteq> JNull"
    using assms(4,7) zod_matchFound_object by (auto simp: zod_ok_def)
  then have "holds_match safeParse u v (gc_activeMatch c) c"
    using assms(5-8) by (simp add: holds_match_def)
  with assms(9) have "holds_match safeParse u v (gc_activeMatch c) c'"
    by (induction rule: rtranclp_induct) (auto intro: holds_match_step)
  then show "\<not> canFindMatch c'" by (auto simp: holds_match_def canFindMatch_def)
qed

text \<open>Bob, who lost the connection in a match against alice and is back on a fresh page.\<close>

lemma missed_end_locks_lobby_witness:
  "let z = zod_doc (\<lambda>_. True); c = (demo_client (fst demo_players))
         \<lparr>gc_storage := [activeMatchStorageKey ''b'' \<mapsto> Json (matchFound_wire uuid_m (fst demo_players) 3)]\<rparr>;
      c' = gc_input z ''b'' SockConnect (gc_mount z (Some ''t'') (Some ''b'') (gc_init z (Some ''b'') (gc_storage c))) in
    gc_connectionState c' = GcConnected \<and> \<not> canFindMatch c'"
proof -
  let ?z = "zod_doc (\<lambda>_. True)" and ?v = "matchFound_wire uuid_m (fst demo_players) 3" and ?w = "idle_world won_match"
  let ?c = "(demo_client (fst demo_players))\<lparr>gc_storage := [activeMatchStorageKey ''b'' \<mapsto> Json ?v]\<rparr>"
  let ?c1 = "gc_mount ?z (Some ''t'') (Some ''b'') (gc_init ?z (Some ''b'') (gc_storage ?c))"
  have v: "?z matchFoundPayloadSchema ?v = Some (gc_activeMatch ?c)"
    using zod_matchFound [of uuid_m "fst demo_players"] by (simp add: demo_client_def) (simp add: demo_players_def uuid_m_def)
  have w: "look (rd ?w) (matchByUserKey ''b'') = None"
    using userMatchKey_state [of uuid_m "''b''"]
    by (simp add: idle_world_look matchByUserKey_def MATCH_BY_USER_PREFIX_def userMatchKey_def)
  have c: "gc_storage ?c (activeMatchStorageKey ''b'') = Some (Json ?v)" "gc_matchEnded ?c = JNull"
    by (simp_all add: demo_client_def gc_init_def)
  have "page_step ?z ''b'' (idle_inputs show_int) ?c ?c1" by (rule page_step.reload)
  moreover have "page_step ?z ''b'' (idle_inputs show_int) ?c1 (gc_input ?z ''b'' SockConnect ?c1)"
    by (rule page_step.event) (simp add: idle_inputs_def)
  ultimately have "(page_step ?z ''b'' (idle_inputs show_int))\<^sup>*\<^sup>* ?c (gc_input ?z ''b'' SockConnect ?c1)"
    by (meson r_into_rtranclp rtranclp.rtrancl_into_rtrancl)
  from missed_end_locks_lobby [OF env_ok_mem _ w zod_ok_doc _ c(1) v c(2) this, of "''B''" "''s2''"]
  show ?thesis by (simp add: Let_def) (simp add: gc_input_def gc_mount_def on_connect_def)
qed

end
