(* ===== verification/Front_Auth.thy ===== *)
theory Front_Auth
  imports Front_Schemas
begin

section \<open>apps/front: calls of the API and the session of the user\<close>

text \<open>
  \<open>api/apiClient.ts\<close>, \<open>auth/AuthContext.tsx\<close> and \<open>auth/authStorage.ts\<close>. Calls run concurrently in a
  browser: the code between two awaits is one function, and \<open>front_step\<close> takes one of them, in any order
  the answers may come in. A call is known by a number, the profile that the start of the page asks for by \<open>Boot\<close>.
  No caller of \<open>apiRequest\<close> passes headers. The text of a number or of an object (\<open>String(v)\<close>) is a parameter.
\<close>

subsection \<open>Requests and answers\<close>

record request_init =
  ri_method :: string
  ri_body :: "js option"

record request =
  rq_path :: string
  rq_init :: request_init
  rq_authorization :: "string option"
  rq_contentType :: "string option"

text \<open>
  A body is empty, a text that is no JSON, the JSON of an answer with tokens (login, registration and
  refresh), or the JSON of a value that has none.
\<close>

datatype body = EmptyBody | TextBody string | JsonBody js | TokensBody string string js

record response =
  rs_status :: nat
  rs_body :: body

text \<open>What is thrown: an \<open>ApiError\<close>, the failure of \<open>fetch\<close>, of \<open>JSON.parse\<close>, or a \<open>TypeError\<close>.\<close>

datatype front_error = ApiError string nat | FetchError string | JsonSyntaxError | JsTypeError

definition rs_ok :: "response \<Rightarrow> bool" where
  "rs_ok r \<longleftrightarrow> 200 \<le> rs_status r \<and> rs_status r \<le> 299"

subsection \<open>apiClient.ts: results and errors\<close>

definition default_message :: "nat \<Rightarrow> string" where
  "default_message code = ''Request failed with status '' @ show_nat code"

fun join_with :: "string \<Rightarrow> string list \<Rightarrow> string" where
  "join_with sep [] = []"
| "join_with sep [s] = s"
| "join_with sep (s # t # ss) = s @ sep @ join_with sep (t # ss)"

fun join_text :: "(js \<Rightarrow> string) \<Rightarrow> js \<Rightarrow> string" where
  "join_text toString (JStr s) = s"
| "join_text toString JNull = []"
| "join_text toString JUndef = []"
| "join_text toString v = toString v"

definition formatApiError :: "(js \<Rightarrow> string) \<Rightarrow> js \<Rightarrow> nat \<Rightarrow> string" where
  "formatApiError toString body code =
     (case fld ''error'' body of
        JStr s \<Rightarrow> s
      | _ \<Rightarrow> (case fld ''message'' body of
          JArr vs \<Rightarrow> join_with '', '' (map (join_text toString) vs)
        | JStr s \<Rightarrow> s
        | JObj kvs \<Rightarrow> (case fld ''error'' (JObj kvs) of JStr s \<Rightarrow> s | _ \<Rightarrow> default_message code)
        | _ \<Rightarrow> default_message code))"

text \<open>A body that is empty or no JSON makes \<open>response.json()\<close> throw; one with tokens has neither key.\<close>

definition parseErrorMessage :: "(js \<Rightarrow> string) \<Rightarrow> response \<Rightarrow> string" where
  "parseErrorMessage toString r = (case rs_body r of
      JsonBody v \<Rightarrow> formatApiError toString v (rs_status r)
    | _ \<Rightarrow> default_message (rs_status r))"

text \<open>\<open>apiRequest\<close> after \<open>fetchWithAuth\<close>; a 204 has the value \<open>undefined\<close>, as an empty text.\<close>

definition api_result :: "(js \<Rightarrow> string) \<Rightarrow> front_error + response \<Rightarrow> front_error + body" where
  "api_result toString r = (case r of
      Inl e \<Rightarrow> Inl e
    | Inr response \<Rightarrow>
        if \<not> rs_ok response then Inl (ApiError (parseErrorMessage toString response) (rs_status response))
        else if rs_status response = 204 then Inr EmptyBody
        else (case rs_body response of TextBody t \<Rightarrow> Inl JsonSyntaxError | b \<Rightarrow> Inr b))"

text \<open>\<open>refreshTokens\<close> with the destructuring of its caller, and the call it makes.\<close>

definition refresh_result :: "(js \<Rightarrow> string) \<Rightarrow> front_error + response \<Rightarrow> front_error + string \<times> string" where
  "refresh_result toString r = (case r of
      Inl e \<Rightarrow> Inl e
    | Inr response \<Rightarrow>
        if \<not> rs_ok response then Inl (ApiError (parseErrorMessage toString response) (rs_status response))
        else (case rs_body response of
            TokensBody access refresh user \<Rightarrow> Inr (access, refresh)
          | JsonBody v \<Rightarrow> Inl JsTypeError
          | _ \<Rightarrow> Inl JsonSyntaxError))"

subsection \<open>The state\<close>

datatype call_id = Boot | Call nat

datatype purpose = ForLogin | ForRegister | ForLogout | ForMe | ForPage

text \<open>
  \<open>FirstTry\<close> with the token it was sent with, \<open>Refreshing\<close> with the answer it had, \<open>SecondTry\<close>, and
  \<open>Settled\<close> with the result of \<open>apiRequest\<close>.
\<close>

datatype call_phase = FirstTry "string option" | Refreshing response | SecondTry | Settled "front_error + body"

record front_call =
  fc_purpose :: purpose
  fc_path :: string
  fc_init :: request_init
  fc_phase :: call_phase

datatype waiter = Bootstrap | Waiting call_id

record front_auth =
  fa_user :: js
  fa_accessToken :: "string option"
  fa_tokenRef :: "string option"
  fa_stored :: "string option"
  fa_refresh :: "waiter list option"
  fa_bootstrapping :: bool
  fa_hasBootstrapped :: bool
  fa_cleared :: nat
  fa_calls :: "call_id \<rightharpoonup> front_call"
  fa_fetched :: "(call_id \<times> request) list"
  fa_refreshed :: "string list"

text \<open>The first render, over what the session storage holds; the last two fields are the requests sent.\<close>

definition fa_init :: "string option \<Rightarrow> front_auth" where
  "fa_init stored = \<lparr>fa_user = JNull, fa_accessToken = None, fa_tokenRef = None, fa_stored = stored, fa_refresh = None,
     fa_bootstrapping = True, fa_hasBootstrapped = False, fa_cleared = 0, fa_calls = (\<lambda>_. None),
     fa_fetched = [], fa_refreshed = []\<rparr>"

subsection \<open>authStorage.ts\<close>

definition getStoredRefreshToken :: "front_auth \<Rightarrow> string option" where "getStoredRefreshToken fa = fa_stored fa"

definition setStoredRefreshToken :: "string \<Rightarrow> front_auth \<Rightarrow> front_auth" where
  "setStoredRefreshToken token fa = fa\<lparr>fa_stored := Some token\<rparr>"

definition clearStoredRefreshToken :: "front_auth \<Rightarrow> front_auth" where
  "clearStoredRefreshToken fa = fa\<lparr>fa_stored := None\<rparr>"

subsection \<open>AuthContext.tsx: the session\<close>

definition clearUserQueries :: "front_auth \<Rightarrow> front_auth" where
  "clearUserQueries fa = fa\<lparr>fa_cleared := fa_cleared fa + 1\<rparr>"

definition clearSession :: "front_auth \<Rightarrow> front_auth" where
  "clearSession fa = clearUserQueries ((clearStoredRefreshToken (fa\<lparr>fa_tokenRef := None, fa_accessToken := None\<rparr>))
     \<lparr>fa_user := JNull\<rparr>)"

definition applyTokens :: "string \<Rightarrow> string \<Rightarrow> front_auth \<Rightarrow> front_auth" where
  "applyTokens access refresh fa =
     setStoredRefreshToken refresh (fa\<lparr>fa_tokenRef := Some access, fa_accessToken := Some access\<rparr>)"

text \<open>A profile that is no object of JavaScript (\<open>undefined\<close> or \<open>null\<close>) throws.\<close>

definition toAuthUser :: "body \<Rightarrow> js option" where
  "toAuthUser b = (case b of
      EmptyBody \<Rightarrow> None
    | JsonBody JNull \<Rightarrow> None
    | JsonBody v \<Rightarrow> Some (JObj (map (\<lambda>k. (k, fld k v)) [''id'', ''email'', ''displayName'', ''role'']))
    | _ \<Rightarrow> Some (JObj (map (\<lambda>k. (k, JUndef)) [''id'', ''email'', ''displayName'', ''role''])))"

text \<open>What the caller of \<open>apiRequest\<close> does with its result: login, registration, logout, the profile at the start.\<close>

definition on_result :: "purpose \<Rightarrow> front_error + body \<Rightarrow> front_auth \<Rightarrow> front_auth" where
  "on_result p r fa = (case p of
      ForPage \<Rightarrow> fa
    | ForLogout \<Rightarrow> clearSession fa
    | ForMe \<Rightarrow> (case r of
          Inl e \<Rightarrow> clearSession fa
        | Inr b \<Rightarrow> (case toAuthUser b of None \<Rightarrow> clearSession fa | Some u \<Rightarrow> fa\<lparr>fa_user := u\<rparr>))
        \<lparr>fa_bootstrapping := False\<rparr>
    | _ \<Rightarrow> (case r of
          Inl e \<Rightarrow> fa
        | Inr (TokensBody access refresh user) \<Rightarrow> (applyTokens access refresh (clearUserQueries fa))\<lparr>fa_user := user\<rparr>
        | Inr b \<Rightarrow> clearUserQueries fa))"

subsection \<open>apiClient.ts: fetchWithAuth\<close>

definition fetch_request :: "string \<Rightarrow> request_init \<Rightarrow> string option \<Rightarrow> request" where
  "fetch_request path init accessToken =
     \<lparr>rq_path = path, rq_init = init,
      rq_authorization = (if truthy accessToken then Some (''Bearer '' @ the accessToken) else None),
      rq_contentType = (if ri_body init \<noteq> None then Some ''application/json'' else None)\<rparr>"

definition send_fetch :: "call_id \<Rightarrow> string \<Rightarrow> request_init \<Rightarrow> front_auth \<Rightarrow> front_auth" where
  "send_fetch k path init fa = fa\<lparr>fa_fetched := fa_fetched fa @ [(k, fetch_request path init (fa_tokenRef fa))]\<rparr>"

definition set_phase :: "call_id \<Rightarrow> call_phase \<Rightarrow> front_auth \<Rightarrow> front_auth" where
  "set_phase k ph fa = fa\<lparr>fa_calls := (fa_calls fa)(k := map_option (\<lambda>c. c\<lparr>fc_phase := ph\<rparr>) (fa_calls fa k))\<rparr>"

definition start_call :: "call_id \<Rightarrow> purpose \<Rightarrow> string \<Rightarrow> request_init \<Rightarrow> front_auth \<Rightarrow> front_auth" where
  "start_call k p path init fa = (send_fetch k path init fa)
     \<lparr>fa_calls := (fa_calls fa)(k \<mapsto> \<lparr>fc_purpose = p, fc_path = path, fc_init = init, fc_phase = FirstTry (fa_tokenRef fa)\<rparr>)\<rparr>"

definition settle_call ::
  "(js \<Rightarrow> string) \<Rightarrow> call_id \<Rightarrow> front_call \<Rightarrow> front_error + response \<Rightarrow> front_auth \<Rightarrow> front_auth" where
  "settle_call toString k c r fa =
     (let res = api_result toString r in on_result (fc_purpose c) res (set_phase k (Settled res) fa))"

text \<open>The rest of \<open>fetchWithAuth\<close> after \<open>await refreshAccessToken()\<close>.\<close>

definition resume_call ::
  "(js \<Rightarrow> string) \<Rightarrow> call_id \<Rightarrow> string option \<Rightarrow> front_auth \<Rightarrow> front_auth" where
  "resume_call toString k newAccessToken fa = (case fa_calls fa k of
      Some c \<Rightarrow> (case fc_phase c of
          Refreshing r \<Rightarrow>
            if \<not> truthy newAccessToken then settle_call toString k c (Inr r) (clearSession fa)
            else send_fetch k (fc_path c) (fc_init c) (set_phase k SecondTry fa)
        | _ \<Rightarrow> fa)
    | None \<Rightarrow> fa)"

definition me_init :: request_init where "me_init = \<lparr>ri_method = ''GET'', ri_body = None\<rparr>"

definition resume_waiter ::
  "(js \<Rightarrow> string) \<Rightarrow> string option \<Rightarrow> waiter \<Rightarrow> front_auth \<Rightarrow> front_auth" where
  "resume_waiter toString newAccessToken w fa = (case w of
      Waiting k \<Rightarrow> resume_call toString k newAccessToken fa
    | Bootstrap \<Rightarrow>
        if \<not> truthy newAccessToken then fa\<lparr>fa_bootstrapping := False\<rparr>
        else start_call Boot ForMe ''/me'' me_init fa)"

subsection \<open>AuthContext.tsx: refreshing\<close>

text \<open>
  A call of \<open>refreshAccessToken\<close> by \<open>w\<close>: it joins the refresh that is under way, or finds no token,
  or sends the only request.
\<close>

definition refreshAccessToken :: "(js \<Rightarrow> string) \<Rightarrow> waiter \<Rightarrow> front_auth \<Rightarrow> front_auth" where
  "refreshAccessToken toString w fa = (case fa_refresh fa of
      Some ws \<Rightarrow> fa\<lparr>fa_refresh := Some (ws @ [w])\<rparr>
    | None \<Rightarrow>
        if \<not> truthy (getStoredRefreshToken fa) then resume_waiter toString None w (clearSession fa)
        else fa\<lparr>fa_refresh := Some [w], fa_refreshed := fa_refreshed fa @ [the (getStoredRefreshToken fa)]\<rparr>)"

text \<open>The answer of the request: the tokens or the end of the session, then those who wait, in their order.\<close>

definition on_refreshed :: "(js \<Rightarrow> string) \<Rightarrow> front_error + response \<Rightarrow> front_auth \<Rightarrow> front_auth" where
  "on_refreshed toString r fa =
     (let ws = (case fa_refresh fa of None \<Rightarrow> [] | Some ws \<Rightarrow> ws) in
      case refresh_result toString r of
        Inr (access, refresh) \<Rightarrow>
          fold (resume_waiter toString (Some access)) ws (applyTokens access refresh fa\<lparr>fa_refresh := None\<rparr>)
      | Inl e \<Rightarrow> fold (resume_waiter toString None) ws (clearSession fa\<lparr>fa_refresh := None\<rparr>))"

text \<open>The answer of a call: a first 401 of a call that had a token goes through a refresh.\<close>

definition on_answer :: "(js \<Rightarrow> string) \<Rightarrow> call_id \<Rightarrow> front_error + response \<Rightarrow> front_auth \<Rightarrow> front_auth" where
  "on_answer toString k r fa = (case fa_calls fa k of
      None \<Rightarrow> fa
    | Some c \<Rightarrow> (case fc_phase c of
          FirstTry token \<Rightarrow> (case r of
              Inr response \<Rightarrow>
                if rs_status response = 401 \<and> truthy token
                then refreshAccessToken toString (Waiting k) (set_phase k (Refreshing response) fa)
                else settle_call toString k c r fa
            | Inl e \<Rightarrow> settle_call toString k c r fa)
        | SecondTry \<Rightarrow> settle_call toString k c r fa
        | _ \<Rightarrow> fa))"

definition bootstrapSession :: "(js \<Rightarrow> string) \<Rightarrow> front_auth \<Rightarrow> front_auth" where
  "bootstrapSession toString fa =
     (if \<not> truthy (getStoredRefreshToken fa) then fa\<lparr>fa_bootstrapping := False\<rparr>
      else refreshAccessToken toString Bootstrap fa)"

text \<open>The effect of the provider, which bootstraps once.\<close>

definition provider_effect :: "(js \<Rightarrow> string) \<Rightarrow> front_auth \<Rightarrow> front_auth" where
  "provider_effect toString fa =
     (if fa_hasBootstrapped fa then fa else bootstrapSession toString (fa\<lparr>fa_hasBootstrapped := True\<rparr>))"

definition isAuthenticated :: "front_auth \<Rightarrow> bool" where "isAuthenticated fa \<longleftrightarrow> fa_user fa \<noteq> JNull"

subsection \<open>The calls of the provider and of the pages\<close>

definition fa_login :: "nat \<Rightarrow> string \<Rightarrow> string \<Rightarrow> front_auth \<Rightarrow> front_auth" where
  "fa_login n email password = start_call (Call n) ForLogin ''/auth/login''
     \<lparr>ri_method = ''POST'', ri_body = Some (JObj [(''email'', JStr email), (''password'', JStr password)])\<rparr>"

definition fa_register :: "nat \<Rightarrow> string \<Rightarrow> string \<Rightarrow> string \<Rightarrow> front_auth \<Rightarrow> front_auth" where
  "fa_register n email password displayName = start_call (Call n) ForRegister ''/auth/register''
     \<lparr>ri_method = ''POST'', ri_body = Some (JObj [(''email'', JStr email), (''password'', JStr password),
        (''displayName'', JStr displayName)])\<rparr>"

definition fa_logout :: "nat \<Rightarrow> front_auth \<Rightarrow> front_auth" where
  "fa_logout n = start_call (Call n) ForLogout ''/auth/logout'' \<lparr>ri_method = ''POST'', ri_body = None\<rparr>"

text \<open>The tokens an answer brings are new: none was sent before, and none is the one in the storage.\<close>

definition brings_new_tokens :: "front_auth \<Rightarrow> front_error + response \<Rightarrow> bool" where
  "brings_new_tokens fa r \<longleftrightarrow> (case r of
      Inr response \<Rightarrow> (case rs_body response of
          TokensBody access refresh user \<Rightarrow> refresh \<notin> set (fa_refreshed fa) \<and> fa_stored fa \<noteq> Some refresh
        | _ \<Rightarrow> True)
    | Inl e \<Rightarrow> True)"

inductive front_step :: "(js \<Rightarrow> string) \<Rightarrow> front_auth \<Rightarrow> front_auth \<Rightarrow> bool" for toString where
  mounted: "front_step toString fa (provider_effect toString fa)"
| login: "fa_calls fa (Call n) = None \<Longrightarrow> front_step toString fa (fa_login n email password fa)"
| register: "fa_calls fa (Call n) = None \<Longrightarrow> front_step toString fa (fa_register n email password displayName fa)"
| logout: "fa_calls fa (Call n) = None \<Longrightarrow> front_step toString fa (fa_logout n fa)"
| page_call: "fa_calls fa (Call n) = None \<Longrightarrow> front_step toString fa (start_call (Call n) ForPage path init fa)"
| answer: "brings_new_tokens fa r \<Longrightarrow> front_step toString fa (on_answer toString k r fa)"
| refreshed: "fa_refresh fa \<noteq> None \<Longrightarrow> brings_new_tokens fa r \<Longrightarrow> front_step toString fa (on_refreshed toString r fa)"

end
