(* ===== verification/Front_Auth_Props.thy ===== *)
theory Front_Auth_Props
  imports Front_Auth
begin

section \<open>The session of the user in the browser\<close>

text \<open>
  Invariants of \<open>front_step\<close>: one refresh at a time, no refresh token presented twice, at most two
  requests per call, and every call that waits for a refresh is one of those the refresh resumes.
\<close>

subsection \<open>Refresh tokens\<close>

text \<open>The tokens that were sent and answered, or that a later session made void.\<close>

definition spent :: "front_auth \<Rightarrow> string list" where
  "spent fa = (if fa_refresh fa = None then fa_refreshed fa else butlast (fa_refreshed fa))"

definition tokens_inv :: "front_auth \<Rightarrow> bool" where
  "tokens_inv fa \<longleftrightarrow> distinct (fa_refreshed fa) \<and> (fa_refresh fa \<noteq> None \<longrightarrow> fa_refreshed fa \<noteq> []) \<and>
     (\<forall>t. fa_stored fa = Some t \<longrightarrow> t \<notin> set (spent fa))"

lemmas session_defs = clearSession_def clearUserQueries_def clearStoredRefreshToken_def applyTokens_def
  setStoredRefreshToken_def getStoredRefreshToken_def

lemma clearSession_simps [simp]:
  "fa_refreshed (clearSession fa) = fa_refreshed fa" "fa_refresh (clearSession fa) = fa_refresh fa"
  "fa_stored (clearSession fa) = None" "fa_calls (clearSession fa) = fa_calls fa" "fa_user (clearSession fa) = JNull"
  "fa_tokenRef (clearSession fa) = None" "fa_fetched (clearSession fa) = fa_fetched fa"
  "fa_hasBootstrapped (clearSession fa) = fa_hasBootstrapped fa" "fa_accessToken (clearSession fa) = None"
  by (simp_all add: session_defs)

lemma applyTokens_simps [simp]:
  "fa_refreshed (applyTokens a r fa) = fa_refreshed fa" "fa_refresh (applyTokens a r fa) = fa_refresh fa"
  "fa_stored (applyTokens a r fa) = Some r" "fa_calls (applyTokens a r fa) = fa_calls fa"
  "fa_fetched (applyTokens a r fa) = fa_fetched fa" "fa_hasBootstrapped (applyTokens a r fa) = fa_hasBootstrapped fa"
  by (simp_all add: session_defs)

lemma call_simps [simp]:
  "fa_refreshed (start_call k p path init fa) = fa_refreshed fa" "fa_refresh (start_call k p path init fa) = fa_refresh fa"
  "fa_stored (start_call k p path init fa) = fa_stored fa" "fa_refreshed (set_phase k ph fa) = fa_refreshed fa"
  "fa_hasBootstrapped (start_call k p path init fa) = fa_hasBootstrapped fa"
  "fa_refresh (set_phase k ph fa) = fa_refresh fa" "fa_stored (set_phase k ph fa) = fa_stored fa"
  "fa_fetched (set_phase k ph fa) = fa_fetched fa" "fa_hasBootstrapped (set_phase k ph fa) = fa_hasBootstrapped fa"
  "fa_refreshed (send_fetch k path init fa) = fa_refreshed fa" "fa_refresh (send_fetch k path init fa) = fa_refresh fa"
  "fa_stored (send_fetch k path init fa) = fa_stored fa" "fa_calls (send_fetch k path init fa) = fa_calls fa"
  "fa_hasBootstrapped (send_fetch k path init fa) = fa_hasBootstrapped fa"
  by (simp_all add: start_call_def send_fetch_def set_phase_def)

text \<open>The result of a call leaves the refresh alone; it may clear the stored token or bring a new one.\<close>

lemma on_result_frame:
  "fa_refreshed (on_result p r fa) = fa_refreshed fa" "fa_refresh (on_result p r fa) = fa_refresh fa"
  "fa_calls (on_result p r fa) = fa_calls fa" "fa_fetched (on_result p r fa) = fa_fetched fa"
  "fa_hasBootstrapped (on_result p r fa) = fa_hasBootstrapped fa"
  by (simp_all add: on_result_def clearUserQueries_def split: purpose.split sum.split body.split option.split)

lemmas on_result_frames [simp] = on_result_frame

lemma on_result_stored:
  "fa_stored (on_result p r fa) \<in> {None, fa_stored fa} \<or> (\<exists>a t u. r = Inr (TokensBody a t u) \<and> fa_stored (on_result p r fa) = Some t)"
  by (auto simp: on_result_def clearUserQueries_def split: purpose.split sum.split body.split option.split)

lemma tokens_inv_stored:
  "tokens_inv fa \<Longrightarrow> fa_refreshed fa' = fa_refreshed fa \<Longrightarrow> fa_refresh fa' = fa_refresh fa \<Longrightarrow>
   fa_stored fa' = None \<or> fa_stored fa' = fa_stored fa \<or> (\<exists>t. fa_stored fa' = Some t \<and> t \<notin> set (fa_refreshed fa)) \<Longrightarrow> tokens_inv fa'"
  by (auto simp: tokens_inv_def spent_def dest: in_set_butlastD)

lemma tokens_inv_settle:
  assumes "tokens_inv fa" and "\<And>a t u resp. r = Inr resp \<Longrightarrow> rs_body resp = TokensBody a t u \<Longrightarrow> t \<notin> set (fa_refreshed fa)"
  shows "tokens_inv (settle_call toString k c r fa)"
proof (rule tokens_inv_stored [OF assms(1)])
  have "t \<notin> set (fa_refreshed fa)" if "api_result toString r = Inr (TokensBody a t u)" for a t u
    using that assms(2) by (auto simp: api_result_def split: sum.splits if_splits body.splits)
  then show "fa_stored (settle_call toString k c r fa) = None \<or> fa_stored (settle_call toString k c r fa) = fa_stored fa \<or>
      (\<exists>t. fa_stored (settle_call toString k c r fa) = Some t \<and> t \<notin> set (fa_refreshed fa))"
    using on_result_stored [of "fc_purpose c" "api_result toString r" "set_phase k (Settled (api_result toString r)) fa"]
    by (auto simp: settle_call_def Let_def)
qed (simp_all add: settle_call_def Let_def)

text \<open>A call resumed after a failed refresh settles with the 401 it had, so no token comes with it.\<close>

lemma settle_401: "rs_status resp = 401 \<Longrightarrow> api_result toString (Inr resp) = Inl (ApiError (parseErrorMessage toString resp) 401)"
  by (simp add: api_result_def rs_ok_def)

subsection \<open>Those who wait\<close>

definition awaited_inv :: "waiter list \<Rightarrow> front_auth \<Rightarrow> bool" where
  "awaited_inv ws fa \<longleftrightarrow> distinct ws \<and>
     (\<forall>k. Waiting k \<in> set ws \<longleftrightarrow> (\<exists>c resp. fa_calls fa k = Some c \<and> fc_phase c = Refreshing resp)) \<and>
     (\<forall>k c resp. fa_calls fa k = Some c \<longrightarrow> fc_phase c = Refreshing resp \<longrightarrow> rs_status resp = 401) \<and>
     (Bootstrap \<in> set ws \<or> \<not> fa_hasBootstrapped fa \<longrightarrow> fa_calls fa Boot = None) \<and>
     (Bootstrap \<in> set ws \<longrightarrow> fa_hasBootstrapped fa)"

definition sent :: "call_id \<Rightarrow> front_auth \<Rightarrow> nat" where
  "sent k fa = length (filter (\<lambda>e. fst e = k) (fa_fetched fa))"

fun allowed :: "call_phase \<Rightarrow> nat" where
  "allowed (FirstTry t) = 1" | "allowed (Refreshing r) = 1" | "allowed SecondTry = 2" | "allowed (Settled r) = 2"

lemma allowed_le: "allowed ph \<le> 2"
  by (cases ph) simp_all

definition counts_inv :: "front_auth \<Rightarrow> bool" where
  "counts_inv fa \<longleftrightarrow> (\<forall>k. sent k fa \<le> (case fa_calls fa k of None \<Rightarrow> 0 | Some c \<Rightarrow> allowed (fc_phase c)))"

definition auth_inv :: "waiter list \<Rightarrow> front_auth \<Rightarrow> bool" where
  "auth_inv ws fa \<longleftrightarrow> tokens_inv fa \<and> awaited_inv ws fa \<and> counts_inv fa"

definition waiters :: "front_auth \<Rightarrow> waiter list" where
  "waiters fa = (case fa_refresh fa of None \<Rightarrow> [] | Some ws \<Rightarrow> ws)"

lemma calls_set_phase [simp]:
  "fa_calls (set_phase k ph fa) = (fa_calls fa)(k := map_option (\<lambda>c. c\<lparr>fc_phase := ph\<rparr>) (fa_calls fa k))"
  by (simp add: set_phase_def)

lemma calls_start_call [simp]: "fa_calls (start_call k p path init fa) =
    (fa_calls fa)(k \<mapsto> \<lparr>fc_purpose = p, fc_path = path, fc_init = init, fc_phase = FirstTry (fa_tokenRef fa)\<rparr>)"
  by (simp add: start_call_def send_fetch_def)

lemma sent_simps [simp]:
  "sent j (set_phase k ph fa) = sent j fa" "sent j (clearSession fa) = sent j fa" "sent j (on_result p r fa) = sent j fa"
  "sent j (applyTokens a t fa) = sent j fa" "sent j (fa\<lparr>fa_refresh := x\<rparr>) = sent j fa"
  "sent j (fa\<lparr>fa_bootstrapping := b\<rparr>) = sent j fa" "sent j (fa\<lparr>fa_hasBootstrapped := b\<rparr>) = sent j fa"
  "sent j (fa\<lparr>fa_refresh := x, fa_refreshed := y\<rparr>) = sent j fa"
  "sent j (start_call k p path init fa) = sent j fa + (if j = k then 1 else 0)"
  "sent j (send_fetch k path init fa) = sent j fa + (if j = k then 1 else 0)"
  by (simp_all add: sent_def start_call_def send_fetch_def)

lemma counts_settled:
  assumes "counts_inv fa" and "fa_calls fa k = Some c"
  shows "counts_inv (settle_call toString k c r fa)"
proof -
  have "sent k fa \<le> allowed (fc_phase c)" using assms by (auto simp: counts_inv_def dest: spec [of _ k])
  then have "sent k fa \<le> 2" using allowed_le order_trans by blast
  with assms show ?thesis by (simp add: counts_inv_def settle_call_def Let_def)
qed

lemma counts_none: "counts_inv fa \<Longrightarrow> fa_calls fa k = None \<Longrightarrow> sent k fa = 0"
  by (auto simp: counts_inv_def dest!: spec [of _ k])

lemma counts_start:
  assumes "counts_inv fa" and "fa_calls fa k = None"
  shows "counts_inv (start_call k p path init fa)"
  using assms counts_none [OF assms] by (auto simp: counts_inv_def split: option.splits)

lemma waiting_start:
  assumes "awaited_inv ws fa" and "fa_calls fa k = None" and "k = Boot \<Longrightarrow> Bootstrap \<notin> set ws \<and> fa_hasBootstrapped fa"
  shows "awaited_inv ws (start_call k p path init fa)"
  using assms by (auto simp: awaited_inv_def)

lemma counts_second:
  assumes "counts_inv fa" and "fa_calls fa k = Some c" and "fc_phase c = Refreshing resp"
  shows "counts_inv (send_fetch k path init (set_phase k SecondTry fa))"
proof -
  have "sent k fa \<le> 1" using assms by (auto simp: counts_inv_def dest: spec [of _ k])
  with assms show ?thesis by (auto simp: counts_inv_def split: option.splits)
qed

lemma inv_updates:
  "tokens_inv (fa\<lparr>fa_bootstrapping := b\<rparr>) = tokens_inv fa" "awaited_inv ws (fa\<lparr>fa_bootstrapping := b\<rparr>) = awaited_inv ws fa"
  "counts_inv (fa\<lparr>fa_bootstrapping := b\<rparr>) = counts_inv fa"
  "awaited_inv ws (fa\<lparr>fa_refresh := x\<rparr>) = awaited_inv ws fa" "counts_inv (fa\<lparr>fa_refresh := x\<rparr>) = counts_inv fa"
  "awaited_inv ws (fa\<lparr>fa_refresh := x, fa_refreshed := y\<rparr>) = awaited_inv ws fa"
  "counts_inv (fa\<lparr>fa_refresh := x, fa_refreshed := y\<rparr>) = counts_inv fa"
  "awaited_inv ws (clearSession fa) = awaited_inv ws fa" "counts_inv (clearSession fa) = counts_inv fa"
  "awaited_inv ws (applyTokens a t fa) = awaited_inv ws fa" "counts_inv (applyTokens a t fa) = counts_inv fa"
  by (simp_all add: tokens_inv_def spent_def awaited_inv_def counts_inv_def)

text \<open>Resuming the first of those who wait leaves the others.\<close>

lemma waiting_settled:
  assumes "awaited_inv (Waiting k # ws) fa" and "\<And>resp. fc_phase c' \<noteq> Refreshing resp"
    and "fa_calls fa' = (fa_calls fa)(k \<mapsto> c')" and "fa_hasBootstrapped fa' = fa_hasBootstrapped fa"
  shows "awaited_inv ws fa'"
proof -
  have "Waiting k \<notin> set ws" "\<exists>c. fa_calls fa k = Some c" using assms(1) by (auto simp: awaited_inv_def)
  then show ?thesis using assms by (auto simp: awaited_inv_def)
qed

lemma resume_waiter_inv:
  assumes "auth_inv (w # ws) fa"
  shows "auth_inv ws (resume_waiter toString new w fa)" and "fa_refresh (resume_waiter toString new w fa) = fa_refresh fa"
proof -
  have inv: "tokens_inv fa" "awaited_inv (w # ws) fa" "counts_inv fa" using assms by (simp_all add: auth_inv_def)
  have "auth_inv ws (resume_waiter toString new w fa) \<and> fa_refresh (resume_waiter toString new w fa) = fa_refresh fa"
  proof (cases w)
    case Bootstrap
    with inv have b: "fa_calls fa Boot = None" "fa_hasBootstrapped fa" "Bootstrap \<notin> set ws" "awaited_inv ws fa"
      by (auto simp: awaited_inv_def)
    have "tokens_inv (start_call Boot ForMe ''/me'' me_init fa)"
      by (rule tokens_inv_stored [OF inv(1)]) simp_all
    with inv b Bootstrap show ?thesis
      by (cases "truthy new") (simp_all add: resume_waiter_def auth_inv_def counts_start waiting_start inv_updates)
  next
    case (Waiting k)
    with inv obtain c resp where c: "fa_calls fa k = Some c" "fc_phase c = Refreshing resp" "rs_status resp = 401"
      by (fastforce simp: awaited_inv_def)
    show ?thesis
    proof (cases "truthy new")
      case True
      have "awaited_inv ws (send_fetch k (fc_path c) (fc_init c) (set_phase k SecondTry fa))"
        using inv(2) Waiting c by (intro waiting_settled [of k ws fa "c\<lparr>fc_phase := SecondTry\<rparr>"]) simp_all
      moreover have "tokens_inv (send_fetch k (fc_path c) (fc_init c) (set_phase k SecondTry fa))"
        by (rule tokens_inv_stored [OF inv(1)]) simp_all
      ultimately show ?thesis
        using inv True Waiting c by (simp add: resume_waiter_def resume_call_def auth_inv_def counts_second)
    next
      case False
      let ?fa = "settle_call toString k c (Inr resp) (clearSession fa)"
      have "awaited_inv ws ?fa"
        using inv(2) Waiting c
        by (intro waiting_settled [of k ws fa "c\<lparr>fc_phase := Settled (api_result toString (Inr resp))\<rparr>"])
          (simp_all add: settle_call_def Let_def)
      moreover have "counts_inv ?fa" using inv(3) c by (intro counts_settled) (simp_all add: counts_inv_def)
      moreover have "tokens_inv ?fa"
        using on_result_stored [of "fc_purpose c" "api_result toString (Inr resp)"
          "set_phase k (Settled (api_result toString (Inr resp))) (clearSession fa)"]
        by (intro tokens_inv_stored [OF inv(1)]) (auto simp: settle_call_def Let_def settle_401 c(3))
      ultimately show ?thesis
        using False Waiting c by (simp add: resume_waiter_def resume_call_def auth_inv_def settle_call_def Let_def)
    qed
  qed
  then show "auth_inv ws (resume_waiter toString new w fa)" "fa_refresh (resume_waiter toString new w fa) = fa_refresh fa"
    by simp_all
qed

lemma resume_all_inv:
  "auth_inv ws fa \<Longrightarrow> auth_inv [] (fold (resume_waiter toString new) ws fa) \<and>
   fa_refresh (fold (resume_waiter toString new) ws fa) = fa_refresh fa"
proof (induction ws arbitrary: fa)
  case (Cons w ws)
  from Cons.IH [OF resume_waiter_inv(1) [OF Cons.prems]] resume_waiter_inv(2) [OF Cons.prems] show ?case by simp
qed simp

lemma awaited_join:
  assumes "awaited_inv ws fa" and "fa_calls fa k = Some c" and "\<And>resp. fc_phase c \<noteq> Refreshing resp" and "rs_status resp = 401"
  shows "awaited_inv (ws @ [Waiting k]) (set_phase k (Refreshing resp) fa)"
proof -
  have "Waiting k \<notin> set ws" using assms by (auto simp: awaited_inv_def)
  then show ?thesis using assms by (auto simp: awaited_inv_def)
qed

text \<open>A call of \<open>refreshAccessToken\<close> by one who is already counted as waiting, last.\<close>

lemma refreshAccessToken_inv:
  assumes "tokens_inv fa" and "awaited_inv (waiters fa @ [w]) fa" and "counts_inv fa"
  shows "auth_inv (waiters (refreshAccessToken toString w fa)) (refreshAccessToken toString w fa)"
proof (cases "fa_refresh fa")
  case (Some ws)
  then have "tokens_inv (fa\<lparr>fa_refresh := Some (ws @ [w])\<rparr>)" using assms(1) by (simp add: tokens_inv_def spent_def)
  with Some assms show ?thesis by (simp add: refreshAccessToken_def auth_inv_def waiters_def inv_updates)
next
  case None
  show ?thesis
  proof (cases "truthy (fa_stored fa)")
    case True
    then obtain t where t: "fa_stored fa = Some t" by (cases "fa_stored fa") auto
    with None assms(1) have "tokens_inv (fa\<lparr>fa_refresh := Some [w], fa_refreshed := fa_refreshed fa @ [t]\<rparr>)"
      by (simp add: tokens_inv_def spent_def)
    with None assms t True show ?thesis
      by (simp add: refreshAccessToken_def auth_inv_def waiters_def inv_updates getStoredRefreshToken_def)
  next
    case False
    have "tokens_inv (clearSession fa)" by (rule tokens_inv_stored [OF assms(1)]) simp_all
    with None assms(2,3) have "auth_inv [w] (clearSession fa)" by (simp add: auth_inv_def waiters_def inv_updates)
    from resume_waiter_inv [OF this] None False show ?thesis
      by (simp add: refreshAccessToken_def waiters_def getStoredRefreshToken_def)
  qed
qed

lemma on_refreshed_inv:
  assumes "auth_inv ws fa" and "fa_refresh fa = Some ws" and "brings_new_tokens fa r"
  shows "auth_inv (waiters (on_refreshed toString r fa)) (on_refreshed toString r fa)"
    and "waiters (on_refreshed toString r fa) = []"
proof -
  have inv: "tokens_inv fa" "awaited_inv ws fa" "counts_inv fa" using assms(1) by (simp_all add: auth_inv_def)
  have "auth_inv [] (on_refreshed toString r fa) \<and> fa_refresh (on_refreshed toString r fa) = None"
  proof (cases "refresh_result toString r")
    case (Inl e)
    have "auth_inv ws (clearSession fa\<lparr>fa_refresh := None\<rparr>)"
      using inv by (simp add: auth_inv_def inv_updates) (simp add: tokens_inv_def spent_def)
    from resume_all_inv [OF this] Inl assms(2) show ?thesis by (simp add: on_refreshed_def)
  next
    case (Inr p)
    obtain access token where p: "p = (access, token)" by (cases p)
    with Inr assms(3) have "token \<notin> set (fa_refreshed fa)"
      by (auto simp: refresh_result_def brings_new_tokens_def split: sum.splits if_splits body.splits)
    then have "auth_inv ws (applyTokens access token fa\<lparr>fa_refresh := None\<rparr>)"
      using inv by (simp add: auth_inv_def inv_updates) (simp add: tokens_inv_def spent_def)
    from resume_all_inv [OF this] Inr p assms(2) show ?thesis by (simp add: on_refreshed_def)
  qed
  then show "auth_inv (waiters (on_refreshed toString r fa)) (on_refreshed toString r fa)"
    "waiters (on_refreshed toString r fa) = []" by (simp_all add: waiters_def)
qed

lemma settle_inv:
  assumes "auth_inv (waiters fa) fa" and "fa_calls fa k = Some c" and "\<And>resp. fc_phase c \<noteq> Refreshing resp"
    and "brings_new_tokens fa r"
  shows "auth_inv (waiters (settle_call toString k c r fa)) (settle_call toString k c r fa)"
proof -
  have inv: "tokens_inv fa" "awaited_inv (waiters fa) fa" "counts_inv fa" using assms(1) by (simp_all add: auth_inv_def)
  have "tokens_inv (settle_call toString k c r fa)"
    using assms(4) by (intro tokens_inv_settle [OF inv(1)]) (simp add: brings_new_tokens_def)
  moreover have "counts_inv (settle_call toString k c r fa)" using inv(3) assms(2) by (rule counts_settled)
  moreover have "fa_calls (settle_call toString k c r fa) = (fa_calls fa)(k \<mapsto> c\<lparr>fc_phase := Settled (api_result toString r)\<rparr>)"
    "fa_hasBootstrapped (settle_call toString k c r fa) = fa_hasBootstrapped fa" "fa_refresh (settle_call toString k c r fa) = fa_refresh fa"
    using assms(2) by (simp_all add: settle_call_def Let_def)
  moreover from this have "awaited_inv (waiters fa) (settle_call toString k c r fa)"
    using inv(2) assms(2,3) by (auto simp: awaited_inv_def)
  ultimately show ?thesis by (simp add: auth_inv_def waiters_def)
qed

lemma start_inv:
  assumes "auth_inv (waiters fa) fa" and "fa_calls fa (Call n) = None"
  shows "auth_inv (waiters (start_call (Call n) p path init fa)) (start_call (Call n) p path init fa)"
proof -
  have "tokens_inv (start_call (Call n) p path init fa)"
    by (rule tokens_inv_stored [of fa]) (use assms in \<open>simp_all add: auth_inv_def\<close>)
  moreover have "awaited_inv (waiters fa) (start_call (Call n) p path init fa)"
    by (rule waiting_start) (use assms in \<open>simp_all add: auth_inv_def\<close>)
  ultimately show ?thesis using assms by (simp add: auth_inv_def counts_start waiters_def)
qed

lemma on_answer_inv:
  assumes "auth_inv (waiters fa) fa" and "brings_new_tokens fa r"
  shows "auth_inv (waiters (on_answer toString k r fa)) (on_answer toString k r fa)"
proof (cases "\<exists>c token resp. fa_calls fa k = Some c \<and> fc_phase c = FirstTry token \<and> r = Inr resp \<and>
    rs_status resp = 401 \<and> truthy token")
  case True
  then obtain c token resp where c: "fa_calls fa k = Some c" "fc_phase c = FirstTry token" "r = Inr resp"
    "rs_status resp = 401" "truthy token" by blast
  let ?fa = "set_phase k (Refreshing resp) fa"
  have inv: "tokens_inv fa" "awaited_inv (waiters fa) fa" "counts_inv fa" using assms(1) by (simp_all add: auth_inv_def)
  have "sent k fa \<le> 1" using inv(3) c by (auto simp: counts_inv_def dest: spec [of _ k])
  then have "counts_inv ?fa" using inv(3) c by (auto simp: counts_inv_def split: option.splits)
  moreover have "tokens_inv ?fa" by (rule tokens_inv_stored [OF inv(1)]) simp_all
  moreover have "awaited_inv (waiters ?fa @ [Waiting k]) ?fa"
    using awaited_join [OF inv(2) c(1) _ c(4)] c(2) by (simp add: waiters_def)
  ultimately show ?thesis using refreshAccessToken_inv c by (simp add: on_answer_def)
next
  case False
  then have "on_answer toString k r fa = fa \<or> (\<exists>c. fa_calls fa k = Some c \<and> (\<forall>resp. fc_phase c \<noteq> Refreshing resp) \<and>
      on_answer toString k r fa = settle_call toString k c r fa)"
    by (auto simp: on_answer_def split: option.split call_phase.split sum.split)
  with settle_inv [OF assms(1) _ _ assms(2)] assms(1) show ?thesis by auto
qed

lemma provider_inv:
  assumes "auth_inv (waiters fa) fa"
  shows "auth_inv (waiters (provider_effect toString fa)) (provider_effect toString fa)"
proof (cases "fa_hasBootstrapped fa")
  case False
  let ?fa = "fa\<lparr>fa_hasBootstrapped := True\<rparr>"
  have inv: "tokens_inv fa" "awaited_inv (waiters fa) fa" "counts_inv fa" using assms by (simp_all add: auth_inv_def)
  have b: "counts_inv ?fa" "waiters ?fa = waiters fa" "tokens_inv ?fa"
    using inv by (simp_all add: counts_inv_def waiters_def tokens_inv_stored [OF inv(1)])
  have "awaited_inv (waiters fa @ [Bootstrap]) ?fa" "awaited_inv (waiters fa) ?fa"
    using inv(2) False by (auto simp: awaited_inv_def)
  with b False refreshAccessToken_inv [of ?fa Bootstrap toString] show ?thesis
    by (auto simp: provider_effect_def bootstrapSession_def auth_inv_def inv_updates waiters_def)
qed (use assms in \<open>simp add: provider_effect_def\<close>)

lemma front_step_inv:
  "front_step toString fa fa' \<Longrightarrow> auth_inv (waiters fa) fa \<Longrightarrow> auth_inv (waiters fa') fa'"
proof (induction rule: front_step.induct)
  case (refreshed fa r)
  then obtain ws where "fa_refresh fa = Some ws" "waiters fa = ws" by (auto simp: waiters_def)
  with refreshed on_refreshed_inv(1) [of ws fa r] show ?case by simp
qed (simp_all add: provider_inv fa_login_def fa_register_def fa_logout_def start_inv on_answer_inv)

lemma reachable_auth_inv:
  assumes "(front_step toString)\<^sup>*\<^sup>* (fa_init stored) fa"
  shows "auth_inv (waiters fa) fa"
proof -
  have "auth_inv (waiters (fa_init stored)) (fa_init stored)"
    by (simp add: auth_inv_def tokens_inv_def spent_def awaited_inv_def counts_inv_def sent_def waiters_def fa_init_def)
  with assms show ?thesis by (induction rule: rtranclp_induct) (auto intro: front_step_inv)
qed

subsection \<open>What holds in every run\<close>

text \<open>
  C10. Single flight. However the calls of a page, logins, logouts and their answers interleave, no refresh
  token is ever presented twice to the service, which would take it for a stolen one and revoke the
  session; the token in the storage is an unused one whenever no refresh is under way; and no call is sent more
  than twice, whatever the service answers.
\<close>

theorem refresh_tokens_sent_once:
  assumes "(front_step toString)\<^sup>*\<^sup>* (fa_init stored) fa"
  shows "distinct (fa_refreshed fa) \<and> sent k fa \<le> 2 \<and>
    (case fa_refresh fa of
       None \<Rightarrow> (case fa_stored fa of None \<Rightarrow> True | Some t \<Rightarrow> t \<notin> set (fa_refreshed fa))
     | Some ws \<Rightarrow> fa_refreshed fa \<noteq> [])"
proof -
  have inv: "tokens_inv fa" "counts_inv fa" using reachable_auth_inv [OF assms] by (simp_all add: auth_inv_def)
  have "sent k fa \<le> (case fa_calls fa k of None \<Rightarrow> 0 | Some c \<Rightarrow> allowed (fc_phase c))" using inv(2) by (simp add: counts_inv_def)
  also have "\<dots> \<le> 2" by (simp add: allowed_le split: option.split)
  finally show ?thesis using inv(1) by (auto simp: tokens_inv_def spent_def split: option.split)
qed

text \<open>The calls that wait, after a refresh that failed and one that did not.\<close>

definition logged_out :: "front_auth \<Rightarrow> bool" where
  "logged_out fa \<longleftrightarrow> fa_stored fa = None \<and> fa_tokenRef fa = None \<and> fa_user fa = JNull"

lemma waiting_call:
  assumes "auth_inv ws fa" and "Waiting k \<in> set ws"
  obtains c resp where "fa_calls fa k = Some c" and "fc_phase c = Refreshing resp" and "rs_status resp = 401"
  using assms unfolding auth_inv_def awaited_inv_def by blast

lemma resume_failed:
  assumes "fa_calls fa k = Some c" and "fc_phase c = Refreshing resp" and "rs_status resp = 401"
  shows "fa_calls (resume_waiter toString None (Waiting k) fa) = (fa_calls fa)
      (k \<mapsto> c\<lparr>fc_phase := Settled (Inl (ApiError (parseErrorMessage toString resp) 401))\<rparr>)"
    and "logged_out (resume_waiter toString None (Waiting k) fa)"
    and "fa_fetched (resume_waiter toString None (Waiting k) fa) = fa_fetched fa"
proof -
  let ?e = "Inl (ApiError (parseErrorMessage toString resp) 401)"
  have run: "resume_waiter toString None (Waiting k) fa =
      on_result (fc_purpose c) ?e (set_phase k (Settled ?e) (clearSession fa))"
    using assms by (simp add: resume_waiter_def resume_call_def settle_call_def Let_def settle_401)
  have out: "logged_out (on_result p ?e fa')" if "logged_out fa'" for p fa'
    using that by (cases p) (simp_all add: on_result_def logged_out_def)
  have "logged_out (set_phase k (Settled ?e) (clearSession fa))" by (simp add: logged_out_def set_phase_def)
  then show "logged_out (resume_waiter toString None (Waiting k) fa)" unfolding run by (rule out)
  show "fa_calls (resume_waiter toString None (Waiting k) fa) = (fa_calls fa)(k \<mapsto> c\<lparr>fc_phase := Settled ?e\<rparr>)"
    "fa_fetched (resume_waiter toString None (Waiting k) fa) = fa_fetched fa"
    using assms(1) by (simp_all add: run)
qed

text \<open>A call that does not wait is left alone.\<close>

lemma resume_other:
  assumes "auth_inv (w # ws) fa" and "w \<noteq> Waiting k" and "fa_calls fa k \<noteq> None"
  shows "fa_calls (resume_waiter toString new w fa) k = fa_calls fa k"
proof (cases w)
  case Bootstrap
  with assms(1) have "fa_calls fa Boot = None" by (simp add: auth_inv_def awaited_inv_def)
  with assms(3) Bootstrap show ?thesis by (auto simp: resume_waiter_def)
next
  case (Waiting j)
  with assms(2) have "k \<noteq> j" by auto
  with Waiting show ?thesis
    by (auto simp: resume_waiter_def resume_call_def settle_call_def Let_def split: option.split call_phase.split)
qed

lemma resume_all_other:
  "auth_inv ws fa \<Longrightarrow> Waiting k \<notin> set ws \<Longrightarrow> fa_calls fa k \<noteq> None \<Longrightarrow>
   fa_calls (fold (resume_waiter toString new) ws fa) k = fa_calls fa k"
proof (induction ws arbitrary: fa)
  case (Cons w ws)
  then have "fa_calls (resume_waiter toString new w fa) k = fa_calls fa k" by (intro resume_other) auto
  with Cons.IH [OF resume_waiter_inv(1) [OF Cons.prems(1)]] Cons.prems(2,3) show ?case by simp
qed simp

text \<open>A call that waits is resumed, wherever it stands.\<close>

lemma resume_all_call:
  assumes "auth_inv ws fa" and "fa_calls fa k = Some c" and "fc_phase c = Refreshing resp"
    and one: "\<And>fa ws. auth_inv (Waiting k # ws) fa \<Longrightarrow> fa_calls fa k = Some c \<Longrightarrow>
      fa_calls (resume_waiter toString new (Waiting k) fa) k = Some c'"
  shows "fa_calls (fold (resume_waiter toString new) ws fa) k = Some c'"
  using assms(1-3)
proof (induction ws arbitrary: fa)
  case Nil
  then show ?case by (auto simp: auth_inv_def awaited_inv_def)
next
  case (Cons w ws)
  note inv = resume_waiter_inv(1) [OF Cons.prems(1)]
  show ?case
  proof (cases "w = Waiting k")
    case True
    with Cons.prems(1) have "Waiting k \<notin> set ws" by (auto simp: auth_inv_def awaited_inv_def)
    with resume_all_other [OF inv this] one [of ws fa] Cons.prems True show ?thesis by simp
  next
    case False
    with resume_other [OF Cons.prems(1) this] Cons.prems(2) have "fa_calls (resume_waiter toString new w fa) k = Some c" by simp
    with Cons.IH [OF inv this Cons.prems(3)] show ?thesis by simp
  qed
qed

lemma resume_all_failed:
  "auth_inv ws fa \<Longrightarrow> logged_out fa \<Longrightarrow> logged_out (fold (resume_waiter toString None) ws fa) \<and>
   fa_fetched (fold (resume_waiter toString None) ws fa) = fa_fetched fa"
proof (induction ws arbitrary: fa)
  case (Cons w ws)
  have "logged_out (resume_waiter toString None w fa) \<and> fa_fetched (resume_waiter toString None w fa) = fa_fetched fa"
  proof (cases w)
    case Bootstrap
    with Cons.prems(2) show ?thesis by (simp add: resume_waiter_def logged_out_def)
  next
    case (Waiting k)
    then have "Waiting k \<in> set (w # ws)" by simp
    with Cons.prems(1) obtain c resp where "fa_calls fa k = Some c" "fc_phase c = Refreshing resp" "rs_status resp = 401"
      by (rule waiting_call)
    from resume_failed [OF this] Waiting show ?thesis by simp
  qed
  with Cons.IH [OF resume_waiter_inv(1) [OF Cons.prems(1)]] show ?case by simp
qed simp

lemma resume_again:
  assumes "auth_inv (Waiting k # ws) fa" and "fa_calls fa k = Some c" and "access \<noteq> []"
  shows "resume_waiter toString (Some access) (Waiting k) fa = send_fetch k (fc_path c) (fc_init c) (set_phase k SecondTry fa)"
proof -
  have "Waiting k \<in> set (Waiting k # ws)" by simp
  with assms(1) obtain resp where "fc_phase c = Refreshing resp"
    by (rule waiting_call) (use assms(2) in simp)
  with assms(2,3) show ?thesis by (simp add: resume_waiter_def resume_call_def)
qed

lemma resume_all_again:
  "auth_inv ws fa \<Longrightarrow> access \<noteq> [] \<Longrightarrow>
   fa_stored (fold (resume_waiter toString (Some access)) ws fa) = fa_stored fa \<and>
   fa_tokenRef (fold (resume_waiter toString (Some access)) ws fa) = fa_tokenRef fa"
proof (induction ws arbitrary: fa)
  case (Cons w ws)
  have "fa_stored (resume_waiter toString (Some access) w fa) = fa_stored fa \<and>
      fa_tokenRef (resume_waiter toString (Some access) w fa) = fa_tokenRef fa"
    using Cons.prems(2) by (auto simp: resume_waiter_def resume_call_def send_fetch_def set_phase_def start_call_def
        split: waiter.split option.split call_phase.split)
  with Cons.IH [OF resume_waiter_inv(1) [OF Cons.prems(1)] Cons.prems(2)] show ?case by simp
qed simp


subsection \<open>A run\<close>

text \<open>
  The page starts with the token r1 and gets a1 and r2; then a call is answered with 401 and asks for a
  refresh.
\<close>

definition show_nothing :: "js \<Rightarrow> string" where "show_nothing v = []"

definition tokens_answer :: "string \<Rightarrow> string \<Rightarrow> front_error + response" where
  "tokens_answer a t = Inr \<lparr>rs_status = 200, rs_body = TokensBody a t JUndef\<rparr>"

definition booted :: front_auth where
  "booted = on_refreshed show_nothing (tokens_answer ''a1'' ''r2'') (provider_effect show_nothing (fa_init (Some ''r1'')))"

definition unauthorized :: response where "unauthorized = \<lparr>rs_status = 401, rs_body = EmptyBody\<rparr>"

definition refreshing :: front_auth where
  "refreshing = on_answer show_nothing (Call 0) (Inr unauthorized) (start_call (Call 0) ForPage ''/seasons/current'' me_init booted)"

lemmas run_defs = fa_init_def provider_effect_def bootstrapSession_def refreshAccessToken_def session_defs on_refreshed_def
  refresh_result_def rs_ok_def resume_waiter_def start_call_def send_fetch_def on_answer_def set_phase_def tokens_answer_def
  unauthorized_def

lemma booted_fields:
  "fa_refresh booted = None" "fa_refreshed booted = [''r1'']" "fa_stored booted = Some ''r2''"
  "fa_tokenRef booted = Some ''a1''" "fa_calls booted (Call n) = None"
  by (simp_all add: booted_def run_defs)

lemma refreshing_fields:
  "fa_refresh refreshing = Some [Waiting (Call 0)]" "fa_refreshed refreshing = [''r1'', ''r2'']" "fa_stored refreshing = Some ''r2''"
  "fa_calls refreshing (Call n) = (if n = 0 then Some \<lparr>fc_purpose = ForPage, fc_path = ''/seasons/current'', fc_init = me_init,
     fc_phase = Refreshing unauthorized\<rparr> else None)"
  using booted_fields
  by (simp_all add: refreshing_def on_answer_def start_call_def send_fetch_def set_phase_def unauthorized_def refreshAccessToken_def
      getStoredRefreshToken_def)

lemma booted_reachable: "(front_step show_nothing)\<^sup>*\<^sup>* (fa_init (Some ''r1'')) booted"
proof -
  let ?fa = "provider_effect show_nothing (fa_init (Some ''r1''))"
  have "front_step show_nothing (fa_init (Some ''r1'')) ?fa" by (rule front_step.mounted)
  moreover have "front_step show_nothing ?fa booted"
    unfolding booted_def by (rule front_step.refreshed) (simp_all add: run_defs brings_new_tokens_def)
  ultimately show ?thesis by (meson r_into_rtranclp rtranclp.rtrancl_into_rtrancl)
qed

lemma refreshing_reachable: "(front_step show_nothing)\<^sup>*\<^sup>* (fa_init (Some ''r1'')) refreshing"
proof -
  let ?fa = "start_call (Call 0) ForPage ''/seasons/current'' me_init booted"
  have "front_step show_nothing booted ?fa" by (rule front_step.page_call) (simp add: booted_fields)
  moreover have "front_step show_nothing ?fa refreshing"
    unfolding refreshing_def by (rule front_step.answer) (simp add: brings_new_tokens_def unauthorized_def)
  ultimately show ?thesis using booted_reachable by (meson rtranclp.rtrancl_into_rtrancl)
qed

lemma refresh_tokens_sent_once_witness:
  "distinct (fa_refreshed refreshing) \<and> sent (Call 0) refreshing \<le> 2 \<and> fa_refreshed refreshing = [''r1'', ''r2'']"
  using refresh_tokens_sent_once [OF refreshing_reachable, of "Call 0"] refreshing_fields(2) by blast


text \<open>
  A refresh that is under way when the user logs out is not called off: its answer writes new tokens into
  the session that was just cleared, and a reload of the page logs the user in again with them.
\<close>

lemma refresh_outlives_logout:
  "let out = on_answer show_nothing (Call 1) (Inr \<lparr>rs_status = 204, rs_body = EmptyBody\<rparr>) (fa_logout 1 refreshing);
       late = on_refreshed show_nothing (tokens_answer ''a2'' ''r3'') out in
   logged_out out \<and> fa_stored late = Some ''r3'' \<and> fa_tokenRef late = Some ''a2'' \<and> fa_user late = JNull"
  using refreshing_fields
  by (simp add: Let_def fa_logout_def on_answer_def start_call_def send_fetch_def settle_call_def api_result_def rs_ok_def
      on_result_def set_phase_def logged_out_def session_defs on_refreshed_def refresh_result_def tokens_answer_def
      resume_waiter_def resume_call_def)

end
