(* ===== verification/Front_Tournaments.thy ===== *)
theory Front_Tournaments
  imports Front_Pages Front_Auth Api_Tournaments
begin

section \<open>apps/front: tournaments, routes and texts\<close>

text \<open>
  The functions behind the pages of tournaments, standings and accounts: \<open>tournaments/bracket.ts\<close>,
  \<open>tournaments/tournamentFilters.ts\<close>, \<open>components/BracketMatchCard.tsx\<close>, \<open>pages/TournamentDetailPage.tsx\<close>,
  \<open>utils/formatRating.ts\<close>, the guards of the routes, the paths of the API and the texts of errors. The
  pages receive what \<open>tournaments.service.ts\<close> of the api sends, whose records they are given here.
\<close>

subsection \<open>bracket.ts and BracketMatchCard.tsx\<close>

definition roundLabel :: "nat \<Rightarrow> nat \<Rightarrow> string" where
  "roundLabel rnd totalRounds =
     (if rnd = totalRounds then ''Finale''
      else if int rnd = int totalRounds - 1 then ''Demi-finales''
      else if int rnd = int totalRounds - 2 then ''Quarts de finale''
      else ''Tour '' @ show_nat rnd)"

definition isByeMatch :: "BracketMatchDto \<Rightarrow> nat \<Rightarrow> bool" where
  "isByeMatch m rnd \<longleftrightarrow> rnd = 1 \<and> (bm_slotA m = None) \<noteq> (bm_slotB m = None)"

definition canCurrentPlayerPlay :: "BracketMatchDto \<Rightarrow> string option \<Rightarrow> bool" where
  "canCurrentPlayerPlay m currentUserId =
     (if \<not> truthy currentUserId \<or> bm_matchId m = None \<or> bm_winnerSlot m \<noteq> None then False
      else map_option bs_userId (bm_slotA m) = currentUserId \<or> map_option bs_userId (bm_slotB m) = currentUserId)"

record slot_row =
  sr_name :: string
  sr_score :: "nat option"
  sr_isWinner :: bool

definition SlotRow :: "BracketSlotDto option \<Rightarrow> nat option \<Rightarrow> bool \<Rightarrow> slot_row" where
  "SlotRow player score isWinner =
     \<lparr>sr_name = (case player of Some p \<Rightarrow> bs_displayName p | None \<Rightarrow> [CHR 0xC3, CHR 0x80] @ '' d'' @ [CHR 0xC3, CHR 0xA9] @ ''terminer''),
      sr_score = score, sr_isWinner = isWinner\<rparr>"

text \<open>A card: one row and the note of a bye, or two rows and perhaps the link to the match.\<close>

datatype bracket_card = ByeCard slot_row | MatchCard slot_row slot_row "string option"

definition BracketMatchCard :: "BracketMatchDto \<Rightarrow> nat \<Rightarrow> string option \<Rightarrow> bracket_card" where
  "BracketMatchCard m rnd currentUserId =
     (if isByeMatch m rnd
      then ByeCard (SlotRow (if bm_slotA m \<noteq> None then bm_slotA m else bm_slotB m) None True)
      else let hasScore = bm_scoreA m \<noteq> None \<and> bm_scoreB m \<noteq> None in
        MatchCard (SlotRow (bm_slotA m) (if hasScore then bm_scoreA m else None) (bm_winnerSlot m = Some Slot_a))
          (SlotRow (bm_slotB m) (if hasScore then bm_scoreB m else None) (bm_winnerSlot m = Some Slot_b))
          (if canCurrentPlayerPlay m currentUserId then map_option (\<lambda>mid. ''/match/'' @ mid) (bm_matchId m) else None))"

definition BracketView :: "BracketRoundDto list \<Rightarrow> string option \<Rightarrow> (string \<times> bracket_card list) list" where
  "BracketView bracket currentUserId =
     (let totalRounds = length bracket in
      map (\<lambda>(rnd, ms). (roundLabel rnd totalRounds, map (\<lambda>m. BracketMatchCard m rnd currentUserId) ms)) bracket)"

subsection \<open>tournamentFilters.ts\<close>

definition formatTournamentStatus :: "TournamentStatus \<Rightarrow> string" where
  "formatTournamentStatus s = (case s of
      TUpcoming \<Rightarrow> [CHR 0xC3, CHR 0x80] @ '' venir''
    | TRegistrationOpen \<Rightarrow> ''Inscriptions ouvertes''
    | TInProgress \<Rightarrow> ''En cours''
    | TCompleted \<Rightarrow> ''Termin'' @ [CHR 0xC3, CHR 0xA9])"

definition formatTournamentFormat :: "TournamentFormat \<Rightarrow> string" where
  "formatTournamentFormat f = (case f of
      SingleElim \<Rightarrow> [CHR 0xC3, CHR 0x89] @ ''limination directe''
    | DoubleElim \<Rightarrow> ''Double '' @ [CHR 0xC3, CHR 0xA9] @ ''limination'')"

definition isRegistrationOpen :: "TournamentStatus \<Rightarrow> bool" where
  "isRegistrationOpen s \<longleftrightarrow> s = TRegistrationOpen"

definition isTournamentFull :: "nat \<Rightarrow> nat \<Rightarrow> bool" where
  "isTournamentFull registrationsCount bracketSize \<longleftrightarrow> registrationsCount \<ge> bracketSize"

definition ERROR_MESSAGES :: "(string \<times> string) list" where
  "ERROR_MESSAGES =
     [(''TOURNAMENT_FULL'', ''Ce tournoi est complet, aucune place disponible.''),
      (''REGISTRATION_CLOSED'', ''Les inscriptions '' @ [CHR 0xC3, CHR 0xA0] @ '' ce tournoi sont ferm'' @ [CHR 0xC3, CHR 0xA9] @ ''es.''),
      (''ALREADY_REGISTERED'', ''Vous '' @ [CHR 0xC3, CHR 0xAA] @ ''tes d'' @ [CHR 0xC3, CHR 0xA9] @ ''j'' @ [CHR 0xC3, CHR 0xA0] @ '' inscrit '' @ [CHR 0xC3, CHR 0xA0] @ '' ce tournoi.''),
      (''NOT_REGISTERED'', ''Vous n'' @ [CHR 0xE2, CHR 0x80, CHR 0x99] @ [CHR 0xC3, CHR 0xAA] @ ''tes pas inscrit '' @ [CHR 0xC3, CHR 0xA0] @ '' ce tournoi.''),
      (''TOURNAMENT_NOT_FOUND'', ''Ce tournoi est introuvable.'')]"

text \<open>The messages of the errors that the browser raises are a parameter.\<close>

definition humanizeTournamentError :: "(front_error \<Rightarrow> string) \<Rightarrow> front_error \<Rightarrow> string" where
  "humanizeTournamentError messageOf e = (case e of
      ApiError m code \<Rightarrow> (case map_of ERROR_MESSAGES m of Some t \<Rightarrow> t | None \<Rightarrow> m)
    | _ \<Rightarrow> messageOf e)"

subsection \<open>TournamentDetailPage.tsx\<close>

text \<open>The button of the registration: none, to leave, or to register, enabled or not.\<close>

datatype registration_button = NoButton | LeaveButton bool | RegisterButton bool

definition registrationButton ::
  "TournamentStatus \<Rightarrow> nat \<Rightarrow> nat \<Rightarrow> string list \<Rightarrow> string option \<Rightarrow> bool \<Rightarrow> registration_button" where
  "registrationButton s registrationsCount bracketSize registered currentUserId isPending =
     (let isRegistered = list_ex (\<lambda>r. Some r = currentUserId) registered in
      if \<not> isRegistrationOpen s then NoButton
      else if isRegistered then LeaveButton (\<not> isPending)
      else RegisterButton (\<not> (isPending \<or> isTournamentFull registrationsCount bracketSize)))"

subsection \<open>formatRating.ts\<close>

datatype RatingDeltaTone = TonePositive | ToneNegative | ToneNeutral

definition formatRatingDelta :: "int \<Rightarrow> string \<times> RatingDeltaTone \<times> string" where
  "formatRatingDelta delta =
     (let tone = (if delta > 0 then TonePositive else if delta < 0 then ToneNegative else ToneNeutral) in
      (if delta \<ge> 0 then ''+'' @ show_int delta else show_int delta, tone,
       case tone of TonePositive \<Rightarrow> ''delta-positive'' | ToneNegative \<Rightarrow> ''delta-negative'' | ToneNeutral \<Rightarrow> ''delta-neutral''))"

subsection \<open>The paths of the API\<close>

text \<open>The values are digits and lower-case words, which \<open>URLSearchParams\<close> leaves as they are.\<close>

definition status_param :: "TournamentStatus \<Rightarrow> string" where
  "status_param s = (case s of TUpcoming \<Rightarrow> ''upcoming'' | TRegistrationOpen \<Rightarrow> ''registration_open''
     | TInProgress \<Rightarrow> ''in_progress'' | TCompleted \<Rightarrow> ''completed'')"

definition buildTournamentsPath :: "TournamentStatus option \<Rightarrow> string" where
  "buildTournamentsPath s = (case s of None \<Rightarrow> ''/tournaments'' | Some x \<Rightarrow> ''/tournaments?status='' @ status_param x)"

definition buildLeaderboardPath :: "string option \<Rightarrow> string" where
  "buildLeaderboardPath league =
     ''/leaderboard?limit=50'' @ (if truthy league then ''&league='' @ the league else [])"

definition buildSeasonStandingsPath :: "string \<Rightarrow> nat \<Rightarrow> string option \<Rightarrow> string" where
  "buildSeasonStandingsPath seasonId page league =
     ''/seasons/'' @ seasonId @ ''/standings?page='' @ show_nat page @ ''&limit=50'' @
     (if truthy league then ''&league='' @ the league else [])"

text \<open>The requests of \<open>apiClient.ts\<close>.\<close>

definition get_init :: request_init where "get_init = \<lparr>ri_method = ''GET'', ri_body = None\<rparr>"

definition fa_listTournaments :: "nat \<Rightarrow> TournamentStatus option \<Rightarrow> front_auth \<Rightarrow> front_auth" where
  "fa_listTournaments n s = start_call (Call n) ForPage (buildTournamentsPath s) get_init"

definition fa_getTournament :: "nat \<Rightarrow> string \<Rightarrow> front_auth \<Rightarrow> front_auth" where
  "fa_getTournament n tid = start_call (Call n) ForPage (''/tournaments/'' @ tid) get_init"

definition registerForTournament :: "nat \<Rightarrow> string \<Rightarrow> front_auth \<Rightarrow> front_auth" where
  "registerForTournament n tid =
     start_call (Call n) ForPage (''/tournaments/'' @ tid @ ''/register'') \<lparr>ri_method = ''POST'', ri_body = None\<rparr>"

definition unregisterFromTournament :: "nat \<Rightarrow> string \<Rightarrow> front_auth \<Rightarrow> front_auth" where
  "unregisterFromTournament n tid =
     start_call (Call n) ForPage (''/tournaments/'' @ tid @ ''/register'') \<lparr>ri_method = ''DELETE'', ri_body = None\<rparr>"

definition fa_forgotPassword :: "nat \<Rightarrow> string \<Rightarrow> front_auth \<Rightarrow> front_auth" where
  "fa_forgotPassword n email = start_call (Call n) ForPage ''/auth/forgot-password''
     \<lparr>ri_method = ''POST'', ri_body = Some (JObj [(''email'', JStr email)])\<rparr>"

definition fa_resetPassword :: "nat \<Rightarrow> string \<Rightarrow> string \<Rightarrow> front_auth \<Rightarrow> front_auth" where
  "fa_resetPassword n token newPassword = start_call (Call n) ForPage ''/auth/reset-password''
     \<lparr>ri_method = ''POST'', ri_body = Some (JObj [(''token'', JStr token), (''newPassword'', JStr newPassword)])\<rparr>"

subsection \<open>The guards of the routes\<close>

datatype route = LoadingPage | RedirectTo string | PageOutlet

definition ProtectedRoute :: "front_auth \<Rightarrow> route" where
  "ProtectedRoute fa = (if fa_bootstrapping fa then LoadingPage
     else if \<not> isAuthenticated fa then RedirectTo ''/login'' else PageOutlet)"

definition GuestRoute :: "front_auth \<Rightarrow> route" where
  "GuestRoute fa = (if fa_bootstrapping fa then LoadingPage
     else if isAuthenticated fa then RedirectTo ''/lobby'' else PageOutlet)"

definition AdminRoute :: "front_auth \<Rightarrow> route" where
  "AdminRoute fa = (if fa_bootstrapping fa then LoadingPage
     else if \<not> isAuthenticated fa then RedirectTo ''/login''
     else if fld ''role'' (fa_user fa) \<noteq> JStr ''admin'' then RedirectTo ''/lobby'' else PageOutlet)"

subsection \<open>The texts of errors\<close>

text \<open>\<open>GameErrorNotice.tsx\<close>; a code that is a number is none of the keys.\<close>

definition game_messages :: "(string \<times> string) list" where
  "game_messages =
     [(''ALREADY_IN_QUEUE'', ''Vous '' @ [CHR 0xC3, CHR 0xAA] @ ''tes d'' @ [CHR 0xC3, CHR 0xA9] @ ''j'' @ [CHR 0xC3, CHR 0xA0] @ '' dans la file d'' @ [CHR 0xE2, CHR 0x80, CHR 0x99] @ ''attente.''),
      (''ALREADY_IN_MATCH'', ''Vous avez d'' @ [CHR 0xC3, CHR 0xA9] @ ''j'' @ [CHR 0xC3, CHR 0xA0] @ '' un match en cours.''),
      (''RATE_LIMITED'', ''Patientez un instant avant de relancer une recherche.''),
      (''AUTH_UNAVAILABLE'', ''Le service d'' @ [CHR 0xE2, CHR 0x80, CHR 0x99] @ ''authentification est temporairement indisponible.''),
      (''INVALID_TOKEN'', ''Votre session a expir'' @ [CHR 0xC3, CHR 0xA9] @ ''. Reconnectez-vous.''),
      (''SOCKET_DISCONNECTED'', ''La connexion temps r'' @ [CHR 0xC3, CHR 0xA9] @ ''el est interrompue.'')]"

definition humanizeError :: "js \<Rightarrow> js" where
  "humanizeError e = (case fld ''code'' e of
      JStr code \<Rightarrow> (case map_of game_messages code of Some t \<Rightarrow> JStr t | None \<Rightarrow> fld ''message'' e)
    | _ \<Rightarrow> fld ''message'' e)"

subsection \<open>What the pages offer, and what the api accepts\<close>

text \<open>The button to play is there for the two players of a match that was started and is not over.\<close>

lemma canCurrentPlayerPlay_iff:
  "canCurrentPlayerPlay (toBracketMatch users played m) (Some u) \<longleftrightarrow>
     u \<noteq> [] \<and> tm_matchId m \<noteq> None \<and> tm_winnerSlot m = None \<and>
     (map_option bs_userId (toSlot users (tm_slotAId m)) = Some u \<or> map_option bs_userId (toSlot users (tm_slotBId m)) = Some u)"
  by (auto simp: canCurrentPlayerPlay_def toBracketMatch_def Let_def)

text \<open>Every refusal of \<open>registerPlayer\<close> has a text of its own; the api sends it as \<open>{ error: code }\<close>.\<close>

lemma registration_refusals_translated:
  "list_all (\<lambda>code. map_of ERROR_MESSAGES (formatApiError toString (JObj [(''error'', JStr code)]) n) \<noteq> None)
     [''TOURNAMENT_NOT_FOUND'', ''REGISTRATION_CLOSED'', ''TOURNAMENT_FULL'', ''ALREADY_REGISTERED'']"
  by (simp add: formatApiError_def ERROR_MESSAGES_def)

text \<open>
  An exception that is made of a text is sent with the name of its class under \<open>error\<close>, which the client
  prefers: the message of the service is not shown. An answer with neither key has only its number.
\<close>

lemma named_exceptions_hide_their_message:
  "formatApiError toString (JObj [(''message'', JStr ''Unable to complete registration''), (''error'', JStr ''Conflict''),
     (''statusCode'', jint 409)]) 409 = ''Conflict''"
  "formatApiError toString (JObj [(''code'', JStr ''UNKNOWN_LEAGUE'')]) 400 = default_message 400"
  by (simp_all add: formatApiError_def)

end
