(* ===== verification/Job_Workers.thy ===== *)
theory Job_Workers
  imports Match_Persistence Season_Reset Tournament_Jobs Auth_Service
begin

section \<open>apps/job-runner: workers, mails and the cron lock\<close>

text \<open>
  What runs around the processors: the choice of a processor for a queue (\<open>workers/worker-processors.ts\<close>),
  the worker with its events and counters (\<open>workers/worker-factory.ts\<close>, \<open>metrics/worker-metrics.service.ts\<close>),
  the list of queues of a process (\<open>config/env.ts\<close>), the mails
  (\<open>notifications/notifications.processor.ts\<close>, \<open>template.service.ts\<close>, \<open>mail.service.ts\<close>) and the
  registration of the monthly reset (\<open>cron/cron-scheduler.service.ts\<close>). BullMQ decides when a job is tried
  again: that decision is a parameter, and what its documentation says of it a hypothesis. The template
  files and the SMTP transport are parameters too.
\<close>

subsection \<open>env.ts: the queues of a process\<close>

datatype WorkerQueueName = QMatchEvents | QNotifications | QSeasons | QTournaments

definition WORKER_QUEUE_NAMES :: "(string \<times> WorkerQueueName) list" where
  "WORKER_QUEUE_NAMES =
     [(''match-events'', QMatchEvents), (''notifications'', QNotifications), (''seasons'', QSeasons),
      (''tournaments'', QTournaments)]"

text \<open>\<open>value.split(",")\<close>\<close>

fun split_on :: "char \<Rightarrow> string \<Rightarrow> string list" where
  "split_on c [] = [[]]"
| "split_on c (x # xs) = (if x = c then [] # split_on c xs
     else case split_on c xs of [] \<Rightarrow> [[x]] | w # ws \<Rightarrow> (x # w) # ws)"

definition parse_worker_queues :: "string \<Rightarrow> WorkerQueueName list option" where
  "parse_worker_queues value =
     (if value = [] then None
      else let names = filter (\<lambda>q. length q > 0) (map trim (split_on (CHR '','') value));
               queues = map (map_of WORKER_QUEUE_NAMES) names in
        if (\<forall>q \<in> set queues. q \<noteq> None) \<and> names \<noteq> [] then Some (map the queues) else None)"

subsection \<open>template.service.ts and mail.service.ts\<close>

record RenderedMail =
  rm_subject :: string
  rm_html :: string
  rm_text :: string

definition TEMPLATE_SUBJECTS :: "(string \<times> string) list" where
  "TEMPLATE_SUBJECTS =
    [(''welcome'', ''Bienvenue sur Chifoumi''),
     (''reset-password'', ''R'' @ [CHR 0xC3, CHR 0xA9] @ ''initialisation de votre mot de passe Chifoumi''),
     (''season-reward'', ''Fin de saison Chifoumi '' @ [CHR 0xE2, CHR 0x80, CHR 0x94] @ '' tes r'' @ [CHR 0xC3, CHR 0xA9] @ ''sultats''),
     (''tournament-completed'', ''Tournoi Chifoumi '' @ [CHR 0xE2, CHR 0x80, CHR 0x94] @ '' victoire !''),
     (''tournament-match-ready'', ''Tournoi Chifoumi '' @ [CHR 0xE2, CHR 0x80, CHR 0x94] @ '' ton prochain match est pr'' @ [CHR 0xC3, CHR 0xAA] @ ''t''),
     (''tournament-started'', ''Ton tournoi Chifoumi a commenc'' @ [CHR 0xC3, CHR 0xA9])]"

definition readTemplate :: "(string \<Rightarrow> string option) \<Rightarrow> string \<Rightarrow> string \<Rightarrow> ('s, app_exn, string) eff" where
  "readTemplate files template extension =
     (case files (template @ ''.'' @ extension) of
        None \<Rightarrow> raise (JobError ''missing mail template file'')
      | Some content \<Rightarrow> ret content)"

text \<open>
  A name that is no key of the table is refused. (A name that every JavaScript object inherits, such as
  \<open>toString\<close>, fails at the missing file instead.)
\<close>

definition render :: "(string \<Rightarrow> string option) \<Rightarrow> string \<Rightarrow> (string \<times> string) list \<Rightarrow> ('s, app_exn, RenderedMail) eff" where
  "render files template data =
     (case map_of TEMPLATE_SUBJECTS template of
        None \<Rightarrow> raise (JobError ''unknown mail template'')
      | Some subject \<Rightarrow>
          bindS (readTemplate files template ''html'') (\<lambda>htmlSource.
          bindS (readTemplate files template ''txt'') (\<lambda>textSource.
          ret \<lparr>rm_subject = subject, rm_html = interpolate htmlSource data, rm_text = interpolate textSource data\<rparr>)))"

record SmtpMail =
  sm_from :: string
  sm_to :: string
  sm_subject :: string
  sm_html :: string
  sm_text :: string

text \<open>What the processors are given; \<open>pd_sendMail\<close> is \<open>transporter.sendMail\<close> of nodemailer.\<close>

record 's ProcessorDependencies =
  pd_env :: "'s app_env"
  pd_config :: JobRunnerConfig
  pd_MAIL_FROM :: string
  pd_valid_uuid :: "string \<Rightarrow> bool"
  pd_uuid :: "nat \<Rightarrow> nat \<Rightarrow> string"
  pd_lockUuid :: string
  pd_fuel :: nat
  pd_files :: "string \<Rightarrow> string option"
  pd_sendMail :: "SmtpMail \<Rightarrow> ('s, app_exn, unit) eff"

definition mail_send :: "'s ProcessorDependencies \<Rightarrow> mail \<Rightarrow> ('s, app_exn, unit) eff" where
  "mail_send deps m =
     bindS (render (pd_files deps) (ml_template m) (ml_data m)) (\<lambda>rendered.
       pd_sendMail deps \<lparr>sm_from = pd_MAIL_FROM deps, sm_to = ml_to m, sm_subject = rm_subject rendered,
         sm_html = rm_html rendered, sm_text = rm_text rendered\<rparr>)"

subsection \<open>Jobs and their processors\<close>

text \<open>
  A job as a worker gets it: its data have the types of one of the payloads, or of none; \<open>wj_attempts\<close> is
  \<open>opts.attempts\<close>.
\<close>

datatype worker_data = MatchEndedData MatchEndedPayload | AppData app_job_data | OtherData

record worker_job =
  wj_name :: string
  wj_data :: worker_data
  wj_attempts :: "nat option"

definition notificationsProcessor :: "'s ProcessorDependencies \<Rightarrow> worker_job \<Rightarrow> ('s, app_exn, unit) eff" where
  "notificationsProcessor deps job =
     (if wj_name job \<noteq> ''send-mail'' then raise (JobError ''unsupported job name on notifications'')
      else case wj_data job of
        AppData (SendMail m) \<Rightarrow> mail_send deps m
      | _ \<Rightarrow> raise (JobError ''invalid send-mail job payload''))"

text \<open>The job as the processors of \<open>seasons\<close> and \<open>tournaments\<close> read it; a mail is a payload of neither.\<close>

definition app_job_of :: "worker_job \<Rightarrow> app_job" where
  "app_job_of job = \<lparr>aj_queue = [], aj_name = wj_name job,
     aj_data = (case wj_data job of AppData d \<Rightarrow> d | _ \<Rightarrow> SendMail \<lparr>ml_to = [], ml_template = [], ml_data = []\<rparr>),
     aj_jobId = None, aj_attempts = 0\<rparr>"

fun getProcessorForQueue :: "WorkerQueueName \<Rightarrow> 's ProcessorDependencies \<Rightarrow> worker_job \<Rightarrow> ('s, app_exn, unit) eff" where
  "getProcessorForQueue QMatchEvents deps job = matchEndedProcessor (pd_env deps) (pd_valid_uuid deps) (wj_name job)
     (case wj_data job of MatchEndedData p \<Rightarrow> Some p | _ \<Rightarrow> None)"
| "getProcessorForQueue QNotifications deps job = notificationsProcessor deps job"
| "getProcessorForQueue QSeasons deps job = seasonResetProcessor (pd_fuel deps) (pd_env deps) (pd_config deps)
     (pd_valid_uuid deps) (pd_lockUuid deps) (app_job_of job)"
| "getProcessorForQueue QTournaments deps job = generateBracketProcessor (pd_env deps) (pd_config deps)
     (pd_valid_uuid deps) (pd_uuid deps) (pd_lockUuid deps) (app_job_of job)"

subsection \<open>worker-metrics.service.ts and worker-factory.ts\<close>

datatype JobProcessedStatus = JobCompleted | JobFailed

record WorkerMetrics =
  jobsProcessed :: "WorkerQueueName \<Rightarrow> JobProcessedStatus \<Rightarrow> nat"
  jobDurations :: "WorkerQueueName \<Rightarrow> nat"

definition recordJobProcessed :: "WorkerQueueName \<Rightarrow> JobProcessedStatus \<Rightarrow> WorkerMetrics \<Rightarrow> WorkerMetrics" where
  "recordJobProcessed q st m =
     m\<lparr>jobsProcessed := (jobsProcessed m)(q := (jobsProcessed m q)(st := jobsProcessed m q st + 1))\<rparr>"

text \<open>The function \<open>startJobTimer\<close> returns: it observes one duration.\<close>

definition stopTimer :: "WorkerQueueName \<Rightarrow> WorkerMetrics \<Rightarrow> WorkerMetrics" where
  "stopTimer q m = m\<lparr>jobDurations := (jobDurations m)(q := jobDurations m q + 1)\<rparr>"

datatype failure_log = MatchEventFailed nat | NotificationFailed nat

text \<open>A worker process: the services behind it, its metrics and the errors it logged.\<close>

record 's worker_state =
  wk_services :: 's
  wk_metrics :: WorkerMetrics
  wk_logs :: "failure_log list"

text \<open>The handler given to BullMQ: the processor between the start and the stop of a timer.\<close>

definition run_job ::
  "WorkerQueueName \<Rightarrow> 's ProcessorDependencies \<Rightarrow> worker_job \<Rightarrow> ('s worker_state, app_exn, unit) eff" where
  "run_job q deps job w =
     (case getProcessorForQueue q deps job (wk_services w) of
        (r, s) \<Rightarrow> (r, w\<lparr>wk_services := s, wk_metrics := stopTimer q (wk_metrics w)\<rparr>))"

definition on_completed :: "WorkerQueueName \<Rightarrow> 's worker_state \<Rightarrow> 's worker_state" where
  "on_completed q w = w\<lparr>wk_metrics := recordJobProcessed q JobCompleted (wk_metrics w)\<rparr>"

fun is_unrecoverable :: "app_exn \<Rightarrow> bool" where
  "is_unrecoverable (UnrecoverableError _) = True"
| "is_unrecoverable _ = False"

definition attempts_or_one :: "worker_job \<Rightarrow> nat" where
  "attempts_or_one job = (case wj_attempts job of None \<Rightarrow> 1 | Some n \<Rightarrow> n)"

text \<open>The event \<open>failed\<close>; BullMQ passes no job when it lost it (\<open>None\<close>), else the attempts made.\<close>

definition on_failed ::
  "WorkerQueueName \<Rightarrow> (worker_job \<times> nat) option \<Rightarrow> app_exn \<Rightarrow> 's worker_state \<Rightarrow> 's worker_state" where
  "on_failed q failed error w =
     (case failed of
        None \<Rightarrow> w
      | Some (job, attemptsMade) \<Rightarrow>
          let isPermanentFailure = is_unrecoverable error \<or> attempts_or_one job \<le> attemptsMade;
              w1 = (if isPermanentFailure then w\<lparr>wk_metrics := recordJobProcessed q JobFailed (wk_metrics w)\<rparr> else w);
              w2 = (if q = QMatchEvents \<and> isPermanentFailure
                    then w1\<lparr>wk_logs := wk_logs w1 @ [MatchEventFailed attemptsMade]\<rparr> else w1) in
          if q = QNotifications \<and> attempts_or_one job \<le> attemptsMade
          then w2\<lparr>wk_logs := wk_logs w2 @ [NotificationFailed attemptsMade]\<rparr> else w2)"

definition createWorkers ::
  "WorkerQueueName list \<Rightarrow> 's ProcessorDependencies \<Rightarrow>
   (WorkerQueueName \<times> (worker_job \<Rightarrow> ('s worker_state, app_exn, unit) eff)) list" where
  "createWorkers queues deps = map (\<lambda>q. (q, run_job q deps)) queues"

subsection \<open>One job under BullMQ\<close>

text \<open>
  The life of a job in a worker: before each attempt other processes change the services (the list of
  changes, one for each attempt that may come), then the handler runs and its event is handled; \<open>retry\<close>
  is the decision of BullMQ after so many attempts and this error. The first component says whether the
  job is finished. As documented, a job is tried again while attempts are left, unless the error is an
  \<open>UnrecoverableError\<close>.
\<close>

fun attempts_run ::
  "(nat \<Rightarrow> app_exn \<Rightarrow> bool) \<Rightarrow> WorkerQueueName \<Rightarrow> 's ProcessorDependencies \<Rightarrow> worker_job \<Rightarrow> ('s \<Rightarrow> 's) list \<Rightarrow> nat \<Rightarrow>
   's worker_state \<Rightarrow> bool \<times> 's worker_state" where
  "attempts_run retry q deps job [] made w = (False, w)"
| "attempts_run retry q deps job (change # changes) made w =
     (case run_job q deps job (w\<lparr>wk_services := change (wk_services w)\<rparr>) of
        (Inr _, w') \<Rightarrow> (True, on_completed q w')
      | (Inl e, w') \<Rightarrow>
          let w'' = on_failed q (Some (job, Suc made)) e w' in
          if retry (Suc made) e then attempts_run retry q deps job changes (Suc made) w'' else (True, w''))"

definition retries_as_documented :: "worker_job \<Rightarrow> (nat \<Rightarrow> app_exn \<Rightarrow> bool) \<Rightarrow> bool" where
  "retries_as_documented job retry \<longleftrightarrow>
     (\<forall>made e. retry made e \<longleftrightarrow> \<not> is_unrecoverable e \<and> made < attempts_or_one job)"

text \<open>What a finished job leaves in the counters and the log, after \<open>n\<close> further attempts.\<close>

definition counted ::
  "WorkerQueueName \<Rightarrow> worker_job \<Rightarrow> JobProcessedStatus \<Rightarrow> nat \<Rightarrow> nat \<Rightarrow> 's worker_state \<Rightarrow> 's worker_state \<Rightarrow> bool" where
  "counted q job st made n w w' \<longleftrightarrow>
     jobsProcessed (wk_metrics w') = (jobsProcessed (wk_metrics w))(q := (jobsProcessed (wk_metrics w) q)
       (st := jobsProcessed (wk_metrics w) q st + 1)) \<and>
     jobDurations (wk_metrics w') = (jobDurations (wk_metrics w))(q := jobDurations (wk_metrics w) q + n) \<and>
     wk_logs w' = wk_logs w @
       (if st = JobFailed \<and> q = QMatchEvents then [MatchEventFailed (made + n)]
        else if st = JobFailed \<and> q = QNotifications \<and> attempts_or_one job \<le> made + n then [NotificationFailed (made + n)]
        else [])"

lemmas worker_defs = run_job_def on_completed_def on_failed_def recordJobProcessed_def stopTimer_def

lemma attempts_run_counted:
  assumes "retries_as_documented job retry"
    and "0 < length changes" and "attempts_or_one job \<le> made + length changes"
  shows "fst (attempts_run retry q deps job changes made w) \<and>
    (\<exists>st n. 0 < n \<and> (n = 1 \<or> made + n \<le> attempts_or_one job) \<and>
       counted q job st made n w (snd (attempts_run retry q deps job changes made w)))"
  using assms(2,3)
proof (induction changes arbitrary: made w)
  case Nil
  then show ?case by simp
next
  case (Cons c cs)
  obtain r s where run: "getProcessorForQueue q deps job (c (wk_services w)) = (r, s)" by fastforce
  have once: "\<exists>st. counted q job st made 1 w w' \<Longrightarrow> \<exists>st n. 0 < n \<and> (n = 1 \<or> made + n \<le> attempts_or_one job) \<and>
      counted q job st made n w w'" for w' :: "'a worker_state"
    by (metis zero_less_one)
  show ?case
  proof (cases r)
    case (Inr u)
    then have "counted q job JobCompleted made 1 w (snd (attempts_run retry q deps job (c # cs) made w))"
      by (simp add: counted_def worker_defs run)
    with Inr once show ?thesis by (auto simp: run_job_def run)
  next
    case (Inl e)
    show ?thesis
    proof (cases "retry (Suc made) e")
      case False
      then have "is_unrecoverable e \<or> attempts_or_one job \<le> Suc made"
        using assms(1) by (auto simp: retries_as_documented_def)
      then have "counted q job JobFailed made 1 w (snd (attempts_run retry q deps job (c # cs) made w))"
        using Inl False by (auto simp: counted_def worker_defs Let_def run)
      with Inl False once show ?thesis by (auto simp: run_job_def run)
    next
      case True
      then have more: "\<not> is_unrecoverable e" "Suc made < attempts_or_one job"
        using assms(1) by (auto simp: retries_as_documented_def)
      define w2 where "w2 = on_failed q (Some (job, Suc made)) e
        (w\<lparr>wk_services := s, wk_metrics := stopTimer q (wk_metrics w)\<rparr>)"
      have w2: "wk_metrics w2 = stopTimer q (wk_metrics w)" "wk_logs w2 = wk_logs w"
        using more by (auto simp: w2_def on_failed_def Let_def)
      have step: "attempts_run retry q deps job (c # cs) made w = attempts_run retry q deps job cs (Suc made) w2"
        using Inl True by (simp add: run_job_def run w2_def)
      from Cons.prems more have "0 < length cs" "attempts_or_one job \<le> Suc made + length cs" by auto
      from Cons.IH [OF this, of w2] obtain st n where n: "fst (attempts_run retry q deps job cs (Suc made) w2)" "0 < n"
          "n = 1 \<or> Suc made + n \<le> attempts_or_one job"
          "counted q job st (Suc made) n w2 (snd (attempts_run retry q deps job cs (Suc made) w2))"
        by (elim conjE exE) (rule that)
      then have "counted q job st made (Suc n) w (snd (attempts_run retry q deps job cs (Suc made) w2))"
        by (simp add: counted_def w2 stopTimer_def)
      with n more show ?thesis unfolding step by (intro conjI exI [of _ st] exI [of _ "Suc n"]) auto
    qed
  qed
qed


text \<open>A worker on the documented services: UUIDs are unchecked, every template file is a greeting, mails are printed.\<close>

definition example_deps :: "app_world ProcessorDependencies" where
  "example_deps = \<lparr>pd_env = mem_app, pd_config = \<lparr>jc_BULLMQ_PREFIX = ''rps'', jc_WORKER_ROLE = ''notifier''\<rparr>,
     pd_MAIL_FROM = ''noreply@chifoumi.local'', pd_valid_uuid = (\<lambda>_. True), pd_uuid = (\<lambda>i j. show_nat i @ ''-'' @ show_nat j),
     pd_lockUuid = ''u'', pd_fuel = 10, pd_files = (\<lambda>_. Some ''Bonjour __DISPLAY_NAME__''),
     pd_sendMail = (\<lambda>m w. (Inr (), w\<lparr>w_published := w_published w @ [(sm_to m, sm_text m)]\<rparr>))\<rparr>"

definition example_world :: app_world where
  "example_world = \<lparr>w_db = \<lparr>d_users = [], d_elo = [], d_matches = [], d_rounds = [], d_history = [], d_leagues = [],
     d_seasons = [], d_standings = [], d_tournaments = [], d_registrations = [], d_tmatches = [], d_refreshTokens = [],
     d_resetTokens = []\<rparr>, w_saved = [], w_keys = \<lparr>rd_now = 0, rd_keys = (\<lambda>_. None)\<rparr>, w_jobs = [], w_published = [],
     w_outages = []\<rparr>"

definition example_worker :: "app_world worker_state" where
  "example_worker = \<lparr>wk_services = example_world, wk_metrics = \<lparr>jobsProcessed = (\<lambda>_ _. 0), jobDurations = (\<lambda>_. 0)\<rparr>,
     wk_logs = []\<rparr>"

definition welcome_job :: worker_job where
  "welcome_job = \<lparr>wj_name = ''send-mail'', wj_data = AppData (SendMail \<lparr>ml_to = ''a@b.c'', ml_template = ''welcome'',
     ml_data = [(''displayName'', ''Ada'')]\<rparr>), wj_attempts = Some 3\<rparr>"


lemma greeting: "interpolate ''Bonjour __DISPLAY_NAME__'' [(''displayName'', ''Ada'')] = ''Bonjour Ada''"
  by code_simp

lemma welcome_job_runs:
  "w_published (wk_services (snd (attempts_run retry QNotifications example_deps welcome_job [\<lambda>s. s] 0 example_worker)))
   = [(''a@b.c'', ''Bonjour Ada'')]"
  by (simp add: run_job_def notificationsProcessor_def welcome_job_def mail_send_def render_def readTemplate_def
      TEMPLATE_SUBJECTS_def example_deps_def example_worker_def example_world_def eff_simps greeting on_completed_def)

text \<open>A job no processor takes: retried on \<open>notifications\<close>, given up at once on the other queues.\<close>

lemma refused_jobs:
  assumes "wj_name job \<notin> {''match-ended'', ''send-mail'', ''season-reset'', ''generate-bracket''}"
  shows "\<exists>e. getProcessorForQueue q deps job = raise e \<and> (is_unrecoverable e \<longleftrightarrow> q \<noteq> QNotifications)"
  using assms by (cases q) (auto simp: matchEndedProcessor_def notificationsProcessor_def seasonResetProcessor_def
      generateBracketProcessor_def app_job_of_def)

text \<open>Every mail that a service queues names a template that has a subject.\<close>

definition queued_templates :: "string list" where
  "queued_templates = [''welcome'', ''reset-password'', ''season-reward'', ''tournament-started'',
     ''tournament-completed'', ''tournament-match-ready'']"

lemma queued_mails_render:
  assumes "template \<in> set queued_templates"
    and "files (template @ ''.html'') = Some html" and "files (template @ ''.txt'') = Some txt"
  shows "\<exists>subject. render files template data =
    ret \<lparr>rm_subject = subject, rm_html = interpolate html data, rm_text = interpolate txt data\<rparr>"
proof -
  have "map_of TEMPLATE_SUBJECTS template \<noteq> None"
    using assms(1) by (auto simp: queued_templates_def TEMPLATE_SUBJECTS_def)
  then show ?thesis by (auto simp: render_def readTemplate_def assms(2,3) fun_eq_iff eff_simps)
qed

subsection \<open>The queues of a process are read back\<close>

lemma split_on_no: "c \<notin> set s \<Longrightarrow> split_on c s = [s]"
  by (induction s) auto

lemma split_on_append: "c \<notin> set s \<Longrightarrow> split_on c (s @ c # t) = s # split_on c t"
  by (induction s) auto

definition queue_name :: "WorkerQueueName \<Rightarrow> string" where
  "queue_name q = (case q of QMatchEvents \<Rightarrow> ''match-events'' | QNotifications \<Rightarrow> ''notifications''
     | QSeasons \<Rightarrow> ''seasons'' | QTournaments \<Rightarrow> ''tournaments'')"

fun join_queues :: "WorkerQueueName list \<Rightarrow> string" where
  "join_queues [] = []"
| "join_queues [q] = queue_name q"
| "join_queues (q # qs) = queue_name q @ CHR '','' # join_queues qs"

lemma queue_name_facts:
  "CHR '','' \<notin> set (queue_name q)" "trim (queue_name q) = queue_name q" "queue_name q \<noteq> []"
  "map_of WORKER_QUEUE_NAMES (queue_name q) = Some q"
  by (cases q; simp add: queue_name_def trim_def is_space_def WORKER_QUEUE_NAMES_def)+

lemma split_join: "qs \<noteq> [] \<Longrightarrow> split_on (CHR '','') (join_queues qs) = map queue_name qs"
  by (induction qs rule: join_queues.induct) (simp_all add: split_on_no split_on_append queue_name_facts)

lemma join_nonempty: "qs \<noteq> [] \<Longrightarrow> join_queues qs \<noteq> []"
  by (induction qs rule: join_queues.induct) (simp_all add: queue_name_facts)

lemma parse_join_queues: "qs \<noteq> [] \<Longrightarrow> parse_worker_queues (join_queues qs) = Some qs"
  by (simp add: parse_worker_queues_def Let_def split_join join_nonempty queue_name_facts comp_def)

subsection \<open>cron-scheduler.service.ts\<close>

definition CRON_LOCK_TTL_SECONDS :: nat where "CRON_LOCK_TTL_SECONDS = 60"

text \<open>
  The fields of the service: whether it is connected to Redis, whether it has its queue, whether it
  believes it holds the lock. \<open>CRON_ENABLED\<close> is an argument, as is \<open>add\<close> of BullMQ with a repeat option
  (queue, name, data, pattern, id). An exception of \<open>onModuleInit\<close> stops the process.
\<close>

record CronSchedulerService =
  cr_redis :: bool
  cr_seasonsQueue :: bool
  cr_lockHeld :: bool

definition cron_new :: CronSchedulerService where
  "cron_new = \<lparr>cr_redis = False, cr_seasonsQueue = False, cr_lockHeld = False\<rparr>"

definition cronLockKey :: "JobRunnerConfig \<Rightarrow> string" where
  "cronLockKey cfg = jc_BULLMQ_PREFIX cfg @ '':job-runner:cron-scheduler-lock''"

definition acquireSchedulerLock :: "'s app_env \<Rightarrow> JobRunnerConfig \<Rightarrow> CronSchedulerService \<Rightarrow> ('s, app_exn, bool) eff" where
  "acquireSchedulerLock env cfg c =
     (if \<not> cr_redis c then ret False
      else a_set_nx env (cronLockKey cfg) CRON_LOCK_TTL_SECONDS (jc_WORKER_ROLE cfg))"

type_synonym 's add_repeat = "string \<Rightarrow> string \<Rightarrow> app_job_data \<Rightarrow> string \<Rightarrow> string \<Rightarrow> ('s, app_exn, unit) eff"

definition cron_job_data :: app_job_data where
  "cron_job_data = SeasonReset None ''cron-scheduler''"

definition cron_onModuleInit ::
  "'s app_env \<Rightarrow> 's add_repeat \<Rightarrow> JobRunnerConfig \<Rightarrow> bool \<Rightarrow> CronSchedulerService \<Rightarrow> ('s, app_exn, CronSchedulerService) eff" where
  "cron_onModuleInit env add_repeat cfg CRON_ENABLED c =
     (if \<not> CRON_ENABLED then ret c
      else let c1 = c\<lparr>cr_redis := True\<rparr> in
        bindS (acquireSchedulerLock env cfg c1) (\<lambda>lockAcquired.
          if \<not> lockAcquired then ret (c1\<lparr>cr_redis := False\<rparr>)
          else thenS (add_repeat ''seasons'' ''season-reset'' cron_job_data ''0 0 1 * *'' ''season-reset-cron'')
            (ret (c1\<lparr>cr_lockHeld := True, cr_seasonsQueue := True\<rparr>))))"

definition cron_onModuleDestroy ::
  "'s app_env \<Rightarrow> JobRunnerConfig \<Rightarrow> CronSchedulerService \<Rightarrow> ('s, app_exn, CronSchedulerService) eff" where
  "cron_onModuleDestroy env cfg c =
     thenS (if cr_lockHeld c \<and> cr_redis c then a_del env (cronLockKey cfg) else ret ()) (ret cron_new)"

text \<open>The job it registers is one the worker of \<open>seasons\<close> accepts: a reset of the season closed last.\<close>

lemma cron_job_accepted:
  "getProcessorForQueue QSeasons deps \<lparr>wj_name = ''season-reset'', wj_data = AppData cron_job_data, wj_attempts = None\<rparr> =
   bindS (processSeasonReset (pd_fuel deps) (pd_env deps) (pd_config deps) (pd_lockUuid deps) None) (\<lambda>result.
     if result = Noop then ret () else invalidateLeaderboard (pd_env deps))"
  by (simp add: seasonResetProcessor_def app_job_of_def cron_job_data_def)

text \<open>A scheduler registers the job exactly when the lock was free; then nobody else does before it expires.\<close>

lemma cron_init_cases:
  assumes "w_outages w = []"
  shows "look (w_keys w) (cronLockKey cfg) \<noteq> None \<Longrightarrow>
      cron_onModuleInit mem_app add cfg True cron_new w = (Inr cron_new, w)"
    and "look (w_keys w) (cronLockKey cfg) = None \<Longrightarrow>
      cron_onModuleInit mem_app add cfg True cron_new w =
        thenS (add ''seasons'' ''season-reset'' cron_job_data ''0 0 1 * *'' ''season-reset-cron'')
          (ret \<lparr>cr_redis = True, cr_seasonsQueue = True, cr_lockHeld = True\<rparr>)
          (w\<lparr>w_keys := put (cronLockKey cfg) (RStr (Txt (jc_WORKER_ROLE cfg))) (expiry (w_keys w) CRON_LOCK_TTL_SECONDS) (w_keys w)\<rparr>)"
  using assms by (auto simp: cron_onModuleInit_def acquireSchedulerLock_def cron_new_def mem_app_def app_call_ok
      do_set_nx_def eff_simps Let_def)

text \<open>
  The lock is freed without looking at its owner, and it lasts for a minute that nothing renews: once it has
  expired and another process holds it, the shutdown of the first process frees the lock of the other.
\<close>

lemma cron_destroy_frees_foreign_lock:
  assumes up: "w_outages w = []" and free: "look (w_keys w) (cronLockKey cfg) = None"
    and add: "\<And>q n d p i s. add q n d p i s = (Inr (), s)"
  defines "w1 \<equiv> snd (cron_onModuleInit mem_app add cfg True cron_new w)"
  defines "w2 \<equiv> snd (a_sleep mem_app 60000 w1)"
  defines "w3 \<equiv> snd (cron_onModuleInit mem_app add cfg True cron_new w2)"
  shows "lock_owner (cronLockKey cfg) (w_keys w3) = Some (jc_WORKER_ROLE cfg)"
    and "fst (cron_onModuleInit mem_app add cfg True cron_new w2) =
      Inr \<lparr>cr_redis = True, cr_seasonsQueue = True, cr_lockHeld = True\<rparr>"
    and "lock_owner (cronLockKey cfg) (w_keys (snd (cron_onModuleDestroy mem_app cfg
      \<lparr>cr_redis = True, cr_seasonsQueue = True, cr_lockHeld = True\<rparr> w3))) = None"
proof -
  have w1: "w1 = w\<lparr>w_keys := put (cronLockKey cfg) (RStr (Txt (jc_WORKER_ROLE cfg)))
      (expiry (w_keys w) CRON_LOCK_TTL_SECONDS) (w_keys w)\<rparr>"
    by (simp add: w1_def cron_init_cases(2) [OF up free] add eff_simps)
  have w2: "w_outages w2 = []" "look (w_keys w2) (cronLockKey cfg) = None"
    using up by (simp_all add: w2_def w1 mem_app_def look_def put_def expired_def expiry_def CRON_LOCK_TTL_SECONDS_def)
  have w3: "w3 = w2\<lparr>w_keys := put (cronLockKey cfg) (RStr (Txt (jc_WORKER_ROLE cfg)))
      (expiry (w_keys w2) CRON_LOCK_TTL_SECONDS) (w_keys w2)\<rparr>"
    by (simp add: w3_def cron_init_cases(2) [OF w2] add eff_simps)
  show "lock_owner (cronLockKey cfg) (w_keys w3) = Some (jc_WORKER_ROLE cfg)"
    by (simp add: w3 CRON_LOCK_TTL_SECONDS_def)
  show "fst (cron_onModuleInit mem_app add cfg True cron_new w2) =
      Inr \<lparr>cr_redis = True, cr_seasonsQueue = True, cr_lockHeld = True\<rparr>"
    by (simp add: cron_init_cases(2) [OF w2] add eff_simps)
  show "lock_owner (cronLockKey cfg) (w_keys (snd (cron_onModuleDestroy mem_app cfg
      \<lparr>cr_redis = True, cr_seasonsQueue = True, cr_lockHeld = True\<rparr> w3))) = None"
    using w2 by (simp add: cron_onModuleDestroy_def mem_app_def w3 app_call_ok eff_simps)
qed

end
