(* ===== verification/Mail_Names.thy ===== *)
theory Mail_Names
  imports Notifications
begin

section \<open>Names in mails\<close>

text \<open>
  What \<open>sanitizeForTemplate\<close> of the job runner is for: a name chosen by a user must not be read as a
  placeholder when the mail is interpolated.
\<close>

subsection \<open>A cleaned name holds no placeholder\<close>

definition starts_placeholder :: "string \<Rightarrow> bool" where
  "starts_placeholder s \<longleftrightarrow> (\<exists>k v. k \<noteq> [] \<and> list_all placeholder_char k \<and> s = ''__'' @ k @ ''__'' @ v)"

lemma underscore [simp]: "placeholder_char (CHR ''_'')"
  by (simp add: placeholder_char_def)

lemma run_prefix: "list_all P (take n s) \<Longrightarrow> n \<le> length s \<Longrightarrow> n \<le> length (takeWhile P s)"
  by (induction s arbitrary: n) (auto simp: take_Cons split: nat.splits)

lemma run_all: "n \<le> length (takeWhile P s) \<Longrightarrow> list_all P (take n s)"
  by (induction s arbitrary: n) (auto simp: take_Cons split: nat.splits if_splits)

lemma placeholder_length_bounds:
  "placeholder_length s = Some n \<Longrightarrow> take 2 s = ''__'' \<and> 5 \<le> n \<and> n \<le> length (takeWhile placeholder_char s) \<and>
    drop (n - 2) (take n s) = ''__''"
  by (auto simp: placeholder_length_def find_Some_iff rev_nth split: if_splits simp del: upt_Suc)

lemma placeholder_length_None: "placeholder_length s = None \<longleftrightarrow> \<not> starts_placeholder s"
proof
  assume none: "placeholder_length s = None"
  show "\<not> starts_placeholder s"
  proof
    assume "starts_placeholder s"
    then obtain k v where k: "k \<noteq> []" "list_all placeholder_char k" "s = ''__'' @ k @ ''__'' @ v"
      by (auto simp: starts_placeholder_def)
    let ?n = "length k + 4"
    have "?n = length (''__'' @ k @ ''__'')" "s = (''__'' @ k @ ''__'') @ v" by (simp_all add: k(3))
    then have "take ?n s = ''__'' @ k @ ''__''" by (metis append_eq_conv_conj)
    moreover from this have "list_all placeholder_char (take ?n s)" using k(2) by simp
    ultimately have "?n \<le> length (takeWhile placeholder_char s)" "drop (?n - 2) (take ?n s) = ''__''"
      using run_prefix [of placeholder_char ?n s] by (simp_all add: k(3))
    moreover have "5 \<le> ?n" using k(1) by (cases k) auto
    moreover have "take 2 s = ''__''" by (simp add: k(3))
    ultimately show False using none
      by (auto simp: placeholder_length_def find_None_iff simp del: upt_Suc dest!: spec [of _ "length k + 4"])
  qed
next
  assume no: "\<not> starts_placeholder s"
  show "placeholder_length s = None"
  proof (rule ccontr)
    assume "placeholder_length s \<noteq> None"
    then obtain n where n: "take 2 s = ''__''" "5 \<le> n" "n \<le> length (takeWhile placeholder_char s)"
        "drop (n - 2) (take n s) = ''__''"
      using placeholder_length_bounds by blast
    define k where "k = drop 2 (take (n - 2) s)"
    have len: "n \<le> length s" using n(3) length_takeWhile_le le_trans by blast
    have "take n s = take (n - 2) (take n s) @ drop (n - 2) (take n s)" by (simp only: append_take_drop_id)
    also have "take (n - 2) (take n s) = take (n - 2) s" by (simp add: min_def)
    also have "take (n - 2) s = take 2 (take (n - 2) s) @ drop 2 (take (n - 2) s)" by (simp only: append_take_drop_id)
    also have "take 2 (take (n - 2) s) = ''__''" using n(1,2) by (simp add: min_def)
    finally have "take n s = ''__'' @ k @ ''__''" using n(4) by (simp add: k_def)
    then have "s = ''__'' @ k @ ''__'' @ drop n s" by (metis append.assoc append_take_drop_id)
    moreover have "list_all placeholder_char k"
      using run_all [OF n(3)] \<open>take n s = ''__'' @ k @ ''__''\<close> by simp
    moreover have "k \<noteq> []" using n(2) len by (auto simp: k_def)
    ultimately show False using no by (auto simp: starts_placeholder_def)
  qed
qed

text \<open>A run without placeholders is copied.\<close>

lemma sanitize_run:
  assumes "\<And>p. p < length (takeWhile placeholder_char s) \<Longrightarrow> \<not> starts_placeholder (drop p s)"
  shows "sanitizeForTemplate s = takeWhile placeholder_char s @ sanitizeForTemplate (dropWhile placeholder_char s)"
  using assms
proof (induction s)
  case Nil
  then show ?case by (simp add: sanitizeForTemplate.simps)
next
  case (Cons c cs)
  show ?case
  proof (cases "placeholder_char c")
    case True
    then have "placeholder_length (c # cs) = None"
      using Cons.prems [of 0] by (simp add: placeholder_length_None)
    moreover have "\<not> starts_placeholder (drop p cs)" if "p < length (takeWhile placeholder_char cs)" for p
      using Cons.prems [of "Suc p"] that True by simp
    ultimately show ?thesis using Cons.IH True by (simp add: sanitizeForTemplate.simps [of "c # cs"])
  qed simp
qed

lemma sanitize_stop:
  "takeWhile placeholder_char (sanitizeForTemplate (dropWhile placeholder_char s)) = []"
proof (cases "dropWhile placeholder_char s")
  case Nil
  show ?thesis by (simp only: Nil) (simp add: sanitizeForTemplate.simps)
next
  case (Cons c cs)
  then have c: "\<not> placeholder_char c" by (metis hd_dropWhile list.distinct(1) list.sel(1))
  then have "\<not> starts_placeholder (c # cs)" by (auto simp: starts_placeholder_def)
  then have "placeholder_length (c # cs) = None" by (simp add: placeholder_length_None)
  with c Cons show ?thesis by (simp add: sanitizeForTemplate.simps [of "c # cs"])
qed

lemma starts_take:
  assumes "starts_placeholder s" and "takeWhile placeholder_char s = takeWhile placeholder_char t"
  shows "starts_placeholder t"
proof -
  obtain k v where k: "k \<noteq> []" "list_all placeholder_char k" "s = ''__'' @ k @ ''__'' @ v"
    using assms(1) by (auto simp: starts_placeholder_def)
  then have "takeWhile placeholder_char s = ''__'' @ k @ ''__'' @ takeWhile placeholder_char v"
    by (simp add: takeWhile_append2 list_all_iff)
  then have "t = ''__'' @ k @ ''__'' @ (takeWhile placeholder_char v @ dropWhile placeholder_char t)"
    using takeWhile_dropWhile_id [of placeholder_char t] assms(2) by simp
  with k show ?thesis unfolding starts_placeholder_def by blast
qed

text \<open>A placeholder inside the run behind two underscores makes a placeholder of the whole.\<close>

lemma starts_later:
  assumes "starts_placeholder (drop p cs)" and "p < length (takeWhile placeholder_char cs)"
  shows "starts_placeholder (CHR ''_'' # CHR ''_'' # cs)" and
    "cs = CHR ''_'' # ds \<Longrightarrow> starts_placeholder (CHR ''_'' # cs)"
proof -
  obtain k v where k: "k \<noteq> []" "list_all placeholder_char k" "drop p cs = ''__'' @ k @ ''__'' @ v"
    using assms(1) by (auto simp: starts_placeholder_def)
  define u where "u = take p cs"
  have cs: "cs = u @ ''__'' @ k @ ''__'' @ v" using k(3) by (metis append_take_drop_id u_def)
  have u: "list_all placeholder_char u" using assms(2) by (simp add: u_def run_all)
  have "CHR ''_'' # CHR ''_'' # cs = ''__'' @ (u @ ''__'' @ k) @ ''__'' @ v" by (simp add: cs)
  moreover have "list_all placeholder_char (u @ ''__'' @ k)" using u k(2) by simp
  ultimately show "starts_placeholder (CHR ''_'' # CHR ''_'' # cs)"
    unfolding starts_placeholder_def by (metis append_is_Nil_conv k(1))
  assume "cs = CHR ''_'' # ds"
  show "starts_placeholder (CHR ''_'' # cs)"
  proof (cases u)
    case Nil
    then have "CHR ''_'' # cs = ''__'' @ (CHR ''_'' # k) @ ''__'' @ v" by (simp add: cs)
    with k(2) show ?thesis unfolding starts_placeholder_def
      by (intro exI [of _ "CHR ''_'' # k"] exI [of _ v]) simp
  next
    case (Cons a us)
    with \<open>cs = CHR ''_'' # ds\<close> cs have a: "a = CHR ''_''" by simp
    have "CHR ''_'' # cs = ''__'' @ (us @ ''__'' @ k) @ ''__'' @ v" by (simp add: cs Cons a)
    moreover have "list_all placeholder_char (us @ ''__'' @ k)" using u Cons k(2) by simp
    ultimately show ?thesis unfolding starts_placeholder_def by (metis append_is_Nil_conv k(1))
  qed
qed

text \<open>A character the search passes by does not start a placeholder with what is left behind it.\<close>

lemma sanitize_keeps_start:
  assumes no: "\<not> starts_placeholder (c # cs)"
  shows "\<not> starts_placeholder (c # sanitizeForTemplate cs)"
proof
  assume start: "starts_placeholder (c # sanitizeForTemplate cs)"
  then obtain t where c: "c = CHR ''_''" "sanitizeForTemplate cs = CHR ''_'' # t"
    by (auto simp: starts_placeholder_def)
  have free: "\<not> starts_placeholder (drop q cs)" if "q < length (takeWhile placeholder_char cs)" for q
  proof (cases cs)
    case (Cons d ds)
    show ?thesis
    proof (cases "d = CHR ''_''")
      case True
      with starts_later(2) [OF _ that] Cons no c show ?thesis by blast
    next
      case False
      then have "placeholder_length cs = None"
        using Cons by (auto simp: placeholder_length_None starts_placeholder_def)
      then have "sanitizeForTemplate cs = d # sanitizeForTemplate ds"
        unfolding Cons by (simp add: sanitizeForTemplate.simps [of "d # ds"])
      with c False show ?thesis by simp
    qed
  qed (use that in simp)
  have run: "sanitizeForTemplate cs = takeWhile placeholder_char cs @ sanitizeForTemplate (dropWhile placeholder_char cs)"
    by (rule sanitize_run) (rule free)
  have "takeWhile placeholder_char (sanitizeForTemplate cs) = takeWhile placeholder_char cs"
    unfolding run by (subst takeWhile_append2) (auto simp: sanitize_stop dest: set_takeWhileD)
  then have "starts_placeholder (c # cs)" using starts_take [OF start] by simp
  with no show False by simp
qed

lemma sanitize_no_start: "\<not> starts_placeholder (drop p (sanitizeForTemplate s))"
proof (induction s arbitrary: p rule: measure_induct_rule [of length])
  case (less s)
  show ?case
  proof (cases s)
    case Nil
    then show ?thesis by (simp add: sanitizeForTemplate.simps starts_placeholder_def)
  next
    case (Cons c cs)
    show ?thesis
    proof (cases "placeholder_length s")
      case (Some n)
      then have "n \<noteq> 0" using placeholder_length_bounds by fastforce
      then have "sanitizeForTemplate s = sanitizeForTemplate (drop n s)"
        using Some unfolding Cons by (simp add: sanitizeForTemplate.simps [of "c # cs"])
      with less [of "drop n s"] \<open>n \<noteq> 0\<close> Cons show ?thesis by simp
    next
      case None
      then have s: "sanitizeForTemplate s = c # sanitizeForTemplate cs"
        using None unfolding Cons by (simp add: sanitizeForTemplate.simps [of "c # cs"])
      have no: "\<not> starts_placeholder (c # cs)" using None Cons by (simp add: placeholder_length_None)
      have "\<not> starts_placeholder (c # sanitizeForTemplate cs)" using no by (rule sanitize_keeps_start)
      then show ?thesis unfolding s using less [of cs "p - 1"] Cons by (cases p) simp_all
    qed
  qed
qed

subsection \<open>No later substitution expands a cleaned name\<close>

lemma replace_nothing:
  assumes "\<And>p. take (length old) (drop p s) \<noteq> old"
  shows "replace_from before old value s = s"
  using assms
proof (induction s arbitrary: before)
  case Nil
  then show ?case by (simp add: replace_from.simps)
next
  case (Cons c cs)
  have "take (length old) (drop p cs) \<noteq> old" for p using Cons.prems [of "Suc p"] by simp
  with Cons.IH Cons.prems [of 0] show ?case by (simp add: replace_from.simps [where s = "c # cs"])
qed

definition letter :: "char \<Rightarrow> bool" where
  "letter c \<longleftrightarrow> of_char c \<in> {65..90::nat} \<or> of_char c \<in> {97..122::nat}"

lemma upper_placeholder: "letter c \<Longrightarrow> placeholder_char (upper c)"
  by (auto simp: letter_def upper_def placeholder_char_def)

lemma placeholder_shape:
  assumes "key \<noteq> []" and "list_all letter key"
  obtains k where "placeholder key = ''__'' @ k @ ''__''" "k \<noteq> []" "list_all placeholder_char k"
proof -
  let ?k = "map upper (concat (map (\<lambda>c. if of_char c \<in> {65..90::nat} then [CHR ''_'', c] else [c]) key))"
  have "upper (CHR ''_'') = CHR ''_''" by (simp add: upper_def)
  then have "list_all placeholder_char ?k"
    using assms(2) upper_placeholder by (auto simp: list_all_iff)
  moreover have "?k \<noteq> []" using assms(1) by (cases key) auto
  ultimately show ?thesis using that [of ?k] by (simp add: placeholder_def)
qed

lemma replace_sanitized:
  assumes "key \<noteq> []" and "list_all letter key"
  shows "replaceAll (placeholder key) value (sanitizeForTemplate name) = sanitizeForTemplate name"
proof -
  obtain k where k: "placeholder key = ''__'' @ k @ ''__''" "k \<noteq> []" "list_all placeholder_char k"
    using placeholder_shape assms by metis
  have "take (length (placeholder key)) (drop p (sanitizeForTemplate name)) \<noteq> placeholder key" for p
  proof
    assume "take (length (placeholder key)) (drop p (sanitizeForTemplate name)) = placeholder key"
    then have "drop p (sanitizeForTemplate name) =
        ''__'' @ k @ ''__'' @ drop (length (placeholder key)) (drop p (sanitizeForTemplate name))"
      using k(1) by (metis append.assoc append_take_drop_id)
    then show False using sanitize_no_start [of p name] k(2,3) unfolding starts_placeholder_def by blast
  qed
  then show ?thesis unfolding replaceAll_def by (rule replace_nothing)
qed

text \<open>
  C16. A display name cannot smuggle a placeholder into a mail: after \<open>sanitizeForTemplate\<close>, whose search
  goes over the name once, no part of it is two underscores, upper-case letters or underscores and two
  underscores, and interpolating it with any data whose keys are made of letters leaves it as it is.
\<close>

theorem names_cannot_inject:
  assumes "list_all (\<lambda>kv. fst kv \<noteq> [] \<and> list_all letter (fst kv)) data"
  shows "(\<nexists>u k v. sanitizeForTemplate name = u @ ''__'' @ k @ ''__'' @ v \<and> k \<noteq> [] \<and> list_all placeholder_char k) \<and>
    interpolate (sanitizeForTemplate name) data = sanitizeForTemplate name"
proof
  show "\<nexists>u k v. sanitizeForTemplate name = u @ ''__'' @ k @ ''__'' @ v \<and> k \<noteq> [] \<and> list_all placeholder_char k"
    using sanitize_no_start [of _ name] unfolding starts_placeholder_def by (metis append_eq_conv_conj)
  show "interpolate (sanitizeForTemplate name) data = sanitizeForTemplate name"
    using assms unfolding interpolate_def by (induction data) (simp_all add: replace_sanitized)
qed

lemma names_cannot_inject_witness:
  "sanitizeForTemplate ''x__A__B__TOURNAMENT_NAME__'' = ''x'' \<and>
   interpolate (sanitizeForTemplate ''x__A__B__TOURNAMENT_NAME__'') [(''displayName'', ''Ada''), (''tournamentName'', ''Cup'')]
     = sanitizeForTemplate ''x__A__B__TOURNAMENT_NAME__''"
proof
  show "sanitizeForTemplate ''x__A__B__TOURNAMENT_NAME__'' = ''x''" by code_simp
  have "list_all (\<lambda>kv. fst kv \<noteq> [] \<and> list_all letter (fst kv)) [(''displayName'', ''Ada''), (''tournamentName'', ''Cup'')]"
    by code_simp
  from names_cannot_inject [OF this, of "''x__A__B__TOURNAMENT_NAME__''"]
  show "interpolate (sanitizeForTemplate ''x__A__B__TOURNAMENT_NAME__'') [(''displayName'', ''Ada''), (''tournamentName'', ''Cup'')]
     = sanitizeForTemplate ''x__A__B__TOURNAMENT_NAME__''" by (rule conjunct2)
qed

end
