(* ===== verification/Api_Routes.thy ===== *)
theory Api_Routes
  imports Api_Admin_Props Api_History_Props Api_Tournament_Props
begin

section \<open>apps/api: the routes\<close>

text \<open>
  Every route of the controllers of \<open>api/src\<close>, from the guards to the service. NestJS runs the global guards of
  \<open>app.module.ts\<close> (the throttler, which is left out, and \<open>JwtAuthGuard\<close>), then the guards of the controller or of
  the method, which check the token a second time, then the pipes, then the method. \<open>@Public\<close> switches both checks of
  the token off. The validation of bodies and queries by class-validator is left out: a request carries values of
  the types of its DTO. The row a creation returns is not modelled.
\<close>

subsection \<open>Guards\<close>

record route_guards =
  ro_public :: bool
  ro_controllerJwt :: bool
  ro_roles :: "string list"

record 's api_deps =
  ad_env :: "'s app_env"
  ad_crypto :: crypto
  ad_jwt :: JwtConfig
  ad_fresh :: fresh
  ad_frontendUrl :: string
  ad_valid_uuid :: "string \<Rightarrow> bool"
  ad_newId :: string
  ad_codec :: cursor_codec
  ad_localeCompare :: "string \<Rightarrow> string \<Rightarrow> int"

definition request_user ::
  "'s app_env \<Rightarrow> crypto \<Rightarrow> route_guards \<Rightarrow> string option \<Rightarrow> ('s, app_exn, RequestUser option) eff" where
  "request_user env c g bearer =
     bindS (jwt_canActivate env c (ro_public g) bearer) (\<lambda>user0.
     bindS (if ro_controllerJwt g then jwt_canActivate env c (ro_public g) bearer else ret user0) (\<lambda>user.
     thenS (liftS (roles_canActivate (ro_roles g) user)) (ret user)))"

text \<open>\<open>req.user.id\<close> of a request without a user throws a \<open>TypeError\<close>; \<open>ParseUUIDPipe\<close> comes before the method.\<close>

definition logged_in :: "RequestUser option \<Rightarrow> ('s, app_exn, RequestUser) eff" where
  "logged_in user = (case user of None \<Rightarrow> raise (HttpError 500 ''Internal server error'') | Some u \<Rightarrow> ret u)"

definition parse_uuid :: "'s api_deps \<Rightarrow> string \<Rightarrow> ('s, app_exn, string) eff" where
  "parse_uuid d i = (if ad_valid_uuid d i then ret i else raise (HttpError 400 ''Validation failed (uuid is expected)''))"

subsection \<open>Requests and responses\<close>

datatype http_request =
  PostRegister string string string | PostLogin string string | PostRefresh string | PostLogout
| PostForgotPassword string | PostResetPassword string string
| GetMe | GetMyHistory nat "string option"
| GetUsers nat nat | GetProfile string
| GetLeaderboard nat "string option" | GetAudit string
| GetCurrentSeason | GetClosedSeasons | GetStandings string nat nat "string option"
| AdminCreateSeason string time | AdminCloseSeason string
| GetTournaments "TournamentStatus option" "nat option" "nat option" | GetTournament string
| PostEntry string | DeleteEntry string
| AdminCreateTournament string TournamentFormat nat time time | AdminOpenTournament string | AdminStartTournament string

record TournamentResponseDto =
  tp_id :: string
  tp_name :: string
  tp_format :: TournamentFormat
  tp_bracketSize :: nat
  tp_registrationOpensAt :: time
  tp_startsAt :: time
  tp_status :: TournamentStatus
  tp_createdAt :: time
  tp_updatedAt :: time

record SeasonResponseDto =
  sq_id :: string
  sq_name :: string
  sq_status :: SeasonStatus
  sq_startedAt :: time
  sq_endsAt :: "time option"
  sq_createdAt :: time
  sq_updatedAt :: time

datatype http_response =
  NoBody | Authenticated "SafeUser \<times> AuthTokens" | Tokens AuthTokens
| Me CurrentUserProfile | History "MeHistoryItem list \<times> string option"
| Users "AdminUserSummary list \<times> nat" | Profile PublicUserProfile
| Board "LeaderboardItem list" LeaderboardCacheStatus | Audit MatchAuditResponseDto
| CurrentSeason "CurrentSeasonDto \<times> CurrentSeasonMeDto" | ClosedSeasons "CurrentSeasonDto list"
| Standings SeasonStandingsResponseDto | Season SeasonResponseDto
| Tournaments "TournamentListItemDto list \<times> nat \<times> nat \<times> nat" | TournamentDetail TournamentDetailDto
| TournamentRow TournamentResponseDto

definition respond :: "('a \<Rightarrow> http_response) \<Rightarrow> ('s, app_exn, 'a) eff \<Rightarrow> ('s, app_exn, http_response) eff" where
  "respond f m = bindS m (\<lambda>x. ret (f x))"

definition no_body :: "('s, app_exn, 'a) eff \<Rightarrow> ('s, app_exn, http_response) eff" where
  "no_body m = respond (\<lambda>_. NoBody) m"

subsection \<open>auth.controller.ts\<close>

definition http_register :: "'s api_deps \<Rightarrow> string \<Rightarrow> string \<Rightarrow> string \<Rightarrow> ('s, app_exn, http_response) eff" where
  "http_register d email password displayName =
     respond Authenticated (api_register (ad_env d) (ad_crypto d) (ad_jwt d) (ad_fresh d) email password displayName)"

definition http_login :: "'s api_deps \<Rightarrow> string \<Rightarrow> string \<Rightarrow> ('s, app_exn, http_response) eff" where
  "http_login d email password = respond Authenticated (api_login (ad_env d) (ad_crypto d) (ad_jwt d) (ad_fresh d) email password)"

definition http_refresh :: "'s api_deps \<Rightarrow> string \<Rightarrow> ('s, app_exn, http_response) eff" where
  "http_refresh d refreshToken = respond Tokens (api_refresh (ad_env d) (ad_crypto d) (ad_jwt d) (ad_fresh d) refreshToken)"

definition http_logout :: "'s api_deps \<Rightarrow> RequestUser option \<Rightarrow> ('s, app_exn, http_response) eff" where
  "http_logout d user = bindS (logged_in user) (\<lambda>u.
     no_body (api_logout (ad_env d) (su_id u) (ru_tokenJti u) (ru_tokenExpiresAt u)))"

definition http_forgotPassword :: "'s api_deps \<Rightarrow> string \<Rightarrow> ('s, app_exn, http_response) eff" where
  "http_forgotPassword d email =
     no_body (api_requestPasswordReset (ad_env d) (ad_crypto d) (ad_frontendUrl d) (ad_fresh d) email)"

definition http_resetPassword :: "'s api_deps \<Rightarrow> string \<Rightarrow> string \<Rightarrow> ('s, app_exn, http_response) eff" where
  "http_resetPassword d token newPassword =
     no_body (api_resetPassword (ad_env d) (ad_crypto d) (ad_fresh d) token newPassword)"

subsection \<open>me.controller.ts, users.controller.ts, leaderboard.controller.ts, matches.controller.ts\<close>

definition http_getMe :: "'s api_deps \<Rightarrow> RequestUser option \<Rightarrow> ('s, app_exn, http_response) eff" where
  "http_getMe d user = bindS (logged_in user) (\<lambda>u. respond Me (getCurrentProfile (ad_env d) (su_id u)))"

definition http_getHistory ::
  "'s api_deps \<Rightarrow> RequestUser option \<Rightarrow> nat \<Rightarrow> string option \<Rightarrow> ('s, app_exn, http_response) eff" where
  "http_getHistory d user lmt cursor = bindS (logged_in user) (\<lambda>u.
     respond History (getHistory (ad_env d) (ad_codec d) (su_id u) lmt cursor))"

definition http_listUsers :: "'s api_deps \<Rightarrow> nat \<Rightarrow> nat \<Rightarrow> ('s, app_exn, http_response) eff" where
  "http_listUsers d page lmt = respond Users (client_listUsers (ad_env d) page lmt)"

definition http_getPublicProfile :: "'s api_deps \<Rightarrow> string \<Rightarrow> ('s, app_exn, http_response) eff" where
  "http_getPublicProfile d userId = bindS (parse_uuid d userId) (\<lambda>i. respond Profile (getPublicProfile (ad_env d) i))"

definition http_getLeaderboard :: "'s api_deps \<Rightarrow> nat \<Rightarrow> string option \<Rightarrow> ('s, app_exn, http_response) eff" where
  "http_getLeaderboard d lmt league = respond (\<lambda>(items, cache). Board items cache) (leaderboard_get (ad_env d) lmt league)"

definition http_getAudit :: "'s api_deps \<Rightarrow> string \<Rightarrow> ('s, app_exn, http_response) eff" where
  "http_getAudit d i = respond Audit (buildAudit (ad_env d) (ad_crypto d) i)"

subsection \<open>seasons.controller.ts and admin-seasons.controller.ts\<close>

definition http_getCurrent :: "'s api_deps \<Rightarrow> RequestUser option \<Rightarrow> ('s, app_exn, http_response) eff" where
  "http_getCurrent d user = bindS (logged_in user) (\<lambda>u. respond CurrentSeason (getCurrent (ad_env d) (su_id u)))"

definition http_listClosed :: "'s api_deps \<Rightarrow> ('s, app_exn, http_response) eff" where
  "http_listClosed d = respond ClosedSeasons (listClosed (ad_env d))"

definition http_getStandings ::
  "'s api_deps \<Rightarrow> string \<Rightarrow> nat \<Rightarrow> nat \<Rightarrow> string option \<Rightarrow> ('s, app_exn, http_response) eff" where
  "http_getStandings d seasonId page lmt league = bindS (parse_uuid d seasonId) (\<lambda>i.
     respond Standings (getStandings (ad_env d) i page lmt league))"

definition season_toResponse :: "season_row \<Rightarrow> SeasonResponseDto" where
  "season_toResponse s = \<lparr>sq_id = sn_id s, sq_name = sn_name s, sq_status = sn_status s, sq_startedAt = sn_startedAt s,
     sq_endsAt = sn_endsAt s, sq_createdAt = sn_createdAt s, sq_updatedAt = sn_updatedAt s\<rparr>"

definition http_createSeason :: "'s api_deps \<Rightarrow> string \<Rightarrow> time \<Rightarrow> ('s, app_exn, http_response) eff" where
  "http_createSeason d name endsAt = no_body (createSeason (ad_env d) (ad_newId d) name endsAt)"

definition http_closeSeason :: "'s api_deps \<Rightarrow> string \<Rightarrow> ('s, app_exn, http_response) eff" where
  "http_closeSeason d seasonId = bindS (parse_uuid d seasonId) (\<lambda>i.
     respond (Season \<circ> season_toResponse) (closeSeason (ad_env d) i))"

subsection \<open>tournaments.controller.ts and admin-tournaments.controller.ts\<close>

definition http_listTournaments ::
  "'s api_deps \<Rightarrow> TournamentStatus option \<Rightarrow> nat option \<Rightarrow> nat option \<Rightarrow> ('s, app_exn, http_response) eff" where
  "http_listTournaments d st page lmt = respond Tournaments (listTournaments (ad_env d) st page lmt)"

definition http_getTournamentDetail :: "'s api_deps \<Rightarrow> string \<Rightarrow> ('s, app_exn, http_response) eff" where
  "http_getTournamentDetail d tournamentId = bindS (parse_uuid d tournamentId) (\<lambda>i.
     respond TournamentDetail (getTournamentDetail (ad_env d) (ad_localeCompare d) i))"

definition http_enter :: "'s api_deps \<Rightarrow> RequestUser option \<Rightarrow> string \<Rightarrow> ('s, app_exn, http_response) eff" where
  "http_enter d user tournamentId = bindS (parse_uuid d tournamentId) (\<lambda>i. bindS (logged_in user) (\<lambda>u.
     no_body (registerPlayer (ad_env d) i (su_id u))))"

definition http_leave :: "'s api_deps \<Rightarrow> RequestUser option \<Rightarrow> string \<Rightarrow> ('s, app_exn, http_response) eff" where
  "http_leave d user tournamentId = bindS (parse_uuid d tournamentId) (\<lambda>i. bindS (logged_in user) (\<lambda>u.
     no_body (unregisterPlayer (ad_env d) i (su_id u))))"

definition tournament_toResponse :: "tournament_row \<Rightarrow> TournamentResponseDto" where
  "tournament_toResponse t = \<lparr>tp_id = tn_id t, tp_name = tn_name t, tp_format = tn_format t, tp_bracketSize = tn_bracketSize t,
     tp_registrationOpensAt = tn_registrationOpensAt t, tp_startsAt = tn_startsAt t, tp_status = tn_status t,
     tp_createdAt = tn_createdAt t, tp_updatedAt = tn_updatedAt t\<rparr>"

definition http_createTournament ::
  "'s api_deps \<Rightarrow> string \<Rightarrow> TournamentFormat \<Rightarrow> nat \<Rightarrow> time \<Rightarrow> time \<Rightarrow> ('s, app_exn, http_response) eff" where
  "http_createTournament d name format bracketSize registrationOpensAt startsAt =
     no_body (createTournament (ad_env d) (ad_newId d) name format bracketSize registrationOpensAt startsAt)"

definition http_openRegistration :: "'s api_deps \<Rightarrow> string \<Rightarrow> ('s, app_exn, http_response) eff" where
  "http_openRegistration d tournamentId = bindS (parse_uuid d tournamentId) (\<lambda>i.
     respond (TournamentRow \<circ> tournament_toResponse) (openRegistration (ad_env d) i))"

definition http_startTournament :: "'s api_deps \<Rightarrow> string \<Rightarrow> ('s, app_exn, http_response) eff" where
  "http_startTournament d tournamentId = bindS (parse_uuid d tournamentId) (\<lambda>i.
     respond (TournamentRow \<circ> tournament_toResponse) (startTournament (ad_env d) i))"

subsection \<open>The routes\<close>

text \<open>The decorators of the controllers and of their methods.\<close>

definition open_route :: route_guards where
  "open_route = \<lparr>ro_public = True, ro_controllerJwt = False, ro_roles = []\<rparr>"

definition public_route :: route_guards where
  "public_route = \<lparr>ro_public = True, ro_controllerJwt = True, ro_roles = []\<rparr>"

definition user_route :: route_guards where
  "user_route = \<lparr>ro_public = False, ro_controllerJwt = True, ro_roles = []\<rparr>"

definition admin_route :: route_guards where
  "admin_route = \<lparr>ro_public = False, ro_controllerJwt = True, ro_roles = [''admin'']\<rparr>"

fun guards_of :: "http_request \<Rightarrow> route_guards" where
  "guards_of (PostRegister _ _ _) = open_route"
| "guards_of (PostLogin _ _) = open_route"
| "guards_of (PostRefresh _) = open_route"
| "guards_of (PostForgotPassword _) = open_route"
| "guards_of (PostResetPassword _ _) = open_route"
| "guards_of (GetAudit _) = open_route"
| "guards_of (GetLeaderboard _ _) = public_route"
| "guards_of GetClosedSeasons = public_route"
| "guards_of (GetStandings _ _ _ _) = public_route"
| "guards_of (GetUsers _ _) = admin_route"
| "guards_of (AdminCreateSeason _ _) = admin_route"
| "guards_of (AdminCloseSeason _) = admin_route"
| "guards_of (AdminCreateTournament _ _ _ _ _) = admin_route"
| "guards_of (AdminOpenTournament _) = admin_route"
| "guards_of (AdminStartTournament _) = admin_route"
| "guards_of _ = user_route"

fun handle :: "'s api_deps \<Rightarrow> http_request \<Rightarrow> RequestUser option \<Rightarrow> ('s, app_exn, http_response) eff" where
  "handle d (PostRegister email password displayName) user = http_register d email password displayName"
| "handle d (PostLogin email password) user = http_login d email password"
| "handle d (PostRefresh token) user = http_refresh d token"
| "handle d PostLogout user = http_logout d user"
| "handle d (PostForgotPassword email) user = http_forgotPassword d email"
| "handle d (PostResetPassword token password) user = http_resetPassword d token password"
| "handle d GetMe user = http_getMe d user"
| "handle d (GetMyHistory lmt cursor) user = http_getHistory d user lmt cursor"
| "handle d (GetUsers page lmt) user = http_listUsers d page lmt"
| "handle d (GetProfile i) user = http_getPublicProfile d i"
| "handle d (GetLeaderboard lmt league) user = http_getLeaderboard d lmt league"
| "handle d (GetAudit i) user = http_getAudit d i"
| "handle d GetCurrentSeason user = http_getCurrent d user"
| "handle d GetClosedSeasons user = http_listClosed d"
| "handle d (GetStandings i page lmt league) user = http_getStandings d i page lmt league"
| "handle d (AdminCreateSeason name endsAt) user = http_createSeason d name endsAt"
| "handle d (AdminCloseSeason i) user = http_closeSeason d i"
| "handle d (GetTournaments st page lmt) user = http_listTournaments d st page lmt"
| "handle d (GetTournament i) user = http_getTournamentDetail d i"
| "handle d (PostEntry i) user = http_enter d user i"
| "handle d (DeleteEntry i) user = http_leave d user i"
| "handle d (AdminCreateTournament name format bracketSize opensAt startsAt) user = http_createTournament d name format bracketSize opensAt startsAt"
| "handle d (AdminOpenTournament i) user = http_openRegistration d i"
| "handle d (AdminStartTournament i) user = http_startTournament d i"

definition serve :: "'s api_deps \<Rightarrow> http_request \<Rightarrow> string option \<Rightarrow> ('s, app_exn, http_response) eff" where
  "serve d r bearer = bindS (request_user (ad_env d) (ad_crypto d) (guards_of r) bearer) (handle d r)"

end
