(* ===== verification/Api_Route_Props.thy ===== *)
theory Api_Route_Props
  imports Api_Routes
begin

section \<open>Who reaches which route\<close>

text \<open>
  A route that is not public runs its handler for the user behind a live session only, a route of the
  administration for an administrator only; and a request without a token changes nothing in the database,
  but for the five routes of accounts that are there for it.
\<close>

subsection \<open>The guards\<close>

text \<open>
  Who may ask what, independently of the decorators: the five requests about an account that nobody is logged
  in for, the public pages, and the requests of the administration.
\<close>

definition account_request :: "http_request \<Rightarrow> bool" where
  "account_request r = (case r of PostRegister _ _ _ \<Rightarrow> True | PostLogin _ _ \<Rightarrow> True | PostRefresh _ \<Rightarrow> True
     | PostForgotPassword _ \<Rightarrow> True | PostResetPassword _ _ \<Rightarrow> True | _ \<Rightarrow> False)"

definition public_request :: "http_request \<Rightarrow> bool" where
  "public_request r \<longleftrightarrow> account_request r \<or> (case r of GetLeaderboard _ _ \<Rightarrow> True | GetAudit _ \<Rightarrow> True
     | GetClosedSeasons \<Rightarrow> True | GetStandings _ _ _ _ \<Rightarrow> True | _ \<Rightarrow> False)"

definition admin_request :: "http_request \<Rightarrow> bool" where
  "admin_request r = (case r of GetUsers _ _ \<Rightarrow> True | AdminCreateSeason _ _ \<Rightarrow> True | AdminCloseSeason _ \<Rightarrow> True
     | AdminCreateTournament _ _ _ _ _ \<Rightarrow> True | AdminOpenTournament _ \<Rightarrow> True | AdminStartTournament _ \<Rightarrow> True | _ \<Rightarrow> False)"

lemmas routes = open_route_def public_route_def user_route_def admin_route_def

lemma guards_as_specified:
  "ro_public (guards_of r) \<longleftrightarrow> public_request r" "admin_request r \<Longrightarrow> ro_roles (guards_of r) = [''admin'']"
  "public_request r \<Longrightarrow> ro_roles (guards_of r) = []"
  by (cases r; simp add: public_request_def account_request_def admin_request_def routes)+

context app_service
begin

lemma sim_request_user [sim_rules]: "sim view (request_user env c g b) (request_user mem_app c g b)"
  unfolding request_user_def by (intro sim_rules)

end

lemma public_user: "ro_public g \<Longrightarrow> ro_roles g = [] \<Longrightarrow> request_user env c g bearer = ret None"
  by (simp add: request_user_def jwt_canActivate_def roles_canActivate_def fun_eq_iff eff_simps)

lemma peeks_request_user:
  assumes "\<not> ro_public g"
  shows "peeks (request_user mem_app c g bearer)
    (\<lambda>d k u. authenticated c bearer d k u \<and> roles_canActivate (ro_roles g) u = Inr ())"
proof -
  have roles: "peeks (thenS (liftS (roles_canActivate (ro_roles g) user)) (ret user))
      (\<lambda>d k u. authenticated c bearer d k user \<longrightarrow> authenticated c bearer d k u \<and> roles_canActivate (ro_roles g) u = Inr ())"
    for user
    unfolding thenS_def
    by (rule peeks_bind [OF peeks_lift [where Q = "\<lambda>d k x. roles_canActivate (ro_roles g) user = Inr x"]])
      (auto intro!: peeks_ret)
  have again: "peeks (if ro_controllerJwt g then jwt_canActivate mem_app c False bearer else ret user0)
      (\<lambda>d k u. authenticated c bearer d k user0 \<longrightarrow> authenticated c bearer d k u)" for user0
    by (auto intro: peeks_ret peeks_weaken [OF peeks_guard])
  have rest: "peeks (bindS (if ro_controllerJwt g then jwt_canActivate mem_app c False bearer else ret user0)
      (\<lambda>user. thenS (liftS (roles_canActivate (ro_roles g) user)) (ret user)))
      (\<lambda>d k u. authenticated c bearer d k user0 \<longrightarrow> authenticated c bearer d k u \<and> roles_canActivate (ro_roles g) u = Inr ())"
    for user0
    by (rule peeks_bind [OF again], rule peeks_weaken [OF roles]) simp
  have closed: "ro_public g = False" using assms by simp
  show ?thesis unfolding request_user_def closed by (rule peeks_bind [OF peeks_guard rest])
qed

lemma admin_role: "roles_canActivate [''admin''] (Some u) = Inr () \<Longrightarrow> su_role u = mapRole r \<Longrightarrow> r = RoleAdmin"
  by (cases r) (auto simp: roles_canActivate_def mapRole_def split: if_splits)

lemma request_user_runs:
  assumes "app_ok env view" and "\<not> ro_public g" and "request_user env c g bearer s = (r, s')"
  obtains os where "view s' = (view s)\<lparr>w_outages := os\<rparr>"
    and "\<And>u. r = Inr u \<Longrightarrow> authenticated c bearer (w_db (view s)) (w_keys (view s)) u \<and> roles_canActivate (ro_roles g) u = Inr ()"
proof -
  have svc: "app_service env view" by unfold_locales (rule assms)
  have "request_user mem_app c g bearer (view s) = (r, view s')"
    using simD [OF app_service.sim_request_user [OF svc], of c g bearer s] assms(3) by simp
  with peeks_request_user [OF assms(2), of c bearer] that show ?thesis unfolding peeks_def by (metis fst_conv snd_conv)
qed

subsection \<open>Properties\<close>

text \<open>
  C38. No request but the public ones gets an answer without a live session. Whatever the request, the token it
  carries and the calls that fail: either the answer is an error and nothing has changed but the outages to come,
  or the handler of the route runs, in the world the guards found, for the user of a signed token that has not expired,
  of a session that is not revoked, who exists in the database at that moment; for a request of the
  administration that user is an administrator there.
\<close>

theorem routes_protected:
  assumes "app_ok (ad_env d) view" and "\<not> public_request r"
  shows "(\<exists>e os. fst (serve d r bearer s) = Inl e \<and> view (snd (serve d r bearer s)) = (view s)\<lparr>w_outages := os\<rparr>) \<or>
    (\<exists>u s' os. serve d r bearer s = handle d r (Some u) s' \<and> view s' = (view s)\<lparr>w_outages := os\<rparr> \<and>
      authenticated (ad_crypto d) bearer (w_db (view s)) (w_keys (view s)) (Some u) \<and>
      (admin_request r \<longrightarrow>
        (\<exists>row \<in> set (d_users (w_db (view s))). us_id row = su_id u \<and> us_role row = RoleAdmin)))"
proof -
  obtain res s1 where run: "request_user (ad_env d) (ad_crypto d) (guards_of r) bearer s = (res, s1)" by fastforce
  obtain os where s1: "view s1 = (view s)\<lparr>w_outages := os\<rparr>" and
    ok: "\<And>u. res = Inr u \<Longrightarrow> authenticated (ad_crypto d) bearer (w_db (view s)) (w_keys (view s)) u \<and>
      roles_canActivate (ro_roles (guards_of r)) u = Inr ()"
    using request_user_runs [OF assms(1) _ run] assms(2) by (auto simp: guards_as_specified(1))
  show ?thesis
  proof (cases res)
    case (Inl e)
    then show ?thesis using s1 by (auto simp: serve_def bindS_apply run)
  next
    case (Inr user)
    note found = ok [OF this]
    from found [THEN conjunct1, unfolded authenticated_def] obtain u and p :: AccessTokenPayload and row where u: "user = Some u"
      "find (\<lambda>r. us_id r = ap_sub p) (d_users (w_db (view s))) = Some row" "su_id u = ap_sub p" "su_role u = mapRole (us_role row)"
      by blast
    have "row \<in> set (d_users (w_db (view s)))" "us_id row = su_id u" using u(2,3) by (auto simp: find_Some_iff)
    moreover have "us_role row = RoleAdmin" if "admin_request r"
      using admin_role [OF _ u(4)] found [THEN conjunct2] u(1) guards_as_specified(2) [OF that] by simp
    moreover have "serve d r bearer s = handle d r (Some u) s1" using Inr u(1) by (simp add: serve_def bindS_apply run)
    ultimately show ?thesis using s1 found [THEN conjunct1] u(1) by blast
  qed
qed

text \<open>A token that was issued to an administrator, who is a player now: the season is not closed.\<close>

definition route_demo :: "app_world api_deps" where
  "route_demo = \<lparr>ad_env = mem_app, ad_crypto = plain_crypto, ad_jwt = jwt_demo,
     ad_fresh = fresh_demo ''1'', ad_frontendUrl = ''https://chifoumi'', ad_valid_uuid = (\<lambda>_. True), ad_newId = ''n'', ad_codec = plain_cursor,
     ad_localeCompare = (\<lambda>_ _. 0)\<rparr>"

lemma routes_protected_witness:
  "\<exists>e os. fst (serve route_demo (AdminCloseSeason ''s'') (Some admin_token) (auth_demo [user_demo] [])) = Inl e \<and>
     snd (serve route_demo (AdminCloseSeason ''s'') (Some admin_token) (auth_demo [user_demo] [])) = (auth_demo [user_demo] [])\<lparr>w_outages := os\<rparr>"
proof -
  have env: "app_ok (ad_env route_demo) (\<lambda>w. w)" by (simp add: route_demo_def app_ok_mem)
  have "\<not> (\<exists>row \<in> set (d_users (w_db (auth_demo [user_demo] []))). us_id row = i \<and> us_role row = RoleAdmin)" for i
    by (simp add: auth_demo_def user_demo_def)
  with routes_protected [OF env, of "AdminCloseSeason ''s''" "Some admin_token" "auth_demo [user_demo] []"]
  show ?thesis by (simp add: public_request_def account_request_def admin_request_def)
qed

subsection \<open>The other public routes only read\<close>

definition db_quiet :: "('s \<Rightarrow> app_world) \<Rightarrow> ('s, app_exn, 'a) eff \<Rightarrow> bool" where
  "db_quiet view m \<longleftrightarrow> (\<forall>s. w_db (view (snd (m s))) = w_db (view s))"

lemma db_quiet_sim: "sim view m m' \<Longrightarrow> reads m' \<Longrightarrow> db_quiet view m"
  unfolding db_quiet_def reads_def by (metis simD snd_conv)

lemma db_quiet_bind:
  assumes "db_quiet view m" and "\<And>a. db_quiet view (f a)"
  shows "db_quiet view (bindS m f)"
  unfolding db_quiet_def
proof
  fix s
  show "w_db (view (snd (bindS m f s))) = w_db (view s)"
    using assms by (cases "m s"; cases "fst (m s)") (auto simp: bindS_def db_quiet_def, (metis snd_conv)+)
qed

lemma db_quiet_simps: "db_quiet view (ret a)" "db_quiet view (raise e)" "db_quiet view (parse_uuid d i)"
  by (simp_all add: db_quiet_def ret_def raise_def parse_uuid_def)

lemma db_quiet_respond: "db_quiet view m \<Longrightarrow> db_quiet view (respond f m)"
  unfolding respond_def by (intro db_quiet_bind db_quiet_simps)

lemma reads_raise: "reads (raise e)"
  by (simp add: reads_def raise_def)

lemma reads_liftS: "reads (liftS r)"
  by (cases r) (simp_all add: liftS_def reads_ret reads_raise)

lemma reads_bindS: "reads m \<Longrightarrow> (\<And>a. reads (f a)) \<Longrightarrow> reads (bindS m f)"
  using db_quiet_bind [of "\<lambda>w. w" m f] by (simp add: db_quiet_def reads_def)

lemma reads_thenS: "reads m \<Longrightarrow> reads k \<Longrightarrow> reads (thenS m k)"
  unfolding thenS_def by (rule reads_bindS)

lemma reads_cache: "reads (a_get mem_app k)" "reads (a_setex mem_app k ttl v)"
  by (auto simp: reads_def mem_app_def app_call_def split: list.split bool.split sum.split prod.split)

lemma reads_case:
  "reads m \<Longrightarrow> (\<And>x. reads (f x)) \<Longrightarrow> reads (case o' of None \<Rightarrow> m | Some x \<Rightarrow> f x)"
  by (cases o') simp_all

lemma reads_both: "reads m \<Longrightarrow> reads k \<Longrightarrow> reads (bothS m k)"
  by (auto simp: reads_def bothS_def split: prod.split sum.split) (metis snd_conv)+

lemma reads_catch: "reads m \<Longrightarrow> (\<And>e. reads (h e)) \<Longrightarrow> reads (catchS m h)"
  by (auto simp: reads_def catchS_def split: prod.split sum.split) (metis snd_conv)+

lemma reads_call: "reads m \<Longrightarrow> reads (call_users mem_app m)"
  unfolding call_users_def grpc_boundary_def
  by (intro reads_catch reads_thenS reads_rpc) (auto intro: reads_raise split: app_exn.split)

lemma reads_board: "reads (case x of Json (LeaderboardJson items) \<Rightarrow> ret (f items) | _ \<Rightarrow> raise e)"
  by (simp add: reads_ret reads_raise split: stored.split app_json.split)

lemmas reads_steps = reads_rules reads_raise reads_liftS reads_bindS reads_thenS reads_cache reads_case reads_both reads_call reads_board

lemma reads_public:
  "reads (listClosed mem_app)"
  "reads (buildAudit mem_app c i)"
  "reads (getStandings mem_app i page lmt league)"
  "reads (leaderboard_get mem_app lmt league)"
  unfolding listClosed_def getStandings_def standings_page_def find_page_def buildAudit_def leaderboard_get_def
    fetchFromDatabase_def listLeaderboard_def us_listLeaderboard_def Let_def
  by (intro reads_steps)+

lemma db_quiet_public:
  assumes "app_ok (ad_env d) view" and "ro_public (guards_of r)" and "\<not> account_request r"
  shows "db_quiet view (handle d r u)"
proof -
  have svc: "app_service (ad_env d) view" by unfold_locales (rule assms)
  note quiet = db_quiet_sim [OF app_service.sim_seasons(3) [OF svc] reads_public(1)]
    db_quiet_sim [OF app_service.sim_history(2) [OF svc] reads_public(2)]
    db_quiet_sim [OF app_service.sim_getStandings [OF svc] reads_public(3)]
    db_quiet_sim [OF app_service.sim_leaderboard(1) [OF svc] reads_public(4)]
  show ?thesis
    using assms(2,3) by (cases r) (auto simp: account_request_def user_route_def admin_route_def http_listClosed_def
      http_getAudit_def http_getStandings_def http_getLeaderboard_def intro!: db_quiet_respond db_quiet_bind db_quiet_simps quiet)
qed

text \<open>
  C39. A request without a token changes nothing in the database, on any of the routes and whatever calls fail, but
  for the five routes that exist for it: registration, login, refresh, and the two steps of a password reset.
\<close>

theorem anonymous_changes_nothing:
  assumes "app_ok (ad_env d) view" and "\<not> account_request r"
  shows "w_db (view (snd (serve d r None s))) = w_db (view s)"
proof (cases "ro_public (guards_of r)")
  case False
  obtain res s1 where run: "request_user (ad_env d) (ad_crypto d) (guards_of r) None s = (res, s1)" by fastforce
  obtain os where s1: "view s1 = (view s)\<lparr>w_outages := os\<rparr>"
    "\<And>u. res = Inr u \<Longrightarrow> authenticated (ad_crypto d) None (w_db (view s)) (w_keys (view s)) u \<and>
      roles_canActivate (ro_roles (guards_of r)) u = Inr ()"
    using request_user_runs [OF assms(1) False run] by blast
  then obtain e where "res = Inl e" by (cases res) (auto simp: authenticated_def)
  then show ?thesis using s1(1) by (simp add: serve_def bindS_apply run)
next
  case True
  then have "ro_roles (guards_of r) = []" by (simp add: guards_as_specified)
  then have "serve d r None s = handle d r None s"
    using True by (simp add: serve_def public_user bindS_apply ret_apply)
  then show ?thesis using db_quiet_public [OF assms(1) True assms(2)] by (simp add: db_quiet_def)
qed

lemma anonymous_changes_nothing_witness:
  "w_db (snd (serve route_demo (PostEntry ''t'') None (auth_demo [user_demo] []))) = w_db (auth_demo [user_demo] [])"
  using anonymous_changes_nothing [of route_demo "\<lambda>w. w" "PostEntry ''t''" "auth_demo [user_demo] []"]
  by (simp add: route_demo_def app_ok_mem account_request_def)

end
