(* ===== verification/Db_Seed.thy ===== *)
theory Db_Seed
  imports Leagues Auth_Props Tournament_Props Api_Admin_Props
begin

section \<open>packages/db: the seed of a deployment\<close>

text \<open>
  \<open>src/seed/\<close> of \<open>packages/db\<close>: the reference leagues, the first season, a tournament to show and the
  administrator. It runs at every deployment, so it must be safe to run again. The identifiers the database
  makes are arguments, by row.
\<close>

subsection \<open>config.ts\<close>

record SeedConfig =
  sc_adminEmail :: string
  sc_adminPassword :: string
  sc_adminDisplayName :: string

definition getSeedConfig :: "(string \<rightharpoonup> string) \<Rightarrow> SeedConfig" where
  "getSeedConfig envir =
     \<lparr>sc_adminEmail = (case envir ''ADMIN_DEFAULT_EMAIL'' of Some e \<Rightarrow> e | None \<Rightarrow> ''admin@chifoumi.local''),
      sc_adminPassword = (case envir ''ADMIN_DEFAULT_PASSWORD'' of Some p \<Rightarrow> p | None \<Rightarrow> ''admin-CHANGE-ME!''),
      sc_adminDisplayName = ''admin''\<rparr>"

record seed_ids =
  si_league :: "league \<Rightarrow> string"
  si_season :: string
  si_tournament :: string
  si_user :: string
  si_salt :: string

text \<open>Prisma's \<open>upsert\<close>: the row is updated, or else created.\<close>

definition upsert_with :: "('s, 'r) table \<Rightarrow> ('r \<Rightarrow> bool) \<Rightarrow> 'r \<Rightarrow> ('r \<Rightarrow> 'r) \<Rightarrow> ('s, app_exn, 'r) eff" where
  "upsert_with t w new f = bindS (findUnique t w) (\<lambda>found.
     case found of Some _ \<Rightarrow> updateRow t w f | None \<Rightarrow> thenS (createMany t [new]) (ret new))"

subsection \<open>leagues.ts\<close>

definition THIRTY_DAYS_IN_MS :: int where "THIRTY_DAYS_IN_MS = 30 * 24 * 60 * 60 * 1000"

text \<open>\<open>current.maxRating + 1 !== next.minRating\<close> on numbers.\<close>

fun follows :: "jsnum \<Rightarrow> jsnum \<Rightarrow> bool" where
  "follows (Fin a) b = (b = Fin (a + 1))"
| "follows NaN b = False"
| "follows a b = (a = b)"

fun contiguous :: "league list \<Rightarrow> bool" where
  "contiguous (current # next' # rest) =
     ((case maxRating current of None \<Rightarrow> False | Some m \<Rightarrow> follows m (minRating next')) \<and> contiguous (next' # rest))"
| "contiguous _ = True"

definition assertContiguousLeagues :: "league list \<Rightarrow> app_exn + unit" where
  "assertContiguousLeagues leagues =
     (if contiguous (sort_key tier leagues) then Inr () else Inl (JobError ''Reference leagues must be contiguous''))"

definition league_row_of :: "seed_ids \<Rightarrow> league \<Rightarrow> league_row" where
  "league_row_of ids l = league.extend l (league_row.fields (si_league ids l))"

definition upsert_league :: "'s app_env \<Rightarrow> seed_ids \<Rightarrow> league \<Rightarrow> ('s, app_exn, unit) eff" where
  "upsert_league env ids l = thenS (upsert_with (a_league env) (\<lambda>r. tier r = tier l) (league_row_of ids l)
     (\<lambda>r. r\<lparr>lg_name := lg_name l, minRating := minRating l, maxRating := maxRating l\<rparr>)) (ret ())"

definition seedActiveSeason :: "'s app_env \<Rightarrow> seed_ids \<Rightarrow> time \<Rightarrow> ('s, app_exn, unit) eff" where
  "seedActiveSeason env ids now = bindS (findFirst (a_season env) (\<lambda>s. sn_status s = SeasonActive) (\<lambda>_. [])) (\<lambda>activeSeason.
     if activeSeason \<noteq> None then ret ()
     else createMany (a_season env) [\<lparr>sn_id = si_season ids, sn_name = ''Saison 1'', sn_startedAt = now,
       sn_endsAt = Some (now + THIRTY_DAYS_IN_MS), sn_status = SeasonActive, sn_createdAt = 0, sn_updatedAt = 0\<rparr>])"

definition seedLeaguesAndActiveSeason :: "'s app_env \<Rightarrow> seed_ids \<Rightarrow> time \<Rightarrow> ('s, app_exn, unit) eff" where
  "seedLeaguesAndActiveSeason env ids now =
     thenS (liftS (assertContiguousLeagues REFERENCE_LEAGUES))
     (thenS (forS REFERENCE_LEAGUES (upsert_league env ids)) (seedActiveSeason env ids now))"

subsection \<open>admin-user.ts\<close>

definition adminUserExists :: "'s app_env \<Rightarrow> string \<Rightarrow> ('s, app_exn, bool) eff" where
  "adminUserExists env adminEmail = bindS (findUnique (a_user env) (\<lambda>u. us_email u = adminEmail)) (\<lambda>user.
     ret (map_option us_role user = Some RoleAdmin))"

definition seedAdminUser :: "'s app_env \<Rightarrow> crypto \<Rightarrow> seed_ids \<Rightarrow> SeedConfig \<Rightarrow> ('s, app_exn, unit) eff" where
  "seedAdminUser env c ids config =
     bindS (upsert_with (a_user env) (\<lambda>u. us_email u = sc_adminEmail config)
         \<lparr>us_id = si_user ids, us_email = sc_adminEmail config, us_displayName = sc_adminDisplayName config,
           us_passwordHash = cr_argon2_hash c (si_salt ids) (sc_adminPassword config), us_role = RoleAdmin,
           us_createdAt = 0, us_updatedAt = 0\<rparr>
         (\<lambda>u. u\<lparr>us_role := RoleAdmin\<rparr>)) (\<lambda>user.
     thenS (upsertRow (a_eloRating env) (\<lambda>e. er_userId e = us_id user)
       \<lparr>er_userId = us_id user, er_rating = 1000, er_gamesPlayed = 0, er_updatedAt = 0\<rparr>) (ret ()))"

definition DEMO_TOURNAMENT :: string where
  "DEMO_TOURNAMENT = ''Tournoi de d'' @ [CHR 0xC3, CHR 0xA9] @ ''monstration''"

definition seedDemoTournament :: "'s app_env \<Rightarrow> seed_ids \<Rightarrow> ('s, app_exn, unit) eff" where
  "seedDemoTournament env ids =
     bindS (findFirst (a_tournament env) (\<lambda>t. tn_name t = DEMO_TOURNAMENT) (\<lambda>_. [])) (\<lambda>existing.
     bindS (a_now env) (\<lambda>now.
     let opens = now - 24 * 60 * 60 * 1000; starts = now + 7 * 24 * 60 * 60 * 1000 in
     case existing of
       Some t \<Rightarrow> thenS (updateRow (a_tournament env) (\<lambda>x. tn_id x = tn_id t)
         (\<lambda>x. x\<lparr>tn_registrationOpensAt := opens, tn_startsAt := starts, tn_status := TRegistrationOpen\<rparr>)) (ret ())
     | None \<Rightarrow> createMany (a_tournament env) [\<lparr>tn_id = si_tournament ids, tn_name = DEMO_TOURNAMENT, tn_format = SingleElim,
         tn_bracketSize = 8, tn_registrationOpensAt = opens, tn_startsAt = starts, tn_endedAt = None,
         tn_status = TRegistrationOpen, tn_winnerId = None, tn_createdAt = 0, tn_updatedAt = 0\<rparr>]))"

definition runSeed :: "'s app_env \<Rightarrow> crypto \<Rightarrow> seed_ids \<Rightarrow> SeedConfig \<Rightarrow> ('s, app_exn, unit) eff" where
  "runSeed env c ids config =
     bindS (a_now env) (\<lambda>now.
     thenS (seedLeaguesAndActiveSeason env ids now)
     (thenS (seedDemoTournament env ids)
     (bindS (adminUserExists env (sc_adminEmail config)) (\<lambda>exists.
       if exists then ret () else seedAdminUser env c ids config))))"

subsection \<open>The handlers run as documented\<close>

context app_service
begin

lemma sim_upsert_with [sim_rules]: "table_ok t t' view \<Longrightarrow> sim view (upsert_with t q r f) (upsert_with t' q r f)"
  unfolding upsert_with_def by (intro sim_rules)

lemma sim_upsert_league [sim_rules]: "sim view (upsert_league env ids l) (upsert_league mem_app ids l)"
  unfolding upsert_league_def by (intro sim_rules)

lemma sim_runSeed [sim_rules]: "sim view (runSeed env c ids cfg) (runSeed mem_app c ids cfg)"
  unfolding runSeed_def seedLeaguesAndActiveSeason_def seedActiveSeason_def seedDemoTournament_def adminUserExists_def seedAdminUser_def Let_def
  by (intro sim_rules)

end

subsection \<open>What the seed establishes\<close>

definition has_league :: "league \<Rightarrow> db \<Rightarrow> bool" where
  "has_league l d \<longleftrightarrow> (\<exists>r \<in> set (d_leagues d). tier r = tier l) \<and>
     (\<forall>r \<in> set (d_leagues d). tier r = tier l \<longrightarrow> league.truncate r = l)"

definition opened_season :: "db \<Rightarrow> bool" where
  "opened_season d \<longleftrightarrow> (\<exists>s \<in> set (d_seasons d). sn_status s = SeasonActive)"

definition has_admin :: "string \<Rightarrow> db \<Rightarrow> bool" where
  "has_admin email d \<longleftrightarrow> map_option us_role (find (\<lambda>u. us_email u = email) (d_users d)) = Some RoleAdmin"

text \<open>What accounts and the ranking are read from.\<close>

definition core :: "db \<Rightarrow> league_row list \<times> season_row list \<times> user_row list \<times> elo_row list" where
  "core d = (d_leagues d, d_seasons d, d_users d, d_elo d)"

definition seeded :: "SeedConfig \<Rightarrow> db \<Rightarrow> bool" where
  "seeded config d \<longleftrightarrow> (\<forall>l \<in> set REFERENCE_LEAGUES. has_league l d) \<and>
     opened_season d \<and> has_admin (sc_adminEmail config) d"

lemma reference_contiguous: "assertContiguousLeagues REFERENCE_LEAGUES = Inr ()"
  by (simp add: assertContiguousLeagues_def REFERENCE_LEAGUES_def)

lemma reference_tiers: "distinct (map tier REFERENCE_LEAGUES)"
  by (simp add: REFERENCE_LEAGUES_def)

text \<open>
  What an upsert may leave: nothing new, the new row, or the changed rows; if it returns, one of the last two.
\<close>

lemma app_call_cases:
  obtains os where "app_call e f w = (Inl e, w\<lparr>w_outages := os\<rparr>)" | os where "app_call e f w = f (w\<lparr>w_outages := os\<rparr>)"
proof (cases "w_outages w")
  case Nil
  then have "app_call e f w = f w" by (simp add: app_call_def)
  moreover have "w = w\<lparr>w_outages := w_outages w\<rparr>" by simp
  ultimately show ?thesis using that(2) by metis
next
  case (Cons o' os)
  then show ?thesis using that by (cases o') (simp_all add: app_call_def)
qed

lemma find_outcome:
  fixes rows store unique stamp touch q
  defines "m \<equiv> findUnique (mem_table rows store unique stamp touch) q"
  obtains e w' where "m w = (Inl e, w')" "w_db w' = w_db w"
    | x w' where "m w = (Inr x, w')" "w_db w' = w_db w" "x = None \<longleftrightarrow> filter q (rows (w_db w)) = []"
proof -
  let ?f = "\<lambda>s. (Inr (limit (Some 1) (sort_key (\<lambda>_. [] :: int list) (filter q (rows (w_db s))))), s)"
  show ?thesis
  proof (cases rule: app_call_cases [of "DbEx DbUnavailable" ?f w])
    case (1 os)
    then show ?thesis
      by (intro that(1) [of "DbEx DbUnavailable" "w\<lparr>w_outages := os\<rparr>"])
        (simp_all add: m_def findUnique_def findFirst_def mem_table_def eff_simps)
  next
    case (2 os)
    let ?xs = "take 1 (sort_key (\<lambda>_. [] :: int list) (filter q (rows (w_db w))))"
    have "?xs = [] \<longleftrightarrow> filter q (rows (w_db w)) = []" by (metis length_0_conv length_sort take_eq_Nil zero_neq_one)
    with 2 show ?thesis
      by (intro that(2) [of "case ?xs of [] \<Rightarrow> None | r # _ \<Rightarrow> Some r" "w\<lparr>w_outages := os\<rparr>"])
        (auto simp: m_def findUnique_def findFirst_def mem_table_def eff_simps limit_def split: list.split)
  qed
qed

lemma create_outcome:
  fixes rows store unique stamp touch new
  defines "m \<equiv> createMany (mem_table rows store unique stamp touch) [new]"
  obtains e w' where "m w = (Inl e, w')" "w_db w' = w_db w"
    | now w' where "m w = (Inr (), w')" "w_db w' = store (rows (w_db w) @ [stamp now new]) (w_db w)"
proof -
  let ?f = "\<lambda>s. let all = rows (w_db s) @ map (stamp (rd_now (w_keys s))) [new] in
    if unique all then (Inr (), s\<lparr>w_db := store all (w_db s)\<rparr>) else (Inl (DbEx UniqueViolation), s)"
  have m: "m w = app_call (DbEx DbUnavailable) ?f w" by (simp add: m_def createMany_def mem_table_def)
  show ?thesis
  proof (cases rule: app_call_cases [of "DbEx DbUnavailable" ?f w])
    case (1 os)
    then show ?thesis by (intro that(1) [of "DbEx DbUnavailable" "w\<lparr>w_outages := os\<rparr>"]) (simp_all add: m)
  next
    case (2 os)
    then show ?thesis
    proof (cases "unique (rows (w_db w) @ [stamp (rd_now (w_keys w)) new])")
      case True
      with 2 have "m w = (Inr (), w\<lparr>w_outages := os, w_db := store (rows (w_db w) @ [stamp (rd_now (w_keys w)) new]) (w_db w)\<rparr>)"
        by (simp add: m)
      then show ?thesis by (rule that(2)) simp
    next
      case False
      with 2 show ?thesis by (intro that(1) [of "DbEx UniqueViolation" "w\<lparr>w_outages := os\<rparr>"]) (simp_all add: m)
    qed
  qed
qed

lemma update_outcome:
  fixes rows store unique stamp touch q f
  defines "m \<equiv> updateRow (mem_table rows store unique stamp touch) q f"
  assumes "filter q (rows (w_db w)) \<noteq> []"
  obtains e w' where "m w = (Inl e, w')" "w_db w' = w_db w"
    | now r w' where "m w = (Inr (touch now (f r)), w')" "r \<in> set (rows (w_db w))" "q r"
      "w_db w' = store (map (\<lambda>r. if q r then touch now (f r) else r) (rows (w_db w))) (w_db w)"
proof -
  let ?f = "\<lambda>s. let g = touch (rd_now (w_keys s)) \<circ> f; all = map (\<lambda>r. if q r then g r else r) (rows (w_db s)) in
    if unique all then (Inr (map g (filter q (rows (w_db s)))), s\<lparr>w_db := store all (w_db s)\<rparr>)
    else (Inl (DbEx UniqueViolation), s)"
  let ?k = "\<lambda>xs. case xs of [] \<Rightarrow> raise (DbEx RecordNotFound) | r # _ \<Rightarrow> ret r"
  have m: "m w = bindS (app_call (DbEx DbUnavailable) ?f) ?k w" by (simp add: m_def updateRow_def mem_table_def)
  obtain r rs where r: "filter q (rows (w_db w)) = r # rs" using assms(2) by (cases "filter q (rows (w_db w))") auto
  then have "r \<in> set (filter q (rows (w_db w)))" by simp
  then have mem: "r \<in> set (rows (w_db w))" "q r" by auto
  show ?thesis
  proof (cases rule: app_call_cases [of "DbEx DbUnavailable" ?f w])
    case (1 os)
    then show ?thesis by (intro that(1) [of "DbEx DbUnavailable" "w\<lparr>w_outages := os\<rparr>"]) (simp_all add: m bindS_apply)
  next
    case (2 os)
    show ?thesis
    proof (cases "unique (map (\<lambda>r. if q r then touch (rd_now (w_keys w)) (f r) else r) (rows (w_db w)))")
      case True
      let ?t = "rd_now (w_keys w)"
      from True 2 r have "m w = (Inr (touch ?t (f r)), w\<lparr>w_outages := os,
          w_db := store (map (\<lambda>r. if q r then touch ?t (f r) else r) (rows (w_db w))) (w_db w)\<rparr>)"
        by (simp add: m bindS_apply ret_apply Let_def o_def)
      then show ?thesis by (rule that(2) [OF _ mem]) simp
    next
      case False
      with 2 show ?thesis by (intro that(1) [of "DbEx UniqueViolation" "w\<lparr>w_outages := os\<rparr>"]) (simp_all add: m bindS_apply Let_def o_def)
    qed
  qed
qed

lemma upsert_outcome:
  fixes rows store unique stamp touch q new f
  defines "m \<equiv> upsert_with (mem_table rows store unique stamp touch) q new f"
  obtains e w' where "m w = (Inl e, w')" "w_db w' = w_db w"
    | now w' where "m w = (Inr new, w')" "filter q (rows (w_db w)) = []"
      "w_db w' = store (rows (w_db w) @ [stamp now new]) (w_db w)"
    | now r w' where "m w = (Inr (touch now (f r)), w')" "r \<in> set (rows (w_db w))" "q r"
      "w_db w' = store (map (\<lambda>r. if q r then touch now (f r) else r) (rows (w_db w))) (w_db w)"
proof (cases rule: find_outcome [of rows store unique stamp touch q w])
  case (1 e w1)
  then show ?thesis by (intro that(1) [of e w1]) (simp_all add: m_def upsert_with_def bindS_apply)
next
  case (2 x w1)
  note found = this
  show ?thesis
  proof (cases x)
    case None
    show ?thesis
      by (cases rule: create_outcome [of rows store unique stamp touch new w1])
        (use found None in \<open>auto simp: m_def upsert_with_def bindS_apply thenS_apply ret_apply intro: that(1,2)\<close>)
  next
    case (Some y)
    with found have "filter q (rows (w_db w1)) \<noteq> []" by simp
    then show ?thesis
      by (cases rule: update_outcome [where store = store and unique = unique and stamp = stamp and touch = touch and f = f])
        (use found Some in \<open>auto simp: m_def upsert_with_def bindS_apply intro: that(1,3)\<close>)
  qed
qed

subsection \<open>One league\<close>

lemma league_row_fields: "tier (league_row_of ids l) = tier l" "league.truncate (league_row_of ids l) = l"
  by (simp_all add: league_row_of_def league.defs league_row.defs)

lemma league_updated:
  assumes "league.truncate r = l"
  shows "r\<lparr>lg_name := lg_name l, minRating := minRating l, maxRating := maxRating l\<rparr> = (r :: league_row)"
  using assms by (cases r) (auto simp: league.defs)

lemma league_replaced:
  fixes r :: league_row
  assumes "tier r = tier l"
  shows "league.truncate (r\<lparr>lg_name := lg_name l, minRating := minRating l, maxRating := maxRating l\<rparr>) = l"
  using assms by (cases r, cases l) (simp add: league.truncate_def)

definition put_league :: "league \<Rightarrow> league_row \<Rightarrow> league_row" where
  "put_league l r = (if tier r = tier l then r\<lparr>lg_name := lg_name l, minRating := minRating l, maxRating := maxRating l\<rparr> else r)"

lemma put_league_tier [simp]: "tier (put_league l r) = tier r"
  by (simp add: put_league_def)

lemma has_league_put:
  assumes "r \<in> set rows" "tier r = tier l"
  shows "has_league l (d\<lparr>d_leagues := map (put_league l) rows\<rparr>)"
  unfolding has_league_def
proof (intro conjI)
  show "\<exists>x \<in> set (d_leagues (d\<lparr>d_leagues := map (put_league l) rows\<rparr>)). tier x = tier l"
    using assms by (intro bexI [of _ "put_league l r"]) simp_all
qed (auto simp: put_league_def league_replaced)

lemma has_league_put_other:
  assumes "tier l' \<noteq> tier l" "has_league l' d"
  shows "has_league l' (d\<lparr>d_leagues := map (put_league l) (d_leagues d)\<rparr>)"
  unfolding has_league_def
proof (intro conjI)
  obtain r where "r \<in> set (d_leagues d)" "tier r = tier l'" using assms(2) unfolding has_league_def by blast
  then show "\<exists>x \<in> set (d_leagues (d\<lparr>d_leagues := map (put_league l) (d_leagues d)\<rparr>)). tier x = tier l'"
    by (intro bexI [of _ "put_league l r"]) simp_all
  have kept: "put_league l r = r" if "tier r = tier l'" for r
    using that assms(1) by (simp add: put_league_def)
  show "\<forall>x \<in> set (d_leagues (d\<lparr>d_leagues := map (put_league l) (d_leagues d)\<rparr>)). tier x = tier l' \<longrightarrow> league.truncate x = l'"
    using assms(2) by (simp add: kept has_league_def)
qed

lemma league_table: "\<exists>unique. a_league mem_app = mem_table d_leagues (\<lambda>x d. d\<lparr>d_leagues := x\<rparr>) unique unstamped unstamped"
  by (auto simp: mem_app_def)

lemma upsert_league_yields:
  "yields (upsert_league mem_app ids l) (\<lambda>d _ d'. has_league l d' \<and>
     (\<forall>l'. tier l' \<noteq> tier l \<longrightarrow> has_league l' d \<longrightarrow> has_league l' d'))"
  unfolding yields_def
proof (intro allI impI)
  fix w x
  assume x: "fst (upsert_league mem_app ids l w) = Inr x"
  obtain unique where t: "a_league mem_app = mem_table d_leagues (\<lambda>x d. d\<lparr>d_leagues := x\<rparr>) unique unstamped unstamped"
    using league_table by blast
  let ?f = "\<lambda>r. r\<lparr>lg_name := lg_name l, minRating := minRating l, maxRating := maxRating l\<rparr> :: league_row"
  show "has_league l (w_db (snd (upsert_league mem_app ids l w))) \<and> (\<forall>l'. tier l' \<noteq> tier l \<longrightarrow> has_league l' (w_db w) \<longrightarrow>
      has_league l' (w_db (snd (upsert_league mem_app ids l w))))"
  proof (cases rule: upsert_outcome [of d_leagues "\<lambda>x d. d\<lparr>d_leagues := x\<rparr>" unique unstamped unstamped
        "\<lambda>r. tier r = tier l" "league_row_of ids l" ?f w])
    case (1 e w')
    with x show ?thesis by (simp add: upsert_league_def t thenS_apply)
  next
    case (2 now w')
    then have "\<forall>r \<in> set (d_leagues (w_db w)). tier r \<noteq> tier l" by (simp add: filter_empty_conv)
    with 2 show ?thesis
      by (simp add: upsert_league_def t thenS_apply ret_apply has_league_def league_row_fields unstamped_def)
  next
    case (3 now r w')
    from 3(4) have "w_db w' = w_db w\<lparr>d_leagues := map (put_league l) (d_leagues (w_db w))\<rparr>"
      by (simp add: put_league_def [abs_def] unstamped_def)
    with 3(1-3) show ?thesis
      by (simp add: upsert_league_def t thenS_apply ret_apply has_league_put has_league_put_other)
  qed
qed

lemma keeps_upsert_league:
  assumes "\<And>d. Q d \<Longrightarrow> has_league l d"
  shows "preserves (\<lambda>w. Q (w_db w)) (upsert_league mem_app ids l)"
  unfolding keeps_def
proof (intro allI impI conjI)
  fix w :: app_world
  assume q: "Q (w_db w)"
  obtain unique where t: "a_league mem_app = mem_table d_leagues (\<lambda>x d. d\<lparr>d_leagues := x\<rparr>) unique unstamped unstamped"
    using league_table by blast
  let ?f = "\<lambda>r. r\<lparr>lg_name := lg_name l, minRating := minRating l, maxRating := maxRating l\<rparr> :: league_row"
  note has = assms [OF q, unfolded has_league_def]
  have same: "map (\<lambda>r. if tier r = tier l then unstamped now (?f r) else r) (d_leagues (w_db w)) = d_leagues (w_db w)" for now
    by (rule map_idI) (use has in \<open>auto simp: unstamped_def league_updated\<close>)
  show "Q (w_db (snd (upsert_league mem_app ids l w)))"
  proof (cases rule: upsert_outcome [of d_leagues "\<lambda>x d. d\<lparr>d_leagues := x\<rparr>" unique unstamped unstamped
        "\<lambda>r. tier r = tier l" "league_row_of ids l" ?f w])
    case (1 e w')
    with q show ?thesis by (simp add: upsert_league_def t thenS_apply)
  next
    case (2 now w')
    with has show ?thesis by (auto simp: filter_empty_conv)
  next
    case (3 now r w')
    with q show ?thesis by (simp only: upsert_league_def t thenS_apply same) (simp add: ret_apply)
  qed
qed simp

subsection \<open>The whole seed\<close>

lemma yields_leagues:
  "distinct (map tier ls) \<Longrightarrow> yields (forS ls (upsert_league mem_app ids)) (\<lambda>d _ d'. (\<forall>l \<in> set ls. has_league l d') \<and>
     (\<forall>l. tier l \<notin> tier ` set ls \<longrightarrow> has_league l d \<longrightarrow> has_league l d'))"
proof (induction ls)
  case (Cons l ls)
  then have "distinct (map tier ls)" by simp
  from Cons.prems show ?case
    unfolding forS.simps by (intro yields_bindS [OF upsert_league_yields Cons.IH [OF \<open>distinct (map tier ls)\<close>]]) auto
qed (simp add: yields_ret)

lemma keeps_leagues:
  assumes "\<And>l d. l \<in> set ls \<Longrightarrow> Q d \<Longrightarrow> has_league l d"
  shows "preserves (\<lambda>w. Q (w_db w)) (forS ls (upsert_league mem_app ids))"
  using assms
proof (induction ls)
  case (Cons l ls)
  then show ?case
    unfolding forS.simps
    by (intro keeps_bindS [where R = "\<lambda>_. True"] keeps_upsert_league) auto
qed (simp add: keeps_ret)

text \<open>A search that returns says what is in the table, and leaves the world's database.\<close>

lemma keeps_found:
  assumes "\<And>w. P (w_db w) \<Longrightarrow> P (w_db (snd (f (find q (rows (w_db w))) w)))"
  shows "preserves (\<lambda>w. P (w_db w)) (bindS (findUnique (mem_table rows store unique stamp touch) q) f)"
  unfolding keeps_def
proof (intro allI impI conjI)
  fix w :: app_world
  assume p: "P (w_db w)"
  let ?m = "findUnique (mem_table rows store unique stamp touch) q"
  have same: "w_db (snd (?m w)) = w_db w"
    by (cases rule: find_outcome [of rows store unique stamp touch q w]) simp_all
  show "P (w_db (snd (bindS ?m f w)))"
  proof (cases "fst (?m w)")
    case (Inl e)
    with p same show ?thesis by (cases "?m w") (simp add: bindS_apply)
  next
    case (Inr x)
    with yieldsD [OF mem_findUnique Inr] assms [of "snd (?m w)"] p same show ?thesis
      by (cases "?m w") (simp add: bindS_apply)
  qed
qed simp

lemma season_table: "\<exists>unique stamp touch. a_season mem_app = mem_table d_seasons (\<lambda>x d. d\<lparr>d_seasons := x\<rparr>) unique stamp touch \<and>
    (\<forall>now s. sn_status (stamp now s) = sn_status s)"
  unfolding mem_app_def app_env.simps by (intro exI conjI allI, rule refl) simp

lemma seedActiveSeason_yields: "yields (seedActiveSeason mem_app ids now) (\<lambda>_ _. opened_season)"
proof -
  obtain unique stamp touch where t: "a_season mem_app = mem_table d_seasons (\<lambda>x d. d\<lparr>d_seasons := x\<rparr>) unique stamp touch"
    and stamp: "\<And>now s. sn_status (stamp now s) = sn_status s"
    using season_table by blast
  let ?new = "[\<lparr>sn_id = si_season ids, sn_name = ''Saison 1'', sn_startedAt = now, sn_endsAt = Some (now + THIRTY_DAYS_IN_MS),
    sn_status = SeasonActive, sn_createdAt = 0, sn_updatedAt = 0\<rparr>]"
  have "yields (if a \<noteq> None then ret () else createMany (mem_table d_seasons (\<lambda>x d. d\<lparr>d_seasons := x\<rparr>) unique stamp touch) ?new)
      (\<lambda>d _ d'. if a \<noteq> None then d' = d else opened_season d')" for a :: "season_row option"
  proof (intro yields_if)
    assume "\<not> a \<noteq> None"
    then show "yields (createMany (mem_table d_seasons (\<lambda>x d. d\<lparr>d_seasons := x\<rparr>) unique stamp touch) ?new)
        (\<lambda>d _ d'. if a \<noteq> None then d' = d else opened_season d')"
      by (intro yields_weaken [OF yields_create]) (auto simp: opened_season_def stamp)
  qed (simp add: yields_ret)
  note branches = this
  show ?thesis
    unfolding seedActiveSeason_def findUnique_def [symmetric] t
    by (rule yields_bindS [OF mem_findUnique branches]) (auto simp: opened_season_def find_Some_iff split: if_splits)
qed

lemma keeps_seedActiveSeason:
  assumes "\<And>d. Q d \<Longrightarrow> opened_season d"
  shows "preserves (\<lambda>w. Q (w_db w)) (seedActiveSeason mem_app ids now)"
proof -
  obtain unique stamp touch where t: "a_season mem_app = mem_table d_seasons (\<lambda>x d. d\<lparr>d_seasons := x\<rparr>) unique stamp touch"
    using season_table by blast
  show ?thesis
    unfolding seedActiveSeason_def findUnique_def [symmetric] t
  proof (rule keeps_found)
    fix w :: app_world
    assume q: "Q (w_db w)"
    then have "find (\<lambda>s. sn_status s = SeasonActive) (d_seasons (w_db w)) \<noteq> None"
      using assms by (auto simp: find_None_iff opened_season_def)
    with q show "Q (w_db (snd ((if find (\<lambda>s. sn_status s = SeasonActive) (d_seasons (w_db w)) \<noteq> None then ret ()
        else createMany (mem_table d_seasons (\<lambda>x d. d\<lparr>d_seasons := x\<rparr>) unique stamp touch) [\<lparr>sn_id = si_season ids, sn_name = ''Saison 1'',
          sn_startedAt = now, sn_endsAt = Some (now + THIRTY_DAYS_IN_MS), sn_status = SeasonActive, sn_createdAt = 0, sn_updatedAt = 0\<rparr>]) w)))"
      by (simp add: ret_apply)
  qed
qed

lemma find_at_end: "find q xs = None \<Longrightarrow> q x \<Longrightarrow> find q (xs @ [x]) = Some x"
  by (induction xs) (auto split: if_splits)

lemma find_map_kept: "(\<And>x. q (g x) = q x) \<Longrightarrow> find q (map g xs) = map_option g (find q xs)"
  by (induction xs) simp_all

lemma user_table: "\<exists>unique stamp touch. a_user mem_app = mem_table d_users (\<lambda>x d. d\<lparr>d_users := x\<rparr>) unique stamp touch \<and>
    (\<forall>now u. us_email (stamp now u) = us_email u \<and> us_role (stamp now u) = us_role u) \<and>
    (\<forall>now u. us_email (touch now u) = us_email u \<and> us_role (touch now u) = us_role u)"
  unfolding mem_app_def app_env.simps by (intro exI conjI allI, rule refl) simp_all

lemma upsert_admin:
  assumes new: "us_email new = email" "us_role new = RoleAdmin"
  shows "yields (upsert_with (a_user mem_app) (\<lambda>u. us_email u = email) new (\<lambda>u. u\<lparr>us_role := RoleAdmin\<rparr>)) (\<lambda>_ _. has_admin email)"
  unfolding yields_def
proof (intro allI impI)
  fix w x
  let ?m = "upsert_with (a_user mem_app) (\<lambda>u. us_email u = email) new (\<lambda>u. u\<lparr>us_role := RoleAdmin\<rparr>)"
  assume x: "fst (?m w) = Inr x"
  obtain unique stamp touch where t: "a_user mem_app = mem_table d_users (\<lambda>x d. d\<lparr>d_users := x\<rparr>) unique stamp touch"
    and stamp: "\<And>now u. us_email (stamp now u) = us_email u" "\<And>now u. us_role (stamp now u) = us_role u"
    and touch: "\<And>now u. us_email (touch now u) = us_email u" "\<And>now u. us_role (touch now u) = us_role u"
    using user_table by blast
  show "has_admin email (w_db (snd (?m w)))"
  proof (cases rule: upsert_outcome [of d_users "\<lambda>x d. d\<lparr>d_users := x\<rparr>" unique stamp touch "\<lambda>u. us_email u = email" new
        "\<lambda>u. u\<lparr>us_role := RoleAdmin\<rparr>" w])
    case (1 e w')
    with x show ?thesis by (simp add: t)
  next
    case (2 now w')
    then have "find (\<lambda>u. us_email u = email) (d_users (w_db w)) = None" by (simp add: find_None_iff filter_empty_conv)
    then have "find (\<lambda>u. us_email u = email) (d_users (w_db w) @ [stamp now new]) = Some (stamp now new)"
      by (rule find_at_end) (simp add: stamp new)
    with 2 show ?thesis by (simp add: t has_admin_def stamp new)
  next
    case (3 now r w')
    let ?g = "\<lambda>r. if us_email r = email then touch now (r\<lparr>us_role := RoleAdmin\<rparr>) else r"
    obtain u where u: "find (\<lambda>u. us_email u = email) (d_users (w_db w)) = Some u"
      using 3(2,3) by (cases "find (\<lambda>u. us_email u = email) (d_users (w_db w))") (auto simp: find_None_iff)
    then have "us_email u = email" by (auto simp: find_Some_iff)
    moreover have "find (\<lambda>u. us_email u = email) (map ?g (d_users (w_db w))) = Some (?g u)"
      using u by (subst find_map_kept) (simp_all add: touch)
    ultimately show ?thesis using 3(1,4) by (simp add: t has_admin_def touch)
  qed
qed

lemma steady_elo: "steady (has_admin email) (a_eloRating mem_app)"
  unfolding mem_app_def app_env.simps by (rule steady_mem) (simp add: has_admin_def)

lemma seedAdminUser_yields: "yields (seedAdminUser mem_app c ids config) (\<lambda>_ _. has_admin (sc_adminEmail config))"
  unfolding seedAdminUser_def
proof (rule yields_bindS [OF upsert_admin])
  show "yields (thenS (upsertRow (a_eloRating mem_app) q row) (ret ()))
      (\<lambda>d _ d'. has_admin (sc_adminEmail config) d \<longrightarrow> has_admin (sc_adminEmail config) d')" for q row
  proof -
    have "preserves (\<lambda>w. has_admin (sc_adminEmail config) (w_db w)) (thenS (upsertRow (a_eloRating mem_app) q row) (ret ()))"
      by (intro keep_rules keeps_table(9) steady_elo) simp
    then show ?thesis by (simp add: yields_def keeps_def)
  qed
qed simp_all

lemma keeps_upsert_with:
  "steady P t \<Longrightarrow> preserves (\<lambda>w. P (w_db w)) (upsert_with t q r f)"
  unfolding upsert_with_def by (intro keep_rules keeps_bindS [where R = "\<lambda>_. True"]; simp)

lemma keeps_demo:
  assumes "\<And>x d. P d \<Longrightarrow> P (d\<lparr>d_tournaments := x\<rparr>)"
  shows "preserves (\<lambda>w. P (w_db w)) (seedDemoTournament mem_app ids)"
proof -
  have steady: "steady P (a_tournament mem_app)"
    unfolding mem_app_def app_env.simps by (rule steady_mem) (rule assms)
  show ?thesis
    unfolding seedDemoTournament_def Let_def
    by (intro keep_rules keeps_table(3,6,8) steady keeps_bindS [where R = "\<lambda>_. True"])
qed

lemma keeps_admin_step:
  assumes "\<And>x d. P d \<Longrightarrow> P (d\<lparr>d_users := x\<rparr>)" "\<And>x d. P d \<Longrightarrow> P (d\<lparr>d_elo := x\<rparr>)"
  shows "preserves (\<lambda>w. P (w_db w)) (seedAdminUser mem_app c ids config)"
proof -
  have steady: "steady P (a_user mem_app)" "steady P (a_eloRating mem_app)"
    unfolding mem_app_def app_env.simps by (rule steady_mem, rule assms(1), assumption) (rule steady_mem, rule assms(2), assumption)
  show ?thesis
    unfolding seedAdminUser_def
    by (intro keep_rules keeps_upsert_with keeps_table(9) steady keeps_bindS [where R = "\<lambda>_. True"])
qed

lemma admin_step_yields:
  "yields (bindS (adminUserExists mem_app (sc_adminEmail config)) (\<lambda>exists. if exists then ret () else seedAdminUser mem_app c ids config))
     (\<lambda>_ _. has_admin (sc_adminEmail config))"
proof (rule yields_bindS)
  show "yields (adminUserExists mem_app (sc_adminEmail config)) (\<lambda>d b d'. d' = d \<and> (b \<longleftrightarrow> has_admin (sc_adminEmail config) d))"
    unfolding adminUserExists_def mem_app_def app_env.simps
    by (rule yields_bindS [OF mem_findUnique yields_ret [of "\<lambda>d b d'. d' = d \<and> b = (map_option us_role u = Some RoleAdmin)" for u]])
      (auto simp: has_admin_def)
  show "yields (if b then ret () else seedAdminUser mem_app c ids config)
      (\<lambda>d _ d'. (b \<longrightarrow> has_admin (sc_adminEmail config) d) \<longrightarrow> has_admin (sc_adminEmail config) d')" for b
    by (rule yields_if) (auto intro: yields_ret yields_weaken [OF seedAdminUser_yields])
qed simp

lemma keeps_leagues_and_season:
  "preserves (\<lambda>w. (d_leagues (w_db w), d_seasons (w_db w)) = r) (seedDemoTournament mem_app ids)"
  "preserves (\<lambda>w. (d_leagues (w_db w), d_seasons (w_db w)) = r) (seedAdminUser mem_app c ids config)"
  by (rule keeps_demo, simp) (rule keeps_admin_step, simp_all)

lemma leagues_and_season_yield:
  "yields (seedLeaguesAndActiveSeason mem_app ids now) (\<lambda>_ _ d'. (\<forall>l \<in> set REFERENCE_LEAGUES. has_league l d') \<and> opened_season d')"
proof -
  have steady: "steady (\<lambda>d. d_leagues d = r) (a_season mem_app)" for r
    unfolding mem_app_def app_env.simps by (rule steady_mem) simp
  have "yields (seedActiveSeason mem_app ids now) (\<lambda>d _ d'. d_leagues d' = d_leagues d)"
    unfolding seedActiveSeason_def
    by (rule yields_keeping [of d_leagues]) (intro keep_rules keeps_table(3,6) steady keeps_bindS [where R = "\<lambda>_. True"])
  note season = yields_conj [OF this seedActiveSeason_yields]
  show ?thesis
    unfolding seedLeaguesAndActiveSeason_def
    by (rule yields_then_last, unfold thenS_def, rule yields_bindS [OF yields_leagues [OF reference_tiers] season])
      (simp add: has_league_def)
qed

lemma runSeed_yields: "yields (runSeed mem_app c ids config) (\<lambda>_ _. seeded config)"
proof -
  have kept: "yields (seedDemoTournament mem_app ids) (\<lambda>d _ d'. (d_leagues d', d_seasons d') = (d_leagues d, d_seasons d))"
    by (rule yields_keeping) (rule keeps_leagues_and_season)
  have exists: "yields (adminUserExists mem_app e) (\<lambda>d _ d'. (d_leagues d', d_seasons d') = (d_leagues d, d_seasons d))" for e
    unfolding adminUserExists_def mem_app_def app_env.simps
    by (rule yields_bindS [OF mem_findUnique yields_ret [of "\<lambda>d b d'. d' = d" for u]]) auto
  have "yields (if b then ret () else seedAdminUser mem_app c ids config)
      (\<lambda>d _ d'. (d_leagues d', d_seasons d') = (d_leagues d, d_seasons d))" for b
    by (rule yields_if) (rule yields_ret, rule refl, rule yields_keeping, rule keeps_leagues_and_season)
  then have "yields (bindS (adminUserExists mem_app (sc_adminEmail config)) (\<lambda>exists. if exists then ret () else seedAdminUser mem_app c ids config))
      (\<lambda>d _ d'. (d_leagues d', d_seasons d') = (d_leagues d, d_seasons d))"
    by (rule yields_bindS [OF exists]) simp
  note both = yields_conj [OF this admin_step_yields]
  have admin: "yields (bindS (adminUserExists mem_app (sc_adminEmail config)) (\<lambda>exists. if exists then ret () else seedAdminUser mem_app c ids config))
      (\<lambda>d _ d'. (d_leagues d', d_seasons d') = (d_leagues d, d_seasons d) \<and> has_admin (sc_adminEmail config) d')"
    by (rule both)
  have later: "yields (bindS (seedDemoTournament mem_app ids) (\<lambda>_. bindS (adminUserExists mem_app (sc_adminEmail config))
      (\<lambda>exists. if exists then ret () else seedAdminUser mem_app c ids config)))
      (\<lambda>d _ d'. (d_leagues d', d_seasons d') = (d_leagues d, d_seasons d) \<and> has_admin (sc_adminEmail config) d')"
    by (rule yields_bindS [OF kept admin]) simp
  have "yields (bindS (seedLeaguesAndActiveSeason mem_app ids now) (\<lambda>_. bindS (seedDemoTournament mem_app ids)
      (\<lambda>_. bindS (adminUserExists mem_app (sc_adminEmail config)) (\<lambda>exists. if exists then ret () else seedAdminUser mem_app c ids config))))
      (\<lambda>_ _. seeded config)" for now
    by (rule yields_bindS [OF leagues_and_season_yield later])
      (simp add: seeded_def has_league_def opened_season_def)
  then show ?thesis
    unfolding runSeed_def thenS_def by (rule yields_last)
qed

lemma keeps_adminUserExists:
  assumes "\<And>d. Q d \<Longrightarrow> has_admin e d"
  shows "preserves (\<lambda>w. Q (w_db w)) (bindS (adminUserExists mem_app e) (\<lambda>exists. if exists then ret () else k))"
proof -
  obtain unique stamp touch where t: "a_user mem_app = mem_table d_users (\<lambda>x d. d\<lparr>d_users := x\<rparr>) unique stamp touch"
    using user_table by blast
  have "bindS (adminUserExists mem_app e) (\<lambda>exists. if exists then ret () else k) =
      bindS (findUnique (a_user mem_app) (\<lambda>u. us_email u = e)) (\<lambda>u. if map_option us_role u = Some RoleAdmin then ret () else k)"
    by (simp add: fun_eq_iff adminUserExists_def bindS_apply ret_apply split: sum.split prod.split)
  then show ?thesis
    unfolding t by (simp only:) (rule keeps_found, use assms in \<open>auto simp: has_admin_def ret_apply\<close>)
qed

lemma runSeed_keeps:
  assumes "seeded config d"
  shows "preserves (\<lambda>w. core (w_db w) = core d) (runSeed mem_app c ids config)"
proof -
  have leagues: "has_league l x" if "l \<in> set REFERENCE_LEAGUES" "core x = core d" for l x
    using that assms by (simp add: seeded_def core_def has_league_def)
  have rest: "opened_season x" "has_admin (sc_adminEmail config) x" if "core x = core d" for x
    using that assms by (simp_all add: seeded_def core_def opened_season_def has_admin_def)
  have first: "preserves (\<lambda>w. core (w_db w) = core d) (forS REFERENCE_LEAGUES (upsert_league mem_app ids))"
    by (rule keeps_leagues) (rule leagues)
  have season: "preserves (\<lambda>w. core (w_db w) = core d) (seedActiveSeason mem_app ids now)" for now
    by (rule keeps_seedActiveSeason) (rule rest)
  have demo: "preserves (\<lambda>w. core (w_db w) = core d) (seedDemoTournament mem_app ids)"
    by (rule keeps_demo) (simp add: core_def)
  have admin: "preserves (\<lambda>w. core (w_db w) = core d) (bindS (adminUserExists mem_app (sc_adminEmail config))
      (\<lambda>exists. if exists then ret () else seedAdminUser mem_app c ids config))"
    by (rule keeps_adminUserExists) (rule rest)
  have now: "preserves (\<lambda>w. core (w_db w) = core d) (a_now mem_app)" by (rule keeps_db_clients)
  show ?thesis
    unfolding runSeed_def seedLeaguesAndActiveSeason_def
    by (intro keeps_bindS [OF now] keeps_thenS keeps_liftS first season demo admin TrueI)
qed

text \<open>
  The seed runs at every deployment. When it returns, every reference league is in the database with the
  bounds of the code, a season is active, and the configured address belongs to an administrator. On a
  database that was seeded, it changes no league, season, account or rating, also when a call fails midway
  or the identifiers, the password and the clock are others.
\<close>

lemma seed_idempotent:
  assumes "app_ok env view"
  shows "(fst (runSeed env c ids config s) = Inr () \<longrightarrow> seeded config (w_db (view (snd (runSeed env c ids config s))))) \<and>
    (seeded config (w_db (view s)) \<longrightarrow> core (w_db (view (snd (runSeed env c ids config s)))) = core (w_db (view s)))"
proof -
  have svc: "app_service env view" by unfold_locales (rule assms)
  note sim = simD [OF app_service.sim_runSeed [OF svc], of c ids config s]
  show ?thesis
    using yieldsD [OF runSeed_yields, of c ids config "view s" "()"] keepsD [OF runSeed_keeps, of config "w_db (view s)" "view s" c ids]
    by (simp add: sim)
qed

definition seed_demo :: app_world where
  "seed_demo = bracket_demo\<lparr>w_db := (w_db bracket_demo)\<lparr>d_tournaments := [], d_tmatches := []\<rparr>\<rparr>"

definition seed_once :: "(app_exn + unit) \<times> app_world" where
  "seed_once = runSeed mem_app plain_crypto \<lparr>si_league = lg_name, si_season = ''s'', si_tournament = ''t'', si_user = ''u'', si_salt = ''x''\<rparr>
     (getSeedConfig Map.empty) seed_demo"

definition seed_twice :: "app_world \<Rightarrow> app_world" where
  "seed_twice w = snd (runSeed mem_app plain_crypto \<lparr>si_league = \<lambda>l. ''l2'', si_season = ''s2'', si_tournament = ''t2'', si_user = ''u2'', si_salt = ''y''\<rparr>
     (getSeedConfig Map.empty) w)"

lemma seed_once_run: "fst seed_once = Inr ()"
  by (simp add: seed_once_def runSeed_def seedLeaguesAndActiveSeason_def assertContiguousLeagues_def REFERENCE_LEAGUES_def upsert_league_def upsert_with_def
      seedActiveSeason_def seedDemoTournament_def adminUserExists_def seedAdminUser_def league_row_of_def league.defs league_row.defs getSeedConfig_def
      seed_demo_def bracket_demo_def mem_app_def findUnique_def findFirst_def createMany_def updateRow_def upsertRow_def unstamped_def
      liftS_def eff_simps limit_def Let_def)

lemma seeded_twice:
  "seeded (getSeedConfig Map.empty) (w_db (snd seed_once)) \<and> core (w_db (seed_twice (snd seed_once))) = core (w_db (snd seed_once))"
  using seed_idempotent [OF app_ok_mem, of plain_crypto _ "getSeedConfig Map.empty"] seed_once_run
  unfolding seed_once_def seed_twice_def by blast

text \<open>The tournament to show is the exception: a finished one is opened for registration again, with its winner.\<close>

definition finished_demo :: app_world where
  "finished_demo = seed_demo\<lparr>w_db := (w_db seed_demo)\<lparr>d_tournaments := [\<lparr>tn_id = ''t'', tn_name = DEMO_TOURNAMENT, tn_format = SingleElim,
     tn_bracketSize = 8, tn_registrationOpensAt = 0, tn_startsAt = 1, tn_endedAt = Some 2, tn_status = TCompleted, tn_winnerId = Some ''a'',
     tn_createdAt = 0, tn_updatedAt = 0\<rparr>]\<rparr>\<rparr>"

lemma seed_reopens_demo:
  "map (\<lambda>t. (tn_status t, tn_winnerId t)) (d_tournaments (w_db (snd (seedDemoTournament mem_app ids finished_demo)))) =
     [(TRegistrationOpen, Some ''a'')]"
  by (simp add: seedDemoTournament_def finished_demo_def seed_demo_def bracket_demo_def mem_app_def findFirst_def updateRow_def eff_simps limit_def Let_def)

end
