(* ===== verification/Spec2Isabelle.thy ===== *)
theory Spec2Isabelle
  imports Prelude Redis_Store Elo Leagues Bracket Match_State Match_Rules Game_Redis Match_Session Match_Play
    Match_Finalize Matchmaking Matchmaking_Inv Directed_Match Game_Auth Game_Gateway
    Bracket_Build Database Notifications Tournament_Jobs Match_Persistence Season_Reset App_Runs App_Rules
    Persistence_Once Season_Props User_Service Auth_Service User_Props Auth_Props Result_Pipeline Tournament_Props
    Api_Tournaments Api_Tournament_Props Api_Seasons Api_Account Api_Season_Props Api_Admin_Props Api_History_Props
    Front_Schemas Front_Socket Front_Pages Front_Match_Props Front_Screen_Props Front_Auth Front_Auth_Props
    Front_Tournaments Job_Workers Mail_Names Api_Routes Api_Route_Props Db_Seed
begin

text \<open>
  A verification development for Chifoumi, an on-line game of rock, paper, scissors with ranked
  matches, tournaments and seasons, written in TypeScript.

  The program. Five processes and three libraries, under \<open>src/\<close>. The \<open>front\<close> is the page of a player. It
  calls the \<open>api\<close> over HTTP and plays over a socket of the \<open>game-service\<close>. The \<open>game-service\<close> keeps queues, matches, locks and
  sockets in Redis, tells its instances of events over Redis channels, and hands the result of
  a match to the \<open>job-runner\<close> as a job. The \<open>job-runner\<close> writes results and ratings to the database, builds and advances the
  brackets of tournaments, resets seasons and sends mails. The \<open>auth-service\<close> and the \<open>user-service\<close> answer the \<open>api\<close> and the
  \<open>game-service\<close> over gRPC. The packages \<open>elo\<close>, \<open>leagues\<close> and \<open>bracket\<close> are pure.

  How code becomes definitions. Pure functions are functions. Code that awaits is an \<open>eff\<close>, a function from the state
  to a result or an exception and the next state, composed with \<open>bindS\<close>, \<open>thenS\<close>, \<open>catchS\<close>, \<open>finallyS\<close>,
  \<open>allS\<close> (\<open>Promise.all\<close>: every effect happens, the first rejection is the result) and \<open>forS\<close>; every throw and early return of the source is a branch. Objects
  are records, enumerations datatypes; field names carry a prefix where HOL has one name space. JavaScript numbers are \<open>nat\<close>
  or \<open>int\<close> where the code only has such values, \<open>jsnum\<close> (a real, an infinity or NaN) where it validates them, and reals in the rating
  formula. Dates are milliseconds. Random identifiers, tokens and the clock are arguments or part of the
  environment.

  Clients of other systems (Redis, BullMQ, Prisma, gRPC, mail, JWT, Argon2, SHA-256, zod, \<open>fetch\<close>) are
  parameters: records of operations (\<open>env\<close>, \<open>app_env\<close>, \<open>crypto\<close>, \<open>safeParse\<close>) over a state of any type \<open>'s\<close>.
  What the code relies on is stated once, as \<open>env_ok\<close>, \<open>app_ok\<close>, \<open>crypto_ok\<close>, \<open>cursor_ok\<close> and \<open>zod_ok\<close>: through a \<open>view\<close> of the state as a
  concrete world, each operation behaves like the documented one, which includes failing: a world holds a list of
  \<open>outages\<close>, one entry per coming call, so that statements over any world cover every pattern of failing calls. The locales
  \<open>game_env\<close> and \<open>app_service\<close> fix an environment with this hypothesis and prove, once per operation, that it simulates (\<open>sim\<close>) its
  run on the concrete world (\<open>mem_env\<close>, \<open>mem_app\<close>); a property then holds for every such environment.
  Their interpretations on the concrete worlds and the witnesses show that the hypotheses can hold.

  The theories and the code they model.

    \<^item> \<open>Prelude\<close>: the monad, its simulation and invariance rules, numbers and texts of JavaScript.
      \<open>Redis_Store\<close>: the commands of Redis that the services use, with expiry.
    \<^item> \<open>Elo\<close>, \<open>Leagues\<close>, \<open>Bracket\<close>: \<open>packages/elo\<close>, \<open>packages/leagues\<close>, \<open>packages/bracket\<close>.
    \<^item> \<open>Match_State\<close>, \<open>Match_Rules\<close>: \<open>game-service/src/rps\<close>, \<open>match-session/match-state-machine.ts\<close> and the
      mutators of \<open>match/match-play.service.ts\<close>; the refinement of a best of three, the invariant of a match and its end within five rounds.
    \<^item> \<open>Game_Redis\<close>, \<open>Match_Session\<close>, \<open>Match_Play\<close>, \<open>Match_Finalize\<close>: \<open>redis/redis.service.ts\<close>, \<open>match-session/\<close>,
      \<open>match/\<close>: locks, timers, forfeits and the one-shot end of a match.
    \<^item> \<open>Matchmaking\<close>, \<open>Matchmaking_Inv\<close>, \<open>Directed_Match\<close>: \<open>matchmaking/\<close> and \<open>directed-match/\<close>; pairing is a script
      of Redis, and nobody is in the queue and in a match.
    \<^item> \<open>Game_Auth\<close>, \<open>Game_Gateway\<close>: \<open>auth/\<close>, \<open>game.gateway.ts\<close>, the gateway of matchmaking, reconnection and the relay of events.
    \<^item> \<open>Database\<close>, \<open>App_Runs\<close>, \<open>App_Rules\<close>: the tables of \<open>packages/db\<close> with Prisma's operations and
      transactions, and rules for runs with failing calls.
    \<^item> \<open>Bracket_Build\<close>, \<open>Tournament_Jobs\<close>, \<open>Match_Persistence\<close>, \<open>Season_Reset\<close>, \<open>Notifications\<close>: the processors of \<open>job-runner/src\<close>;
      \<open>Persistence_Once\<close>, \<open>Season_Props\<close>, \<open>Tournament_Props\<close>, \<open>Result_Pipeline\<close>: their properties, the last one with the producer of the results.
      \<open>Job_Workers\<close>: \<open>workers/\<close>, \<open>cron/\<close>, \<open>metrics/\<close> and \<open>notifications/\<close> of the job-runner; \<open>Mail_Names\<close>: what \<open>sanitizeForTemplate\<close> achieves.
    \<^item> \<open>User_Service\<close>, \<open>Auth_Service\<close>, with \<open>User_Props\<close> and \<open>Auth_Props\<close>: \<open>user-service/src\<close>, \<open>auth-service/src\<close>.
    \<^item> \<open>Api_Tournaments\<close>, \<open>Api_Seasons\<close>, \<open>Api_Account\<close>, with \<open>Api_Tournament_Props\<close>, \<open>Api_Season_Props\<close>, \<open>Api_Admin_Props\<close>,
      \<open>Api_History_Props\<close>: \<open>api/src/tournaments\<close>, \<open>seasons\<close>, \<open>leaderboard\<close>, \<open>auth\<close>, \<open>me\<close>, \<open>matches\<close>, \<open>redis\<close> and \<open>queues\<close>.
      \<open>Api_Routes\<close>, \<open>Api_Route_Props\<close>: every route of the controllers with its guards, and who reaches it.
    \<^item> \<open>Front_Schemas\<close>: \<open>packages/schemas/src/game-events.ts\<close> and the JSON the game service emits. \<open>Front_Socket\<close>: \<open>front/src/hooks/useGameSocket.ts\<close>. \<open>Front_Pages\<close>:
      the pages and components of a match. \<open>Front_Match_Props\<close>, \<open>Front_Screen_Props\<close>: from the service to the screen.
    \<^item> \<open>Front_Auth\<close>, \<open>Front_Auth_Props\<close>: \<open>front/src/api/apiClient.ts\<close>, \<open>front/src/auth\<close>, as interleaved steps.
      \<open>Front_Tournaments\<close>: \<open>front/src/tournaments\<close>, the guards of the routes and the texts.
    \<^item> \<open>Db_Seed\<close>: \<open>packages/db/src/seed\<close>; the seed of a deployment may run again: it changes no league, season, account or rating.

  What the groups of properties show.

    \<^item> A match: its stored states are reachable ones under every interleaving and failure, follow a best of three of at
      most five rounds, change only under the lock of the match, and end once for both players.
    \<^item> Matchmaking and connections: pairing takes both players out of the queue and into one match, directed matches are made
      once, a socket is accepted on a fresh word of the auth service only, and a late disconnection harms nobody.
    \<^item> Results: a result is applied completely or not at all and never twice; what the game service sends is what the
      job-runner accepts; ratings move within the bounds of the K factor.
    \<^item> Tournaments and seasons: one bracket per tournament, never more entries than places, a reset at most once and only for closed seasons, a mail for every reward.
    \<^item> Jobs: a job is finished within its attempts and counted once; a display name cannot put a placeholder into a mail.
    \<^item> Accounts: register and login round trip, logout and rotation of tokens are final, no request gets past the guards of its route without a live session, admins are checked against the stored role, and the pages
      of the history list every match exactly once.
    \<^item> The front: the clients of both players show the state of the service after every round and after a reconnection; no refresh token
      is used twice however calls interleave, and a failed refresh settles all that wait for it.
    \<^item> Some theorems show where the code falls short: a rating that the validation of the next match refuses,
      a forfeit whose retry never delivers the result, a bracket that ends early, a lobby locked by a match whose end was missed,
      a refresh that outlives the logout.

  Bounds and fuel. A match has \<open>MAX_ROUNDS\<close> = 5 rounds. A play is tried 5 times. The loop over rewards gets
  one unit of fuel per batch of 200 and one more, which \<open>rewards_mailed\<close> shows to be enough; the walk over pages
  is given more steps than there are matches; all other recursions are structural or have a proof of termination.

  Not modelled. The processes themselves: configuration, health, metrics, modules and decorators of NestJS, the validation of
  DTOs by class-validator, throttling, logging. The markup of React, the cache of its queries and the
  scheduling of its renders: a handler takes effect at once. Demo data (\<open>packages/db/scripts\<close>), migrations and load tests. Inside the models: a
  write whose acknowledgement is lost counts as not done; transactions of the database run one after another; BullMQ delivers a job at least once,
  with the deduplication by id that its documentation states; the precision of doubles is that of the reals.
\<close>

end
